(* ===== verification/Prelude.thy ===== *)
theory Prelude
  imports Main "HOL-Library.Word" "HOL-Library.AList" "HOL-Library.Multiset"
    "HOL-Library.Sublist" "HOL-Library.Monad_Syntax"
begin

text \<open>
  Shared vocabulary of the development: Go's fixed-width signed integers, Go maps as association
  lists, panics as \<^const>\<open>None\<close>, and the generic lemmas that the component theories use.

  \<^item> \<open>int64\<close> (also Go's \<open>int\<close>, 64 bits on the supported platforms) is a 64-bit word;
    arithmetic wraps, order comparisons are signed (\<open>slt\<close>, \<open>sle\<close>).
  \<^item> A Go map is a list of key/value pairs with distinct keys (\<open>wf_map\<close>); the order of the list
    is the order in which one \<open>range\<close> statement happens to visit the map. A theorem about every
    well-formed list is therefore about every iteration order. A nil map is the empty list.
  \<^item> A computation that may panic (nil dereference) has an \<open>option\<close> type, \<^const>\<open>None\<close> being the
    panic.
\<close>

named_theorems go_simps \<open>reading and writing Go values: maps, words, option-valued steps\<close>

section \<open>Machine integers\<close>

type_synonym int64 = "64 word"
type_synonym int32 = "32 word"

definition slt :: "int64 \<Rightarrow> int64 \<Rightarrow> bool" where
  "slt a b \<longleftrightarrow> sint a < sint b"

definition sle :: "int64 \<Rightarrow> int64 \<Rightarrow> bool" where
  "sle a b \<longleftrightarrow> sint a \<le> sint b"

definition smax :: "int64 \<Rightarrow> int64 \<Rightarrow> int64" where
  "smax a b = (if sle b a then a else b)"

definition MaxInt64 :: int64 where
  "MaxInt64 = 0x7FFFFFFFFFFFFFFF"

definition in_int64 :: "int \<Rightarrow> bool" where
  "in_int64 x \<longleftrightarrow> - (2 ^ 63) \<le> x \<and> x < 2 ^ 63"

lemma sint_in_int64 [simp]: "in_int64 (sint (a :: int64))"
  using sint_range_size [of a] by (simp add: in_int64_def word_size)

lemma sint_of_int64: "in_int64 x \<Longrightarrow> sint (word_of_int x :: int64) = x"
  by (simp add: in_int64_def sint_sbintrunc' signed_take_bit_int_eq_self)

lemma sint_of_int32: "- (2 ^ 31) \<le> x \<Longrightarrow> x < 2 ^ 31 \<Longrightarrow> sint (word_of_int x :: 32 word) = x"
  by (simp add: sint_sbintrunc' signed_take_bit_int_eq_self)

lemma sint_add64: "in_int64 (sint a + sint b) \<Longrightarrow> sint (a + b :: int64) = sint a + sint b"
  using sint_of_int64 [of "sint a + sint b"] by (simp add: wi_hom_add)

lemma sint_diff64: "in_int64 (sint a - sint b) \<Longrightarrow> sint (a - b :: int64) = sint a - sint b"
  using sint_of_int64 [of "sint a - sint b"] by (simp add: wi_hom_sub)

lemma sint_mult64: "in_int64 (sint a * sint b) \<Longrightarrow> sint (a * b :: int64) = sint a * sint b"
  using sint_of_int64 [of "sint a * sint b"] by (simp add: wi_hom_mult)

lemma sint_MaxInt64: "sint MaxInt64 = 2 ^ 63 - 1"
  by (simp add: MaxInt64_def)

lemma slt_irrefl [simp]: "\<not> slt a a"
  by (simp add: slt_def)

lemma not_slt_MaxInt64 [simp]: "\<not> slt MaxInt64 a"
  using sint_in_int64 [of a] by (simp add: slt_def sint_MaxInt64 in_int64_def)

lemma not_slt: "\<not> slt a b \<longleftrightarrow> sle b a"
  by (auto simp: slt_def sle_def)

lemma sint_smax: "sint (smax a b) = max (sint a) (sint b)"
  by (auto simp: smax_def sle_def max_def)

lemma smax_0_left: "sle 0 b \<Longrightarrow> smax 0 b = b"
  using signed_word_eqI [of 0 b] by (auto simp: smax_def sle_def)

text \<open>Integer division of Go truncates towards zero.\<close>

definition go_div :: "int \<Rightarrow> int \<Rightarrow> int" where
  "go_div a b = sgn a * sgn b * (\<bar>a\<bar> div \<bar>b\<bar>)"

lemma go_div_nonneg: "0 \<le> a \<Longrightarrow> 0 < b \<Longrightarrow> go_div a b = a div b"
  by (auto simp: go_div_def sgn_if)

section \<open>Go maps\<close>

type_synonym ('k, 'v) gomap = "('k \<times> 'v) list"

definition wf_map :: "('k, 'v) gomap \<Rightarrow> bool" where
  "wf_map m \<longleftrightarrow> distinct (map fst m)"

abbreviation map_get :: "('k, 'v) gomap \<Rightarrow> 'k \<Rightarrow> 'v option" where
  "map_get m k \<equiv> map_of m k"

text \<open>\<open>m[k]\<close> without the comma-ok form: the zero value \<open>d\<close> for a missing key.\<close>

definition map_getd :: "'v \<Rightarrow> ('k, 'v) gomap \<Rightarrow> 'k \<Rightarrow> 'v" where
  "map_getd d m k = (case map_of m k of None \<Rightarrow> d | Some v \<Rightarrow> v)"

abbreviation map_set :: "'k \<Rightarrow> 'v \<Rightarrow> ('k, 'v) gomap \<Rightarrow> ('k, 'v) gomap" where
  "map_set k v m \<equiv> AList.update k v m"

abbreviation map_del :: "'k \<Rightarrow> ('k, 'v) gomap \<Rightarrow> ('k, 'v) gomap" where
  "map_del k m \<equiv> AList.delete k m"

lemma wf_map_Nil [simp]: "wf_map []"
  by (simp add: wf_map_def)

lemma wf_map_set [simp]: "wf_map m \<Longrightarrow> wf_map (map_set k v m)"
  by (simp add: wf_map_def distinct_update)

lemma wf_map_del [simp]: "wf_map m \<Longrightarrow> wf_map (map_del k m)"
  by (simp add: wf_map_def distinct_delete)

lemma wf_map_map_snd [simp]: "wf_map (map (\<lambda>(k, v). (k, f k v)) m) \<longleftrightarrow> wf_map m"
  by (simp add: wf_map_def comp_def case_prod_beta')

lemma map_of_set: "map_of (map_set k v m) k' = (if k' = k then Some v else map_of m k')"
  by (simp add: update_conv)

lemma map_of_del: "map_of (map_del k m) k' = (if k' = k then None else map_of m k')"
  by (simp add: delete_conv)

lemma list_all_keys_set: "list_all P (map fst m) \<Longrightarrow> P k \<Longrightarrow> list_all P (map fst (map_set k v m))"
  by (simp add: update_keys)

lemma map_getd_Nil [simp]: "map_getd d [] k = d"
  by (simp add: map_getd_def)

lemma map_getd_set: "map_getd d (map_set k v m) k' = (if k' = k then v else map_getd d m k')"
  by (simp add: map_getd_def map_of_set)

lemma wf_map_ConsD: "wf_map (x # m) \<Longrightarrow> fst x \<notin> fst ` set m \<and> wf_map m"
  by (simp add: wf_map_def)

lemma map_of_absent: "k \<notin> fst ` set m \<Longrightarrow> map_of m k = None"
  by (simp add: map_of_eq_None_iff)

lemma map_getd_Cons:
  "map_getd d ((k, v) # m) k' = (if k' = k then v else map_getd d m k')"
  by (simp add: map_getd_def)

lemma wf_map_perm_eq:
  assumes "wf_map m" and "mset m = mset m'"
  shows "wf_map m' \<and> map_of m' = map_of m"
proof -
  have "mset (map fst m) = mset (map fst m')" using assms(2) by simp
  then have "wf_map m'" using assms(1) unfolding wf_map_def by (metis mset_eq_imp_distinct_iff)
  moreover have "set m = set m'" using assms(2) by (metis set_mset_mset)
  ultimately show ?thesis using assms(1) unfolding wf_map_def by (metis map_of_inject_set)
qed

lemmas [go_simps] = map_of_set map_of_del map_getd_set map_getd_Cons

section \<open>Steps that may stop: option-valued folds\<close>

text \<open>\<open>foldM f s xs\<close> runs a loop body over a list and stops at the first panic or early return.\<close>

fun foldM :: "('s \<Rightarrow> 'a \<Rightarrow> 's option) \<Rightarrow> 's \<Rightarrow> 'a list \<Rightarrow> 's option" where
  "foldM f s [] = Some s"
| "foldM f s (x # xs) = (case f s x of None \<Rightarrow> None | Some s' \<Rightarrow> foldM f s' xs)"

lemma foldM_append: "foldM f s (xs @ ys) = (case foldM f s xs of None \<Rightarrow> None | Some s' \<Rightarrow> foldM f s' ys)"
  by (induction xs arbitrary: s) (auto split: option.splits)

lemma foldM_concat: "foldM (\<lambda>s x. foldM f s (g x)) s xs = foldM f s (concat (map g xs))"
  by (induction xs arbitrary: s) (auto simp: foldM_append split: option.splits)

lemma foldM_None: "x \<in> set xs \<Longrightarrow> (\<And>s. f s x = None) \<Longrightarrow> foldM f s xs = None"
  by (induction xs arbitrary: s) (auto split: option.splits)

lemma foldM_Some_foldl:
  "(\<And>s x. x \<in> set xs \<Longrightarrow> f s x = Some (g s x)) \<Longrightarrow> foldM f s xs = Some (foldl g s xs)"
  by (induction xs arbitrary: s) auto

lemma foldM_invariant:
  assumes "foldM f s xs = Some s'" and "P s"
    and "\<And>s x t. P s \<Longrightarrow> x \<in> set xs \<Longrightarrow> f s x = Some t \<Longrightarrow> P t"
  shows "P s'"
  using assms
proof (induction xs arbitrary: s)
  case Nil
  then show ?case by simp
next
  case (Cons x xs)
  from Cons.prems(1) obtain t where t: "f s x = Some t" "foldM f t xs = Some s'"
    by (auto split: option.splits)
  moreover have "P t" using Cons.prems(2,3) t(1) by (metis list.set_intros(1))
  ultimately show ?case using Cons.IH Cons.prems(3) by (metis list.set_intros(2))
qed

section \<open>Sums over folds\<close>

lemma foldl_add_sum:
  fixes g :: "'a \<Rightarrow> 'b :: comm_monoid_add"
  assumes "\<And>s x. x \<in> set xs \<Longrightarrow> h (f s x) = h s + g x"
  shows "h (foldl f s xs) = h s + sum_list (map g xs)"
  using assms by (induction xs arbitrary: s) (simp_all add: add.assoc)

lemma foldl_add_sum_filter:
  fixes g :: "'a \<Rightarrow> 'b :: comm_monoid_add"
  assumes "\<And>s x. h (f s x) = h s + (if P x then g x else 0)"
  shows "h (foldl f s xs) = h s + sum_list (map g (filter P xs))"
  using assms by (induction xs arbitrary: s) (simp_all add: add.assoc)

lemma sum_list_mset_eq:
  fixes g :: "'a \<Rightarrow> 'b :: comm_monoid_add"
  shows "mset xs = mset ys \<Longrightarrow> sum_list (map g xs) = sum_list (map g ys)"
  by (metis mset_map sum_mset_sum_list)

lemma distinct_submset:
  assumes "distinct ys" and "mset xs \<subseteq># mset ys"
  shows "distinct xs"
proof -
  have "count (mset xs) a \<le> 1" for a
    using mset_subset_eq_count [OF assms(2), of a] assms(1)
    by (metis bot_nat_0.extremum distinct_count_atmost_1 le_trans order_refl)
  then have "count (mset xs) a = (if a \<in> set xs then 1 else 0)" for a
    by (metis One_nat_def Suc_leI count_greater_zero_iff count_mset_0_iff le_antisym set_mset_mset)
  then show ?thesis by (simp add: distinct_count_atmost_1)
qed

lemma foldl_max_Max: "foldl max a xs = Max (set (a # xs))" for a :: int
proof -
  have "foldl max a xs = fold max xs a" unfolding foldl_conv_fold by (rule fold_cong) (simp_all add: max.commute fun_eq_iff)
  then show ?thesis by (simp only: Max.set_eq_fold)
qed

lemma foldl_min_Min: "foldl min a xs = Min (set (a # xs))" for a :: int
proof -
  have "foldl min a xs = fold min xs a" unfolding foldl_conv_fold by (rule fold_cong) (simp_all add: min.commute fun_eq_iff)
  then show ?thesis by (simp only: Min.set_eq_fold)
qed

end
