(* ===== verification/KubeApi.thy ===== *)
theory KubeApi
  imports Prelude
begin

text \<open>
  The Kubernetes objects the plugins work on, modelled from the vendored packages under
  \<open>src/vendor/k8s.io\<close>: quantities and resource lists (\<open>api/resource\<close>), the scheduler framework's
  \<open>Resource\<close> vector, status values and cycle state, and the fields of pods, containers and nodes
  that the plugins read.

  A \<open>Quantity\<close> is its exact value counted in \<open>10\<^sup>-\<^sup>9\<close> units, the finest scale a quantity keeps;
  \<open>Value\<close> and \<open>MilliValue\<close> round away from zero and give an \<open>int64\<close>, wrapping where the value does
  not fit, as \<open>int64Amount.AsScaledInt64\<close> does.
\<close>

section \<open>Quantities\<close>

type_synonym Quantity = int

type_synonym ResourceList = "(string, Quantity) gomap"

definition round_away :: "int \<Rightarrow> int \<Rightarrow> int" where
  "round_away q unit = sgn q * ((\<bar>q\<bar> + (unit - 1)) div unit)"

definition Quantity_Value :: "Quantity \<Rightarrow> int64" where
  "Quantity_Value q = word_of_int (round_away q 1000000000)"

definition Quantity_MilliValue :: "Quantity \<Rightarrow> int64" where
  "Quantity_MilliValue q = word_of_int (round_away q 1000000)"

definition NewQuantity :: "int64 \<Rightarrow> Quantity" where
  "NewQuantity v = sint v * 1000000000"

definition NewMilliQuantity :: "int64 \<Rightarrow> Quantity" where
  "NewMilliQuantity v = sint v * 1000000"

lemma round_away_exact: "0 < u \<Longrightarrow> round_away (v * u) u = v"
proof -
  assume u: "0 < u"
  have "(\<bar>v * u\<bar> + (u - 1)) div u = \<bar>v\<bar>"
    using u by (simp add: abs_mult div_add1_eq)
  then show ?thesis using u by (simp add: round_away_def sgn_mult sgn_mult_abs)
qed

lemma Value_NewQuantity [simp]: "Quantity_Value (NewQuantity v) = v"
  by (simp add: Quantity_Value_def NewQuantity_def round_away_exact)

lemma MilliValue_NewMilliQuantity [simp]: "Quantity_MilliValue (NewMilliQuantity v) = v"
  by (simp add: Quantity_MilliValue_def NewMilliQuantity_def round_away_exact)

section \<open>Resource names\<close>

definition ResourceCPU :: string where "ResourceCPU = ''cpu''"
definition ResourceMemory :: string where "ResourceMemory = ''memory''"
definition ResourcePods :: string where "ResourcePods = ''pods''"
definition ResourceEphemeralStorage :: string where
  "ResourceEphemeralStorage = ''ephemeral-storage''"

lemmas resource_name_defs =
  ResourceCPU_def ResourceMemory_def ResourcePods_def ResourceEphemeralStorage_def

fun str_contains :: "string \<Rightarrow> string \<Rightarrow> bool" where
  "str_contains [] sub = (sub = [])"
| "str_contains (c # cs) sub = (prefix sub (c # cs) \<or> str_contains cs sub)"

fun str_split :: "char \<Rightarrow> string \<Rightarrow> string list" where
  "str_split sep [] = [[]]"
| "str_split sep (c # cs) =
     (let parts = str_split sep cs
      in if c = sep then [] # parts else (c # hd parts) # tl parts)"

fun str_join :: "string \<Rightarrow> string list \<Rightarrow> string" where
  "str_join sep [] = []"
| "str_join sep [x] = x"
| "str_join sep (x # xs) = x @ sep @ str_join sep xs"

definition char_between :: "nat \<Rightarrow> nat \<Rightarrow> char \<Rightarrow> bool" where
  "char_between lo hi c \<longleftrightarrow> lo \<le> of_char c \<and> of_char c \<le> hi"

definition is_lower_alnum :: "char \<Rightarrow> bool" where
  "is_lower_alnum c \<longleftrightarrow> char_between 97 122 c \<or> char_between 48 57 c"

definition is_alnum :: "char \<Rightarrow> bool" where
  "is_alnum c \<longleftrightarrow> is_lower_alnum c \<or> char_between 65 90 c"

text \<open>\<open>strconv.ParseInt\<close> in base 10: an optional sign and decimal digits, within the given width.\<close>

fun digits_value :: "string \<Rightarrow> int \<Rightarrow> int option" where
  "digits_value [] acc = Some acc"
| "digits_value (c # cs) acc =
     (if char_between 48 57 c then digits_value cs (acc * 10 + (of_char c - 48)) else None)"

definition ParseInt :: "string \<Rightarrow> nat \<Rightarrow> int option" where
  "ParseInt s bitSize =
     (let (neg, ds) = (case s of c # cs \<Rightarrow> if c = CHR ''-'' then (True, cs) else if c = CHR ''+'' then (False, cs) else (False, s)
                       | [] \<Rightarrow> (False, []))
      in if ds = [] then None
         else (case digits_value ds 0 of
                 None \<Rightarrow> None
               | Some v \<Rightarrow> (let v = (if neg then - v else v)
                            in if - (2 ^ (bitSize - 1)) \<le> v \<and> v < 2 ^ (bitSize - 1) then Some v else None)))"

text \<open>\<open>[A-Za-z0-9]([-A-Za-z0-9_.]*[A-Za-z0-9])?\<close> and the DNS-1123 label and subdomain patterns.\<close>

definition qualified_name_re :: "string \<Rightarrow> bool" where
  "qualified_name_re s \<longleftrightarrow>
     s \<noteq> [] \<and> is_alnum (hd s) \<and> is_alnum (last s) \<and>
     list_all (\<lambda>c. is_alnum c \<or> c \<in> set ''-_.'') s"

definition dns1123_label_re :: "string \<Rightarrow> bool" where
  "dns1123_label_re s \<longleftrightarrow>
     s \<noteq> [] \<and> is_lower_alnum (hd s) \<and> is_lower_alnum (last s) \<and>
     list_all (\<lambda>c. is_lower_alnum c \<or> c = CHR ''-'') s"

definition IsDNS1123Subdomain :: "string \<Rightarrow> bool" where
  "IsDNS1123Subdomain s \<longleftrightarrow>
     length s \<le> 253 \<and> list_all dns1123_label_re (str_split (CHR ''.'') s)"

definition IsQualifiedName :: "string \<Rightarrow> bool" where
  "IsQualifiedName s =
     (case str_split (CHR ''/'') s of
        [name] \<Rightarrow> length name \<le> 63 \<and> qualified_name_re name
      | [pre, name] \<Rightarrow> pre \<noteq> [] \<and> IsDNS1123Subdomain pre \<and> length name \<le> 63 \<and> qualified_name_re name
      | _ \<Rightarrow> False)"

definition IsPrefixedNativeResource :: "string \<Rightarrow> bool" where
  "IsPrefixedNativeResource name = str_contains name ''kubernetes.io/''"

definition IsNativeResource :: "string \<Rightarrow> bool" where
  "IsNativeResource name \<longleftrightarrow> \<not> str_contains name ''/'' \<or> IsPrefixedNativeResource name"

definition IsHugePageResourceName :: "string \<Rightarrow> bool" where
  "IsHugePageResourceName name = prefix ''hugepages-'' name"

definition IsAttachableVolumeResourceName :: "string \<Rightarrow> bool" where
  "IsAttachableVolumeResourceName name = prefix ''attachable-volumes-'' name"

definition IsExtendedResourceName :: "string \<Rightarrow> bool" where
  "IsExtendedResourceName name =
     (if IsNativeResource name \<or> prefix ''requests.'' name then False
      else IsQualifiedName (''requests.'' @ name))"

definition IsScalarResourceName :: "string \<Rightarrow> bool" where
  "IsScalarResourceName name \<longleftrightarrow>
     IsExtendedResourceName name \<or> IsHugePageResourceName name \<or>
     IsPrefixedNativeResource name \<or> IsAttachableVolumeResourceName name"

lemmas scalar_name_defs =
  IsScalarResourceName_def IsExtendedResourceName_def IsHugePageResourceName_def
  IsPrefixedNativeResource_def IsAttachableVolumeResourceName_def IsNativeResource_def
  IsQualifiedName_def IsDNS1123Subdomain_def dns1123_label_re_def qualified_name_re_def
  is_alnum_def is_lower_alnum_def char_between_def

section \<open>The framework's resource vector\<close>

record Resource =
  MilliCPU :: int64
  Memory :: int64
  EphemeralStorage :: int64
  AllowedPodNumber :: int64
  ScalarResources :: "(string, int64) gomap"

definition empty_Resource :: Resource where
  "empty_Resource =
     \<lparr>MilliCPU = 0, Memory = 0, EphemeralStorage = 0, AllowedPodNumber = 0, ScalarResources = []\<rparr>"

definition SetScalar :: "Resource \<Rightarrow> string \<Rightarrow> int64 \<Rightarrow> Resource" where
  "SetScalar r name q = r\<lparr>ScalarResources := map_set name q (ScalarResources r)\<rparr>"

definition AddScalar :: "Resource \<Rightarrow> string \<Rightarrow> int64 \<Rightarrow> Resource" where
  "AddScalar r name q = SetScalar r name (map_getd 0 (ScalarResources r) name + q)"

text \<open>One iteration of the loops of \<open>Resource.Add\<close> and \<open>Resource.SetMaxResource\<close>.\<close>

definition Resource_Add1 :: "Resource \<Rightarrow> string \<times> Quantity \<Rightarrow> Resource" where
  "Resource_Add1 r e =
     (case e of (rName, rQuant) \<Rightarrow>
        if rName = ResourceCPU then r\<lparr>MilliCPU := MilliCPU r + Quantity_MilliValue rQuant\<rparr>
        else if rName = ResourceMemory then r\<lparr>Memory := Memory r + Quantity_Value rQuant\<rparr>
        else if rName = ResourcePods then
          r\<lparr>AllowedPodNumber := AllowedPodNumber r + Quantity_Value rQuant\<rparr>
        else if rName = ResourceEphemeralStorage then
          r\<lparr>EphemeralStorage := EphemeralStorage r + Quantity_Value rQuant\<rparr>
        else if IsScalarResourceName rName then AddScalar r rName (Quantity_Value rQuant)
        else r)"

definition Resource_Add :: "Resource \<Rightarrow> ResourceList \<Rightarrow> Resource" where
  "Resource_Add r rl = foldl Resource_Add1 r rl"

definition NewResource :: "ResourceList \<Rightarrow> Resource" where
  "NewResource rl = Resource_Add empty_Resource rl"

definition SetMaxResource1 :: "Resource \<Rightarrow> string \<times> Quantity \<Rightarrow> Resource" where
  "SetMaxResource1 r e =
     (case e of (rName, rQuant) \<Rightarrow>
        if rName = ResourceMemory then r\<lparr>Memory := smax (Memory r) (Quantity_Value rQuant)\<rparr>
        else if rName = ResourceCPU then r\<lparr>MilliCPU := smax (MilliCPU r) (Quantity_MilliValue rQuant)\<rparr>
        else if rName = ResourceEphemeralStorage then
          r\<lparr>EphemeralStorage := smax (EphemeralStorage r) (Quantity_Value rQuant)\<rparr>
        else if IsScalarResourceName rName then
          SetScalar r rName (smax (map_getd 0 (ScalarResources r) rName) (Quantity_Value rQuant))
        else r)"

definition SetMaxResource :: "Resource \<Rightarrow> ResourceList \<Rightarrow> Resource" where
  "SetMaxResource r rl = foldl SetMaxResource1 r rl"

text \<open>\<open>Clone\<close> copies every field; the copy of a value is the value.\<close>

definition Resource_Clone :: "Resource \<Rightarrow> Resource" where
  "Resource_Clone r =
     \<lparr>MilliCPU = MilliCPU r, Memory = Memory r, EphemeralStorage = EphemeralStorage r,
      AllowedPodNumber = AllowedPodNumber r, ScalarResources = map (\<lambda>(k, v). (k, v)) (ScalarResources r)\<rparr>"

lemma Resource_Clone_id [simp]: "Resource_Clone r = r"
  by (simp add: Resource_Clone_def case_prod_beta')

text \<open>
  The abstract reading of a resource vector: one amount per dimension. Every operation on the
  record is specified as a pointwise operation on amounts.
\<close>

datatype dim = DCPU | DMemory | DEphemeral | DPods | DScalar string

fun amount :: "Resource \<Rightarrow> dim \<Rightarrow> int64" where
  "amount r DCPU = MilliCPU r"
| "amount r DMemory = Memory r"
| "amount r DEphemeral = EphemeralStorage r"
| "amount r DPods = AllowedPodNumber r"
| "amount r (DScalar n) = map_getd 0 (ScalarResources r) n"

fun dim_name :: "dim \<Rightarrow> string" where
  "dim_name DCPU = ResourceCPU"
| "dim_name DMemory = ResourceMemory"
| "dim_name DEphemeral = ResourceEphemeralStorage"
| "dim_name DPods = ResourcePods"
| "dim_name (DScalar n) = n"

fun dim_ok :: "dim \<Rightarrow> bool" where
  "dim_ok (DScalar n) = IsScalarResourceName n"
| "dim_ok _ = True"

fun dim_value :: "dim \<Rightarrow> Quantity \<Rightarrow> int64" where
  "dim_value DCPU q = Quantity_MilliValue q"
| "dim_value _ q = Quantity_Value q"

definition rl_amount :: "ResourceList \<Rightarrow> dim \<Rightarrow> int64" where
  "rl_amount rl d =
     (case map_of rl (dim_name d) of
        None \<Rightarrow> 0
      | Some q \<Rightarrow> if dim_ok d then dim_value d q else 0)"

definition wf_Resource :: "Resource \<Rightarrow> bool" where
  "wf_Resource r \<longleftrightarrow>
     wf_map (ScalarResources r) \<and> list_all IsScalarResourceName (map fst (ScalarResources r))"

lemma amount_ext: "amount r = amount s \<longleftrightarrow>
   MilliCPU r = MilliCPU s \<and> Memory r = Memory s \<and> EphemeralStorage r = EphemeralStorage s \<and>
   AllowedPodNumber r = AllowedPodNumber s \<and>
   map_getd 0 (ScalarResources r) = map_getd 0 (ScalarResources s)"
  (is "?l \<longleftrightarrow> ?r")
proof
  assume eq: ?l
  have "\<And>d. amount r d = amount s d" using eq by simp
  from this [of DCPU] this [of DMemory] this [of DEphemeral] this [of DPods] this [of "DScalar _"]
  show ?r by (simp add: fun_eq_iff)
next
  assume ?r
  then show ?l by (intro ext, case_tac x) simp_all
qed

lemma amount_empty [simp]: "amount empty_Resource d = 0"
  by (cases d) (simp_all add: empty_Resource_def)

lemma wf_Resource_empty [simp]: "wf_Resource empty_Resource"
  by (simp add: wf_Resource_def empty_Resource_def)

lemma basic_names_not_scalar [simp]:
  "\<not> IsScalarResourceName ResourceCPU" "\<not> IsScalarResourceName ResourceMemory"
  "\<not> IsScalarResourceName ResourcePods" "\<not> IsScalarResourceName ResourceEphemeralStorage"
  by (simp_all add: resource_name_defs scalar_name_defs)

lemma basic_names_distinct [simp]:
  "ResourceCPU \<noteq> ResourceMemory" "ResourceCPU \<noteq> ResourcePods" "ResourceCPU \<noteq> ResourceEphemeralStorage"
  "ResourceMemory \<noteq> ResourceCPU" "ResourceMemory \<noteq> ResourcePods" "ResourceMemory \<noteq> ResourceEphemeralStorage"
  "ResourcePods \<noteq> ResourceCPU" "ResourcePods \<noteq> ResourceMemory" "ResourcePods \<noteq> ResourceEphemeralStorage"
  "ResourceEphemeralStorage \<noteq> ResourceCPU" "ResourceEphemeralStorage \<noteq> ResourceMemory"
  "ResourceEphemeralStorage \<noteq> ResourcePods"
  by (simp_all add: resource_name_defs)

lemma amount_SetScalar:
  "amount (SetScalar r n q) d = (if d = DScalar n then q else amount r d)"
  by (cases d) (auto simp: SetScalar_def map_getd_set)

lemma amount_AddScalar:
  "amount (AddScalar r n q) d = amount r d + (if d = DScalar n then q else 0)"
  by (simp add: AddScalar_def amount_SetScalar)

lemma amount_Resource_Add1:
  "amount (Resource_Add1 r (n, q)) d =
     amount r d + (if dim_name d = n \<and> dim_ok d then dim_value d q else 0)"
  by (cases d) (auto simp: Resource_Add1_def AddScalar_def SetScalar_def map_getd_set split: if_splits)

lemma rl_amount_Cons:
  assumes "wf_map ((n, q) # rl)"
  shows "rl_amount ((n, q) # rl) d =
    (if dim_name d = n \<and> dim_ok d then dim_value d q else 0) + rl_amount rl d"
  using wf_map_ConsD [OF assms] by (auto simp: rl_amount_def map_of_absent)

lemma amount_Resource_Add:
  "wf_map rl \<Longrightarrow> amount (Resource_Add r rl) d = amount r d + rl_amount rl d"
  unfolding Resource_Add_def
proof (induction rl arbitrary: r)
  case Nil
  then show ?case by (simp add: rl_amount_def)
next
  case (Cons e rl)
  obtain n q where e: "e = (n, q)" by (cases e)
  from Cons.prems have "wf_map rl" by (blast dest: wf_map_ConsD)
  with Cons.IH [of "Resource_Add1 r e"] Cons.prems show ?case
    by (simp add: e amount_Resource_Add1 rl_amount_Cons add.assoc)
qed

lemma NewResource_Nil [simp]: "NewResource [] = empty_Resource"
  by (simp add: NewResource_def Resource_Add_def)

lemma amount_NewResource: "wf_map rl \<Longrightarrow> amount (NewResource rl) d = rl_amount rl d"
  by (simp add: NewResource_def amount_Resource_Add)

lemma wf_SetScalar: "wf_Resource r \<Longrightarrow> IsScalarResourceName n \<Longrightarrow> wf_Resource (SetScalar r n q)"
  by (simp add: wf_Resource_def SetScalar_def list_all_keys_set)

lemma wf_Resource_Add1: "wf_Resource r \<Longrightarrow> wf_Resource (Resource_Add1 r e)"
  by (cases e)
    (auto simp: Resource_Add1_def AddScalar_def SetScalar_def wf_Resource_def list_all_keys_set
        simp del: list.pred_map)

lemma wf_Resource_Add [simp]: "wf_Resource r \<Longrightarrow> wf_Resource (Resource_Add r rl)"
  unfolding Resource_Add_def by (induction rl arbitrary: r) (simp_all add: wf_Resource_Add1)

lemma wf_NewResource [simp]: "wf_Resource (NewResource rl)"
  by (simp add: NewResource_def)

lemma wf_SetMaxResource [simp]: "wf_Resource r \<Longrightarrow> wf_Resource (SetMaxResource r rl)"
  unfolding SetMaxResource_def
proof (induction rl arbitrary: r)
  case (Cons e rl)
  then have "wf_Resource (SetMaxResource1 r e)"
    by (cases e)
      (auto simp: SetMaxResource1_def SetScalar_def wf_Resource_def list_all_keys_set
        simp del: list.pred_map)
  then show ?case by (simp add: Cons.IH)
qed simp

section \<open>Pods, nodes, status values\<close>

record Container =
  ctr_requests :: ResourceList
  ctr_limits :: ResourceList

datatype PodPhase = PodPending | PodRunning | PodSucceeded | PodFailed | PodUnknown

datatype PreemptionPolicy = PreemptLowerPriority | PreemptNever

text \<open>
  The fields of \<open>v1.Pod\<close> the plugins read. Pointers that may be nil are options; a nil
  \<open>Overhead\<close> list is the empty list. Times are instants as integers.
\<close>

record Pod =
  pod_name :: string
  pod_namespace :: string
  pod_uid :: string
  pod_labels :: "(string, string) gomap"
  pod_annotations :: "(string, string) gomap"
  pod_creationTimestamp :: int
  pod_deletionTimestamp :: "int option"
  pod_containers :: "Container list"
  pod_initContainers :: "Container list"
  pod_overhead :: ResourceList
  pod_nodeName :: string
  pod_priority :: "int option"
  pod_priorityClassName :: string
  pod_preemptionPolicy :: "PreemptionPolicy option"
  pod_phase :: PodPhase
  pod_startTime :: "int option"
  pod_nominatedNodeName :: string

definition PodPriority :: "Pod \<Rightarrow> int" where
  "PodPriority pod = (case pod_priority pod of Some p \<Rightarrow> p | None \<Rightarrow> 0)"

text \<open>\<open>framework.GetPodKey\<close>: the UID, an error for an empty one.\<close>

definition GetPodKey :: "Pod \<Rightarrow> string + string" where
  "GetPodKey pod =
     (if pod_uid pod = [] then Inl ''cannot get cache key for pod with empty UID''
      else Inr (pod_uid pod))"

datatype Code = Success | Error | Unschedulable | UnschedulableAndUnresolvable | Wait | Skip

record Status =
  st_code :: Code
  st_reasons :: "string list"

definition NewStatus :: "Code \<Rightarrow> string list \<Rightarrow> Status" where
  "NewStatus c rs = \<lparr>st_code = c, st_reasons = rs\<rparr>"

definition IsSuccess :: "Status \<Rightarrow> bool" where
  "IsSuccess s \<longleftrightarrow> st_code s = Success"

text \<open>\<open>framework.AsStatus(err)\<close> for a non-nil error.\<close>

definition AsStatus :: "string \<Rightarrow> Status" where
  "AsStatus err = NewStatus Error [err]"

lemma st_code_NewStatus [simp]: "st_code (NewStatus c rs) = c"
  by (simp add: NewStatus_def)

lemma IsSuccess_NewStatus [simp]: "IsSuccess (NewStatus c rs) \<longleftrightarrow> c = Success"
  by (simp add: IsSuccess_def)

text \<open>The scheduling cycle's key/value store, over a plugin's own state data.\<close>

type_synonym 'd CycleState = "string \<Rightarrow> 'd option"

definition CycleState_Write :: "'d CycleState \<Rightarrow> string \<Rightarrow> 'd \<Rightarrow> 'd CycleState" where
  "CycleState_Write st key d = st(key := Some d)"

definition CycleState_Read :: "'d CycleState \<Rightarrow> string \<Rightarrow> 'd option" where
  "CycleState_Read st key = st key"

lemma CycleState_Read_Write [simp]:
  "CycleState_Read (CycleState_Write st k d) k' = (if k' = k then Some d else CycleState_Read st k')"
  by (simp add: CycleState_Read_def CycleState_Write_def)

definition wf_Pod :: "Pod \<Rightarrow> bool" where
  "wf_Pod pod \<longleftrightarrow>
     list_all (\<lambda>c. wf_map (ctr_requests c)) (pod_containers pod) \<and>
     list_all (\<lambda>c. wf_map (ctr_requests c)) (pod_initContainers pod) \<and>
     wf_map (pod_overhead pod)"

end
