(* ===== verification/UtilResource.thy ===== *)
theory UtilResource
  imports KubeApi
begin

text \<open>
  \<open>pkg/util/resource.go\<close>: the conversion of a resource vector to a resource list and the effective
  request of a pod. The number format of a quantity (\<open>DecimalSI\<close>, \<open>BinarySI\<close>) only affects printing
  and is left out, so both arms of the huge-page test store the same value.
\<close>

definition ResourceList_of :: "Resource \<Rightarrow> ResourceList" where
  "ResourceList_of r =
     foldl (\<lambda>result (rName, rQuant). map_set rName (NewQuantity rQuant) result)
       [(ResourceCPU, NewMilliQuantity (MilliCPU r)),
        (ResourceMemory, NewQuantity (Memory r)),
        (ResourcePods, NewQuantity (AllowedPodNumber r)),
        (ResourceEphemeralStorage, NewQuantity (EphemeralStorage r))]
       (ScalarResources r)"

text \<open>The loop bodies of \<open>GetPodEffectiveRequest\<close>.\<close>

definition keep_max :: "ResourceList \<Rightarrow> string \<times> Quantity \<Rightarrow> ResourceList" where
  "keep_max m e =
     (case e of (name, quantity) \<Rightarrow>
        (case map_get m name of
           Some q \<Rightarrow> if quantity \<le> q then m else map_set name quantity m
         | None \<Rightarrow> map_set name quantity m))"

definition add_up :: "ResourceList \<Rightarrow> string \<times> Quantity \<Rightarrow> ResourceList" where
  "add_up m e =
     (case e of (name, quantity) \<Rightarrow>
        map_set name (case map_get m name of Some q \<Rightarrow> quantity + q | None \<Rightarrow> quantity) m)"

definition GetPodEffectiveRequest :: "Pod \<Rightarrow> ResourceList" where
  "GetPodEffectiveRequest pod =
     (let initResources = foldl (\<lambda>m c. foldl keep_max m (ctr_requests c)) [] (pod_initContainers pod);
          resources = foldl (\<lambda>m c. foldl add_up m (ctr_requests c)) [] (pod_containers pod)
      in foldl keep_max resources initResources)"

section \<open>Round trip of the conversion\<close>

lemma map_of_foldl_set:
  "wf_map es \<Longrightarrow>
   map_of (foldl (\<lambda>m (n, q). map_set n (f q) m) m0 es) n =
     (case map_of es n of Some q \<Rightarrow> Some (f q) | None \<Rightarrow> map_of m0 n)"
proof (induction es arbitrary: m0)
  case Nil
  then show ?case by simp
next
  case (Cons e es)
  obtain k q where e: "e = (k, q)" by (cases e)
  from Cons.prems have "wf_map es" "map_of es k = None"
    by (auto dest: wf_map_ConsD simp: e map_of_absent)
  then show ?case using Cons.IH by (auto simp: e map_of_set split: option.splits)
qed

lemma wf_ResourceList_of [simp]: "wf_map (ResourceList_of r)"
proof -
  have "wf_map m \<Longrightarrow> wf_map (foldl (\<lambda>m (n, q). map_set n (NewQuantity q) m) m es)" for m es
    by (induction es arbitrary: m) (auto simp: split_beta)
  moreover have "wf_map [(ResourceCPU, NewMilliQuantity (MilliCPU r)), (ResourceMemory, NewQuantity (Memory r)),
    (ResourcePods, NewQuantity (AllowedPodNumber r)),
    (ResourceEphemeralStorage, NewQuantity (EphemeralStorage r))]"
    by (simp add: wf_map_def)
  ultimately show ?thesis unfolding ResourceList_of_def by blast
qed

lemma scalar_name_of_map: "wf_Resource r \<Longrightarrow> map_of (ScalarResources r) n = Some q \<Longrightarrow> IsScalarResourceName n"
  by (fastforce simp: wf_Resource_def list_all_iff dest: map_of_SomeD)

lemma basic_name_absent:
  assumes "wf_Resource r" and "\<not> IsScalarResourceName n"
  shows "map_of (ScalarResources r) n = None"
  using scalar_name_of_map [OF assms(1)] assms(2) by (cases "map_of (ScalarResources r) n") auto

lemma rl_amount_ResourceList_of: "wf_Resource r \<Longrightarrow> rl_amount (ResourceList_of r) d = amount r d"
proof -
  assume wf: "wf_Resource r"
  then have "wf_map (ScalarResources r)" by (simp add: wf_Resource_def)
  note look = map_of_foldl_set [OF this]
  show ?thesis
  proof (cases d)
    case (DScalar n)
    show ?thesis
    proof (cases "map_of (ScalarResources r) n")
      case None
      have "\<not> IsScalarResourceName n" if "n \<in> {ResourceCPU, ResourceMemory, ResourcePods, ResourceEphemeralStorage}"
        using that by auto
      with None show ?thesis
        by (auto simp: DScalar rl_amount_def ResourceList_of_def look map_getd_def)
    next
      case (Some q)
      then show ?thesis using scalar_name_of_map [OF wf Some]
        by (simp add: DScalar rl_amount_def ResourceList_of_def look map_getd_def)
    qed
  qed (simp_all add: rl_amount_def ResourceList_of_def look basic_name_absent [OF wf])
qed

lemma amount_Add_ResourceList_of:
  "wf_Resource s \<Longrightarrow> amount (Resource_Add r (ResourceList_of s)) d = amount r d + amount s d"
  by (simp add: amount_Resource_Add rl_amount_ResourceList_of)

section \<open>The effective request of a pod\<close>

text \<open>Merging one quantity into a map entry: the larger one, and the sum.\<close>

fun opt_merge :: "('a \<Rightarrow> 'a \<Rightarrow> 'a) \<Rightarrow> 'a option \<Rightarrow> 'a option \<Rightarrow> 'a option" where
  "opt_merge f None y = y"
| "opt_merge f x None = x"
| "opt_merge f (Some a) (Some b) = Some (f a b)"

lemma opt_merge_None_right [simp]: "opt_merge f x None = x"
  by (cases x) simp_all

lemma map_of_keep_max: "map_of (keep_max m (k, q)) n = (if n = k then opt_merge max (map_of m k) (Some q) else map_of m n)"
  by (auto simp: keep_max_def map_of_set max_def split: option.splits)

lemma map_of_add_up: "map_of (add_up m (k, q)) n = (if n = k then opt_merge (+) (map_of m k) (Some q) else map_of m n)"
  by (auto simp: add_up_def map_of_set add.commute split: option.splits)

lemma wf_keep_max: "wf_map m \<Longrightarrow> wf_map (keep_max m e)"
  by (cases e) (auto simp: keep_max_def split: option.splits)

lemma wf_foldl_keep_max: "wf_map m \<Longrightarrow> wf_map (foldl keep_max m es)"
  by (induction es arbitrary: m) (simp_all add: wf_keep_max)

text \<open>
  A loop body that merges each entry into the map of results: one traversal of a resource list
  merges the list's entry for each name, and the traversal of all containers merges the entries of
  all of them in order.
\<close>

lemma map_of_foldl_merge:
  assumes body: "\<And>m k q n. map_of (g m (k, q)) n = (if n = k then opt_merge f (map_of m k) (Some q) else map_of m n)"
    and "wf_map es"
  shows "map_of (foldl g m es) n = opt_merge f (map_of m n) (map_of es n)"
  using assms(2)
proof (induction es arbitrary: m)
  case Nil
  then show ?case by simp
next
  case (Cons e es)
  obtain k q where e: "e = (k, q)" by (cases e)
  from Cons.prems have "wf_map es" "map_of es k = None"
    by (auto dest: wf_map_ConsD simp: e map_of_absent)
  then show ?case using Cons.IH by (simp add: e body)
qed

lemma map_of_foldl_containers:
  assumes body: "\<And>m k q n. map_of (g m (k, q)) n = (if n = k then opt_merge f (map_of m k) (Some q) else map_of m n)"
    and "list_all (\<lambda>c. wf_map (ctr_requests c)) cs"
  shows "map_of (foldl (\<lambda>m c. foldl g m (ctr_requests c)) m cs) n =
    foldl (opt_merge f) (map_of m n) (map (\<lambda>c. map_of (ctr_requests c) n) cs)"
  using assms(2)
  by (induction cs arbitrary: m) (simp_all add: map_of_foldl_merge [OF body])

lemma wf_foldl_init:
  "wf_map m \<Longrightarrow> wf_map (foldl (\<lambda>m c. foldl keep_max m (ctr_requests c)) m cs)"
  by (induction cs arbitrary: m) (simp_all add: wf_foldl_keep_max)

lemma map_of_GetPodEffectiveRequest:
  assumes "wf_Pod pod"
  shows "map_of (GetPodEffectiveRequest pod) n =
    opt_merge max
      (foldl (opt_merge (+)) None (map (\<lambda>c. map_of (ctr_requests c) n) (pod_containers pod)))
      (foldl (opt_merge max) None (map (\<lambda>c. map_of (ctr_requests c) n) (pod_initContainers pod)))"
  using assms unfolding wf_Pod_def GetPodEffectiveRequest_def Let_def
  by (simp add: map_of_foldl_merge [OF map_of_keep_max] wf_foldl_init
      map_of_foldl_containers [OF map_of_keep_max] map_of_foldl_containers [OF map_of_add_up])

text \<open>The quantities a list of containers requests of one resource.\<close>

definition quantities :: "Container list \<Rightarrow> string \<Rightarrow> Quantity list" where
  "quantities cs n = concat (map (\<lambda>c. case map_of (ctr_requests c) n of None \<Rightarrow> [] | Some q \<Rightarrow> [q]) cs)"

lemma foldl_opt_merge_Some:
  "foldl (opt_merge f) (Some a) (map (\<lambda>c. map_of (ctr_requests c) n) cs) = Some (foldl f a (quantities cs n))"
  by (induction cs arbitrary: a) (auto simp: quantities_def split: option.splits)

lemma foldl_opt_merge_None:
  "foldl (opt_merge f) None (map (\<lambda>c. map_of (ctr_requests c) n) cs) =
     (case quantities cs n of [] \<Rightarrow> None | q # qs \<Rightarrow> Some (foldl f q qs))"
proof (induction cs)
  case Nil
  then show ?case by (simp add: quantities_def)
next
  case (Cons c cs)
  then show ?case
    by (cases "map_of (ctr_requests c) n") (simp_all add: foldl_opt_merge_Some, simp_all add: quantities_def)
qed

lemma foldl_plus_sum: "foldl (+) (a :: int) xs = a + sum_list xs"
  by (induction xs arbitrary: a) simp_all

text \<open>
  \<open>GetPodEffectiveRequest\<close> computes, for every resource name, what its comment promises: the
  higher of the sum over the app containers and the maximum over the init containers, present
  exactly when some container requests the resource.
\<close>

theorem GetPodEffectiveRequest_spec:
  assumes "wf_Pod pod"
  shows "map_of (GetPodEffectiveRequest pod) n =
    (let app = quantities (pod_containers pod) n; ini = quantities (pod_initContainers pod) n
     in if app = [] \<and> ini = [] then None
        else if app = [] then Some (Max (set ini))
        else if ini = [] then Some (sum_list app)
        else Some (max (sum_list app) (Max (set ini))))"
proof -
  let ?app = "quantities (pod_containers pod) n" and ?ini = "quantities (pod_initContainers pod) n"
  show ?thesis
    by (cases ?app; cases ?ini)
      (simp_all add: map_of_GetPodEffectiveRequest [OF assms] foldl_opt_merge_None foldl_plus_sum
        foldl_max_Max Let_def del: Max_insert set_simps)
qed

text \<open>A concrete pod for the witnesses: one container that asks for two CPUs and a GPU.\<close>

definition demo_container :: Container where
  "demo_container = \<lparr>ctr_requests = [(ResourceCPU, 2 * 10 ^ 9), (''nvidia.com/gpu'', 10 ^ 9)], ctr_limits = []\<rparr>"

definition demo_pod :: Pod where
  "demo_pod = \<lparr>pod_name = ''p'', pod_namespace = ''ns1'', pod_uid = ''u1'', pod_labels = [],
     pod_annotations = [], pod_creationTimestamp = 0, pod_deletionTimestamp = None,
     pod_containers = [demo_container], pod_initContainers = [], pod_overhead = [],
     pod_nodeName = ''n1'', pod_priority = Some 10, pod_priorityClassName = [],
     pod_preemptionPolicy = None, pod_phase = PodRunning, pod_startTime = Some 0,
     pod_nominatedNodeName = []\<rparr>"

lemma demo_wf_Pod: "wf_Pod demo_pod"
  by (simp add: wf_Pod_def demo_pod_def demo_container_def wf_map_def resource_name_defs)

definition demo_pod_init :: Pod where
  "demo_pod_init = demo_pod\<lparr>pod_initContainers := [\<lparr>ctr_requests = [(ResourceCPU, 3 * 10 ^ 9)], ctr_limits = []\<rparr>]\<rparr>"

theorem GetPodEffectiveRequest_spec_witness:
  "map_of (GetPodEffectiveRequest demo_pod_init) ResourceCPU = Some (3 * 10 ^ 9)"
proof -
  have "wf_Pod demo_pod_init" by code_simp
  from GetPodEffectiveRequest_spec [OF this, of ResourceCPU] show ?thesis
    by (simp add: demo_pod_init_def demo_pod_def demo_container_def quantities_def Let_def)
qed

end
