(* ===== verification/PodLedger.thy ===== *)
theory PodLedger
  imports Prelude
begin

text \<open>
  The contract that every pod ledger of the plugins keeps: a set of pod keys together with running
  totals of what those pods request. \<open>pod_ledger\<close> fixes the operations a client calls and states
  the laws of one operation; the lemmas inside lift them to whole histories: the running totals are
  always the sum of the requests of exactly the pods on the ledger, whatever the order and however
  often pods are added and removed. The elastic quota of \<open>pkg/capacityscheduling\<close> is one such
  ledger.
\<close>

locale pod_ledger =
  fixes invar :: "'q \<Rightarrow> bool"
    and has :: "'q \<Rightarrow> 'k \<Rightarrow> bool"
    and add :: "'q \<Rightarrow> 'p \<Rightarrow> 'q"
    and del :: "'q \<Rightarrow> 'p \<Rightarrow> 'q"
    and used :: "'q \<Rightarrow> 'd \<Rightarrow> 'v :: ab_group_add"
    and key :: "'p \<Rightarrow> 'k"
    and req :: "'p \<Rightarrow> 'd \<Rightarrow> 'v"
    and valid :: "'p \<Rightarrow> bool"
  assumes invar_add: "invar q \<Longrightarrow> valid p \<Longrightarrow> invar (add q p)"
    and invar_del: "invar q \<Longrightarrow> valid p \<Longrightarrow> invar (del q p)"
    and has_add: "invar q \<Longrightarrow> valid p \<Longrightarrow> has (add q p) k \<longleftrightarrow> k = key p \<or> has q k"
    and has_del: "invar q \<Longrightarrow> valid p \<Longrightarrow> has (del q p) k \<longleftrightarrow> k \<noteq> key p \<and> has q k"
    and used_add: "invar q \<Longrightarrow> valid p \<Longrightarrow>
      used (add q p) d = used q d + (if has q (key p) then 0 else req p d)"
    and used_del: "invar q \<Longrightarrow> valid p \<Longrightarrow>
      used (del q p) d = used q d - (if has q (key p) then req p d else 0)"
begin

text \<open>Adding twice is adding once; adding a new pod and removing it again restores the totals.\<close>

lemma add_idem_used: "invar q \<Longrightarrow> valid p \<Longrightarrow> used (add (add q p) p) d = used (add q p) d"
  by (simp add: invar_add used_add has_add)

lemma del_add_used:
  "invar q \<Longrightarrow> valid p \<Longrightarrow> \<not> has q (key p) \<Longrightarrow> used (del (add q p) p) d = used q d"
  by (simp add: invar_add used_add used_del has_add)

lemma del_add_has:
  "invar q \<Longrightarrow> valid p \<Longrightarrow> \<not> has q (key p) \<Longrightarrow> has (del (add q p) p) k = has q k"
  by (auto simp: invar_add has_del has_add)

text \<open>
  A ledger is balanced for \<open>canon\<close> (the request every pod key stands for) and an opening balance
  \<open>base\<close> when its totals are the opening balance plus the requests of the pods on it.
\<close>

definition balanced :: "('d \<Rightarrow> 'v) \<Rightarrow> ('k \<Rightarrow> 'd \<Rightarrow> 'v) \<Rightarrow> 'q \<Rightarrow> bool" where
  "balanced base canon q \<longleftrightarrow>
     invar q \<and> finite {k. has q k} \<and>
     (\<forall>d. used q d = base d + (\<Sum>k | has q k. canon k d))"

lemma keys_add: "invar q \<Longrightarrow> valid p \<Longrightarrow> {k. has (add q p) k} = insert (key p) {k. has q k}"
  by (auto simp: has_add)

lemma keys_del: "invar q \<Longrightarrow> valid p \<Longrightarrow> {k. has (del q p) k} = {k. has q k} - {key p}"
  by (auto simp: has_del)

lemma balanced_add:
  assumes b: "balanced base canon q" and v: "valid p" and c: "req p = canon (key p)"
  shows "balanced base canon (add q p)"
proof -
  from b have q: "invar q" "finite {k. has q k}"
    and u: "\<And>d. used q d = base d + (\<Sum>k | has q k. canon k d)"
    by (auto simp: balanced_def)
  have "used (add q p) d = base d + (\<Sum>k \<in> insert (key p) {k. has q k}. canon k d)" for d
    using q u c v by (cases "has q (key p)") (simp_all add: used_add insert_absorb algebra_simps)
  then show ?thesis
    using q v by (simp add: balanced_def invar_add keys_add)
qed

lemma balanced_del:
  assumes b: "balanced base canon q" and v: "valid p" and c: "req p = canon (key p)"
  shows "balanced base canon (del q p)"
proof -
  from b have q: "invar q" "finite {k. has q k}"
    and u: "\<And>d. used q d = base d + (\<Sum>k | has q k. canon k d)"
    by (auto simp: balanced_def)
  have "used (del q p) d = base d + (\<Sum>k \<in> {k. has q k} - {key p}. canon k d)" for d
    using q u c v by (cases "has q (key p)") (simp_all add: used_del sum_diff1 algebra_simps)
  then show ?thesis
    using q v by (simp add: balanced_def invar_del keys_del)
qed

text \<open>A whole history of additions (\<open>True\<close>) and removals (\<open>False\<close>).\<close>

definition apply_op :: "'q \<Rightarrow> bool \<times> 'p \<Rightarrow> 'q" where
  "apply_op q x = (if fst x then add q (snd x) else del q (snd x))"

lemma balanced_history:
  assumes "balanced base canon q"
    and "\<forall>(b, p) \<in> set ops. valid p \<and> req p = canon (key p)"
  shows "balanced base canon (foldl apply_op q ops)"
  using assms
proof (induction ops arbitrary: q)
  case Nil
  then show ?case by simp
next
  case (Cons x ops)
  then have "balanced base canon (apply_op q x)"
    by (auto simp: apply_op_def split_beta intro: balanced_add balanced_del)
  with Cons show ?case by simp
qed

end

end
