(* ===== verification/ElasticQuota.thy ===== *)
theory ElasticQuota
  imports UtilResource PodLedger
begin

text \<open>
  \<open>pkg/capacityscheduling/elasticquota.go\<close> and \<open>computePodResourceRequest\<close> of
  \<open>capacity_scheduling.go\<close>: the quota of one namespace (its pods, guaranteed minimum, maximum and
  current use), the map of all quotas, and the comparisons that decide whether a request fits.

  \<open>Min\<close>, \<open>Max\<close> and \<open>Used\<close> are pointers in the code, so they are options here, and an operation that
  dereferences a nil one returns \<^const>\<open>None\<close> (a panic). The invariant \<open>eq_ok\<close> rules that out; the
  plugin's operations keep it.
\<close>

section \<open>Requests of a pod\<close>

definition computePodResourceRequest :: "Pod \<Rightarrow> Resource" where
  "computePodResourceRequest pod =
     (let result = foldl (\<lambda>r c. Resource_Add r (ctr_requests c)) empty_Resource (pod_containers pod);
          result = foldl (\<lambda>r c. SetMaxResource r (ctr_requests c)) result (pod_initContainers pod)
      in Resource_Add result (pod_overhead pod))"

section \<open>One quota\<close>

definition UpperBoundOfMax :: int64 where "UpperBoundOfMax = MaxInt64"
definition LowerBoundOfMin :: int64 where "LowerBoundOfMin = 0"

record ElasticQuotaInfo =
  eq_Namespace :: string
  eq_pods :: "string set"
  eq_Min :: "Resource option"
  eq_Max :: "Resource option"
  eq_Used :: "Resource option"

definition makeResourceListForBound :: "int64 \<Rightarrow> ResourceList" where
  "makeResourceListForBound bound =
     [(ResourceCPU, NewMilliQuantity bound), (ResourceMemory, NewQuantity bound),
      (ResourceEphemeralStorage, NewQuantity bound)]"

text \<open>A nil resource list (\<^const>\<open>None\<close>) differs from an empty one here.\<close>

definition newElasticQuotaInfo ::
  "string \<Rightarrow> ResourceList option \<Rightarrow> ResourceList option \<Rightarrow> ResourceList option \<Rightarrow> ElasticQuotaInfo" where
  "newElasticQuotaInfo namespace mn mx used =
     (let mn' = (case mn of None \<Rightarrow> makeResourceListForBound LowerBoundOfMin | Some l \<Rightarrow> l);
          mx' = (case mx of None \<Rightarrow> makeResourceListForBound UpperBoundOfMax | Some l \<Rightarrow> l)
      in \<lparr>eq_Namespace = namespace, eq_pods = {},
          eq_Min = Some (NewResource mn'), eq_Max = Some (NewResource mx'),
          eq_Used = Some (NewResource (case used of None \<Rightarrow> [] | Some l \<Rightarrow> l))\<rparr>)"

definition reserve_into :: "Resource \<Rightarrow> Resource \<Rightarrow> Resource" where
  "reserve_into u request =
     foldl (\<lambda>u (name, value). SetScalar u name (map_getd 0 (ScalarResources u) name + value))
       (u\<lparr>Memory := Memory u + Memory request,
          MilliCPU := MilliCPU u + MilliCPU request,
          EphemeralStorage := EphemeralStorage u + EphemeralStorage request,
          AllowedPodNumber := AllowedPodNumber u + AllowedPodNumber request\<rparr>)
       (ScalarResources request)"

definition unreserve_from :: "Resource \<Rightarrow> Resource \<Rightarrow> Resource" where
  "unreserve_from u request =
     foldl (\<lambda>u (name, value). SetScalar u name (map_getd 0 (ScalarResources u) name - value))
       (u\<lparr>Memory := Memory u - Memory request,
          MilliCPU := MilliCPU u - MilliCPU request,
          EphemeralStorage := EphemeralStorage u - EphemeralStorage request,
          AllowedPodNumber := AllowedPodNumber u - AllowedPodNumber request\<rparr>)
       (ScalarResources request)"

definition reserveResource :: "ElasticQuotaInfo \<Rightarrow> Resource \<Rightarrow> ElasticQuotaInfo option" where
  "reserveResource e request =
     map_option (\<lambda>u. e\<lparr>eq_Used := Some (reserve_into u request)\<rparr>) (eq_Used e)"

definition unreserveResource :: "ElasticQuotaInfo \<Rightarrow> Resource \<Rightarrow> ElasticQuotaInfo option" where
  "unreserveResource e request =
     map_option (\<lambda>u. e\<lparr>eq_Used := Some (unreserve_from u request)\<rparr>) (eq_Used e)"

fun cmp2_scalars :: "(string \<times> int64) list \<Rightarrow> Resource \<Rightarrow> Resource \<Rightarrow> int64 \<Rightarrow> bool" where
  "cmp2_scalars [] x2 y bound = False"
| "cmp2_scalars ((rName, rQuant) # rest) x2 y bound =
     (let yQuant = (case map_get (ScalarResources y) rName of Some yq \<Rightarrow> yq | None \<Rightarrow> bound)
      in if slt yQuant (rQuant + map_getd 0 (ScalarResources x2) rName) then True
         else cmp2_scalars rest x2 y bound)"

definition cmp2 :: "Resource \<Rightarrow> Resource \<Rightarrow> Resource \<Rightarrow> int64 \<Rightarrow> bool" where
  "cmp2 x1 x2 y bound =
     (if slt (MilliCPU y) (MilliCPU x1 + MilliCPU x2) then True
      else if slt (Memory y) (Memory x1 + Memory x2) then True
      else if slt (EphemeralStorage y) (EphemeralStorage x1 + EphemeralStorage x2) then True
      else if slt (AllowedPodNumber y) (AllowedPodNumber x1 + AllowedPodNumber x2) then True
      else cmp2_scalars (ScalarResources x1) x2 y bound)"

definition cmp :: "Resource \<Rightarrow> Resource \<Rightarrow> int64 \<Rightarrow> bool" where
  "cmp x y bound = cmp2 x empty_Resource y bound"

definition usedOverMinWith :: "ElasticQuotaInfo \<Rightarrow> Resource \<Rightarrow> bool option" where
  "usedOverMinWith e podRequest =
     (case eq_Min e of
        None \<Rightarrow> Some True
      | Some mn \<Rightarrow> map_option (\<lambda>u. cmp2 podRequest u mn LowerBoundOfMin) (eq_Used e))"

definition usedOverMaxWith :: "ElasticQuotaInfo \<Rightarrow> Resource \<Rightarrow> bool option" where
  "usedOverMaxWith e podRequest =
     (case eq_Max e of
        None \<Rightarrow> Some False
      | Some mx \<Rightarrow> map_option (\<lambda>u. cmp2 podRequest u mx UpperBoundOfMax) (eq_Used e))"

definition usedOverMin :: "ElasticQuotaInfo \<Rightarrow> bool option" where
  "usedOverMin e =
     (case eq_Min e of
        None \<Rightarrow> Some True
      | Some mn \<Rightarrow> map_option (\<lambda>u. cmp u mn LowerBoundOfMin) (eq_Used e))"

definition eq_clone :: "ElasticQuotaInfo \<Rightarrow> ElasticQuotaInfo" where
  "eq_clone e =
     \<lparr>eq_Namespace = eq_Namespace e, eq_pods = eq_pods e,
      eq_Min = map_option Resource_Clone (eq_Min e),
      eq_Max = map_option Resource_Clone (eq_Max e),
      eq_Used = map_option Resource_Clone (eq_Used e)\<rparr>"

text \<open>
  The result of adding or deleting a pod: a panic (\<^const>\<open>None\<close>), an error with the quota unchanged
  (\<^const>\<open>Inl\<close>), or the new quota.
\<close>

definition addPodIfNotPresent :: "ElasticQuotaInfo \<Rightarrow> Pod \<Rightarrow> (string + ElasticQuotaInfo) option" where
  "addPodIfNotPresent e pod =
     (case GetPodKey pod of
        Inl err \<Rightarrow> Some (Inl err)
      | Inr key \<Rightarrow>
          if key \<in> eq_pods e then Some (Inr e)
          else map_option Inr
                 (reserveResource (e\<lparr>eq_pods := insert key (eq_pods e)\<rparr>) (computePodResourceRequest pod)))"

definition deletePodIfPresent :: "ElasticQuotaInfo \<Rightarrow> Pod \<Rightarrow> (string + ElasticQuotaInfo) option" where
  "deletePodIfPresent e pod =
     (case GetPodKey pod of
        Inl err \<Rightarrow> Some (Inl err)
      | Inr key \<Rightarrow>
          if key \<notin> eq_pods e then Some (Inr e)
          else map_option Inr
                 (unreserveResource (e\<lparr>eq_pods := eq_pods e - {key}\<rparr>) (computePodResourceRequest pod)))"

section \<open>The quotas of all namespaces\<close>

type_synonym ElasticQuotaInfos = "(string, ElasticQuotaInfo) gomap"

definition NewElasticQuotaInfos :: ElasticQuotaInfos where
  "NewElasticQuotaInfos = []"

definition eqs_clone :: "ElasticQuotaInfos \<Rightarrow> ElasticQuotaInfos" where
  "eqs_clone m = map (\<lambda>(key, e). (key, eq_clone e)) m"

definition aggregate_step ::
  "Resource \<times> Resource \<Rightarrow> string \<times> ElasticQuotaInfo \<Rightarrow> (Resource \<times> Resource) option" where
  "aggregate_step acc entry =
     (case (acc, entry) of ((used, mn), (_, e)) \<Rightarrow>
        (case (eq_Used e, eq_Min e) of
           (Some u, Some m) \<Rightarrow> Some (Resource_Add used (ResourceList_of u), Resource_Add mn (ResourceList_of m))
         | _ \<Rightarrow> None))"

definition aggregatedUsedOverMinWith :: "ElasticQuotaInfos \<Rightarrow> Resource \<Rightarrow> bool option" where
  "aggregatedUsedOverMinWith m podRequest =
     (case foldM aggregate_step (NewResource [], NewResource []) m of
        None \<Rightarrow> None
      | Some (used, mn) \<Rightarrow> Some (cmp (Resource_Add used (ResourceList_of podRequest)) mn LowerBoundOfMin))"

section \<open>Requests and reservations, dimension by dimension\<close>

lemma amount_SetMaxResource1:
  "amount (SetMaxResource1 r (n, q)) d =
     (if dim_name d = n \<and> dim_ok d \<and> d \<noteq> DPods then smax (amount r d) (dim_value d q) else amount r d)"
  by (cases d) (auto simp: SetMaxResource1_def SetScalar_def map_getd_set split: if_splits)

text \<open>The maximum a list of init containers raises an amount to.\<close>

definition rl_raise :: "dim \<Rightarrow> int64 \<Rightarrow> ResourceList \<Rightarrow> int64" where
  "rl_raise d a rl =
     (case map_of rl (dim_name d) of
        Some q \<Rightarrow> if dim_ok d \<and> d \<noteq> DPods then smax a (dim_value d q) else a
      | None \<Rightarrow> a)"

lemma amount_SetMaxResource: "wf_map rl \<Longrightarrow> amount (SetMaxResource r rl) d = rl_raise d (amount r d) rl"
  unfolding SetMaxResource_def
proof (induction rl arbitrary: r)
  case Nil
  then show ?case by (simp add: rl_raise_def)
next
  case (Cons e rl)
  obtain n q where e: "e = (n, q)" by (cases e)
  from Cons.prems have "wf_map rl" "map_of rl n = None"
    by (auto dest: wf_map_ConsD simp: e map_of_absent)
  then show ?case using Cons.IH [of "SetMaxResource1 r e"]
    by (auto simp: e amount_SetMaxResource1 rl_raise_def)
qed

lemma amount_foldl_Add:
  "list_all (\<lambda>c. wf_map (ctr_requests c)) cs \<Longrightarrow>
   amount (foldl (\<lambda>r c. Resource_Add r (ctr_requests c)) r cs) d =
     amount r d + (\<Sum>c \<leftarrow> cs. rl_amount (ctr_requests c) d)"
  by (rule foldl_add_sum [where h = "\<lambda>r. amount r d"]) (simp add: list_all_iff amount_Resource_Add)

lemma amount_foldl_SetMax:
  "list_all (\<lambda>c. wf_map (ctr_requests c)) cs \<Longrightarrow>
   amount (foldl (\<lambda>r c. SetMaxResource r (ctr_requests c)) r cs) d =
     foldl (rl_raise d) (amount r d) (map ctr_requests cs)"
  by (induction cs arbitrary: r) (simp_all add: amount_SetMaxResource)

lemma wf_foldl_res [simp]:
  "wf_Resource r \<Longrightarrow> wf_Resource (foldl (\<lambda>r c. Resource_Add r (ctr_requests c)) r cs)"
  "wf_Resource r \<Longrightarrow> wf_Resource (foldl (\<lambda>r c. SetMaxResource r (ctr_requests c)) r cs)"
  by (induction cs arbitrary: r) simp_all

lemma wf_computePodResourceRequest [simp]: "wf_Resource (computePodResourceRequest pod)"
  by (simp add: computePodResourceRequest_def Let_def)

lemma amount_foldl_SetScalar:
  "wf_map es \<Longrightarrow>
   amount (foldl (\<lambda>u (name, value). SetScalar u name (f (map_getd 0 (ScalarResources u) name) value)) u es) d =
     (case d of
        DScalar n \<Rightarrow> (case map_of es n of Some v \<Rightarrow> f (amount u d) v | None \<Rightarrow> amount u d)
      | _ \<Rightarrow> amount u d)"
proof (induction es arbitrary: u)
  case Nil
  then show ?case by (simp split: dim.splits)
next
  case (Cons e es)
  obtain k v where e: "e = (k, v)" by (cases e)
  from Cons.prems have "wf_map es" "map_of es k = None"
    by (auto dest: wf_map_ConsD simp: e map_of_absent)
  then show ?case using Cons.IH
    by (cases d) (auto simp: e SetScalar_def map_getd_set split: option.splits)
qed

lemma wf_foldl_SetScalar:
  "wf_Resource u \<Longrightarrow> list_all IsScalarResourceName (map fst es) \<Longrightarrow>
   wf_Resource (foldl (\<lambda>u (name, value). SetScalar u name (g u name value)) u es)"
  by (induction es arbitrary: u) (auto simp: wf_SetScalar)

lemma amount_reserve_into:
  "wf_Resource r \<Longrightarrow> amount (reserve_into u r) d = amount u d + amount r d"
proof -
  assume "wf_Resource r"
  then have "wf_map (ScalarResources r)" by (simp add: wf_Resource_def)
  then show ?thesis
    unfolding reserve_into_def amount_foldl_SetScalar [OF \<open>wf_map _\<close>, where f = "(+)"]
    by (cases d) (auto simp: map_getd_def split: option.splits)
qed

lemma amount_unreserve_from:
  "wf_Resource r \<Longrightarrow> amount (unreserve_from u r) d = amount u d - amount r d"
proof -
  assume "wf_Resource r"
  then have "wf_map (ScalarResources r)" by (simp add: wf_Resource_def)
  then show ?thesis
    unfolding unreserve_from_def amount_foldl_SetScalar [OF \<open>wf_map _\<close>, where f = "(-)"]
    by (cases d) (auto simp: map_getd_def split: option.splits)
qed

lemma wf_reserve_into [simp]: "wf_Resource u \<Longrightarrow> wf_Resource r \<Longrightarrow> wf_Resource (reserve_into u r)"
  unfolding reserve_into_def by (rule wf_foldl_SetScalar) (simp_all add: wf_Resource_def)

lemma wf_unreserve_from [simp]: "wf_Resource u \<Longrightarrow> wf_Resource r \<Longrightarrow> wf_Resource (unreserve_from u r)"
  unfolding unreserve_from_def by (rule wf_foldl_SetScalar) (simp_all add: wf_Resource_def)

section \<open>Comparisons, dimension by dimension\<close>

definition skeys :: "Resource \<Rightarrow> string set" where
  "skeys r = fst ` set (ScalarResources r)"

lemma skeys_empty [simp]: "skeys empty_Resource = {}"
  by (simp add: skeys_def empty_Resource_def)

definition res_dims :: "Resource \<Rightarrow> dim set" where
  "res_dims r = {DCPU, DMemory, DEphemeral, DPods} \<union> DScalar ` skeys r"

fun res_limit :: "Resource \<Rightarrow> int64 \<Rightarrow> dim \<Rightarrow> int64" where
  "res_limit y bound (DScalar n) = map_getd bound (ScalarResources y) n"
| "res_limit y bound d = amount y d"

lemma cmp2_scalars_iff:
  "cmp2_scalars es x2 y bound \<longleftrightarrow>
     (\<exists>(n, q) \<in> set es. slt (res_limit y bound (DScalar n)) (q + amount x2 (DScalar n)))"
  by (induction es) (auto simp: Let_def map_getd_def split: option.splits)

lemma cmp2_iff:
  assumes "wf_map (ScalarResources x1)"
  shows "cmp2 x1 x2 y bound \<longleftrightarrow> (\<exists>d \<in> res_dims x1. slt (res_limit y bound d) (amount x1 d + amount x2 d))"
proof -
  have "amount x1 (DScalar n) = q" if "(n, q) \<in> set (ScalarResources x1)" for n q
    using that assms by (simp add: map_getd_def wf_map_def)
  then have "cmp2_scalars (ScalarResources x1) x2 y bound \<longleftrightarrow>
    (\<exists>(n, _) \<in> set (ScalarResources x1).
       slt (res_limit y bound (DScalar n)) (amount x1 (DScalar n) + amount x2 (DScalar n)))"
    unfolding cmp2_scalars_iff by (intro bex_cong refl) (auto simp del: amount.simps)
  then show ?thesis
    unfolding cmp2_def res_dims_def skeys_def by (auto simp: bex_Un split_beta)
qed

lemma res_limit_0: "res_limit y 0 d = amount y d"
  by (cases d) simp_all

lemma cmp_iff:
  "wf_map (ScalarResources x) \<Longrightarrow> cmp x y LowerBoundOfMin \<longleftrightarrow> (\<exists>d \<in> res_dims x. slt (amount y d) (amount x d))"
  by (simp add: cmp_def cmp2_iff LowerBoundOfMin_def res_limit_0)

section \<open>The invariant of a quota and the ledger contract\<close>

definition eq_ok :: "ElasticQuotaInfo \<Rightarrow> bool" where
  "eq_ok e \<longleftrightarrow>
     finite (eq_pods e) \<and>
     pred_option wf_Resource (eq_Min e) \<and> eq_Min e \<noteq> None \<and>
     pred_option wf_Resource (eq_Max e) \<and> eq_Max e \<noteq> None \<and>
     pred_option wf_Resource (eq_Used e) \<and> eq_Used e \<noteq> None"

definition eq_used :: "ElasticQuotaInfo \<Rightarrow> dim \<Rightarrow> int64" where
  "eq_used e d = (case eq_Used e of Some u \<Rightarrow> amount u d | None \<Rightarrow> 0)"

definition eq_min :: "ElasticQuotaInfo \<Rightarrow> dim \<Rightarrow> int64" where
  "eq_min e d = (case eq_Min e of Some m \<Rightarrow> amount m d | None \<Rightarrow> 0)"

definition eq_limit :: "ElasticQuotaInfo \<Rightarrow> dim \<Rightarrow> int64" where
  "eq_limit e d = (case eq_Max e of Some m \<Rightarrow> res_limit m UpperBoundOfMax d | None \<Rightarrow> MaxInt64)"

lemma eq_okE:
  assumes "eq_ok e"
  obtains mn mx u where "eq_Min e = Some mn" "eq_Max e = Some mx" "eq_Used e = Some u"
    "wf_Resource mn" "wf_Resource mx" "wf_Resource u" "finite (eq_pods e)"
  using assms by (auto simp: eq_ok_def)

lemma eq_ok_new [simp]: "eq_ok (newElasticQuotaInfo ns mn mx used)"
  by (simp add: eq_ok_def newElasticQuotaInfo_def Let_def)

lemma eq_used_new: "eq_used (newElasticQuotaInfo ns mn mx None) d = 0"
  by (simp add: eq_used_def newElasticQuotaInfo_def Let_def amount_NewResource rl_amount_def)

lemma eq_clone_id [simp]: "eq_clone e = e"
proof -
  have "Resource_Clone = id" by (intro ext) simp
  then show ?thesis by (simp add: eq_clone_def option.map_id0)
qed

lemma eqs_clone_id [simp]: "eqs_clone m = m"
  by (simp add: eqs_clone_def split_beta)

lemma GetPodKey_cases: "GetPodKey pod = (if pod_uid pod = [] then Inl ''cannot get cache key for pod with empty UID'' else Inr (pod_uid pod))"
  by (simp add: GetPodKey_def)

lemma addPodIfNotPresent_ok:
  assumes "eq_ok e" and "pod_uid pod \<noteq> []"
  obtains e' where "addPodIfNotPresent e pod = Some (Inr e')" "eq_ok e'"
    "eq_pods e' = insert (pod_uid pod) (eq_pods e)"
    "\<And>d. eq_used e' d = eq_used e d +
       (if pod_uid pod \<in> eq_pods e then 0 else amount (computePodResourceRequest pod) d)"
    "eq_Min e' = eq_Min e" "eq_Max e' = eq_Max e" "eq_Namespace e' = eq_Namespace e"
proof -
  from assms(1) obtain u where u: "eq_Used e = Some u" "wf_Resource u" by (rule eq_okE)
  show thesis
  proof (cases "pod_uid pod \<in> eq_pods e")
    case True
    then show thesis using assms by (intro that [of e]) (auto simp: addPodIfNotPresent_def GetPodKey_cases)
  next
    case False
    let ?e = "e\<lparr>eq_pods := insert (pod_uid pod) (eq_pods e),
      eq_Used := Some (reserve_into u (computePodResourceRequest pod))\<rparr>"
    show thesis using False assms u
      by (intro that [of ?e])
        (auto simp: addPodIfNotPresent_def GetPodKey_cases reserveResource_def eq_ok_def eq_used_def amount_reserve_into)
  qed
qed

lemma deletePodIfPresent_ok:
  assumes "eq_ok e" and "pod_uid pod \<noteq> []"
  obtains e' where "deletePodIfPresent e pod = Some (Inr e')" "eq_ok e'"
    "eq_pods e' = eq_pods e - {pod_uid pod}"
    "\<And>d. eq_used e' d = eq_used e d -
       (if pod_uid pod \<in> eq_pods e then amount (computePodResourceRequest pod) d else 0)"
    "eq_Min e' = eq_Min e" "eq_Max e' = eq_Max e" "eq_Namespace e' = eq_Namespace e"
proof -
  from assms(1) obtain u where u: "eq_Used e = Some u" "wf_Resource u" by (rule eq_okE)
  show thesis
  proof (cases "pod_uid pod \<in> eq_pods e")
    case False
    then show thesis using assms by (intro that [of e]) (auto simp: deletePodIfPresent_def GetPodKey_cases)
  next
    case True
    let ?e = "e\<lparr>eq_pods := eq_pods e - {pod_uid pod},
      eq_Used := Some (unreserve_from u (computePodResourceRequest pod))\<rparr>"
    show thesis using True assms u
      by (intro that [of ?e])
        (auto simp: deletePodIfPresent_def GetPodKey_cases unreserveResource_def eq_ok_def eq_used_def amount_unreserve_from)
  qed
qed

lemma empty_uid_error:
  "pod_uid pod = [] \<Longrightarrow> addPodIfNotPresent e pod = Some (Inl ''cannot get cache key for pod with empty UID'')"
  "pod_uid pod = [] \<Longrightarrow> deletePodIfPresent e pod = Some (Inl ''cannot get cache key for pod with empty UID'')"
  by (simp_all add: addPodIfNotPresent_def deletePodIfPresent_def GetPodKey_cases)

text \<open>What the plugin keeps of a quota after the call, error results included.\<close>

definition eq_after :: "ElasticQuotaInfo \<Rightarrow> (string + ElasticQuotaInfo) option \<Rightarrow> ElasticQuotaInfo" where
  "eq_after e r = (case r of Some (Inr e') \<Rightarrow> e' | _ \<Rightarrow> e)"

definition eq_add :: "ElasticQuotaInfo \<Rightarrow> Pod \<Rightarrow> ElasticQuotaInfo" where
  "eq_add e pod = eq_after e (addPodIfNotPresent e pod)"

definition eq_del :: "ElasticQuotaInfo \<Rightarrow> Pod \<Rightarrow> ElasticQuotaInfo" where
  "eq_del e pod = eq_after e (deletePodIfPresent e pod)"

interpretation eq_ledger: pod_ledger eq_ok "\<lambda>e k. k \<in> eq_pods e" eq_add eq_del eq_used pod_uid
  "\<lambda>pod. amount (computePodResourceRequest pod)" "\<lambda>pod. pod_uid pod \<noteq> []"
proof unfold_locales
  fix e :: ElasticQuotaInfo and pod :: Pod and k d
  assume *: "eq_ok e" "pod_uid pod \<noteq> []"
  from * show "eq_ok (eq_add e pod)"
    by (rule addPodIfNotPresent_ok) (simp add: eq_add_def eq_after_def)
  from * show "eq_ok (eq_del e pod)"
    by (rule deletePodIfPresent_ok) (simp add: eq_del_def eq_after_def)
  from * show "(k \<in> eq_pods (eq_add e pod)) = (k = pod_uid pod \<or> k \<in> eq_pods e)"
    by (rule addPodIfNotPresent_ok) (simp add: eq_add_def eq_after_def)
  from * show "(k \<in> eq_pods (eq_del e pod)) = (k \<noteq> pod_uid pod \<and> k \<in> eq_pods e)"
    by (rule deletePodIfPresent_ok) (auto simp: eq_del_def eq_after_def)
  from * show "eq_used (eq_add e pod) d = eq_used e d +
      (if pod_uid pod \<in> eq_pods e then 0 else amount (computePodResourceRequest pod) d)"
    by (rule addPodIfNotPresent_ok) (simp add: eq_add_def eq_after_def)
  from * show "eq_used (eq_del e pod) d = eq_used e d -
      (if pod_uid pod \<in> eq_pods e then amount (computePodResourceRequest pod) d else 0)"
    by (rule deletePodIfPresent_ok) (simp add: eq_del_def eq_after_def)
qed

section \<open>Aggregation over all quotas\<close>

definition eqs_ok :: "ElasticQuotaInfos \<Rightarrow> bool" where
  "eqs_ok m \<longleftrightarrow> wf_map m \<and> list_all (\<lambda>(_, e). eq_ok e) m"

lemma eqs_ok_lookup: "eqs_ok m \<Longrightarrow> map_of m ns = Some e \<Longrightarrow> eq_ok e"
  by (auto simp: eqs_ok_def list_all_iff dest: map_of_SomeD)

lemma skeys_Add1: "skeys (Resource_Add1 r (n, q)) = skeys r \<union> {n' \<in> {n}. IsScalarResourceName n'}"
  by (auto simp: Resource_Add1_def skeys_def AddScalar_def SetScalar_def dom_update simp flip: image_image)

lemma skeys_Add: "skeys (Resource_Add r rl) = skeys r \<union> {n \<in> fst ` set rl. IsScalarResourceName n}"
  unfolding Resource_Add_def by (induction rl arbitrary: r) (auto simp: skeys_Add1)

lemma keys_foldl_set: "fst ` set (foldl (\<lambda>m (n, q). map_set n (f q) m) m0 es) = fst ` set m0 \<union> fst ` set es"
  by (induction es arbitrary: m0) (simp_all add: dom_update split_beta)

lemma skeys_Add_ResourceList_of:
  "wf_Resource s \<Longrightarrow> skeys (Resource_Add r (ResourceList_of s)) = skeys r \<union> skeys s"
  unfolding skeys_Add ResourceList_of_def keys_foldl_set
  by (auto simp: skeys_def wf_Resource_def list_all_iff)

lemma foldM_aggregate:
  assumes "list_all (\<lambda>(_, e). eq_ok e) m" and "wf_Resource u0" and "wf_Resource m0"
  shows "\<exists>u mn. foldM aggregate_step (u0, m0) m = Some (u, mn) \<and> wf_Resource u \<and> wf_Resource mn \<and>
    skeys u = skeys u0 \<union> (\<Union>(_, e) \<in> set m. \<Union>(skeys ` set_option (eq_Used e))) \<and>
    (\<forall>d. amount u d = amount u0 d + (\<Sum>(_, e) \<leftarrow> m. eq_used e d)) \<and>
    (\<forall>d. amount mn d = amount m0 d + (\<Sum>(_, e) \<leftarrow> m. eq_min e d))"
  using assms
proof (induction m arbitrary: u0 m0)
  case Nil
  then show ?case by simp
next
  case (Cons x m)
  obtain k e where x: "x = (k, e)" by (cases x)
  from Cons.prems have "eq_ok e" by (simp add: x)
  then obtain mn u where e: "eq_Min e = Some mn" "eq_Used e = Some u" "wf_Resource mn" "wf_Resource u"
    by (rule eq_okE)
  from Cons.IH [of "Resource_Add u0 (ResourceList_of u)" "Resource_Add m0 (ResourceList_of mn)"] Cons.prems
  show ?case
    by (auto simp: x aggregate_step_def e eq_used_def eq_min_def amount_Add_ResourceList_of add.assoc
        skeys_Add_ResourceList_of)
qed

text \<open>The dimensions the aggregate check looks at: the four built-in ones and every scalar resource
  that is requested now or was used under some quota.\<close>

definition agg_dims :: "ElasticQuotaInfos \<Rightarrow> Resource \<Rightarrow> dim set" where
  "agg_dims m req =
     res_dims req \<union> DScalar ` (\<Union>(_, e) \<in> set m. \<Union>(skeys ` set_option (eq_Used e)))"

lemma aggregated_iff:
  assumes "list_all (\<lambda>(_, e). eq_ok e) m" and "wf_Resource req"
  shows "aggregatedUsedOverMinWith m req =
    Some (\<exists>d \<in> agg_dims m req.
      slt (\<Sum>(_, e) \<leftarrow> m. eq_min e d) ((\<Sum>(_, e) \<leftarrow> m. eq_used e d) + amount req d))"
proof -
  obtain u mn where f: "foldM aggregate_step (NewResource [], NewResource []) m = Some (u, mn)"
    and wf: "wf_Resource u" "wf_Resource mn"
    and k: "skeys u = (\<Union>(_, e) \<in> set m. \<Union>(skeys ` set_option (eq_Used e)))"
    and a: "\<And>d. amount u d = (\<Sum>(_, e) \<leftarrow> m. eq_used e d)" "\<And>d. amount mn d = (\<Sum>(_, e) \<leftarrow> m. eq_min e d)"
    using foldM_aggregate [OF assms(1), of "NewResource []" "NewResource []"]
    by auto
  let ?x = "Resource_Add u (ResourceList_of req)"
  have "res_dims ?x = agg_dims m req"
    using assms(2)
    by (simp add: res_dims_def agg_dims_def skeys_Add_ResourceList_of k image_Un Un_ac)
  moreover have "wf_map (ScalarResources ?x)"
    using wf_Resource_Add [OF wf(1)] by (simp add: wf_Resource_def)
  ultimately show ?thesis
    by (simp add: aggregatedUsedOverMinWith_def f [simplified] cmp_iff a amount_Add_ResourceList_of assms(2))
qed

text \<open>
  The aggregate check compares, in every dimension, the use of all quotas plus the request
  with the sum of all guaranteed minima; it never panics on quotas the plugin made.
\<close>

theorem aggregatedUsedOverMinWith_spec:
  assumes "list_all (\<lambda>(_, e). eq_ok e) m" and "wf_Resource req"
  shows "aggregatedUsedOverMinWith m req =
    Some (\<exists>d \<in> agg_dims m req.
      slt (\<Sum>(_, e) \<leftarrow> m. eq_min e d) ((\<Sum>(_, e) \<leftarrow> m. eq_used e d) + amount req d))"
  using assms by (rule aggregated_iff)

text \<open>A concrete quota map for the witnesses: two namespaces, one of them with CPU bounds.\<close>

definition demo_quota :: ElasticQuotaInfo where
  "demo_quota = newElasticQuotaInfo ''ns1'' (Some [(ResourceCPU, 4 * 10 ^ 9)]) (Some [(ResourceCPU, 6 * 10 ^ 9)]) None"

definition demo_quotas :: ElasticQuotaInfos where
  "demo_quotas = [(''ns1'', demo_quota), (''ns2'', newElasticQuotaInfo ''ns2'' None None None)]"

lemma demo_quotas_ok: "eqs_ok demo_quotas"
  by (simp add: eqs_ok_def demo_quotas_def demo_quota_def wf_map_def)

theorem aggregatedUsedOverMinWith_spec_witness:
  "\<exists>b. aggregatedUsedOverMinWith demo_quotas (computePodResourceRequest demo_pod) = Some b"
  using aggregatedUsedOverMinWith_spec [of demo_quotas "computePodResourceRequest demo_pod"]
    demo_quotas_ok by (simp add: eqs_ok_def)

text \<open>
  The outcome of the aggregate check does not depend on the order in which Go visits the map of
  quotas.
\<close>

theorem aggregatedUsedOverMinWith_order:
  assumes "list_all (\<lambda>(_, e). eq_ok e) m" and "wf_Resource req" and "mset m' = mset m"
  shows "aggregatedUsedOverMinWith m' req = aggregatedUsedOverMinWith m req"
proof -
  have "set m' = set m" using assms(3) by (metis set_mset_mset)
  moreover from this assms(1) have "list_all (\<lambda>(_, e). eq_ok e) m'" by (simp add: list_all_iff)
  moreover have "(\<Sum>x \<leftarrow> m'. g x) = (\<Sum>x \<leftarrow> m. g x)" for g :: "string \<times> ElasticQuotaInfo \<Rightarrow> int64"
    using assms(3) by (rule sum_list_mset_eq)
  ultimately show ?thesis
    using assms by (simp add: aggregated_iff agg_dims_def)
qed

theorem aggregatedUsedOverMinWith_order_witness:
  "aggregatedUsedOverMinWith (rev demo_quotas) (computePodResourceRequest demo_pod) =
   aggregatedUsedOverMinWith demo_quotas (computePodResourceRequest demo_pod)"
  using aggregatedUsedOverMinWith_order [of demo_quotas "computePodResourceRequest demo_pod" "rev demo_quotas"]
    demo_quotas_ok by (simp add: eqs_ok_def)

text \<open>
  \<open>computePodResourceRequest\<close> computes in every dimension the sum over the app containers,
  raised to each init container's request, plus the pod overhead (in int64 arithmetic).
\<close>

theorem computePodResourceRequest_spec:
  assumes "wf_Pod pod"
  shows "amount (computePodResourceRequest pod) d =
    foldl (rl_raise d) (\<Sum>c \<leftarrow> pod_containers pod. rl_amount (ctr_requests c) d)
      (map ctr_requests (pod_initContainers pod)) + rl_amount (pod_overhead pod) d"
  using assms unfolding wf_Pod_def computePodResourceRequest_def Let_def
  by (simp add: amount_Resource_Add amount_foldl_SetMax amount_foldl_Add)

theorem computePodResourceRequest_spec_witness:
  "amount (computePodResourceRequest demo_pod) DCPU = 2000 \<and>
   amount (computePodResourceRequest demo_pod) (DScalar ''nvidia.com/gpu'') = 1"
  unfolding computePodResourceRequest_spec [OF demo_wf_Pod] by code_simp

text \<open>
  \<open>usedOverMaxWith\<close> answers whether use plus request exceeds the maximum in some requested
  dimension, and a "no" is a guarantee about the true integer sums whenever they fit in 64 bits: the
  quota's maximum is not exceeded by admitting the request.
\<close>

theorem usedOverMaxWith_safe:
  assumes "eq_ok e" and "wf_Resource req" and "usedOverMaxWith e req = Some False"
    and "d \<in> res_dims req" and "in_int64 (sint (amount req d) + sint (eq_used e d))"
  shows "sint (amount req d) + sint (eq_used e d) \<le> sint (eq_limit e d)"
proof -
  from assms(1) obtain mx u where e: "eq_Max e = Some mx" "eq_Used e = Some u" by (rule eq_okE)
  have "wf_map (ScalarResources req)" using assms(2) by (simp add: wf_Resource_def)
  with assms(3,4) have "\<not> slt (eq_limit e d) (amount req d + eq_used e d)"
    by (auto simp: usedOverMaxWith_def e cmp2_iff eq_limit_def eq_used_def)
  with sint_add64 [OF assms(5)] show ?thesis by (simp add: slt_def)
qed

theorem usedOverMaxWith_safe_witness:
  "sint (amount (computePodResourceRequest demo_pod) DCPU) + sint (eq_used demo_quota DCPU)
     \<le> sint (eq_limit demo_quota DCPU)"
proof (rule usedOverMaxWith_safe)
  show "eq_ok demo_quota" by (simp add: demo_quota_def)
  show "wf_Resource (computePodResourceRequest demo_pod)" by simp
  show "usedOverMaxWith demo_quota (computePodResourceRequest demo_pod) = Some False"
    by code_simp
  show "DCPU \<in> res_dims (computePodResourceRequest demo_pod)" by (simp add: res_dims_def)
  show "in_int64 (sint (amount (computePodResourceRequest demo_pod) DCPU) + sint (eq_used demo_quota DCPU))"
    by code_simp
qed



end
