(* ===== verification/CapacityScheduling.thy ===== *)
theory CapacityScheduling
  imports ElasticQuota
begin

text \<open>
  The plugin of \<open>pkg/capacityscheduling/capacity_scheduling.go\<close>: \<open>PreFilter\<close> with its snapshot, the
  pre-filter extensions \<open>AddPod\<close>/\<open>RemovePod\<close>, \<open>Reserve\<close>/\<open>Unreserve\<close>, and the informer handlers. The
  plugin's state is the map of quotas; each handler holds the lock for its whole body, so a run of
  the plugin is a sequence of handler calls (\<open>handle\<close>, \<open>cs_reachable\<close>).

  What lies outside: the node lister and the nominated pods are arguments of \<open>PreFilter\<close>, the answer
  of the API server's list call is an argument of \<open>addPod\<close>.
\<close>

section \<open>State\<close>

record PreFilterState =
  podReq :: Resource
  nominatedPodsReqInEQWithPodReq :: Resource
  nominatedPodsReqWithPodReq :: Resource

datatype StateData =
    SD_PreFilter PreFilterState
  | SD_Snapshot ElasticQuotaInfos
  | SD_Other

record CapacityScheduling =
  elasticQuotaInfos :: ElasticQuotaInfos

text \<open>The \<open>ElasticQuota\<close> API object; a nil \<open>Min\<close> or \<open>Max\<close> is \<^const>\<open>None\<close>.\<close>

record ElasticQuota =
  eqo_namespace :: string
  eqo_min :: "ResourceList option"
  eqo_max :: "ResourceList option"

definition preFilterStateKey :: string where
  "preFilterStateKey = ''PreFilterCapacityScheduling''"

definition ElasticQuotaSnapshotKey :: string where
  "ElasticQuotaSnapshotKey = ''ElasticQuotaSnapshot''"

lemma keys_distinct [simp]:
  "preFilterStateKey \<noteq> ElasticQuotaSnapshotKey" "ElasticQuotaSnapshotKey \<noteq> preFilterStateKey"
  by (simp_all add: preFilterStateKey_def ElasticQuotaSnapshotKey_def)

text \<open>The errors of reading the cycle state: key absent, or data of another type.\<close>

definition err_reading :: "string \<Rightarrow> string" where
  "err_reading key = ''error reading '' @ [CHR 0x22] @ key @ [CHR 0x22] @ '' from cycleState: not found''"

definition err_convert :: "string \<Rightarrow> string" where
  "err_convert what = '' convert to '' @ what @ '' error''"

definition getPreFilterState :: "StateData CycleState \<Rightarrow> string + PreFilterState" where
  "getPreFilterState st =
     (case CycleState_Read st preFilterStateKey of
        None \<Rightarrow> Inl (err_reading preFilterStateKey)
      | Some (SD_PreFilter s) \<Rightarrow> Inr s
      | Some _ \<Rightarrow> Inl (err_convert ''NodeResourcesFit.preFilterState''))"

definition getElasticQuotaSnapshotState :: "StateData CycleState \<Rightarrow> string + ElasticQuotaInfos" where
  "getElasticQuotaSnapshotState st =
     (case CycleState_Read st ElasticQuotaSnapshotKey of
        None \<Rightarrow> Inl (err_reading ElasticQuotaSnapshotKey)
      | Some (SD_Snapshot m) \<Rightarrow> Inr m
      | Some _ \<Rightarrow> Inl (err_convert ''CapacityScheduling ElasticQuotaSnapshotState''))"

definition snapshotElasticQuota :: "CapacityScheduling \<Rightarrow> ElasticQuotaInfos" where
  "snapshotElasticQuota c = eqs_clone (elasticQuotaInfos c)"

section \<open>PreFilter\<close>

text \<open>The body of the loop over the nominated pods of a node.\<close>

definition nominate_step ::
  "ElasticQuotaInfos \<Rightarrow> Pod \<Rightarrow> Resource \<times> Resource \<Rightarrow> Pod \<Rightarrow> (Resource \<times> Resource) option" where
  "nominate_step infos pod acc p =
     (if pod_uid p = pod_uid pod then Some acc
      else
        (case map_get infos (pod_namespace p) of
           None \<Rightarrow> Some acc
         | Some info \<Rightarrow>
             (let pResourceRequest = ResourceList_of (computePodResourceRequest p)
              in if pod_namespace p = pod_namespace pod \<and> PodPriority p \<ge> PodPriority pod then
                   Some (Resource_Add (fst acc) pResourceRequest, Resource_Add (snd acc) pResourceRequest)
                 else if pod_namespace p \<noteq> pod_namespace pod then
                   map_option
                     (\<lambda>over. if \<not> over then (fst acc, Resource_Add (snd acc) pResourceRequest) else acc)
                     (usedOverMin info)
                 else Some acc)))"

definition msg_more_than_max :: "Pod \<Rightarrow> ElasticQuotaInfo \<Rightarrow> string" where
  "msg_more_than_max pod eq =
     ''Pod '' @ pod_namespace pod @ ''/'' @ pod_name pod @
     '' is rejected in PreFilter because ElasticQuota '' @ eq_Namespace eq @ '' is more than Max''"

definition msg_more_than_min :: "Pod \<Rightarrow> string" where
  "msg_more_than_min pod =
     ''Pod '' @ pod_namespace pod @ ''/'' @ pod_name pod @
     '' is rejected in PreFilter because total ElasticQuota used is more than min''"

text \<open>
  \<open>nodeList\<close> is the result of listing the node infos (the node names, or an error),
  \<open>NominatedPodsForNode\<close> the framework handle's lookup. The result is the cycle state as written and
  the status; the \<open>PreFilterResult\<close> is always nil.
\<close>

definition PreFilter ::
  "CapacityScheduling \<Rightarrow> (string + string list) \<Rightarrow> (string \<Rightarrow> Pod list) \<Rightarrow>
   StateData CycleState \<Rightarrow> Pod \<Rightarrow> (StateData CycleState \<times> Status) option" where
  "PreFilter c nodeList NominatedPodsForNode state pod =
     (let infos = snapshotElasticQuota c;
          req = computePodResourceRequest pod;
          state = CycleState_Write state ElasticQuotaSnapshotKey (SD_Snapshot infos)
      in case map_get infos (pod_namespace pod) of
           None \<Rightarrow>
             Some (CycleState_Write state preFilterStateKey
                     (SD_PreFilter \<lparr>podReq = req, nominatedPodsReqInEQWithPodReq = empty_Resource,
                                   nominatedPodsReqWithPodReq = empty_Resource\<rparr>),
                   NewStatus Success [])
         | Some eq \<Rightarrow>
             (case nodeList of
                Inl err \<Rightarrow> Some (state, NewStatus Error [''Error getting the nodelist: '' @ err])
              | Inr nodes \<Rightarrow> do {
                  (inEQ, inAll) \<leftarrow>
                    foldM (\<lambda>acc node. foldM (nominate_step (elasticQuotaInfos c) pod) acc (NominatedPodsForNode node))
                      (empty_Resource, empty_Resource) nodes;
                  let inEQ = Resource_Add inEQ (ResourceList_of req);
                  let inAll = Resource_Add inAll (ResourceList_of req);
                  let state = CycleState_Write state preFilterStateKey
                    (SD_PreFilter \<lparr>podReq = req, nominatedPodsReqInEQWithPodReq = inEQ,
                                  nominatedPodsReqWithPodReq = inAll\<rparr>);
                  overMax \<leftarrow> usedOverMaxWith eq inEQ;
                  if overMax then Some (state, NewStatus Unschedulable [msg_more_than_max pod eq])
                  else do {
                    overMin \<leftarrow> aggregatedUsedOverMinWith infos inAll;
                    if overMin then Some (state, NewStatus Unschedulable [msg_more_than_min pod])
                    else Some (state, NewStatus Success [[]])
                  }
                }))"

section \<open>Operations on one namespace's quota\<close>

text \<open>
  The shared shape of the handlers that look the quota of a namespace up and add or delete a pod in
  it: absent quota, error (the quota is unchanged, the error is reported) or the updated map.
\<close>

definition on_quota ::
  "(ElasticQuotaInfo \<Rightarrow> Pod \<Rightarrow> (string + ElasticQuotaInfo) option) \<Rightarrow> ElasticQuotaInfos \<Rightarrow> Pod \<Rightarrow>
   (string option \<times> ElasticQuotaInfos) option" where
  "on_quota f infos pod =
     (case map_get infos (pod_namespace pod) of
        None \<Rightarrow> Some (None, infos)
      | Some e \<Rightarrow>
          (case f e pod of
             None \<Rightarrow> None
           | Some (Inl err) \<Rightarrow> Some (Some err, infos)
           | Some (Inr e') \<Rightarrow> Some (None, map_set (pod_namespace pod) e' infos)))"

definition AddPod :: "StateData CycleState \<Rightarrow> Pod \<Rightarrow> (StateData CycleState \<times> Status) option" where
  "AddPod cycleState podToAdd =
     (case getElasticQuotaSnapshotState cycleState of
        Inl err \<Rightarrow> Some (cycleState, NewStatus Error [err])
      | Inr infos \<Rightarrow>
          map_option (\<lambda>(_, infos'). (CycleState_Write cycleState ElasticQuotaSnapshotKey (SD_Snapshot infos'),
                                    NewStatus Success [[]]))
            (on_quota addPodIfNotPresent infos podToAdd))"

definition RemovePod :: "StateData CycleState \<Rightarrow> Pod \<Rightarrow> (StateData CycleState \<times> Status) option" where
  "RemovePod cycleState podToRemove =
     (case getElasticQuotaSnapshotState cycleState of
        Inl err \<Rightarrow> Some (cycleState, NewStatus Error [err])
      | Inr infos \<Rightarrow>
          map_option (\<lambda>(_, infos'). (CycleState_Write cycleState ElasticQuotaSnapshotKey (SD_Snapshot infos'),
                                    NewStatus Success [[]]))
            (on_quota deletePodIfPresent infos podToRemove))"

definition Reserve :: "CapacityScheduling \<Rightarrow> Pod \<Rightarrow> (CapacityScheduling \<times> Status) option" where
  "Reserve c pod =
     map_option (\<lambda>(err, infos'). (c\<lparr>elasticQuotaInfos := infos'\<rparr>,
                   case err of Some e \<Rightarrow> NewStatus Error [e] | None \<Rightarrow> NewStatus Success [[]]))
       (on_quota addPodIfNotPresent (elasticQuotaInfos c) pod)"

definition Unreserve :: "CapacityScheduling \<Rightarrow> Pod \<Rightarrow> CapacityScheduling option" where
  "Unreserve c pod =
     map_option (\<lambda>(_, infos'). c\<lparr>elasticQuotaInfos := infos'\<rparr>)
       (on_quota deletePodIfPresent (elasticQuotaInfos c) pod)"

section \<open>Informer handlers\<close>

definition addElasticQuota :: "CapacityScheduling \<Rightarrow> ElasticQuota \<Rightarrow> CapacityScheduling" where
  "addElasticQuota c eq =
     (case map_get (elasticQuotaInfos c) (eqo_namespace eq) of
        Some _ \<Rightarrow> c
      | None \<Rightarrow>
          c\<lparr>elasticQuotaInfos :=
              map_set (eqo_namespace eq)
                (newElasticQuotaInfo (eqo_namespace eq) (eqo_min eq) (eqo_max eq) None)
                (elasticQuotaInfos c)\<rparr>)"

text \<open>
  The new quota takes over the pods and the use of the old one. The two objects are versions of one
  API object, whose namespace never changes, so the taken-over pointers keep a single owner.
\<close>

definition updateElasticQuota :: "CapacityScheduling \<Rightarrow> ElasticQuota \<Rightarrow> ElasticQuota \<Rightarrow> CapacityScheduling" where
  "updateElasticQuota c oldEQ newEQ =
     (let new = newElasticQuotaInfo (eqo_namespace newEQ) (eqo_min newEQ) (eqo_max newEQ) None;
          new' = (case map_get (elasticQuotaInfos c) (eqo_namespace oldEQ) of
                    Some old \<Rightarrow> new\<lparr>eq_pods := eq_pods old, eq_Used := eq_Used old\<rparr>
                  | None \<Rightarrow> new)
      in c\<lparr>elasticQuotaInfos := map_set (eqo_namespace newEQ) new' (elasticQuotaInfos c)\<rparr>)"

definition deleteElasticQuota :: "CapacityScheduling \<Rightarrow> ElasticQuota \<Rightarrow> CapacityScheduling" where
  "deleteElasticQuota c eq =
     c\<lparr>elasticQuotaInfos := map_del (eqo_namespace eq) (elasticQuotaInfos c)\<rparr>"

text \<open>\<open>eqList\<close> is the API server's answer to listing the quotas of the pod's namespace.\<close>

definition addPod :: "CapacityScheduling \<Rightarrow> (string + ElasticQuota list) \<Rightarrow> Pod \<Rightarrow> CapacityScheduling option" where
  "addPod c eqList pod =
     (let finish = (\<lambda>ns e. case addPodIfNotPresent e pod of
                      None \<Rightarrow> None
                    | Some (Inl err) \<Rightarrow> Some (c\<lparr>elasticQuotaInfos := map_set ns e (elasticQuotaInfos c)\<rparr>)
                    | Some (Inr e') \<Rightarrow> Some (c\<lparr>elasticQuotaInfos := map_set ns e' (elasticQuotaInfos c)\<rparr>))
      in case map_get (elasticQuotaInfos c) (pod_namespace pod) of
           Some e \<Rightarrow> finish (pod_namespace pod) e
         | None \<Rightarrow>
             (case eqList of
                Inl err \<Rightarrow> Some c
              | Inr [] \<Rightarrow> Some c
              | Inr (eq # _) \<Rightarrow>
                  finish (eqo_namespace eq)
                    (newElasticQuotaInfo (eqo_namespace eq) (eqo_min eq) (eqo_max eq) None)))"

definition updatePod :: "CapacityScheduling \<Rightarrow> Pod \<Rightarrow> Pod \<Rightarrow> CapacityScheduling option" where
  "updatePod c oldPod newPod =
     (if pod_phase oldPod = PodSucceeded \<or> pod_phase oldPod = PodFailed then Some c
      else if pod_phase newPod \<noteq> PodRunning \<and> pod_phase newPod \<noteq> PodPending then
        map_option (\<lambda>(_, infos'). c\<lparr>elasticQuotaInfos := infos'\<rparr>)
          (on_quota deletePodIfPresent (elasticQuotaInfos c) newPod)
      else Some c)"

definition deletePod :: "CapacityScheduling \<Rightarrow> Pod \<Rightarrow> CapacityScheduling option" where
  "deletePod c pod =
     map_option (\<lambda>(_, infos'). c\<lparr>elasticQuotaInfos := infos'\<rparr>)
       (on_quota deletePodIfPresent (elasticQuotaInfos c) pod)"

text \<open>The informer passes on only pods that are assigned to a node.\<close>

definition assignedPod :: "Pod \<Rightarrow> bool" where
  "assignedPod pod \<longleftrightarrow> length (pod_nodeName pod) \<noteq> 0"

section \<open>Runs of the plugin\<close>

datatype Event =
    EvAddElasticQuota ElasticQuota
  | EvUpdateElasticQuota ElasticQuota ElasticQuota
  | EvDeleteElasticQuota ElasticQuota
  | EvAddPod "string + ElasticQuota list" Pod
  | EvUpdatePod "string + ElasticQuota list" Pod Pod
  | EvDeletePod Pod
  | EvReserve Pod
  | EvUnreserve Pod

text \<open>
  The pod handlers sit behind client-go's \<open>FilteringResourceEventHandler\<close> with the filter
  \<open>assignedPod\<close>: an update that makes a pod pass the filter is delivered as an addition, one that
  makes it fail the filter as a deletion.
\<close>

fun handle :: "CapacityScheduling \<Rightarrow> Event \<Rightarrow> CapacityScheduling option" where
  "handle c (EvAddElasticQuota eq) = Some (addElasticQuota c eq)"
| "handle c (EvUpdateElasticQuota oldEQ newEQ) = Some (updateElasticQuota c oldEQ newEQ)"
| "handle c (EvDeleteElasticQuota eq) = Some (deleteElasticQuota c eq)"
| "handle c (EvAddPod eqList pod) = (if assignedPod pod then addPod c eqList pod else Some c)"
| "handle c (EvUpdatePod eqList oldPod newPod) =
     (if assignedPod newPod \<and> assignedPod oldPod then updatePod c oldPod newPod
      else if assignedPod newPod then addPod c eqList newPod
      else if assignedPod oldPod then deletePod c oldPod
      else Some c)"
| "handle c (EvDeletePod pod) = (if assignedPod pod then deletePod c pod else Some c)"
| "handle c (EvReserve pod) = map_option fst (Reserve c pod)"
| "handle c (EvUnreserve pod) = Unreserve c pod"

text \<open>
  \<open>canon\<close> gives the request each pod UID stands for: pod objects with one UID are versions of one
  pod, whose resource requests are immutable.
\<close>

definition pod_canon :: "(string \<Rightarrow> dim \<Rightarrow> int64) \<Rightarrow> Pod \<Rightarrow> bool" where
  "pod_canon canon pod \<longleftrightarrow> amount (computePodResourceRequest pod) = canon (pod_uid pod)"

fun event_ok :: "(string \<Rightarrow> dim \<Rightarrow> int64) \<Rightarrow> Event \<Rightarrow> bool" where
  "event_ok canon (EvAddPod _ pod) = pod_canon canon pod"
| "event_ok canon (EvUpdatePod _ oldPod newPod) = (pod_canon canon oldPod \<and> pod_canon canon newPod)"
| "event_ok canon (EvDeletePod pod) = pod_canon canon pod"
| "event_ok canon (EvReserve pod) = pod_canon canon pod"
| "event_ok canon (EvUnreserve pod) = pod_canon canon pod"
| "event_ok canon _ = True"

definition init_CapacityScheduling :: CapacityScheduling where
  "init_CapacityScheduling = \<lparr>elasticQuotaInfos = NewElasticQuotaInfos\<rparr>"

inductive cs_reachable :: "(string \<Rightarrow> dim \<Rightarrow> int64) \<Rightarrow> CapacityScheduling \<Rightarrow> bool"
  for canon where
  init: "cs_reachable canon init_CapacityScheduling"
| step: "cs_reachable canon c \<Longrightarrow> event_ok canon ev \<Longrightarrow> handle c ev = Some c' \<Longrightarrow> cs_reachable canon c'"

section \<open>The invariant\<close>

definition quota_exact :: "(string \<Rightarrow> dim \<Rightarrow> int64) \<Rightarrow> ElasticQuotaInfo \<Rightarrow> bool" where
  "quota_exact canon e \<longleftrightarrow> eq_ok e \<and> (\<forall>d. eq_used e d = (\<Sum>k \<in> eq_pods e. canon k d))"

definition infos_inv :: "(string \<Rightarrow> dim \<Rightarrow> int64) \<Rightarrow> ElasticQuotaInfos \<Rightarrow> bool" where
  "infos_inv canon m \<longleftrightarrow> wf_map m \<and> (\<forall>ns e. map_of m ns = Some e \<longrightarrow> quota_exact canon e)"

lemma quota_exact_balanced: "quota_exact canon e \<longleftrightarrow> eq_ledger.balanced (\<lambda>_. 0) canon e"
  by (auto simp: quota_exact_def eq_ledger.balanced_def eq_ok_def)

lemma infos_inv_eqs_ok: "infos_inv canon m \<Longrightarrow> eqs_ok m"
  by (auto simp: infos_inv_def eqs_ok_def quota_exact_def list_all_iff wf_map_def)

lemma quota_exact_new [simp]: "quota_exact canon (newElasticQuotaInfo ns mn mx None)"
  by (simp add: quota_exact_def eq_used_new, simp add: newElasticQuotaInfo_def Let_def)

lemma infos_inv_set: "infos_inv canon m \<Longrightarrow> quota_exact canon e \<Longrightarrow> infos_inv canon (map_set ns e m)"
  by (simp add: infos_inv_def map_of_set)

lemma infos_inv_del: "infos_inv canon m \<Longrightarrow> infos_inv canon (map_del ns m)"
  by (simp add: infos_inv_def map_of_del)

lemma infos_inv_lookup: "infos_inv canon m \<Longrightarrow> map_of m ns = Some e \<Longrightarrow> quota_exact canon e"
  by (simp add: infos_inv_def)

text \<open>One ledger operation never panics and keeps the quota exact, whatever the pod.\<close>

lemma addPodIfNotPresent_exact:
  assumes "quota_exact canon e" and "pod_canon canon pod"
  shows "\<exists>r. addPodIfNotPresent e pod = Some r \<and> (\<forall>e'. r = Inr e' \<longrightarrow> quota_exact canon e')"
proof (cases "pod_uid pod = []")
  case True
  then show ?thesis by (simp add: empty_uid_error)
next
  case False
  have "eq_ok e" using assms(1) by (simp add: quota_exact_def)
  then obtain e' where e': "addPodIfNotPresent e pod = Some (Inr e')"
    using False by (rule addPodIfNotPresent_ok)
  have "quota_exact canon (eq_add e pod)"
    using assms False eq_ledger.balanced_add [of "\<lambda>_. 0" canon e pod]
    by (simp add: quota_exact_balanced pod_canon_def)
  with e' show ?thesis by (simp add: eq_add_def eq_after_def)
qed

lemma deletePodIfPresent_exact:
  assumes "quota_exact canon e" and "pod_canon canon pod"
  shows "\<exists>r. deletePodIfPresent e pod = Some r \<and> (\<forall>e'. r = Inr e' \<longrightarrow> quota_exact canon e')"
proof (cases "pod_uid pod = []")
  case True
  then show ?thesis by (simp add: empty_uid_error)
next
  case False
  have "eq_ok e" using assms(1) by (simp add: quota_exact_def)
  then obtain e' where e': "deletePodIfPresent e pod = Some (Inr e')"
    using False by (rule deletePodIfPresent_ok)
  have "quota_exact canon (eq_del e pod)"
    using assms False eq_ledger.balanced_del [of "\<lambda>_. 0" canon e pod]
    by (simp add: quota_exact_balanced pod_canon_def)
  with e' show ?thesis by (simp add: eq_del_def eq_after_def)
qed

lemma on_quota_inv:
  assumes "infos_inv canon m"
    and "\<And>e. quota_exact canon e \<Longrightarrow> \<exists>r. f e pod = Some r \<and> (\<forall>e'. r = Inr e' \<longrightarrow> quota_exact canon e')"
  obtains err m' where "on_quota f m pod = Some (err, m')" "infos_inv canon m'"
proof (cases "map_of m (pod_namespace pod)")
  case None
  then show thesis using assms(1) that by (simp add: on_quota_def)
next
  case (Some e)
  from assms(2) [OF infos_inv_lookup [OF assms(1) Some]]
  obtain r where "f e pod = Some r" "\<And>e'. r = Inr e' \<Longrightarrow> quota_exact canon e'" by blast
  then show thesis using Some that assms(1)
    by (cases r) (auto simp: on_quota_def infos_inv_set)
qed

lemma on_quota_add:
  assumes "infos_inv canon m" and "pod_canon canon pod"
  shows "\<exists>err m'. on_quota addPodIfNotPresent m pod = Some (err, m') \<and> infos_inv canon m'"
  by (rule on_quota_inv [where f = addPodIfNotPresent and pod = pod, OF assms(1)])
    (use addPodIfNotPresent_exact [OF _ assms(2)] in blast)+

lemma on_quota_del:
  assumes "infos_inv canon m" and "pod_canon canon pod"
  shows "\<exists>err m'. on_quota deletePodIfPresent m pod = Some (err, m') \<and> infos_inv canon m'"
  by (rule on_quota_inv [where f = deletePodIfPresent and pod = pod, OF assms(1)])
    (use deletePodIfPresent_exact [OF _ assms(2)] in blast)+

lemma addPod_inv:
  assumes "infos_inv canon (elasticQuotaInfos c)" and "pod_canon canon pod"
  obtains c' where "addPod c eqList pod = Some c'" "infos_inv canon (elasticQuotaInfos c')"
proof -
  define finish where "finish = (\<lambda>ns e. case addPodIfNotPresent e pod of
      None \<Rightarrow> None
    | Some (Inl err) \<Rightarrow> Some (c\<lparr>elasticQuotaInfos := map_set ns e (elasticQuotaInfos c)\<rparr>)
    | Some (Inr e') \<Rightarrow> Some (c\<lparr>elasticQuotaInfos := map_set ns e' (elasticQuotaInfos c)\<rparr>))"
  have fin: "\<exists>c'. finish ns e = Some c' \<and> infos_inv canon (elasticQuotaInfos c')" if "quota_exact canon e" for ns e
  proof -
    from addPodIfNotPresent_exact [OF that assms(2)] obtain r where
      "addPodIfNotPresent e pod = Some r" "\<And>e'. r = Inr e' \<Longrightarrow> quota_exact canon e'" by blast
    with that assms(1) show ?thesis by (cases r) (auto simp: finish_def infos_inv_set)
  qed
  have "\<exists>c'. addPod c eqList pod = Some c' \<and> infos_inv canon (elasticQuotaInfos c')"
    unfolding addPod_def finish_def [symmetric] Let_def
    using fin infos_inv_lookup [OF assms(1)] assms(1) by (auto split: option.splits sum.splits list.splits)
  then show thesis using that by blast
qed

lemma handle_inv:
  assumes "infos_inv canon (elasticQuotaInfos c)" and "event_ok canon ev"
  shows "\<exists>c'. handle c ev = Some c' \<and> infos_inv canon (elasticQuotaInfos c')"
proof (cases ev)
  case (EvAddElasticQuota eq)
  then show ?thesis using assms by (auto simp: addElasticQuota_def infos_inv_set split: option.splits)
next
  case (EvUpdateElasticQuota oldEQ newEQ)
  have "quota_exact canon (newElasticQuotaInfo ns mn mx None\<lparr>eq_pods := eq_pods e, eq_Used := eq_Used e\<rparr>)"
    if "quota_exact canon e" for ns mn mx e
    using that quota_exact_new [of canon ns mn mx] by (auto simp: quota_exact_def eq_ok_def eq_used_def)
  then show ?thesis
    using assms EvUpdateElasticQuota infos_inv_lookup [OF assms(1)]
    by (auto simp: updateElasticQuota_def Let_def intro!: infos_inv_set split: option.splits)
next
  case (EvDeleteElasticQuota eq)
  then show ?thesis using assms by (simp add: deleteElasticQuota_def infos_inv_del)
next
  case (EvAddPod l pod)
  with assms show ?thesis by (auto elim!: addPod_inv [of canon c pod l])
next
  case (EvUpdatePod l oldPod newPod)
  with assms show ?thesis
    using on_quota_del [OF assms(1), of newPod] on_quota_del [OF assms(1), of oldPod]
    by (auto simp: updatePod_def deletePod_def elim!: addPod_inv [of canon c newPod l])
next
  case (EvDeletePod pod)
  with assms show ?thesis using on_quota_del [OF assms(1), of pod] by (auto simp: deletePod_def)
next
  case (EvReserve pod)
  with assms show ?thesis using on_quota_add [OF assms(1), of pod] by (auto simp: Reserve_def)
next
  case (EvUnreserve pod)
  with assms show ?thesis using on_quota_del [OF assms(1), of pod] by (auto simp: Unreserve_def)
qed

lemma cs_reachable_inv: "cs_reachable canon c \<Longrightarrow> infos_inv canon (elasticQuotaInfos c)"
proof (induction rule: cs_reachable.induct)
  case init
  then show ?case by (simp add: init_CapacityScheduling_def NewElasticQuotaInfos_def infos_inv_def)
next
  case (step c ev c')
  then show ?case using handle_inv [of canon c ev] by auto
qed

section \<open>Properties of a run\<close>

text \<open>
  C1. In every reachable state of the plugin, the use recorded for a namespace is exactly the sum
  of the requests of the pods recorded there: no interleaving of informer events with
  \<open>Reserve\<close>/\<open>Unreserve\<close> charges a pod twice or leaves a released pod charged.
\<close>

theorem capacity_ledger_exact:
  assumes "cs_reachable canon c" and "map_of (elasticQuotaInfos c) ns = Some e"
  shows "eq_used e d = (\<Sum>k \<in> eq_pods e. canon k d)"
  using infos_inv_lookup [OF cs_reachable_inv [OF assms(1)] assms(2)] by (simp add: quota_exact_def)

definition demo_canon :: "string \<Rightarrow> dim \<Rightarrow> int64" where
  "demo_canon = (\<lambda>_. amount (computePodResourceRequest demo_pod))"

definition demo_eq :: ElasticQuota where
  "demo_eq = \<lparr>eqo_namespace = ''ns1'', eqo_min = Some [(ResourceCPU, 4 * 10 ^ 9)],
     eqo_max = Some [(ResourceCPU, 6 * 10 ^ 9), (''nvidia.com/gpu'', 4 * 10 ^ 9)]\<rparr>"

definition demo_state0 :: CapacityScheduling where
  "demo_state0 = addElasticQuota init_CapacityScheduling demo_eq"

definition demo_state :: CapacityScheduling where
  "demo_state = fst (the (Reserve demo_state0 demo_pod))"

lemma demo_pod_canon: "pod_canon demo_canon demo_pod"
  by (simp add: pod_canon_def demo_canon_def)

lemma demo_state0_reachable: "cs_reachable canon demo_state0"
  by (rule cs_reachable.step [OF cs_reachable.init, of _ "EvAddElasticQuota demo_eq"])
    (simp_all add: demo_state0_def)

lemma demo_state_reachable: "cs_reachable demo_canon demo_state"
proof (rule cs_reachable.step [OF demo_state0_reachable, of _ "EvReserve demo_pod"])
  show "event_ok demo_canon (EvReserve demo_pod)" by (simp add: demo_pod_canon)
  then show "handle demo_state0 (EvReserve demo_pod) = Some demo_state"
    using handle_inv [OF cs_reachable_inv [OF demo_state0_reachable [of demo_canon]], of "EvReserve demo_pod"]
    by (auto simp: demo_state_def)
qed

theorem capacity_ledger_exact_witness:
  "\<exists>e. map_of (elasticQuotaInfos demo_state) ''ns1'' = Some e \<and> eq_pods e = {''u1''} \<and>
     eq_used e DCPU = (\<Sum>k \<in> eq_pods e. demo_canon k DCPU)"
proof -
  have "map_option eq_pods (map_of (elasticQuotaInfos demo_state) ''ns1'') = Some {''u1''}"
    by code_simp
  then obtain e where e: "map_of (elasticQuotaInfos demo_state) ''ns1'' = Some e" "eq_pods e = {''u1''}"
    by auto
  with capacity_ledger_exact [OF demo_state_reachable e(1), of DCPU] show ?thesis by blast
qed



section \<open>The verdict of PreFilter\<close>

text \<open>The two kinds of nominated pods that count against the pod being scheduled.\<close>

definition same_quota_nominee :: "ElasticQuotaInfos \<Rightarrow> Pod \<Rightarrow> Pod \<Rightarrow> bool" where
  "same_quota_nominee infos pod p \<longleftrightarrow>
     pod_uid p \<noteq> pod_uid pod \<and> map_of infos (pod_namespace p) \<noteq> None \<and>
     pod_namespace p = pod_namespace pod \<and> PodPriority p \<ge> PodPriority pod"

definition other_quota_nominee :: "ElasticQuotaInfos \<Rightarrow> Pod \<Rightarrow> Pod \<Rightarrow> bool" where
  "other_quota_nominee infos pod p \<longleftrightarrow>
     pod_uid p \<noteq> pod_uid pod \<and> pod_namespace p \<noteq> pod_namespace pod \<and>
     (case map_of infos (pod_namespace p) of None \<Rightarrow> False | Some info \<Rightarrow> usedOverMin info = Some False)"

definition nominate :: "ElasticQuotaInfos \<Rightarrow> Pod \<Rightarrow> Resource \<times> Resource \<Rightarrow> Pod \<Rightarrow> Resource \<times> Resource" where
  "nominate infos pod acc p =
     (let rl = ResourceList_of (computePodResourceRequest p)
      in (if same_quota_nominee infos pod p then Resource_Add (fst acc) rl else fst acc,
          if same_quota_nominee infos pod p \<or> other_quota_nominee infos pod p
          then Resource_Add (snd acc) rl else snd acc))"

lemma usedOverMin_ok: "eq_ok e \<Longrightarrow> \<exists>b. usedOverMin e = Some b"
  by (auto simp: usedOverMin_def eq_ok_def split: option.splits)

lemma nominate_step_eq:
  assumes "eqs_ok infos"
  shows "nominate_step infos pod acc p = Some (nominate infos pod acc p)"
proof (cases "map_of infos (pod_namespace p)")
  case None
  then show ?thesis
    by (simp add: nominate_step_def nominate_def same_quota_nominee_def other_quota_nominee_def)
next
  case (Some info)
  from usedOverMin_ok [OF eqs_ok_lookup [OF assms Some]] obtain b where "usedOverMin info = Some b" by blast
  with Some show ?thesis
    by (auto simp: nominate_step_def nominate_def same_quota_nominee_def other_quota_nominee_def Let_def)
qed

lemma nominate_amounts:
  "amount (fst (foldl (nominate infos pod) acc ps)) d = amount (fst acc) d +
     (\<Sum>p \<leftarrow> filter (same_quota_nominee infos pod) ps. amount (computePodResourceRequest p) d)"
  "amount (snd (foldl (nominate infos pod) acc ps)) d = amount (snd acc) d +
     (\<Sum>p \<leftarrow> filter (\<lambda>p. same_quota_nominee infos pod p \<or> other_quota_nominee infos pod p) ps.
        amount (computePodResourceRequest p) d)"
  by (rule foldl_add_sum_filter [where h = "\<lambda>acc. amount (fst acc) d"],
      simp add: nominate_def Let_def amount_Add_ResourceList_of)
    (rule foldl_add_sum_filter [where h = "\<lambda>acc. amount (snd acc) d"],
      simp add: nominate_def Let_def amount_Add_ResourceList_of)

lemma nominate_wf:
  "wf_Resource (fst acc) \<and> wf_Resource (snd acc) \<Longrightarrow>
   wf_Resource (fst (foldl (nominate infos pod) acc ps)) \<and> wf_Resource (snd (foldl (nominate infos pod) acc ps))"
  by (induction ps arbitrary: acc) (auto simp: nominate_def Let_def)

text \<open>The two sums \<open>PreFilter\<close> stores: the request with the nominees of its quota, and with all.\<close>

definition inEQ_of :: "ElasticQuotaInfos \<Rightarrow> Pod \<Rightarrow> Pod list \<Rightarrow> Resource" where
  "inEQ_of infos pod ps =
     Resource_Add (fst (foldl (nominate infos pod) (empty_Resource, empty_Resource) ps))
       (ResourceList_of (computePodResourceRequest pod))"

definition inAll_of :: "ElasticQuotaInfos \<Rightarrow> Pod \<Rightarrow> Pod list \<Rightarrow> Resource" where
  "inAll_of infos pod ps =
     Resource_Add (snd (foldl (nominate infos pod) (empty_Resource, empty_Resource) ps))
       (ResourceList_of (computePodResourceRequest pod))"

lemma amount_inEQ_of:
  "amount (inEQ_of infos pod ps) d =
     (\<Sum>p \<leftarrow> filter (same_quota_nominee infos pod) ps. amount (computePodResourceRequest p) d) +
     amount (computePodResourceRequest pod) d"
  by (simp add: inEQ_of_def amount_Add_ResourceList_of nominate_amounts)

lemma amount_inAll_of:
  "amount (inAll_of infos pod ps) d =
     (\<Sum>p \<leftarrow> filter (\<lambda>p. same_quota_nominee infos pod p \<or> other_quota_nominee infos pod p) ps.
        amount (computePodResourceRequest p) d) +
     amount (computePodResourceRequest pod) d"
  by (simp add: inAll_of_def amount_Add_ResourceList_of nominate_amounts)

lemma wf_inEQ_of [simp]: "wf_Resource (inEQ_of infos pod ps)" "wf_Resource (inAll_of infos pod ps)"
  using nominate_wf [of "(empty_Resource, empty_Resource)" infos pod ps] by (simp_all add: inEQ_of_def inAll_of_def)

lemma res_dims_inEQ_of: "res_dims (computePodResourceRequest pod) \<subseteq> res_dims (inEQ_of infos pod ps)"
  by (auto simp: res_dims_def inEQ_of_def skeys_Add_ResourceList_of)

lemma usedOverMaxWith_eq:
  assumes "eq_ok e" and "wf_Resource req"
  shows "usedOverMaxWith e req = Some (\<exists>d \<in> res_dims req. slt (eq_limit e d) (amount req d + eq_used e d))"
proof -
  from assms(1) obtain mx u where "eq_Max e = Some mx" "eq_Used e = Some u" by (rule eq_okE)
  moreover have "wf_map (ScalarResources req)" using assms(2) by (simp add: wf_Resource_def)
  ultimately show ?thesis by (simp add: usedOverMaxWith_def cmp2_iff eq_limit_def eq_used_def)
qed

lemma aggregated_Some: "eqs_ok infos \<Longrightarrow> wf_Resource req \<Longrightarrow> \<exists>b. aggregatedUsedOverMinWith infos req = Some b"
  unfolding eqs_ok_def aggregatedUsedOverMinWith_def
  using foldM_aggregate [of infos "NewResource []" "NewResource []"] by auto

lemma PreFilter_quota_eq:
  fixes nodes :: "string list" and nominated :: "string \<Rightarrow> Pod list"
  assumes "eqs_ok (elasticQuotaInfos c)" and "map_of (elasticQuotaInfos c) (pod_namespace pod) = Some eq"
  defines "ps \<equiv> concat (map nominated nodes)"
  defines "inEQ \<equiv> inEQ_of (elasticQuotaInfos c) pod ps" and "inAll \<equiv> inAll_of (elasticQuotaInfos c) pod ps"
  shows "PreFilter c (Inr nodes) nominated st pod =
    Some (CycleState_Write (CycleState_Write st ElasticQuotaSnapshotKey (SD_Snapshot (elasticQuotaInfos c)))
            preFilterStateKey
            (SD_PreFilter \<lparr>podReq = computePodResourceRequest pod, nominatedPodsReqInEQWithPodReq = inEQ,
                          nominatedPodsReqWithPodReq = inAll\<rparr>),
          if usedOverMaxWith eq inEQ = Some True then NewStatus Unschedulable [msg_more_than_max pod eq]
          else if aggregatedUsedOverMinWith (elasticQuotaInfos c) inAll = Some True
               then NewStatus Unschedulable [msg_more_than_min pod]
          else NewStatus Success [[]])"
proof -
  have fold: "foldM (\<lambda>acc node. foldM (nominate_step (elasticQuotaInfos c) pod) acc (nominated node)) s nodes =
      Some (foldl (nominate (elasticQuotaInfos c) pod) s ps)" for s
    unfolding foldM_concat ps_def
    by (rule foldM_Some_foldl) (rule nominate_step_eq [OF assms(1)])
  obtain b1 where "usedOverMaxWith eq inEQ = Some b1"
    using usedOverMaxWith_eq [OF eqs_ok_lookup [OF assms(1,2)]] by (simp add: inEQ_def)
  moreover obtain b2 where "aggregatedUsedOverMinWith (elasticQuotaInfos c) inAll = Some b2"
    using aggregated_Some [OF assms(1) wf_inEQ_of(2)] unfolding inAll_def by blast
  ultimately show ?thesis
    by (simp add: PreFilter_def Let_def snapshotElasticQuota_def assms(2) fold split_beta
        flip: inEQ_of_def inAll_of_def inEQ_def inAll_def)
qed

text \<open>
  C2. \<open>PreFilter\<close> on a quota's namespace, in a reachable plugin state: it returns, records the
  snapshot and the request sums in the cycle state, and its verdict is "unschedulable" exactly when
  the request together with the more important nominated pods of the namespace would exceed the
  quota's maximum, or together with all counted nominated pods would exceed the sum of the minima.
\<close>

theorem PreFilter_verdict:
  assumes "cs_reachable canon c" and "map_of (elasticQuotaInfos c) (pod_namespace pod) = Some eq"
  shows "\<exists>st' s inEQ inAll. PreFilter c (Inr nodes) nominated st pod = Some (st', s) \<and>
    getElasticQuotaSnapshotState st' = Inr (elasticQuotaInfos c) \<and>
    getPreFilterState st' = Inr \<lparr>podReq = computePodResourceRequest pod,
      nominatedPodsReqInEQWithPodReq = inEQ, nominatedPodsReqWithPodReq = inAll\<rparr> \<and>
    (\<forall>d. amount inEQ d =
      (\<Sum>p \<leftarrow> filter (same_quota_nominee (elasticQuotaInfos c) pod) (concat (map nominated nodes)).
         amount (computePodResourceRequest p) d) + amount (computePodResourceRequest pod) d) \<and>
    (\<forall>d. amount inAll d =
      (\<Sum>p \<leftarrow> filter (\<lambda>p. same_quota_nominee (elasticQuotaInfos c) pod p \<or>
                           other_quota_nominee (elasticQuotaInfos c) pod p) (concat (map nominated nodes)).
         amount (computePodResourceRequest p) d) + amount (computePodResourceRequest pod) d) \<and>
    st_code s =
      (if (\<exists>d \<in> res_dims inEQ. slt (eq_limit eq d) (amount inEQ d + eq_used eq d)) \<or>
          (\<exists>d \<in> agg_dims (elasticQuotaInfos c) inAll.
             slt (\<Sum>(_, e) \<leftarrow> elasticQuotaInfos c. eq_min e d)
               ((\<Sum>(_, e) \<leftarrow> elasticQuotaInfos c. eq_used e d) + amount inAll d))
       then Unschedulable else Success)"
proof -
  let ?ps = "concat (map nominated nodes)"
  let ?inEQ = "inEQ_of (elasticQuotaInfos c) pod ?ps" and ?inAll = "inAll_of (elasticQuotaInfos c) pod ?ps"
  have ok: "eqs_ok (elasticQuotaInfos c)"
    by (rule infos_inv_eqs_ok [OF cs_reachable_inv [OF assms(1)]])
  note verdict = PreFilter_quota_eq [OF ok assms(2), of nodes nominated st]
  have agg: "aggregatedUsedOverMinWith (elasticQuotaInfos c) ?inAll = Some (\<exists>d \<in> agg_dims (elasticQuotaInfos c) ?inAll.
      slt (\<Sum>(_, e) \<leftarrow> elasticQuotaInfos c. eq_min e d)
        ((\<Sum>(_, e) \<leftarrow> elasticQuotaInfos c. eq_used e d) + amount ?inAll d))"
    using ok by (intro aggregated_iff) (simp_all add: eqs_ok_def)
  show ?thesis
    by (rule exI, rule exI, rule exI [of _ ?inEQ], rule exI [of _ ?inAll], intro conjI, rule verdict)
      (simp_all add: getElasticQuotaSnapshotState_def getPreFilterState_def amount_inEQ_of
        usedOverMaxWith_eq [OF eqs_ok_lookup [OF ok assms(2)]] agg amount_inAll_of)
qed

theorem PreFilter_verdict_witness:
  "\<exists>st' s. PreFilter demo_state (Inr []) (\<lambda>_. []) (\<lambda>_. None) demo_pod = Some (st', s)"
proof -
  have "map_of (elasticQuotaInfos demo_state) (pod_namespace demo_pod) \<noteq> None" by code_simp
  then obtain eq where "map_of (elasticQuotaInfos demo_state) (pod_namespace demo_pod) = Some eq" by blast
  from PreFilter_verdict [OF demo_state_reachable this] show ?thesis by blast
qed

section \<open>The pre-filter extensions\<close>

text \<open>Two quotas that agree in everything the plugin reads.\<close>

definition eq_equiv :: "ElasticQuotaInfo \<Rightarrow> ElasticQuotaInfo \<Rightarrow> bool" where
  "eq_equiv e e' \<longleftrightarrow>
     eq_Namespace e' = eq_Namespace e \<and> eq_pods e' = eq_pods e \<and> eq_Min e' = eq_Min e \<and>
     eq_Max e' = eq_Max e \<and> eq_used e' = eq_used e"

lemma eq_equiv_refl [simp]: "eq_equiv e e"
  by (simp add: eq_equiv_def)

lemma delete_after_add:
  assumes "eq_ok e" and "pod_uid pod \<noteq> []" and "pod_uid pod \<notin> eq_pods e"
  obtains e1 e2 where "addPodIfNotPresent e pod = Some (Inr e1)" "deletePodIfPresent e1 pod = Some (Inr e2)"
    "eq_equiv e e2"
proof -
  from assms(1,2) obtain e1 where 1: "addPodIfNotPresent e pod = Some (Inr e1)" "eq_ok e1"
    "eq_Min e1 = eq_Min e" "eq_Max e1 = eq_Max e" "eq_Namespace e1 = eq_Namespace e"
    by (rule addPodIfNotPresent_ok)
  from 1(2) assms(2) obtain e2 where 2: "deletePodIfPresent e1 pod = Some (Inr e2)"
    "eq_Min e2 = eq_Min e1" "eq_Max e2 = eq_Max e1" "eq_Namespace e2 = eq_Namespace e1"
    by (rule deletePodIfPresent_ok)
  have e2: "e2 = eq_del (eq_add e pod) pod"
    by (simp add: eq_add_def eq_del_def eq_after_def 1 2)
  have "eq_used e2 = eq_used e" "eq_pods e2 = eq_pods e"
    using eq_ledger.del_add_used [OF assms] eq_ledger.del_add_has [OF assms] by (auto simp: e2)
  with 1 2 show thesis by (intro that [of e1 e2]) (auto simp: eq_equiv_def)
qed

text \<open>
  \<open>RemovePod\<close> undoes \<open>AddPod\<close> on the cycle state: when a pod that its quota does not hold yet is
  added and removed again, both calls succeed, every quota of the snapshot reads as before, and the
  request sums stored by \<open>PreFilter\<close> are untouched.
\<close>

theorem AddPod_RemovePod_roundtrip:
  assumes "getElasticQuotaSnapshotState st = Inr infos" and "eqs_ok infos" and "pod_uid pod \<noteq> []"
    and "\<forall>e. map_of infos (pod_namespace pod) = Some e \<longrightarrow> pod_uid pod \<notin> eq_pods e"
  shows "\<exists>st1 st2 infos'. AddPod st pod = Some (st1, NewStatus Success [[]]) \<and>
    RemovePod st1 pod = Some (st2, NewStatus Success [[]]) \<and>
    getElasticQuotaSnapshotState st2 = Inr infos' \<and>
    (\<forall>ns. rel_option eq_equiv (map_of infos ns) (map_of infos' ns)) \<and>
    getPreFilterState st2 = getPreFilterState st"
proof (cases "map_of infos (pod_namespace pod)")
  case None
  then show ?thesis using assms(1)
    by (auto simp: AddPod_def RemovePod_def on_quota_def getElasticQuotaSnapshotState_def
        getPreFilterState_def option.rel_refl)
next
  case (Some e)
  from assms(4) Some have "pod_uid pod \<notin> eq_pods e" by simp
  from delete_after_add [OF eqs_ok_lookup [OF assms(2) Some] assms(3) this]
  obtain e1 e2 where e: "addPodIfNotPresent e pod = Some (Inr e1)" "deletePodIfPresent e1 pod = Some (Inr e2)"
    "eq_equiv e e2" .
  then show ?thesis using assms(1) Some
    by (auto simp: AddPod_def RemovePod_def on_quota_def getElasticQuotaSnapshotState_def
        getPreFilterState_def map_of_set option.rel_refl)
qed

theorem AddPod_RemovePod_roundtrip_witness:
  "\<exists>st1. AddPod (\<lambda>_. Some (SD_Snapshot demo_quotas)) demo_pod = Some (st1, NewStatus Success [[]])"
proof -
  have 1: "getElasticQuotaSnapshotState (\<lambda>_. Some (SD_Snapshot demo_quotas)) = Inr demo_quotas"
    by (simp add: getElasticQuotaSnapshotState_def CycleState_Read_def)
  have 3: "pod_uid demo_pod \<noteq> []" by (simp add: demo_pod_def)
  have 4: "\<forall>e. map_of demo_quotas (pod_namespace demo_pod) = Some e \<longrightarrow> pod_uid demo_pod \<notin> eq_pods e"
    by (simp add: demo_quotas_def demo_quota_def newElasticQuotaInfo_def demo_pod_def Let_def)
  from AddPod_RemovePod_roundtrip [OF 1 demo_quotas_ok 3 4] show ?thesis by blast
qed

end
