(* ===== verification/FrameworkNode.thy ===== *)
theory FrameworkNode
  imports UtilResource
begin

text \<open>
  The scheduler framework's node info (\<open>framework/types.go\<close>): its pod list with the swap-with-last
  removal, and for the clients that read them the resource totals that \<open>RemovePod\<close> and \<open>AddPod\<close>
  maintain. A pod's own request vector, \<open>calculateResource\<close>, is an argument: it depends on feature
  gates of the scheduler.
\<close>

section \<open>Node info\<close>

record NodeInfo =
  ni_name :: string
  ni_pods :: "Pod list"

fun index_of_key :: "string \<Rightarrow> Pod list \<Rightarrow> nat option" where
  "index_of_key k [] = None"
| "index_of_key k (p # ps) = (if pod_uid p = k then Some 0 else map_option Suc (index_of_key k ps))"

text \<open>\<open>NodeInfo.RemovePod\<close>: the last pod takes the place of the removed one.\<close>

definition NodeInfo_RemovePod :: "'a NodeInfo_scheme \<Rightarrow> Pod \<Rightarrow> string + 'a NodeInfo_scheme" where
  "NodeInfo_RemovePod n pod =
     (case GetPodKey pod of
        Inl err \<Rightarrow> Inl err
      | Inr k \<Rightarrow>
          (case index_of_key k (ni_pods n) of
             Some i \<Rightarrow> Inr (n\<lparr>ni_pods := butlast ((ni_pods n)[i := last (ni_pods n)])\<rparr>)
           | None \<Rightarrow> Inl (''no corresponding pod '' @ pod_name pod @ '' in pods of node '' @ ni_name n)))"

definition NodeInfo_AddPodInfo :: "'a NodeInfo_scheme \<Rightarrow> Pod \<Rightarrow> 'a NodeInfo_scheme" where
  "NodeInfo_AddPodInfo n pod = n\<lparr>ni_pods := ni_pods n @ [pod]\<rparr>"

text \<open>A node info with its totals; \<open>ni_hasNode\<close> is false when \<open>Node()\<close> returns nil.\<close>

record FNodeInfo = NodeInfo +
  ni_hasNode :: bool
  ni_allocatable :: Resource
  ni_requested :: Resource

text \<open>\<open>NodeInfo.update\<close> with sign \<open>s\<close> (1 or -1) on the requested totals.\<close>

definition NodeInfo_update :: "(Pod \<Rightarrow> Resource) \<Rightarrow> FNodeInfo \<Rightarrow> Pod \<Rightarrow> int64 \<Rightarrow> FNodeInfo" where
  "NodeInfo_update calc n pod sign =
     (let res = calc pod; r = ni_requested n;
          r' = r\<lparr>MilliCPU := MilliCPU r + sign * MilliCPU res, Memory := Memory r + sign * Memory res,
                 EphemeralStorage := EphemeralStorage r + sign * EphemeralStorage res\<rparr>
      in n\<lparr>ni_requested := foldl (\<lambda>r (rName, rQuant). AddScalar r rName (sign * rQuant)) r' (ScalarResources res)\<rparr>)"

definition FNodeInfo_RemovePod :: "(Pod \<Rightarrow> Resource) \<Rightarrow> FNodeInfo \<Rightarrow> Pod \<Rightarrow> string + FNodeInfo" where
  "FNodeInfo_RemovePod calc n pod =
     (case NodeInfo_RemovePod n pod of
        Inl err \<Rightarrow> Inl err
      | Inr n' \<Rightarrow> Inr (NodeInfo_update calc n' pod (- 1)))"

section \<open>Removal\<close>

lemma index_of_key_Some:
  "index_of_key k ps = Some i \<Longrightarrow> i < length ps \<and> pod_uid (ps ! i) = k \<and> (\<forall>j < i. pod_uid (ps ! j) \<noteq> k)"
proof (induction ps arbitrary: i)
  case (Cons p ps)
  then show ?case
    by (fastforce split: if_splits simp: less_Suc_eq_0_disj)
qed simp

lemma index_of_key_None: "index_of_key k ps = None \<longleftrightarrow> (\<forall>p \<in> set ps. pod_uid p \<noteq> k)"
  by (induction ps) auto

lemma mset_swap_remove:
  assumes "i < length xs"
  shows "mset (butlast (xs[i := last xs])) = mset xs - {#xs ! i#}"
proof -
  let ?ys = "xs[i := last xs]"
  have ne: "?ys \<noteq> []" using assms by auto
  have "last ?ys = last xs" using assms by (subst last_list_update) (auto simp: last_conv_nth)
  moreover have "add_mset (last ?ys) (mset (butlast ?ys)) = mset ?ys"
    using append_butlast_last_id [OF ne] by (metis add.commute mset.simps mset_append union_mset_add_mset_right add.right_neutral)
  ultimately show ?thesis using assms by (simp add: mset_update)
qed

lemma NodeInfo_RemovePod_mset:
  assumes "NodeInfo_RemovePod n p = Inr n'"
  obtains q where "q \<in> set (ni_pods n)" "pod_uid q = pod_uid p" "mset (ni_pods n') = mset (ni_pods n) - {#q#}"
proof -
  from assms obtain i where i: "index_of_key (pod_uid p) (ni_pods n) = Some i"
    "ni_pods n' = butlast ((ni_pods n)[i := last (ni_pods n)])"
    by (auto simp: NodeInfo_RemovePod_def GetPodKey_def split: option.splits if_splits)
  from index_of_key_Some [OF i(1)] mset_swap_remove [of i "ni_pods n"] i(2) show thesis
    by (intro that [of "ni_pods n ! i"]) auto
qed

lemma amount_add_scalars:
  "amount (foldl (\<lambda>r (n, q). AddScalar r n (s * q)) r es) d =
     amount r d + s * (\<Sum>(n, q) \<leftarrow> es. if d = DScalar n then q else 0)"
  by (induction es arbitrary: r) (auto simp: amount_AddScalar algebra_simps)

lemma sum_scalar_entries:
  "wf_map es \<Longrightarrow> (\<Sum>(n, q) \<leftarrow> es. if d = DScalar n then q else 0) =
     (case d of DScalar n \<Rightarrow> map_getd 0 es n | _ \<Rightarrow> (0 :: int64))"
proof (induction es)
  case Nil
  then show ?case by (simp split: dim.splits)
next
  case (Cons e es)
  then show ?case
    by (cases e)
      (auto dest!: wf_map_ConsD simp: map_getd_Cons map_getd_def map_of_absent case_prod_beta' split: dim.splits)
qed

text \<open>\<open>update\<close> moves the requested totals by the pod's vector; the pod slots are counted by the list.\<close>

lemma amount_NodeInfo_update:
  assumes "wf_Resource (calc pod)"
  shows "amount (ni_requested (NodeInfo_update calc n pod s)) d =
    amount (ni_requested n) d + (if d = DPods then 0 else s * amount (calc pod) d)"
proof -
  have wf: "wf_map (ScalarResources (calc pod))" using assms by (simp add: wf_Resource_def)
  show ?thesis
    by (simp add: NodeInfo_update_def Let_def amount_add_scalars sum_scalar_entries [OF wf] del: amount.simps)
      (cases d; simp)
qed

lemma NodeInfo_update_keeps [simp]:
  "ni_pods (NodeInfo_update calc n pod s) = ni_pods n"
  "ni_allocatable (NodeInfo_update calc n pod s) = ni_allocatable n"
  "ni_hasNode (NodeInfo_update calc n pod s) = ni_hasNode n"
  "ni_name (NodeInfo_update calc n pod s) = ni_name n"
  by (simp_all add: NodeInfo_update_def Let_def)

end
