(* ===== verification/CapacityPreemption.thy ===== *)
theory CapacityPreemption
  imports CapacityScheduling FrameworkNode
begin

text \<open>
  Preemption in \<open>pkg/capacityscheduling/capacity_scheduling.go\<close>: the eligibility of a preemptor, the
  selection of victims on a node, and the split of victims by disruption budgets.

  Arguments that stand for code outside the plugin, collected in \<open>Handle\<close>: the framework's filter
  run and pre-filter extension runs (they call every plugin), the sort of the standard library
  (any permutation may come out of \<open>sort.Slice\<close> for equal elements), and \<open>MoreImportantPod\<close>, which
  reads the clock for pods that have not started.
\<close>

record Handle =
  RunFilterPluginsWithNominatedPods :: "StateData CycleState \<Rightarrow> Pod \<Rightarrow> NodeInfo \<Rightarrow> Status"
  RunPreFilterExtensionAddPod ::
    "StateData CycleState \<Rightarrow> Pod \<Rightarrow> Pod \<Rightarrow> NodeInfo \<Rightarrow> StateData CycleState \<times> Status"
  RunPreFilterExtensionRemovePod ::
    "StateData CycleState \<Rightarrow> Pod \<Rightarrow> Pod \<Rightarrow> NodeInfo \<Rightarrow> StateData CycleState \<times> Status"
  MoreImportantPod :: "Pod \<Rightarrow> Pod \<Rightarrow> bool"
  sortSlice :: "(Pod \<Rightarrow> Pod \<Rightarrow> bool) \<Rightarrow> Pod list \<Rightarrow> Pod list"

text \<open>\<open>Status.AsError\<close>: no error for success, wait and skip.\<close>

definition AsError :: "Status \<Rightarrow> string option" where
  "AsError s = (if st_code s \<in> {Success, Wait, Skip} then None else Some (str_join '', '' (st_reasons s)))"

section \<open>Disruption budgets\<close>

record Selector =
  sel_Empty :: bool
  sel_Matches :: "(string, string) gomap \<Rightarrow> bool"

text \<open>\<open>pdb_selector\<close> is the result of converting the budget's label selector.\<close>

record PodDisruptionBudget =
  pdb_namespace :: string
  pdb_selector :: "string + Selector"
  pdb_disruptedPods :: "string list"
  pdb_disruptionsAllowed :: int

definition pdb_hits :: "Pod \<Rightarrow> PodDisruptionBudget \<Rightarrow> bool" where
  "pdb_hits pod pdb =
     (if pdb_namespace pdb \<noteq> pod_namespace pod then False
      else (case pdb_selector pdb of
              Inl err \<Rightarrow> False
            | Inr selector \<Rightarrow>
                if sel_Empty selector \<or> \<not> sel_Matches selector (pod_labels pod) then False
                else pod_name pod \<notin> set (pdb_disruptedPods pdb)))"

text \<open>The inner loop: decrement every budget the pod hits; violated when one drops below zero.\<close>

fun pdb_charge :: "Pod \<Rightarrow> PodDisruptionBudget list \<Rightarrow> int list \<Rightarrow> bool \<times> int list" where
  "pdb_charge pod (pdb # pdbs) (a # as) =
     (let (viol, as') = pdb_charge pod pdbs as
      in if pdb_hits pod pdb then (viol \<or> a - 1 < 0, (a - 1) # as') else (viol, a # as'))"
| "pdb_charge pod _ as = (False, as)"

fun pdb_split :: "PodDisruptionBudget list \<Rightarrow> int list \<Rightarrow> Pod list \<Rightarrow> Pod list \<times> Pod list" where
  "pdb_split pdbs allowed [] = ([], [])"
| "pdb_split pdbs allowed (pod # pods) =
     (let (viol, allowed') = (if pod_labels pod \<noteq> [] then pdb_charge pod pdbs allowed else (False, allowed));
          (v, nv) = pdb_split pdbs allowed' pods
      in if viol then (pod # v, nv) else (v, pod # nv))"

definition filterPodsWithPDBViolation :: "Pod list \<Rightarrow> PodDisruptionBudget list \<Rightarrow> Pod list \<times> Pod list" where
  "filterPodsWithPDBViolation pods pdbs = pdb_split pdbs (map pdb_disruptionsAllowed pdbs) pods"

section \<open>Eligibility of the preemptor\<close>

definition msg_terminating :: string where
  "msg_terminating = ''not eligible due to a terminating pod on the nominated node.''"

text \<open>The loops over the pods of the nominated node; \<^const>\<open>True\<close> when a terminating pod blocks.\<close>

fun eligible_quota_loop :: "ElasticQuotaInfos \<Rightarrow> Pod \<Rightarrow> bool \<Rightarrow> Pod list \<Rightarrow> bool option" where
  "eligible_quota_loop infos pod moreThanMin [] = Some False"
| "eligible_quota_loop infos pod moreThanMin (p # ps) =
     (if pod_deletionTimestamp p = None then eligible_quota_loop infos pod moreThanMin ps
      else (case map_get infos (pod_namespace p) of
              None \<Rightarrow> eligible_quota_loop infos pod moreThanMin ps
            | Some eqInfo \<Rightarrow>
                if pod_namespace p = pod_namespace pod \<and> PodPriority p < PodPriority pod then Some True
                else if pod_namespace p \<noteq> pod_namespace pod \<and> \<not> moreThanMin then
                  (case usedOverMin eqInfo of
                     None \<Rightarrow> None
                   | Some over \<Rightarrow> if over then Some True else eligible_quota_loop infos pod moreThanMin ps)
                else eligible_quota_loop infos pod moreThanMin ps))"

fun eligible_plain_loop :: "ElasticQuotaInfos \<Rightarrow> Pod \<Rightarrow> Pod list \<Rightarrow> bool" where
  "eligible_plain_loop infos pod [] = False"
| "eligible_plain_loop infos pod (p # ps) =
     (if map_get infos (pod_namespace p) \<noteq> None then eligible_plain_loop infos pod ps
      else if pod_deletionTimestamp p \<noteq> None \<and> PodPriority p < PodPriority pod then True
      else eligible_plain_loop infos pod ps)"

text \<open>\<open>getNode\<close> is the node lister's lookup.\<close>

definition PodEligibleToPreemptOthers ::
  "(string \<Rightarrow> NodeInfo option) \<Rightarrow> StateData CycleState \<Rightarrow> Pod \<Rightarrow> Code \<Rightarrow> (bool \<times> string) option" where
  "PodEligibleToPreemptOthers getNode st pod nominatedNodeCode =
     (if pod_preemptionPolicy pod = Some PreemptNever then
        Some (False, ''not eligible due to preemptionPolicy=Never.'')
      else (case getPreFilterState st of
              Inl err \<Rightarrow> Some (False, ''not eligible due to failed to read from cycleState'')
            | Inr preFilterState \<Rightarrow>
                if length (pod_nominatedNodeName pod) > 0 then
                  if nominatedNodeCode = UnschedulableAndUnresolvable then Some (True, [])
                  else (case getElasticQuotaSnapshotState st of
                          Inl err \<Rightarrow> Some (True, [])
                        | Inr infos \<Rightarrow>
                            (case getNode (pod_nominatedNodeName pod) of
                               None \<Rightarrow> Some (True, [])
                             | Some nodeInfo \<Rightarrow>
                                 (case map_get infos (pod_namespace pod) of
                                    Some preemptorEQInfo \<Rightarrow> do {
                                      moreThanMin \<leftarrow> usedOverMinWith preemptorEQInfo
                                        (nominatedPodsReqInEQWithPodReq preFilterState);
                                      blocked \<leftarrow> eligible_quota_loop infos pod moreThanMin (ni_pods nodeInfo);
                                      Some (if blocked then (False, msg_terminating) else (True, []))
                                    }
                                  | None \<Rightarrow>
                                      Some (if eligible_plain_loop infos pod (ni_pods nodeInfo)
                                            then (False, msg_terminating) else (True, [])))))
                else Some (True, [])))"

definition GetOffsetAndNumCandidates :: "int \<Rightarrow> int \<times> int" where
  "GetOffsetAndNumCandidates n = (0, n)"

text \<open>A candidate is a node name with its victims; later candidates of a name win.\<close>

definition CandidatesToVictimsMap :: "(string \<times> Pod list) list \<Rightarrow> (string, Pod list) gomap" where
  "CandidatesToVictimsMap candidates = foldl (\<lambda>m (name, victims). map_set name victims m) [] candidates"

section \<open>Selecting victims on a node\<close>

text \<open>
  The steps below run in a state of the cycle state, the node info and a list of pods, and end in a
  panic (\<^const>\<open>None\<close>), an early return with a status (\<^const>\<open>Inl\<close>) or the next state. \<open>foldE\<close> is
  the loop over a list in that setting.
\<close>

fun foldE :: "('s \<Rightarrow> 'a \<Rightarrow> ('e + 's) option) \<Rightarrow> 's \<Rightarrow> 'a list \<Rightarrow> ('e + 's) option" where
  "foldE f s [] = Some (Inr s)"
| "foldE f s (x # xs) =
     (case f s x of
        None \<Rightarrow> None
      | Some (Inl e) \<Rightarrow> Some (Inl e)
      | Some (Inr s') \<Rightarrow> foldE f s' xs)"

text \<open>The snapshot's map of quotas, read through the pointer that the cycle state holds.\<close>

definition eqs_of :: "StateData CycleState \<Rightarrow> ElasticQuotaInfos" where
  "eqs_of st = (case getElasticQuotaSnapshotState st of Inl _ \<Rightarrow> [] | Inr m \<Rightarrow> m)"

text \<open>The closures \<open>removePod\<close> and \<open>addPod\<close> of \<open>SelectVictimsOnNode\<close>.\<close>

definition sv_removePod ::
  "Handle \<Rightarrow> Pod \<Rightarrow> StateData CycleState \<times> NodeInfo \<Rightarrow> Pod \<Rightarrow> string + (StateData CycleState \<times> NodeInfo)" where
  "sv_removePod h pod s rpi =
     (case NodeInfo_RemovePod (snd s) rpi of
        Inl err \<Rightarrow> Inl err
      | Inr n' \<Rightarrow>
          (let (st', status) = RunPreFilterExtensionRemovePod h (fst s) pod rpi n'
           in if \<not> IsSuccess status then
                (case AsError status of Some err \<Rightarrow> Inl err | None \<Rightarrow> Inr (st', n'))
              else Inr (st', n')))"

definition sv_addPod ::
  "Handle \<Rightarrow> Pod \<Rightarrow> StateData CycleState \<times> NodeInfo \<Rightarrow> Pod \<Rightarrow> string + (StateData CycleState \<times> NodeInfo)" where
  "sv_addPod h pod s api =
     (let n' = NodeInfo_AddPodInfo (snd s) api;
          (st', status) = RunPreFilterExtensionAddPod h (fst s) pod api n'
      in if \<not> IsSuccess status then
           (case AsError status of Some err \<Rightarrow> Inl err | None \<Rightarrow> Inr (st', n'))
         else Inr (st', n'))"

text \<open>Whether a pod of the node is a potential victim; \<open>borrow\<close> is \<open>moreThanMinWithPreemptor\<close>.\<close>

definition quota_victim :: "ElasticQuotaInfos \<Rightarrow> Pod \<Rightarrow> bool \<Rightarrow> Pod \<Rightarrow> bool option" where
  "quota_victim infos pod moreThanMin p =
     (case map_get infos (pod_namespace p) of
        None \<Rightarrow> Some False
      | Some eqInfo \<Rightarrow>
          if moreThanMin then Some (pod_namespace p = pod_namespace pod \<and> PodPriority p < PodPriority pod)
          else if pod_namespace p \<noteq> pod_namespace pod then usedOverMin eqInfo
          else Some False)"

definition plain_victim :: "ElasticQuotaInfos \<Rightarrow> Pod \<Rightarrow> Pod \<Rightarrow> bool option" where
  "plain_victim infos pod p =
     (if map_get infos (pod_namespace p) \<noteq> None then Some False
      else Some (PodPriority p < PodPriority pod))"

text \<open>One iteration of the loop over \<open>nodeInfo.Pods\<close>.\<close>

definition collect_step ::
  "Handle \<Rightarrow> Pod \<Rightarrow> (ElasticQuotaInfos \<Rightarrow> Pod \<Rightarrow> bool option) \<Rightarrow>
   (StateData CycleState \<times> NodeInfo) \<times> Pod list \<Rightarrow> Pod \<Rightarrow>
   (Status + (StateData CycleState \<times> NodeInfo) \<times> Pod list) option" where
  "collect_step h pod isVictim acc p =
     (case isVictim (eqs_of (fst (fst acc))) p of
        None \<Rightarrow> None
      | Some False \<Rightarrow> Some (Inr acc)
      | Some True \<Rightarrow>
          (case sv_removePod h pod (fst acc) p of
             Inl err \<Rightarrow> Some (Inl (AsStatus err))
           | Inr s' \<Rightarrow> Some (Inr (s', snd acc @ [p]))))"

text \<open>The quota check on the preemptor: over its maximum, or all quotas over the sum of minima.\<close>

definition preemptor_over_quota ::
  "StateData CycleState \<Rightarrow> Pod \<Rightarrow> Resource \<Rightarrow> Resource \<Rightarrow> bool option" where
  "preemptor_over_quota st pod reqEQ reqAll =
     (case map_get (eqs_of st) (pod_namespace pod) of
        None \<Rightarrow> Some False
      | Some e \<Rightarrow> do {
          overMax \<leftarrow> usedOverMaxWith e reqEQ;
          if overMax then Some True else aggregatedUsedOverMinWith (eqs_of st) reqAll
        })"

text \<open>The closure \<open>reprievePod\<close>; the result holds whether the pod fits.\<close>

definition reprievePod ::
  "Handle \<Rightarrow> Pod \<Rightarrow> bool \<Rightarrow> PreFilterState \<Rightarrow>
   (StateData CycleState \<times> NodeInfo) \<times> Pod list \<Rightarrow> Pod \<Rightarrow>
   (string + bool \<times> (StateData CycleState \<times> NodeInfo) \<times> Pod list) option" where
  "reprievePod h pod withEQ pfs acc pi =
     (case sv_addPod h pod (fst acc) pi of
        Inl err \<Rightarrow> Some (Inl err)
      | Inr s1 \<Rightarrow>
          (let fits = IsSuccess (RunFilterPluginsWithNominatedPods h (fst s1) pod (snd s1))
           in case (if \<not> fits then
                      (case sv_removePod h pod s1 pi of Inl err \<Rightarrow> Inl err | Inr s2 \<Rightarrow> Inr (s2, snd acc @ [pi]))
                    else Inr (s1, snd acc)) of
                Inl err \<Rightarrow> Some (Inl err)
              | Inr (s2, victims) \<Rightarrow>
                  (case (if withEQ then preemptor_over_quota (fst s2) pod
                                          (nominatedPodsReqInEQWithPodReq pfs) (nominatedPodsReqWithPodReq pfs)
                         else Some False) of
                     None \<Rightarrow> None
                   | Some True \<Rightarrow>
                       (case sv_removePod h pod s2 pi of
                          Inl err \<Rightarrow> Some (Inl err)
                        | Inr s3 \<Rightarrow> Some (Inr (fits, s3, victims @ [pi])))
                   | Some False \<Rightarrow> Some (Inr (fits, s2, victims)))))"

text \<open>The two reprieve loops: the first also counts the pods that do not fit.\<close>

definition reprieve_step ::
  "Handle \<Rightarrow> Pod \<Rightarrow> bool \<Rightarrow> PreFilterState \<Rightarrow>
   ((StateData CycleState \<times> NodeInfo) \<times> Pod list) \<times> nat \<Rightarrow> Pod \<Rightarrow>
   (Status + ((StateData CycleState \<times> NodeInfo) \<times> Pod list) \<times> nat) option" where
  "reprieve_step h pod withEQ pfs acc pi =
     (case reprievePod h pod withEQ pfs (fst acc) pi of
        None \<Rightarrow> None
      | Some (Inl err) \<Rightarrow> Some (Inl (AsStatus err))
      | Some (Inr (fits, acc')) \<Rightarrow> Some (Inr (acc', if fits then snd acc else Suc (snd acc))))"

definition reprieve_all ::
  "Handle \<Rightarrow> Pod \<Rightarrow> bool \<Rightarrow> PreFilterState \<Rightarrow> (StateData CycleState \<times> NodeInfo) \<Rightarrow>
   Pod list \<Rightarrow> Pod list \<Rightarrow> (Status + ((StateData CycleState \<times> NodeInfo) \<times> Pod list) \<times> nat) option" where
  "reprieve_all h pod withEQ pfs s violating nonViolating =
     (case foldE (reprieve_step h pod withEQ pfs) ((s, []), 0) violating of
        None \<Rightarrow> None
      | Some (Inl e) \<Rightarrow> Some (Inl e)
      | Some (Inr (acc, n)) \<Rightarrow>
          (case foldE (reprieve_step h pod withEQ pfs) (acc, n) nonViolating of
             None \<Rightarrow> None
           | Some (Inl e) \<Rightarrow> Some (Inl e)
           | Some (Inr (acc', _)) \<Rightarrow> Some (Inr (acc', n))))"

text \<open>The part after the collection of potential victims.\<close>

definition choose_victims ::
  "Handle \<Rightarrow> Pod \<Rightarrow> bool \<Rightarrow> PreFilterState \<Rightarrow> PodDisruptionBudget list \<Rightarrow> string \<Rightarrow>
   (StateData CycleState \<times> NodeInfo) \<times> Pod list \<Rightarrow> (Pod list \<times> nat \<times> Status) option" where
  "choose_victims h pod withEQ pfs pdbs nodeName acc =
     (let s = fst acc; potentialVictims = snd acc
      in if potentialVictims = [] then
           Some ([], 0, NewStatus UnschedulableAndUnresolvable
             [''No victims found on node '' @ nodeName @ '' for preemptor pod '' @ pod_name pod])
         else let fit = RunFilterPluginsWithNominatedPods h (fst s) pod (snd s)
         in if \<not> IsSuccess fit then Some ([], 0, fit)
         else
           (case (if withEQ then preemptor_over_quota (fst s) pod (podReq pfs) (podReq pfs) else Some False) of
              None \<Rightarrow> None
            | Some True \<Rightarrow> Some ([], 0, NewStatus Unschedulable [''global quota max exceeded''])
            | Some False \<Rightarrow>
                (let (violating, nonViolating) =
                       filterPodsWithPDBViolation (sortSlice h (MoreImportantPod h) potentialVictims) pdbs
                 in case reprieve_all h pod withEQ pfs s violating nonViolating of
                      None \<Rightarrow> None
                    | Some (Inl status) \<Rightarrow> Some ([], 0, status)
                    | Some (Inr ((_, victims), numViolatingVictim)) \<Rightarrow>
                        Some (victims, numViolatingVictim, NewStatus Success []))))"

definition SelectVictimsOnNode ::
  "Handle \<Rightarrow> StateData CycleState \<Rightarrow> Pod \<Rightarrow> NodeInfo \<Rightarrow> PodDisruptionBudget list \<Rightarrow>
   (Pod list \<times> nat \<times> Status) option" where
  "SelectVictimsOnNode h st pod nodeInfo pdbs =
     (case getElasticQuotaSnapshotState st of
        Inl _ \<Rightarrow> Some ([], 0, NewStatus Unschedulable [''Failed to read elasticQuotaSnapshot from cycleState''])
      | Inr infos \<Rightarrow>
     (case getPreFilterState st of
        Inl _ \<Rightarrow> Some ([], 0, NewStatus Unschedulable [''Failed to read preFilterState from cycleState''])
      | Inr pfs \<Rightarrow>
          (let pods = sortSlice h (\<lambda>a b. \<not> MoreImportantPod h a b) (ni_pods nodeInfo);
               n = nodeInfo\<lparr>ni_pods := pods\<rparr>
           in case (case map_get infos (pod_namespace pod) of
                      Some eq \<Rightarrow>
                        map_option (\<lambda>moreThanMin m p. quota_victim m pod moreThanMin p)
                          (usedOverMinWith eq (nominatedPodsReqInEQWithPodReq pfs))
                    | None \<Rightarrow> Some (\<lambda>m p. plain_victim m pod p)) of
                None \<Rightarrow> None
              | Some isVictim \<Rightarrow>
                  (case foldE (collect_step h pod isVictim) ((st, n), []) pods of
                     None \<Rightarrow> None
                   | Some (Inl status) \<Rightarrow> Some ([], 0, status)
                   | Some (Inr acc) \<Rightarrow>
                       choose_victims h pod (map_get infos (pod_namespace pod) \<noteq> None) pfs pdbs (ni_name nodeInfo) acc))))"

section \<open>Removing pods while ranging over them\<close>

text \<open>
  \<open>SelectVictimsOnNode\<close> ranges over \<open>nodeInfo.Pods\<close> while \<open>RemovePod\<close> rewrites the same backing
  array: it overwrites the slot of the removed pod with the last pod and shortens the slice. Go
  evaluates the range expression once, so the loop reads the slots \<open>0, 1, ...\<close> of the array up to
  the original length. A slice is modelled here as its backing array and its current length.
\<close>

definition slice_remove :: "string \<Rightarrow> Pod list \<times> nat \<Rightarrow> Pod list \<times> nat" where
  "slice_remove k sl =
     (case index_of_key k (take (snd sl) (fst sl)) of
        Some i \<Rightarrow> ((fst sl)[i := fst sl ! (snd sl - 1)], snd sl - 1)
      | None \<Rightarrow> sl)"

text \<open>The loop over slots; \<open>pick\<close> decides from its own state whether the pod is removed.\<close>

fun range_loop ::
  "('s \<Rightarrow> Pod \<Rightarrow> 's \<times> bool) \<Rightarrow> nat list \<Rightarrow> 's \<Rightarrow> Pod list \<times> nat \<Rightarrow> Pod list \<Rightarrow> Pod list" where
  "range_loop pick [] s sl seen = seen"
| "range_loop pick (j # js) s sl seen =
     (let p = fst sl ! j; (s', remove) = pick s p
      in range_loop pick js s' (if remove then slice_remove (pod_uid p) sl else sl) (seen @ [p]))"

lemma slice_remove_later_slots:
  assumes "n \<le> length arr" and "j < length arr" and "j < m" and "m < length arr"
  shows "fst (slice_remove (pod_uid (arr ! j)) (arr, n)) ! m = arr ! m"
proof (cases "index_of_key (pod_uid (arr ! j)) (take n arr)")
  case (Some i)
  from index_of_key_Some [OF Some] have i: "i < n" "\<forall>l < i. pod_uid (take n arr ! l) \<noteq> pod_uid (arr ! j)"
    by auto
  have "i \<le> j"
  proof (rule ccontr)
    assume "\<not> i \<le> j"
    with i show False by (metis not_le nth_take order.strict_trans)
  qed
  with Some assms show ?thesis by (simp add: slice_remove_def)
qed (simp add: slice_remove_def)

lemma slice_remove_length:
  assumes "n \<le> length arr"
  shows "length (fst (slice_remove k (arr, n))) = length arr \<and> snd (slice_remove k (arr, n)) \<le> length arr"
  using assms by (auto simp: slice_remove_def split: option.splits)

lemma range_loop_visits:
  assumes "n \<le> length arr" and "length arr = length arr0" and "\<forall>m < length arr0. j \<le> m \<longrightarrow> arr ! m = arr0 ! m"
    and "j \<le> length arr0"
  shows "range_loop pick [j ..< length arr0] s (arr, n) seen = seen @ drop j arr0"
  using assms
proof (induction "length arr0 - j" arbitrary: j s arr n seen)
  case 0
  then show ?case by simp
next
  case (Suc d)
  then have j: "j < length arr0" by simp
  obtain s' remove where pick: "pick s (arr ! j) = (s', remove)" by (cases "pick s (arr ! j)")
  obtain arr' n' where sl: "(if remove then slice_remove (pod_uid (arr ! j)) (arr, n) else (arr, n)) = (arr', n')"
    by (metis surj_pair)
  have len: "length arr' = length arr0 \<and> n' \<le> length arr'"
    using sl slice_remove_length [OF Suc.prems(1), of "pod_uid (arr ! j)"] Suc.prems(1,2) by (auto split: if_splits)
  have keep: "\<forall>m < length arr0. Suc j \<le> m \<longrightarrow> arr' ! m = arr0 ! m"
  proof (intro allI impI)
    fix m assume m: "m < length arr0" "Suc j \<le> m"
    then have "arr' ! m = arr ! m"
      using sl slice_remove_later_slots [OF Suc.prems(1), of j m] Suc.prems(2) by (auto split: if_splits)
    with m Suc.prems(3) show "arr' ! m = arr0 ! m" by simp
  qed
  have x: "arr ! j = arr0 ! j" using Suc.prems(3) j by simp
  have "range_loop pick [j ..< length arr0] s (arr, n) seen =
      range_loop pick [Suc j ..< length arr0] s' (arr', n') (seen @ [arr ! j])"
    using j by (simp add: upt_conv_Cons pick sl)
  also have "\<dots> = (seen @ [arr ! j]) @ drop (Suc j) arr0"
    using Suc.hyps(1) [of "Suc j" n' arr'] Suc.hyps(2) len keep j by simp
  also have "\<dots> = seen @ drop j arr0" using j by (simp add: x Cons_nth_drop_Suc)
  finally show ?case .
qed

text \<open>
  Although \<open>RemovePod\<close> moves pods inside the array that the victim loop is ranging over, the
  loop still visits every pod of the node exactly once and in the original order, whichever pods it
  decides to remove on the way.
\<close>

theorem range_with_removal_visits_all:
  "range_loop pick [0 ..< length pods] s (pods, length pods) [] = pods"
  using range_loop_visits [of "length pods" pods pods 0 pick s "[]"] by simp

section \<open>Disruption budgets are respected\<close>

lemma pdb_charge_length: "length (snd (pdb_charge pod pdbs as)) = length as"
  by (induction pod pdbs as rule: pdb_charge.induct) (auto simp: Let_def split_beta)

lemma pdb_charge_nth:
  assumes "i < length pdbs" and "length as = length pdbs"
  shows "snd (pdb_charge pod pdbs as) ! i = as ! i - (if pdb_hits pod (pdbs ! i) then 1 else 0) \<and>
    (pdb_hits pod (pdbs ! i) \<and> as ! i - 1 < 0 \<longrightarrow> fst (pdb_charge pod pdbs as))"
  using assms
proof (induction pod pdbs as arbitrary: i rule: pdb_charge.induct)
  case (1 pod pdb pdbs a as)
  then show ?case by (cases i) (auto simp: Let_def split_beta)
qed auto

definition pdb_counts :: "Pod \<Rightarrow> PodDisruptionBudget \<Rightarrow> bool" where
  "pdb_counts pod pdb \<longleftrightarrow> pod_labels pod \<noteq> [] \<and> pdb_hits pod pdb"

lemma pdb_split_budget:
  assumes "i < length pdbs" and "length as = length pdbs"
  shows "int (length (filter (\<lambda>p. pdb_counts p (pdbs ! i)) (snd (pdb_split pdbs as pods)))) \<le> max 0 (as ! i)"
  using assms(2)
proof (induction pods arbitrary: as)
  case Nil
  then show ?case by simp
next
  case (Cons pod pods)
  let ?c = "if pod_labels pod \<noteq> [] then pdb_charge pod pdbs as else (False, as)"
  have len: "length (snd ?c) = length pdbs" using Cons.prems by (simp add: pdb_charge_length)
  have nth: "snd ?c ! i = as ! i - (if pdb_counts pod (pdbs ! i) then 1 else 0)"
    "pdb_counts pod (pdbs ! i) \<Longrightarrow> as ! i - 1 < 0 \<Longrightarrow> fst ?c"
    using pdb_charge_nth [OF assms(1) Cons.prems, of pod] by (auto simp: pdb_counts_def)
  from Cons.IH [OF len] nth show ?case
    by (cases "as ! i < 1") (auto simp: Let_def split_beta max_def split: if_splits)
qed

lemma pdb_split_partition:
  "mset (fst (pdb_split pdbs as pods)) + mset (snd (pdb_split pdbs as pods)) = mset pods \<and>
   subseq (fst (pdb_split pdbs as pods)) pods \<and> subseq (snd (pdb_split pdbs as pods)) pods"
  by (induction pods arbitrary: as) (auto simp: Let_def split_beta)

text \<open>
  C11. \<open>filterPodsWithPDBViolation\<close> splits the victims into two groups without losing or reordering
  any, and preempting all of the non-violating group stays within every disruption budget: at most
  the allowed number of its pods count against any one budget.
\<close>

theorem filterPodsWithPDBViolation_spec:
  assumes "filterPodsWithPDBViolation pods pdbs = (violating, nonViolating)"
  shows "mset violating + mset nonViolating = mset pods \<and> subseq violating pods \<and> subseq nonViolating pods \<and>
    (\<forall>pdb \<in> set pdbs. int (length (filter (\<lambda>p. pdb_counts p pdb) nonViolating)) \<le> max 0 (pdb_disruptionsAllowed pdb))"
proof -
  let ?as = "map pdb_disruptionsAllowed pdbs"
  have eq: "fst (pdb_split pdbs ?as pods) = violating" "snd (pdb_split pdbs ?as pods) = nonViolating"
    using assms by (simp_all add: filterPodsWithPDBViolation_def)
  have "int (length (filter (\<lambda>p. pdb_counts p pdb) nonViolating)) \<le> max 0 (pdb_disruptionsAllowed pdb)"
    if "pdb \<in> set pdbs" for pdb
  proof -
    from that obtain i where "i < length pdbs" "pdbs ! i = pdb" by (metis in_set_conv_nth)
    with pdb_split_budget [of i pdbs ?as pods] show ?thesis by (simp add: eq)
  qed
  with pdb_split_partition [of pdbs ?as pods] show ?thesis by (simp add: eq)
qed

definition demo_pdb :: PodDisruptionBudget where
  "demo_pdb = \<lparr>pdb_namespace = ''ns1'', pdb_selector = Inr \<lparr>sel_Empty = False, sel_Matches = (\<lambda>_. True)\<rparr>,
     pdb_disruptedPods = [], pdb_disruptionsAllowed = 1\<rparr>"

definition demo_labelled :: "string \<Rightarrow> Pod" where
  "demo_labelled u = demo_pod\<lparr>pod_uid := u, pod_labels := [(''app'', ''a'')]\<rparr>"

theorem filterPodsWithPDBViolation_spec_witness:
  "filterPodsWithPDBViolation [demo_labelled ''a'', demo_labelled ''b''] [demo_pdb] =
     ([demo_labelled ''b''], [demo_labelled ''a'']) \<and>
   int (length (filter (\<lambda>p. pdb_counts p demo_pdb) [demo_labelled ''a''])) \<le> 1"
proof -
  have "filterPodsWithPDBViolation [demo_labelled ''a'', demo_labelled ''b''] [demo_pdb] =
     ([demo_labelled ''b''], [demo_labelled ''a''])"
    by (simp add: filterPodsWithPDBViolation_def demo_labelled_def demo_pdb_def pdb_hits_def demo_pod_def)
  with filterPodsWithPDBViolation_spec [OF this] show ?thesis by (simp add: demo_pdb_def)
qed

section \<open>Which pods become victims\<close>

lemma foldE_invariant:
  assumes "foldE f s xs = Some (Inr s')" and "P s"
    and "\<And>s x t. P s \<Longrightarrow> x \<in> set xs \<Longrightarrow> f s x = Some (Inr t) \<Longrightarrow> P t"
  shows "P s'"
  using assms
proof (induction xs arbitrary: s)
  case Nil
  then show ?case by simp
next
  case (Cons x xs)
  from Cons.prems(1) obtain t where t: "f s x = Some (Inr t)" "foldE f t xs = Some (Inr s')"
    by (auto split: option.splits sum.splits)
  have "P t" using Cons.prems(2,3) t(1) by (metis list.set_intros(1))
  with t(2) show ?case using Cons.IH Cons.prems(3) by (metis list.set_intros(2))
qed

text \<open>
  What is asked of the framework and the library: the pre-filter extensions of all plugins together
  leave the set of namespaces in this plugin's snapshot alone (this plugin's own \<open>RemovePod\<close> and
  \<open>AddPod\<close> do, see \<open>RemovePod_keeps_quotas\<close>), and sorting permutes.
\<close>

definition quota_names :: "ElasticQuotaInfos \<Rightarrow> string set" where
  "quota_names m = dom (map_of m)"

definition keeps_quotas :: "Handle \<Rightarrow> bool" where
  "keeps_quotas h \<longleftrightarrow> (\<forall>st pod p n.
     quota_names ((eqs_of (fst (RunPreFilterExtensionRemovePod h st pod p n)))) = quota_names ((eqs_of st)))"

definition sort_permutes :: "Handle \<Rightarrow> bool" where
  "sort_permutes h \<longleftrightarrow> (\<forall>lt ps. mset (sortSlice h lt ps) = mset ps)"

lemma RemovePod_keeps_quotas:
  assumes "RemovePod st pod = Some (st', s)"
  shows "quota_names ((eqs_of st')) = quota_names ((eqs_of st))"
proof (cases "getElasticQuotaSnapshotState st")
  case (Inl err)
  with assms show ?thesis by (simp add: RemovePod_def)
next
  case (Inr infos)
  have "quota_names m' = quota_names m" if "on_quota f m pod = Some (err, m')" for f m err m'
    using that by (auto simp: on_quota_def quota_names_def update_conv
        split: option.splits sum.splits if_splits)
  with Inr assms show ?thesis
    by (auto simp: RemovePod_def eqs_of_def getElasticQuotaSnapshotState_def)
qed

lemma sort_permutes_set: "sort_permutes h \<Longrightarrow> set (sortSlice h lt ps) = set ps"
  unfolding sort_permutes_def by (metis set_mset_mset)

lemma sv_removePod_quotas:
  "keeps_quotas h \<Longrightarrow> sv_removePod h pod s p = Inr s' \<Longrightarrow>
   quota_names ((eqs_of (fst s'))) = quota_names ((eqs_of (fst s)))"
  unfolding keeps_quotas_def sv_removePod_def
  by (auto simp: Let_def split_beta split: sum.splits if_splits option.splits)

text \<open>Every collected pod was picked in a state whose snapshot has the same quotas.\<close>

lemma collect_victims:
  assumes "foldE (collect_step h pod isVictim) ((st, n), []) ps = Some (Inr (s, vs))" and "keeps_quotas h"
  shows "\<forall>v \<in> set vs. v \<in> set ps \<and>
    (\<exists>m. quota_names m = quota_names ((eqs_of st)) \<and> isVictim m v = Some True)"
proof -
  let ?P = "\<lambda>acc. quota_names ((eqs_of (fst (fst acc)))) = quota_names ((eqs_of st)) \<and>
    (\<forall>v \<in> set (snd acc). v \<in> set ps \<and>
      (\<exists>m. quota_names m = quota_names ((eqs_of st)) \<and> isVictim m v = Some True))"
  have "?P (s, vs)"
  proof (rule foldE_invariant [OF assms(1)])
    show "?P ((st, n), [])" by simp
  next
    fix acc p acc'
    assume P: "?P acc" and p: "p \<in> set ps" and step: "collect_step h pod isVictim acc p = Some (Inr acc')"
    show "?P acc'"
    proof (cases "isVictim (eqs_of (fst (fst acc))) p")
      case None
      with step show ?thesis by (simp add: collect_step_def)
    next
      case (Some b)
      with step P p show ?thesis
        using sv_removePod_quotas [OF assms(2), of pod "fst acc" p]
        by (cases b)
          (auto simp: collect_step_def split: sum.splits intro: exI [of _ "eqs_of (fst (fst acc))"])
    qed
  qed
  then show ?thesis by simp
qed

lemma reprieve_step_victims:
  "reprieve_step h pod withEQ pfs acc p = Some (Inr acc') \<Longrightarrow>
   set (snd (fst acc')) \<subseteq> set (snd (fst acc)) \<union> {p}"
  unfolding reprieve_step_def reprievePod_def
  by (fastforce simp: Let_def split: option.splits sum.splits if_splits bool.splits prod.splits)

lemma foldE_reprieve_victims:
  assumes "foldE (reprieve_step h pod withEQ pfs) acc ps = Some (Inr acc')"
  shows "set (snd (fst acc')) \<subseteq> set (snd (fst acc)) \<union> set ps"
  by (rule foldE_invariant [OF assms, where P = "\<lambda>a. set (snd (fst a)) \<subseteq> set (snd (fst acc)) \<union> set ps"])
    (auto dest: reprieve_step_victims)

lemma reprieve_all_victims:
  "reprieve_all h pod withEQ pfs s vs nvs = Some (Inr ((s', victims), k)) \<Longrightarrow> set victims \<subseteq> set vs \<union> set nvs"
  unfolding reprieve_all_def
  by (fastforce split: option.splits sum.splits prod.splits dest!: foldE_reprieve_victims)

text \<open>What a call of \<open>SelectVictimsOnNode\<close> that returns victims went through.\<close>

lemma choose_victims_success:
  assumes "choose_victims h pod withEQ pfs pdbs nm (s, pv) = Some (victims, k, status)" and "victims \<noteq> []"
  obtains violating nonViolating s' where
    "filterPodsWithPDBViolation (sortSlice h (MoreImportantPod h) pv) pdbs = (violating, nonViolating)"
    "reprieve_all h pod withEQ pfs s violating nonViolating = Some (Inr ((s', victims), k))"
  using assms unfolding choose_victims_def
  by (auto simp: Let_def split: option.splits sum.splits if_splits prod.splits bool.splits)

lemma SelectVictims_success:
  assumes "SelectVictimsOnNode h st pod nodeInfo pdbs = Some (victims, k, status)" and "victims \<noteq> []"
    and "getElasticQuotaSnapshotState st = Inr infos" and "getPreFilterState st = Inr pfs"
  obtains isVictim s pv where
    "(case map_of infos (pod_namespace pod) of
        Some eq \<Rightarrow> \<exists>b. usedOverMinWith eq (nominatedPodsReqInEQWithPodReq pfs) = Some b \<and>
                       isVictim = (\<lambda>m p. quota_victim m pod b p)
      | None \<Rightarrow> isVictim = (\<lambda>m p. plain_victim m pod p))"
    "foldE (collect_step h pod isVictim)
       ((st, nodeInfo\<lparr>ni_pods := sortSlice h (\<lambda>a b. \<not> MoreImportantPod h a b) (ni_pods nodeInfo)\<rparr>), [])
       (sortSlice h (\<lambda>a b. \<not> MoreImportantPod h a b) (ni_pods nodeInfo)) = Some (Inr (s, pv))"
    "choose_victims h pod (map_of infos (pod_namespace pod) \<noteq> None) pfs pdbs (ni_name nodeInfo) (s, pv) =
       Some (victims, k, status)"
  using assms(1,2) unfolding SelectVictimsOnNode_def assms(3,4)
  by (auto simp: Let_def split: option.splits sum.splits)

lemma victims_collected:
  assumes "choose_victims h pod withEQ pfs pdbs nm (s, pv) = Some (victims, k, status)" and "sort_permutes h"
  shows "set victims \<subseteq> set pv"
proof (cases "victims = []")
  case False
  from choose_victims_success [OF assms(1) False] obtain vl nv s' where
    f: "filterPodsWithPDBViolation (sortSlice h (MoreImportantPod h) pv) pdbs = (vl, nv)"
    and r: "reprieve_all h pod withEQ pfs s vl nv = Some (Inr ((s', victims), k))" .
  have "mset vl + mset nv = mset pv"
    using pdb_split_partition [of pdbs "map pdb_disruptionsAllowed pdbs" "sortSlice h (MoreImportantPod h) pv"]
      f assms(2) by (simp add: filterPodsWithPDBViolation_def sort_permutes_def)
  then have "set vl \<union> set nv = set pv" by (metis set_mset_mset set_mset_union)
  with reprieve_all_victims [OF r] show ?thesis by simp
qed simp


text \<open>
  A concrete preemption for the witnesses: the framework runs this plugin's extensions, the filter
  admits the preemptor only when the node is empty, and the slice is sorted by insertion.
\<close>

fun insert_by :: "(Pod \<Rightarrow> Pod \<Rightarrow> bool) \<Rightarrow> Pod \<Rightarrow> Pod list \<Rightarrow> Pod list" where
  "insert_by lt x [] = [x]"
| "insert_by lt x (y # ys) = (if lt x y then x # y # ys else y # insert_by lt x ys)"

definition demo_handle :: Handle where
  "demo_handle =
     \<lparr>RunFilterPluginsWithNominatedPods =
        (\<lambda>st pod n. if ni_pods n = [] then NewStatus Success [] else NewStatus Unschedulable [''full'']),
      RunPreFilterExtensionAddPod =
        (\<lambda>st pod p n. case AddPod st p of Some r \<Rightarrow> r | None \<Rightarrow> (st, NewStatus Error [])),
      RunPreFilterExtensionRemovePod =
        (\<lambda>st pod p n. case RemovePod st p of Some r \<Rightarrow> r | None \<Rightarrow> (st, NewStatus Error [])),
      MoreImportantPod = (\<lambda>a b. PodPriority a > PodPriority b),
      sortSlice = (\<lambda>lt ps. foldr (insert_by lt) ps [])\<rparr>"

definition demo_preemptor :: Pod where
  "demo_preemptor = demo_pod\<lparr>pod_uid := ''u9'', pod_priority := Some 20, pod_containers := [\<lparr>ctr_requests = [(ResourceCPU, 5 * 10 ^ 9)], ctr_limits = []\<rparr>]\<rparr>"

definition demo_snapshot :: ElasticQuotaInfos where
  "demo_snapshot =
     [(''ns1'', newElasticQuotaInfo ''ns1'' (Some [(ResourceCPU, 4 * 10 ^ 9)]) (Some [(ResourceCPU, 6 * 10 ^ 9)]) None),
      (''ns2'', newElasticQuotaInfo ''ns2'' (Some [(ResourceCPU, 10 * 10 ^ 9)]) None None)]"

definition demo_pfs :: PreFilterState where
  "demo_pfs = \<lparr>podReq = computePodResourceRequest demo_preemptor,
     nominatedPodsReqInEQWithPodReq = computePodResourceRequest demo_preemptor,
     nominatedPodsReqWithPodReq = computePodResourceRequest demo_preemptor\<rparr>"

definition demo_cycle :: "StateData CycleState" where
  "demo_cycle = (\<lambda>k. if k = ElasticQuotaSnapshotKey then Some (SD_Snapshot demo_snapshot)
     else if k = preFilterStateKey then Some (SD_PreFilter demo_pfs) else None)"

definition demo_node :: NodeInfo where
  "demo_node = \<lparr>ni_name = ''n1'', ni_pods = [demo_pod]\<rparr>"

lemma demo_sort_permutes: "sort_permutes demo_handle"
proof -
  have ins: "mset (insert_by lt x ys) = add_mset x (mset ys)" for lt x ys
    by (induction lt x ys rule: insert_by.induct) auto
  have "mset (foldr (insert_by lt) ps []) = mset ps" for lt ps
    by (induction ps) (simp_all add: ins)
  then show ?thesis by (simp add: sort_permutes_def demo_handle_def)
qed

lemma demo_keeps_quotas: "keeps_quotas demo_handle"
  by (auto simp: keeps_quotas_def demo_handle_def split: option.splits dest: RemovePod_keeps_quotas)

lemma demo_select:
  "SelectVictimsOnNode demo_handle demo_cycle demo_preemptor demo_node [] =
     Some ([demo_pod], 0, NewStatus Success [])"
  by code_simp

lemma demo_cycle_reads:
  "getElasticQuotaSnapshotState demo_cycle = Inr demo_snapshot" "getPreFilterState demo_cycle = Inr demo_pfs"
  by (simp_all add: getElasticQuotaSnapshotState_def getPreFilterState_def CycleState_Read_def demo_cycle_def)


section \<open>No pod is chosen twice\<close>

text \<open>
  Conservation: the pods on the node, the pods already chosen and the pods still to be decided are
  together the pods \<open>P\<close> the node had.
\<close>

definition unique_uids :: "Pod multiset \<Rightarrow> bool" where
  "unique_uids P \<longleftrightarrow> (\<forall>p q. {#p, q#} \<subseteq># P \<longrightarrow> pod_uid p \<noteq> pod_uid q)"

lemma unique_uidsD: "unique_uids P \<Longrightarrow> {#p, q#} \<subseteq># P \<Longrightarrow> pod_uid p \<noteq> pod_uid q"
  by (simp add: unique_uids_def)

lemma sv_removePod_mset:
  assumes "sv_removePod h pod s p = Inr s'"
  obtains q where "q \<in> set (ni_pods (snd s))" "pod_uid q = pod_uid p"
    "mset (ni_pods (snd s')) = mset (ni_pods (snd s)) - {#q#}"
proof -
  from assms have "NodeInfo_RemovePod (snd s) p = Inr (snd s')"
    by (auto simp: sv_removePod_def Let_def split_beta split: sum.splits if_splits option.splits)
  then show thesis using that by (rule NodeInfo_RemovePod_mset)
qed

text \<open>Removing a pod whose UID is unique among all pods of the node takes out that very pod.\<close>

lemma sv_removePod_conserves:
  assumes "sv_removePod h pod s p = Inr s'" and "unique_uids P"
    and "mset (ni_pods (snd s)) + R = P" and "p \<in># P"
  shows "p \<in> set (ni_pods (snd s)) \<and> mset (ni_pods (snd s')) + add_mset p R = P"
proof -
  from assms(1) obtain q where q: "q \<in> set (ni_pods (snd s))" "pod_uid q = pod_uid p"
    "mset (ni_pods (snd s')) = mset (ni_pods (snd s)) - {#q#}" by (rule sv_removePod_mset)
  have "q = p"
  proof (rule ccontr)
    assume "q \<noteq> p"
    moreover have "q \<in># P" using q(1) assms(3) by auto
    ultimately have "{#q, p#} \<subseteq># P" using assms(4)
      by (simp add: insert_subset_eq_iff in_diff_count)
    with unique_uidsD [OF assms(2) this] q(2) show False by simp
  qed
  with q assms(3) show ?thesis by auto
qed

lemma distinct_unique_uids: "distinct (map pod_uid ps) \<Longrightarrow> unique_uids (mset ps)"
  unfolding unique_uids_def
proof (intro allI impI notI)
  fix p q
  assume d: "distinct (map pod_uid ps)" and sub: "{#p, q#} \<subseteq># mset ps" and eq: "pod_uid p = pod_uid q"
  have "{#pod_uid p, pod_uid q#} \<subseteq># mset (map pod_uid ps)"
    using image_mset_subseteq_mono [OF sub, of pod_uid] by simp
  then have "2 \<le> count (mset (map pod_uid ps)) (pod_uid q)"
    using mset_subset_eq_count [of _ _ "pod_uid q"] eq by fastforce
  moreover have "count (mset (map pod_uid ps)) (pod_uid q) \<le> 1"
    using d by (simp add: distinct_count_atmost_1 split: if_splits)
  ultimately show False by simp
qed

lemma collect_conserves:
  assumes "foldE (collect_step h pod isVictim) ((st, n), []) ps = Some (Inr (s, vs))"
    and "ni_pods n = ps" and "unique_uids (mset ps)"
  shows "mset (ni_pods (snd s)) + mset vs = mset ps"
proof -
  let ?P = "\<lambda>acc. mset (ni_pods (snd (fst acc))) + mset (snd acc) = mset ps"
  have "?P (s, vs)"
  proof (rule foldE_invariant [OF assms(1)])
    show "?P ((st, n), [])" using assms(2) by simp
  next
    fix acc p acc'
    assume P: "?P acc" and p: "p \<in> set ps" and step: "collect_step h pod isVictim acc p = Some (Inr acc')"
    show "?P acc'"
      using step P sv_removePod_conserves [OF _ assms(3) P, of h pod p] p
      by (auto simp: collect_step_def split: option.splits bool.splits sum.splits)
  qed
  then show ?thesis by simp
qed

lemma sv_addPod_mset: "sv_addPod h pod s p = Inr s' \<Longrightarrow> mset (ni_pods (snd s')) = add_mset p (mset (ni_pods (snd s)))"
  by (auto simp: sv_addPod_def NodeInfo_AddPodInfo_def Let_def split_beta split: if_splits option.splits)

text \<open>
  A pod that does not fit is removed again at once; if the quota is still exceeded after that, the
  code tries to remove it a second time, which fails because the node no longer has it.
\<close>

lemma second_removal_fails:
  assumes "sv_removePod h pod s p = Inr s1" and "unique_uids P" and "mset (ni_pods (snd s)) + R = P" and "p \<in># P"
  shows "\<exists>err. sv_removePod h pod s1 p = Inl err"
proof (cases "sv_removePod h pod s1 p")
  case (Inr s2)
  have 1: "mset (ni_pods (snd s1)) + add_mset p R = P" using sv_removePod_conserves [OF assms] by blast
  from sv_removePod_conserves [OF Inr assms(2) 1 assms(4)]
  have "mset (ni_pods (snd s2)) + add_mset p (add_mset p R) = P" by blast
  then have "P = {#p, p#} + (mset (ni_pods (snd s2)) + R)" by simp
  then have "{#p, p#} \<subseteq># P" by (metis mset_subset_eq_add_left)
  with unique_uidsD [OF assms(2) this] show ?thesis by simp
qed simp

lemma reprieve_step_conserves:
  assumes "reprieve_step h pod withEQ pfs acc p = Some (Inr acc')" and "unique_uids P"
    and "mset (ni_pods (snd (fst (fst acc)))) + mset (snd (fst acc)) + add_mset p R = P"
  shows "mset (ni_pods (snd (fst (fst acc')))) + mset (snd (fst acc')) + R = P"
proof -
  from assms(1) obtain s1 where s1: "sv_addPod h pod (fst (fst acc)) p = Inr s1"
    by (auto simp: reprieve_step_def reprievePod_def split: sum.splits)
  let ?fits = "IsSuccess (RunFilterPluginsWithNominatedPods h (fst s1) pod (snd s1))"
  have P1: "mset (ni_pods (snd s1)) + (mset (snd (fst acc)) + R) = P"
    using sv_addPod_mset [OF s1] assms(3) by (simp add: add.assoc)
  have pP: "p \<in># P" using assms(3) by auto
  note rm = sv_removePod_conserves [OF _ assms(2) P1 pP] and twice = second_removal_fails [OF _ assms(2) P1 pP]
  show ?thesis
    using assms(1) P1 rm [of h pod] twice [of h pod]
    by (cases ?fits)
      (fastforce simp: reprieve_step_def reprievePod_def s1 Let_def
        split: sum.splits option.splits bool.splits prod.splits if_splits)+
qed

lemma foldE_reprieve_conserves:
  assumes "foldE (reprieve_step h pod withEQ pfs) acc ps = Some (Inr acc')" and "unique_uids P"
    and "mset (ni_pods (snd (fst (fst acc)))) + mset (snd (fst acc)) + (mset ps + R) = P"
  shows "mset (ni_pods (snd (fst (fst acc')))) + mset (snd (fst acc')) + R = P"
  using assms
proof (induction ps arbitrary: acc)
  case Nil
  then show ?case by simp
next
  case (Cons p ps)
  from Cons.prems(1) obtain t where t: "reprieve_step h pod withEQ pfs acc p = Some (Inr t)"
    "foldE (reprieve_step h pod withEQ pfs) t ps = Some (Inr acc')"
    by (auto split: option.splits sum.splits)
  have "mset (ni_pods (snd (fst (fst t)))) + mset (snd (fst t)) + (mset ps + R) = P"
    by (rule reprieve_step_conserves [OF t(1) assms(2)]) (use Cons.prems(3) in simp)
  with Cons.IH [OF t(2) assms(2)] show ?case by simp
qed

lemma reprieve_all_conserves:
  assumes "reprieve_all h pod withEQ pfs s vl nv = Some (Inr ((s', victims), k))" and "unique_uids P"
    and "mset (ni_pods (snd s)) + (mset vl + mset nv) = P"
  shows "mset (ni_pods (snd s')) + mset victims = P"
proof -
  from assms(1) obtain acc n where 1: "foldE (reprieve_step h pod withEQ pfs) ((s, []), 0) vl = Some (Inr (acc, n))"
    and "\<exists>n'. foldE (reprieve_step h pod withEQ pfs) (acc, n) nv = Some (Inr ((s', victims), n'))"
    by (auto simp: reprieve_all_def split: option.splits sum.splits prod.splits)
  then obtain n' where 2: "foldE (reprieve_step h pod withEQ pfs) (acc, n) nv = Some (Inr ((s', victims), n'))"
    by blast
  have "mset (ni_pods (snd (fst acc))) + mset (snd acc) + (mset nv + {#}) = P"
    using foldE_reprieve_conserves [OF 1 assms(2), of "mset nv"] assms(3) by simp
  with foldE_reprieve_conserves [OF 2 assms(2), of "{#}"] show ?thesis by simp
qed

text \<open>
  C10. No pod is chosen twice: on a node whose pods have distinct UIDs, the victims returned are
  distinct pods of the node (a sub-multiset of its pods).
\<close>

theorem SelectVictims_no_duplicates:
  assumes "SelectVictimsOnNode h st pod nodeInfo pdbs = Some (victims, k, status)"
    and "getElasticQuotaSnapshotState st = Inr infos" and "getPreFilterState st = Inr pfs"
    and "sort_permutes h" and "distinct (map pod_uid (ni_pods nodeInfo))"
  shows "mset victims \<subseteq># mset (ni_pods nodeInfo)"
proof (cases "victims = []")
  case False
  let ?ps = "sortSlice h (\<lambda>a b. \<not> MoreImportantPod h a b) (ni_pods nodeInfo)"
  have ps: "mset ?ps = mset (ni_pods nodeInfo)" using assms(4) by (simp add: sort_permutes_def)
  have u: "unique_uids (mset ?ps)" unfolding ps using assms(5) by (rule distinct_unique_uids)
  from SelectVictims_success [OF assms(1) False assms(2,3)] obtain isVictim s pv where
    c: "foldE (collect_step h pod isVictim) ((st, nodeInfo\<lparr>ni_pods := ?ps\<rparr>), []) ?ps = Some (Inr (s, pv))"
    and r: "choose_victims h pod (map_of infos (pod_namespace pod) \<noteq> None) pfs pdbs (ni_name nodeInfo) (s, pv) =
       Some (victims, k, status)" .
  from choose_victims_success [OF r False] obtain vl nv s' where
    f: "filterPodsWithPDBViolation (sortSlice h (MoreImportantPod h) pv) pdbs = (vl, nv)"
    and ra: "reprieve_all h pod (map_of infos (pod_namespace pod) \<noteq> None) pfs s vl nv = Some (Inr ((s', victims), k))" .
  have "mset vl + mset nv = mset pv"
    using pdb_split_partition [of pdbs "map pdb_disruptionsAllowed pdbs" "sortSlice h (MoreImportantPod h) pv"]
      f assms(4) by (simp add: filterPodsWithPDBViolation_def sort_permutes_def)
  with collect_conserves [OF c _ u] have "mset (ni_pods (snd s)) + (mset vl + mset nv) = mset ?ps" by simp
  from reprieve_all_conserves [OF ra u this] show ?thesis unfolding ps by (metis mset_subset_eq_add_right)
qed simp

theorem SelectVictims_no_duplicates_witness: "mset [demo_pod] \<subseteq># mset (ni_pods demo_node)"
  using SelectVictims_no_duplicates [OF demo_select demo_cycle_reads demo_sort_permutes]
  by (simp add: demo_node_def)

text \<open>
  The reprieve step reports an internal error instead of keeping the victim when a pod neither
  fits nor the preemptor is within its quota after the pod's removal: the pod is removed a second
  time and the node info no longer has it.
\<close>

theorem reprieve_double_removal_error:
  assumes "sv_addPod h pod (fst acc) p = Inr s1"
    and "\<not> IsSuccess (RunFilterPluginsWithNominatedPods h (fst s1) pod (snd s1))"
    and "sv_removePod h pod s1 p = Inr s2"
    and "preemptor_over_quota (fst s2) pod (nominatedPodsReqInEQWithPodReq pfs) (nominatedPodsReqWithPodReq pfs) = Some True"
    and "distinct (map pod_uid (ni_pods (snd s1)))"
  shows "\<exists>err. reprievePod h pod True pfs acc p = Some (Inl err)"
proof -
  have "p \<in># mset (ni_pods (snd s1))" using sv_addPod_mset [OF assms(1)] by simp
  with second_removal_fails [OF assms(3) distinct_unique_uids [OF assms(5)], of "{#}"]
  obtain err where "sv_removePod h pod s2 p = Inl err" by auto
  then show ?thesis using assms by (simp add: reprievePod_def)
qed

text \<open>The nominated pods of the preemptor's quota ask for more than its maximum allows.\<close>

definition demo_pfs_over :: PreFilterState where
  "demo_pfs_over = demo_pfs\<lparr>nominatedPodsReqInEQWithPodReq :=
     NewResource [(ResourceCPU, 7 * 10 ^ 9)]\<rparr>"

theorem reprieve_double_removal_error_witness:
  "\<exists>err. reprievePod demo_handle demo_preemptor True demo_pfs_over
     ((demo_cycle, demo_node\<lparr>ni_pods := []\<rparr>), []) demo_pod = Some (Inl err)"
proof -
  let ?acc = "((demo_cycle, demo_node\<lparr>ni_pods := []\<rparr>), [] :: Pod list)"
  obtain s1 where s1: "sv_addPod demo_handle demo_preemptor (fst ?acc) demo_pod = Inr s1" "ni_pods (snd s1) = [demo_pod]"
  proof -
    have "case sv_addPod demo_handle demo_preemptor (fst ?acc) demo_pod of Inr s \<Rightarrow> ni_pods (snd s) = [demo_pod] | _ \<Rightarrow> False"
      by code_simp
    then show thesis using that by (cases "sv_addPod demo_handle demo_preemptor (fst ?acc) demo_pod") auto
  qed
  have "case sv_addPod demo_handle demo_preemptor (fst ?acc) demo_pod of Inr s \<Rightarrow>
      (case sv_removePod demo_handle demo_preemptor s demo_pod of
         Inr s2 \<Rightarrow> preemptor_over_quota (fst s2) demo_preemptor (nominatedPodsReqInEQWithPodReq demo_pfs_over)
                    (nominatedPodsReqWithPodReq demo_pfs_over) = Some True
       | _ \<Rightarrow> False) | _ \<Rightarrow> False"
    by code_simp
  then obtain s2 where s2: "sv_removePod demo_handle demo_preemptor s1 demo_pod = Inr s2"
    "preemptor_over_quota (fst s2) demo_preemptor (nominatedPodsReqInEQWithPodReq demo_pfs_over)
       (nominatedPodsReqWithPodReq demo_pfs_over) = Some True"
    using s1(1) by (auto split: sum.splits)
  show ?thesis
    by (rule reprieve_double_removal_error [OF s1(1) _ s2]) (simp_all add: s1(2) demo_handle_def)
qed

section \<open>Eligibility\<close>

text \<open>A pod in graceful termination on the nominated node that will make room for the preemptor.\<close>

definition makes_room :: "ElasticQuotaInfos \<Rightarrow> Pod \<Rightarrow> bool \<Rightarrow> Pod \<Rightarrow> bool" where
  "makes_room infos pod moreThanMin p \<longleftrightarrow>
     pod_deletionTimestamp p \<noteq> None \<and>
     (case map_of infos (pod_namespace p) of
        None \<Rightarrow> False
      | Some e \<Rightarrow>
          (pod_namespace p = pod_namespace pod \<and> PodPriority p < PodPriority pod) \<or>
          (pod_namespace p \<noteq> pod_namespace pod \<and> \<not> moreThanMin \<and> usedOverMin e = Some True))"

lemma eligible_quota_loop_iff:
  "eqs_ok infos \<Longrightarrow> eligible_quota_loop infos pod b ps = Some (\<exists>p \<in> set ps. makes_room infos pod b p)"
proof (induction ps)
  case Nil
  then show ?case by simp
next
  case (Cons p ps)
  have "\<exists>c. usedOverMin e = Some c" if "map_of infos (pod_namespace p) = Some e" for e
    using usedOverMin_ok eqs_ok_lookup [OF Cons.prems that] by blast
  with Cons show ?case by (auto simp: makes_room_def split: option.splits)
qed

text \<open>
  A pod with a nominated node is held back from preempting again exactly when the preemption
  policy forbids it or a terminating pod on that node is about to make room for it under the quota
  rules; an unresolvable nominated node always makes it eligible again.
\<close>

theorem PodEligibleToPreemptOthers_quota:
  assumes "getPreFilterState st = Inr pfs" and "getElasticQuotaSnapshotState st = Inr infos" and "eqs_ok infos"
    and "pod_nominatedNodeName pod \<noteq> []" and "getNode (pod_nominatedNodeName pod) = Some nodeInfo"
    and "map_of infos (pod_namespace pod) = Some eq"
    and "usedOverMinWith eq (nominatedPodsReqInEQWithPodReq pfs) = Some moreThanMin"
  shows "\<exists>msg. PodEligibleToPreemptOthers getNode st pod code =
    Some (\<not> (pod_preemptionPolicy pod = Some PreemptNever \<or>
      (code \<noteq> UnschedulableAndUnresolvable \<and>
       (\<exists>p \<in> set (ni_pods nodeInfo). makes_room infos pod moreThanMin p))), msg)"
  using assms by (auto simp: PodEligibleToPreemptOthers_def eligible_quota_loop_iff)

theorem PodEligibleToPreemptOthers_quota_witness:
  "\<exists>b msg. PodEligibleToPreemptOthers (\<lambda>_. Some demo_node) demo_cycle
     (demo_preemptor\<lparr>pod_nominatedNodeName := ''n1''\<rparr>) Unschedulable = Some (b, msg)"
proof -
  let ?pod = "demo_preemptor\<lparr>pod_nominatedNodeName := ''n1''\<rparr>"
  have ok: "eqs_ok demo_snapshot" by (simp add: eqs_ok_def demo_snapshot_def wf_map_def)
  obtain eq where eq: "map_of demo_snapshot (pod_namespace ?pod) = Some eq"
    by (simp add: demo_snapshot_def demo_preemptor_def demo_pod_def)
  from eqs_ok_lookup [OF ok eq] obtain b where b: "usedOverMinWith eq (nominatedPodsReqInEQWithPodReq demo_pfs) = Some b"
    by (auto simp: usedOverMinWith_def eq_ok_def)
  from PodEligibleToPreemptOthers_quota [OF demo_cycle_reads(2,1) ok _ _ eq b, of "\<lambda>_. Some demo_node" demo_node Unschedulable]
  show ?thesis by auto
qed

end
