(* ===== verification/PodGroups.thy ===== *)
theory PodGroups
  imports FrameworkNode
begin

text \<open>
  Pod groups: \<open>pkg/util/podgroup.go\<close> and the manager of \<open>pkg/coscheduling/core/core.go\<close>.

  What the manager reads from its surroundings (the API client, the pod lister, the snapshot of
  nodes, the clock) is the record \<open>PGEnv\<close>; its own state is the record \<open>PodGroupManager\<close> with the
  two expiring caches of \<open>go-cache\<close>. Entries of the snapshot are never nil pointers, so the
  corresponding guards have no branch here; a node info without a node object is represented.
\<close>

section \<open>Pod groups and their labels\<close>

record PodGroup =
  pg_name :: string
  pg_namespace :: string
  pg_creationTimestamp :: int
  pg_MinMember :: int32
  pg_MinResources :: "ResourceList option"
  pg_ScheduleTimeoutSeconds :: "int32 option"

definition PodGroupLabel :: string where
  "PodGroupLabel = ''scheduling.x-k8s.io/pod-group''"

definition GetPodGroupLabel :: "Pod \<Rightarrow> string" where
  "GetPodGroupLabel pod = map_getd [] (pod_labels pod) PodGroupLabel"

definition GetPodGroupFullName :: "Pod \<Rightarrow> string" where
  "GetPodGroupFullName pod =
     (let pgName = GetPodGroupLabel pod
      in if length pgName = 0 then [] else pod_namespace pod @ ''/'' @ pgName)"

definition time_Second :: int64 where
  "time_Second = 1000000000"

definition DefaultWaitTime :: int64 where
  "DefaultWaitTime = 60 * time_Second"

definition GetWaitTimeDuration :: "PodGroup option \<Rightarrow> int64 option \<Rightarrow> int64" where
  "GetWaitTimeDuration pg scheduleTimeout =
     (case Option.bind pg pg_ScheduleTimeoutSeconds of
        Some s \<Rightarrow> word_of_int (sint s) * time_Second
      | None \<Rightarrow>
          (case scheduleTimeout of
             Some t \<Rightarrow> if t \<noteq> 0 then t else DefaultWaitTime
           | None \<Rightarrow> DefaultWaitTime))"

definition GetNamespacedName :: "Pod \<Rightarrow> string" where
  "GetNamespacedName obj = pod_namespace obj @ ''/'' @ pod_name obj"

section \<open>The expiring cache\<close>

text \<open>An item is its expiration instant in nanoseconds, 0 for never; the stored objects are not read.\<close>

record Cache =
  c_defaultExpiration :: int64
  c_items :: "(string, int) gomap"

definition Cache_Get :: "int \<Rightarrow> Cache \<Rightarrow> string \<Rightarrow> bool" where
  "Cache_Get now c k =
     (case map_get (c_items c) k of
        None \<Rightarrow> False
      | Some expiration \<Rightarrow> \<not> (expiration > 0 \<and> now > expiration))"

definition Cache_set :: "int \<Rightarrow> Cache \<Rightarrow> string \<Rightarrow> int64 \<Rightarrow> Cache" where
  "Cache_set now c k d =
     (let d' = (if d = 0 then c_defaultExpiration c else d);
          e = (if slt 0 d' then now + sint d' else 0)
      in c\<lparr>c_items := map_set k e (c_items c)\<rparr>)"

definition Cache_Add :: "int \<Rightarrow> Cache \<Rightarrow> string \<Rightarrow> int64 \<Rightarrow> Cache" where
  "Cache_Add now c k d = (if Cache_Get now c k then c else Cache_set now c k d)"

definition Cache_Delete :: "Cache \<Rightarrow> string \<Rightarrow> Cache" where
  "Cache_Delete c k = c\<lparr>c_items := map_del k (c_items c)\<rparr>"

section \<open>The manager\<close>

datatype PGStatus = PodGroupNotSpecified | PodGroupNotFound | PGSuccess | PGWait

record PodGroupManager =
  pgm_scheduleTimeout :: int64
  permittedPG :: Cache
  backedOffPG :: Cache

text \<open>
  \<open>env_getPG ns name\<close> is the client's \<open>Get\<close>; the lister and the snapshot may fail with an error.
\<close>

record PGEnv =
  env_getPG :: "string \<Rightarrow> string \<Rightarrow> PodGroup option"
  env_pods :: "string + Pod list"
  env_nodeInfos :: "string + FNodeInfo list"
  env_calculateResource :: "Pod \<Rightarrow> Resource"
  env_now :: int

definition NewPodGroupManager :: "int64 \<Rightarrow> PodGroupManager" where
  "NewPodGroupManager timeout =
     \<lparr>pgm_scheduleTimeout = timeout,
      permittedPG = \<lparr>c_defaultExpiration = 3 * time_Second, c_items = []\<rparr>,
      backedOffPG = \<lparr>c_defaultExpiration = 10 * time_Second, c_items = []\<rparr>\<rparr>"

definition BackoffPodGroup :: "PGEnv \<Rightarrow> PodGroupManager \<Rightarrow> string \<Rightarrow> int64 \<Rightarrow> PodGroupManager" where
  "BackoffPodGroup env m pgName backoff =
     (if backoff = 0 then m
      else m\<lparr>backedOffPG := Cache_Add (env_now env) (backedOffPG m) pgName backoff\<rparr>)"

text \<open>\<open>podLister.Pods(ns).List(label = value)\<close>: the pods of the namespace that carry the label.\<close>

definition list_group_pods :: "PGEnv \<Rightarrow> string \<Rightarrow> string \<Rightarrow> string + Pod list" where
  "list_group_pods env ns value =
     (case env_pods env of
        Inl err \<Rightarrow> Inl err
      | Inr pods \<Rightarrow>
          Inr (filter (\<lambda>p. pod_namespace p = ns \<and> map_get (pod_labels p) PodGroupLabel = Some value) pods))"

fun drop_uid :: "string \<Rightarrow> Pod list \<Rightarrow> Pod list" where
  "drop_uid uid [] = []"
| "drop_uid uid (p # ps) = (if pod_uid p = uid then ps else p # drop_uid uid ps)"

text \<open>What the manager keeps in the cycle state.\<close>

datatype CoState = PermitState bool | PodsToActivate "(string, Pod) gomap"

definition permitStateKey :: string where "permitStateKey = ''PermitCoscheduling''"
definition PodsToActivateKey :: string where "PodsToActivateKey = ''kubernetes.io/pods-to-activate''"

definition ActivateSiblings :: "PGEnv \<Rightarrow> Pod \<Rightarrow> CoState CycleState \<Rightarrow> CoState CycleState" where
  "ActivateSiblings env pod state =
     (let pgName = GetPodGroupLabel pod
      in if pgName = [] then state
         else (case CycleState_Read state permitStateKey of
                 Some (PermitState True) \<Rightarrow>
                   (case list_group_pods env (pod_namespace pod) pgName of
                      Inl err \<Rightarrow> state
                    | Inr pods \<Rightarrow>
                        (let pods' = drop_uid (pod_uid pod) pods
                         in if length pods' \<noteq> 0 then
                              (case CycleState_Read state PodsToActivateKey of
                                 Some (PodsToActivate m) \<Rightarrow>
                                   CycleState_Write state PodsToActivateKey
                                     (PodsToActivate (foldl (\<lambda>m p. map_set (GetNamespacedName p) p m) m pods'))
                               | _ \<Rightarrow> state)
                            else state))
               | _ \<Rightarrow> state))"

definition GetPodGroup :: "PGEnv \<Rightarrow> Pod \<Rightarrow> string \<times> PodGroup option" where
  "GetPodGroup env pod =
     (let pgName = GetPodGroupLabel pod
      in if length pgName = 0 then ([], None)
         else (pod_namespace pod @ ''/'' @ pgName, env_getPG env (pod_namespace pod) pgName))"

definition GetCreationTimestamp :: "PGEnv \<Rightarrow> Pod \<Rightarrow> int \<Rightarrow> int" where
  "GetCreationTimestamp env pod ts =
     (let pgName = GetPodGroupLabel pod
      in if length pgName = 0 then ts
         else (case env_getPG env (pod_namespace pod) pgName of
                 None \<Rightarrow> ts
               | Some pg \<Rightarrow> pg_creationTimestamp pg))"

definition DeletePermittedPodGroup :: "PodGroupManager \<Rightarrow> string \<Rightarrow> PodGroupManager" where
  "DeletePermittedPodGroup m pgFullName = m\<lparr>permittedPG := Cache_Delete (permittedPG m) pgFullName\<rparr>"

definition CalculateAssignedPods :: "PGEnv \<Rightarrow> string \<Rightarrow> string \<Rightarrow> nat" where
  "CalculateAssignedPods env podGroupName namespace =
     (case env_nodeInfos env of
        Inl err \<Rightarrow> 0
      | Inr nodeInfos \<Rightarrow>
          foldl (\<lambda>count nodeInfo.
             foldl (\<lambda>count pod.
               if GetPodGroupLabel pod = podGroupName \<and> pod_namespace pod = namespace \<and> pod_nodeName pod \<noteq> []
               then count + 1 else count) count (ni_pods nodeInfo)) 0 nodeInfos)"

text \<open>
  \<open>getNodeResource\<close>: what is left on a node once the pods of the group are taken off a clone of it;
  errors of \<open>RemovePod\<close> are ignored.
\<close>

definition remove_group :: "(Pod \<Rightarrow> Resource) \<Rightarrow> string \<Rightarrow> FNodeInfo \<Rightarrow> Pod \<Rightarrow> FNodeInfo" where
  "remove_group calc desiredPodGroupName nodeClone pod =
     (if GetPodGroupFullName pod \<noteq> desiredPodGroupName then nodeClone
      else (case FNodeInfo_RemovePod calc nodeClone pod of Inl err \<Rightarrow> nodeClone | Inr n \<Rightarrow> n))"

definition getNodeResource :: "(Pod \<Rightarrow> Resource) \<Rightarrow> FNodeInfo \<Rightarrow> string \<Rightarrow> Resource" where
  "getNodeResource calc info desiredPodGroupName =
     (let nodeClone = foldl (remove_group calc desiredPodGroupName) info (ni_pods info);
          allocatable = ni_allocatable nodeClone; requested = ni_requested nodeClone
      in \<lparr>MilliCPU = MilliCPU allocatable - MilliCPU requested,
          Memory = Memory allocatable - Memory requested,
          EphemeralStorage = EphemeralStorage allocatable - EphemeralStorage requested,
          AllowedPodNumber = AllowedPodNumber allocatable - of_nat (length (ni_pods nodeClone)),
          ScalarResources =
            foldl (\<lambda>left (k, allocatableEx).
               case map_get (ScalarResources requested) k of
                 None \<Rightarrow> map_set k allocatableEx left
               | Some requestEx \<Rightarrow> map_set k (allocatableEx - requestEx) left)
              [] (ScalarResources allocatable)\<rparr>)"

text \<open>One pass over the open requests: subtract what the node has left, drop what is satisfied.\<close>

fun subtract_node :: "ResourceList \<Rightarrow> ResourceList \<Rightarrow> ResourceList" where
  "subtract_node nodeResource [] = []"
| "subtract_node nodeResource ((name, quant) # request) =
     (let quant' = quant - map_getd 0 nodeResource name
      in if quant' \<le> 0 then subtract_node nodeResource request
         else (name, quant') # subtract_node nodeResource request)"

text \<open>The error carries the gap that is left.\<close>

fun CheckClusterResource ::
  "(Pod \<Rightarrow> Resource) \<Rightarrow> FNodeInfo list \<Rightarrow> ResourceList \<Rightarrow> string \<Rightarrow> ResourceList + unit" where
  "CheckClusterResource calc [] resourceRequest desired = Inl resourceRequest"
| "CheckClusterResource calc (info # nodeList) resourceRequest desired =
     (if \<not> ni_hasNode info then CheckClusterResource calc nodeList resourceRequest desired
      else (let nodeResource = ResourceList_of (getNodeResource calc info desired);
                resourceRequest' = subtract_node nodeResource resourceRequest
            in if length resourceRequest' = 0 then Inr ()
               else CheckClusterResource calc nodeList resourceRequest' desired))"

datatype PFError =
    PGFailedRecently string
  | ListPodsFailed string
  | NotEnoughSiblings string nat int32
  | ListNodesFailed string
  | ResourceGap ResourceList

definition Manager_PreFilter :: "PGEnv \<Rightarrow> PodGroupManager \<Rightarrow> Pod \<Rightarrow> PFError option \<times> PodGroupManager" where
  "Manager_PreFilter env m pod =
     (case GetPodGroup env pod of
        (pgFullName, None) \<Rightarrow> (None, m)
      | (pgFullName, Some pg) \<Rightarrow>
          if Cache_Get (env_now env) (backedOffPG m) pgFullName then (Some (PGFailedRecently pgFullName), m)
          else (case list_group_pods env (pod_namespace pod) (GetPodGroupLabel pod) of
                  Inl err \<Rightarrow> (Some (ListPodsFailed err), m)
                | Inr pods \<Rightarrow>
                    if int (length pods) < sint (pg_MinMember pg) then
                      (Some (NotEnoughSiblings (pod_name pod) (length pods) (pg_MinMember pg)), m)
                    else (case pg_MinResources pg of
                            None \<Rightarrow> (None, m)
                          | Some minResources \<Rightarrow>
                              if Cache_Get (env_now env) (permittedPG m) pgFullName then (None, m)
                              else (case env_nodeInfos env of
                                      Inl err \<Rightarrow> (Some (ListNodesFailed err), m)
                                    | Inr nodes \<Rightarrow>
                                        (let podQuantity = NewQuantity (word_of_int (sint (pg_MinMember pg)));
                                             request = map_set ResourcePods podQuantity minResources
                                         in case CheckClusterResource (env_calculateResource env) nodes request pgFullName of
                                              Inl gap \<Rightarrow> (Some (ResourceGap gap), m)
                                            | Inr _ \<Rightarrow>
                                                (None, m\<lparr>permittedPG := Cache_Add (env_now env) (permittedPG m)
                                                           pgFullName (pgm_scheduleTimeout m)\<rparr>))))))"

definition Manager_Permit :: "PGEnv \<Rightarrow> CoState CycleState \<Rightarrow> Pod \<Rightarrow> PGStatus \<times> CoState CycleState" where
  "Manager_Permit env state pod =
     (case GetPodGroup env pod of
        (pgFullName, pg) \<Rightarrow>
          if pgFullName = [] then (PodGroupNotSpecified, state)
          else (case pg of
                  None \<Rightarrow> (PodGroupNotFound, state)
                | Some pg \<Rightarrow>
                    (let assigned = CalculateAssignedPods env (pg_name pg) (pg_namespace pg)
                     in if sint (pg_MinMember pg) \<le> sint (word_of_nat assigned + 1 :: int32) then (PGSuccess, state)
                        else if assigned = 0 then
                          (PGWait, CycleState_Write state permitStateKey (PermitState True))
                        else (PGWait, state))))"

section \<open>The cache expires as asked\<close>

lemma Cache_Get_set:
  "Cache_Get t (Cache_set now c k d) k' =
     (if k' = k then
        (let d' = (if d = 0 then c_defaultExpiration c else d)
         in \<not> (slt 0 d' \<and> 0 < now + sint d' \<and> now + sint d' < t))
      else Cache_Get t c k')"
  by (auto simp: Cache_Get_def Cache_set_def Let_def map_of_set)

lemma Cache_Get_Delete: "Cache_Get t (Cache_Delete c k) k' \<longleftrightarrow> k' \<noteq> k \<and> Cache_Get t c k'"
  by (auto simp: Cache_Get_def Cache_Delete_def map_of_del)

text \<open>A fresh entry with a positive lifetime is seen up to its last instant and not after it.\<close>

lemma Cache_Get_Add_fresh:
  assumes "\<not> Cache_Get now c k" and "slt 0 d" and "0 \<le> now"
  shows "Cache_Get t (Cache_Add now c k d) k \<longleftrightarrow> t \<le> now + sint d"
  using assms by (auto simp: Cache_Add_def Cache_Get_set Let_def slt_def)

lemma Cache_Get_Add_now: "0 \<le> now \<Longrightarrow> Cache_Get now (Cache_Add now c k d) k"
  by (auto simp: Cache_Add_def Cache_Get_set Let_def slt_def)

section \<open>Counting members\<close>

definition assigned_members :: "string \<Rightarrow> string \<Rightarrow> FNodeInfo list \<Rightarrow> Pod list" where
  "assigned_members name ns nodes =
     filter (\<lambda>pod. GetPodGroupLabel pod = name \<and> pod_namespace pod = ns \<and> pod_nodeName pod \<noteq> [])
       (concat (map ni_pods nodes))"

lemma count_loop: "foldl (\<lambda>c p. if P p then c + 1 else c) (c :: nat) ps = c + length (filter P ps)"
  by (induction ps arbitrary: c) auto

lemma CalculateAssignedPods_eq:
  assumes "env_nodeInfos env = Inr nodes"
  shows "CalculateAssignedPods env name ns = length (assigned_members name ns nodes)"
proof -
  have "foldl (\<lambda>c n. c + length (filter P (ni_pods n))) (c :: nat) nodes =
      c + length (filter P (concat (map ni_pods nodes)))" for P c
    by (induction nodes arbitrary: c) auto
  then show ?thesis
    using assms by (simp add: CalculateAssignedPods_def count_loop assigned_members_def)
qed

section \<open>What a node has left\<close>

lemma map_of_foldl_set_key:
  "wf_map es \<Longrightarrow>
   map_of (foldl (\<lambda>m (k, v). map_set k (f k v) m) m0 es) k =
     (case map_of es k of Some v \<Rightarrow> Some (f k v) | None \<Rightarrow> map_of m0 k)"
proof (induction es arbitrary: m0)
  case Nil
  then show ?case by simp
next
  case (Cons e es)
  obtain n v where e: "e = (n, v)" by (cases e)
  from Cons.prems have "wf_map es" "map_of es n = None"
    by (auto dest: wf_map_ConsD simp: e map_of_absent)
  then show ?case using Cons.IH by (auto simp: e map_of_set split: option.splits)
qed

lemma foldl_set_key_wf:
  assumes "wf_map m" and "list_all P (map fst m)" and "list_all P (map fst es)"
  shows "wf_map (foldl (\<lambda>m (k, v). map_set k (f k v) m) m es) \<and>
    list_all P (map fst (foldl (\<lambda>m (k, v). map_set k (f k v) m) m es))"
  using assms
proof (induction es arbitrary: m)
  case (Cons e es)
  then show ?case using Cons.IH [of "map_set (fst e) (f (fst e) (snd e)) m"]
    by (simp add: split_beta list_all_keys_set del: list.pred_map)
qed simp

lemma remove_group_member:
  assumes "distinct (map pod_uid (ni_pods n))" and "p \<in> set (ni_pods n)" and "pod_uid p \<noteq> []"
    and "GetPodGroupFullName p = g" and wf: "wf_Resource (calc p)"
  shows "mset (ni_pods (remove_group calc g n p)) = mset (ni_pods n) - {#p#}"
    and "ni_allocatable (remove_group calc g n p) = ni_allocatable n"
    and "d \<noteq> DPods \<Longrightarrow> amount (ni_requested (remove_group calc g n p)) d =
           amount (ni_requested n) d - amount (calc p) d"
proof -
  from assms(2) have "index_of_key (pod_uid p) (ni_pods n) \<noteq> None" by (auto simp: index_of_key_None)
  then obtain n' where n': "NodeInfo_RemovePod n p = Inr n'" and
    same: "ni_allocatable n' = ni_allocatable n" "ni_requested n' = ni_requested n"
    using assms(3) by (auto simp: NodeInfo_RemovePod_def GetPodKey_def)
  from NodeInfo_RemovePod_mset [OF n'] obtain q where q: "q \<in> set (ni_pods n)" "pod_uid q = pod_uid p"
    "mset (ni_pods n') = mset (ni_pods n) - {#q#}" by blast
  have "q = p" using q(1,2) assms(1,2) by (auto simp: distinct_map dest: inj_onD)
  have r: "remove_group calc g n p = NodeInfo_update calc n' p (- 1)"
    using assms(4) n' by (simp add: remove_group_def FNodeInfo_RemovePod_def)
  show "mset (ni_pods (remove_group calc g n p)) = mset (ni_pods n) - {#p#}"
    using q(3) \<open>q = p\<close> by (simp add: r)
  show "ni_allocatable (remove_group calc g n p) = ni_allocatable n" by (simp add: r same)
  show "d \<noteq> DPods \<Longrightarrow> amount (ni_requested (remove_group calc g n p)) d =
           amount (ni_requested n) d - amount (calc p) d"
    by (simp add: r same amount_NodeInfo_update [of calc p, OF wf])
qed

abbreviation in_group :: "string \<Rightarrow> Pod \<Rightarrow> bool" where
  "in_group g p \<equiv> GetPodGroupFullName p = g"

lemma remove_group_all:
  assumes "distinct (map pod_uid (ni_pods n))" and "mset ps \<subseteq># mset (ni_pods n)"
    and "\<forall>p \<in> set ps. pod_uid p \<noteq> [] \<and> wf_Resource (calc p)"
  shows "mset (ni_pods (foldl (remove_group calc g) n ps)) = mset (ni_pods n) - mset (filter (in_group g) ps)
    \<and> ni_allocatable (foldl (remove_group calc g) n ps) = ni_allocatable n
    \<and> (\<forall>d. d \<noteq> DPods \<longrightarrow> amount (ni_requested (foldl (remove_group calc g) n ps)) d =
           amount (ni_requested n) d - (\<Sum>p \<leftarrow> filter (in_group g) ps. amount (calc p) d))"
  using assms
proof (induction ps arbitrary: n)
  case Nil
  then show ?case by simp
next
  case (Cons p ps)
  have sub: "mset ps \<subseteq># mset (ni_pods n) - {#p#}"
    using Cons.prems(2) by (simp add: insert_subset_eq_iff)
  show ?case
  proof (cases "in_group g p")
    case False
    have "mset ps \<subseteq># mset (ni_pods n)" 
      using sub by (meson diff_subset_eq_self subset_mset.order_trans)
    with Cons.IH [of n] Cons.prems False show ?thesis by (simp add: remove_group_def)
  next
    case True
    let ?n = "remove_group calc g n p"
    have p: "p \<in> set (ni_pods n)" 
      using Cons.prems(2) by (simp add: insert_subset_eq_iff)
    have u: "pod_uid p \<noteq> []" "wf_Resource (calc p)" using Cons.prems(3) by simp_all
    note m = remove_group_member [where calc = calc, OF Cons.prems(1) p u(1) True u(2)]
    have "mset (map pod_uid (ni_pods ?n)) \<subseteq># mset (map pod_uid (ni_pods n))"
      by (simp add: m(1) image_mset_subseteq_mono)
    then have "distinct (map pod_uid (ni_pods ?n))"
      using Cons.prems(1) by (rule distinct_submset [rotated])
    with Cons.IH [of ?n] Cons.prems(3) sub show ?thesis
      using True by (simp add: m algebra_simps)
  qed
qed

text \<open>
  What a node is expected to have left for a group: the allocatable amount less what the pods of
  other groups occupy, and nothing of a scalar resource that the node does not offer.
\<close>

definition node_left :: "(Pod \<Rightarrow> Resource) \<Rightarrow> string \<Rightarrow> FNodeInfo \<Rightarrow> dim \<Rightarrow> int64" where
  "node_left calc g info d =
     (case d of
        DPods \<Rightarrow> AllowedPodNumber (ni_allocatable info) -
                  of_nat (length (filter (\<lambda>p. \<not> in_group g p) (ni_pods info)))
      | DScalar n \<Rightarrow>
          if map_of (ScalarResources (ni_allocatable info)) n = None then 0
          else amount (ni_allocatable info) d - amount (ni_requested info) d
               + (\<Sum>p \<leftarrow> filter (in_group g) (ni_pods info). amount (calc p) d)
      | _ \<Rightarrow> amount (ni_allocatable info) d - amount (ni_requested info) d
               + (\<Sum>p \<leftarrow> filter (in_group g) (ni_pods info). amount (calc p) d))"

definition wf_FNodeInfo :: "(Pod \<Rightarrow> Resource) \<Rightarrow> FNodeInfo \<Rightarrow> bool" where
  "wf_FNodeInfo calc info \<longleftrightarrow>
     wf_Resource (ni_allocatable info) \<and> distinct (map pod_uid (ni_pods info)) \<and>
     list_all (\<lambda>p. pod_uid p \<noteq> [] \<and> wf_Resource (calc p)) (ni_pods info)"

lemma amount_getNodeResource:
  assumes "wf_FNodeInfo calc info"
  shows "amount (getNodeResource calc info g) d = node_left calc g info d"
proof -
  let ?c = "foldl (remove_group calc g) info (ni_pods info)"
  from assms have wf: "wf_map (ScalarResources (ni_allocatable info))"
    and all: "\<forall>p \<in> set (ni_pods info). pod_uid p \<noteq> [] \<and> wf_Resource (calc p)"
    and dist: "distinct (map pod_uid (ni_pods info))"
    by (auto simp: wf_FNodeInfo_def wf_Resource_def list_all_iff)
  from remove_group_all [OF dist _ all, of g]
  have pods: "mset (ni_pods ?c) = mset (ni_pods info) - mset (filter (in_group g) (ni_pods info))"
    and alloc: "ni_allocatable ?c = ni_allocatable info"
    and req: "\<And>d. d \<noteq> DPods \<Longrightarrow> amount (ni_requested ?c) d =
      amount (ni_requested info) d - (\<Sum>p \<leftarrow> filter (in_group g) (ni_pods info). amount (calc p) d)"
    by simp_all
  have "mset (ni_pods ?c) = mset (filter (\<lambda>p. \<not> in_group g p) (ni_pods info))"
    by (simp add: pods multiset_filter_mono flip: mset_filter) (simp add: multiset_eq_iff)
  then have len: "length (ni_pods ?c) = length (filter (\<lambda>p. \<not> in_group g p) (ni_pods info))"
    by (metis size_mset)
  have sc: "map_of (foldl (\<lambda>left (k, a). case map_get (ScalarResources (ni_requested ?c)) k of
         None \<Rightarrow> map_set k a left | Some r \<Rightarrow> map_set k (a - r) left) [] (ScalarResources (ni_allocatable info))) n =
      (case map_of (ScalarResources (ni_allocatable info)) n of
         Some a \<Rightarrow> Some (a - amount (ni_requested ?c) (DScalar n)) | None \<Rightarrow> None)" for n
  proof -
    have body: "(\<lambda>left (k, a). case map_get (ScalarResources (ni_requested ?c)) k of
         None \<Rightarrow> map_set k a left | Some r \<Rightarrow> map_set k (a - r) left) =
       (\<lambda>left (k, a). map_set k (a - amount (ni_requested ?c) (DScalar k)) left)"
      by (auto simp: fun_eq_iff map_getd_def split: option.splits)
    show ?thesis unfolding body using map_of_foldl_set_key
        [OF wf, of "\<lambda>k a. a - amount (ni_requested ?c) (DScalar k)" "[]" n]
      by (simp split: option.splits)
  qed
  show ?thesis
    using req [of DCPU] req [of DMemory] req [of DEphemeral] req [of "DScalar _"]
    by (cases d) (auto simp: getNodeResource_def Let_def alloc len node_left_def map_getd_def sc
        algebra_simps split: option.splits)
qed

section \<open>The cluster resource check\<close>

text \<open>The amount of a resource name that a node has left, as the quantity the check subtracts.\<close>

definition dim_of_name :: "string \<Rightarrow> dim option" where
  "dim_of_name n =
     (if n = ResourceCPU then Some DCPU else if n = ResourceMemory then Some DMemory
      else if n = ResourcePods then Some DPods else if n = ResourceEphemeralStorage then Some DEphemeral
      else if IsScalarResourceName n then Some (DScalar n) else None)"

definition dim_quantity :: "dim \<Rightarrow> int64 \<Rightarrow> Quantity" where
  "dim_quantity d w = (if d = DCPU then NewMilliQuantity w else NewQuantity w)"

definition name_left :: "(Pod \<Rightarrow> Resource) \<Rightarrow> string \<Rightarrow> FNodeInfo \<Rightarrow> string \<Rightarrow> Quantity" where
  "name_left calc g info n =
     (case dim_of_name n of None \<Rightarrow> 0 | Some d \<Rightarrow> dim_quantity d (node_left calc g info d))"

lemma map_getd_ResourceList_of:
  assumes "wf_Resource r"
  shows "map_getd 0 (ResourceList_of r) n =
    (case dim_of_name n of None \<Rightarrow> 0 | Some d \<Rightarrow> dim_quantity d (amount r d))"
proof -
  from assms have wf: "wf_map (ScalarResources r)" by (simp add: wf_Resource_def)
  show ?thesis
    using basic_name_absent [OF assms] map_of_foldl_set [OF wf, of NewQuantity _ n]
    by (auto simp: map_getd_def ResourceList_of_def dim_of_name_def dim_quantity_def NewQuantity_def
        split: option.splits)
qed

lemma wf_getNodeResource:
  assumes "wf_FNodeInfo calc info"
  shows "wf_Resource (getNodeResource calc info g)"
proof -
  let ?c = "foldl (remove_group calc g) info (ni_pods info)"
  have alloc: "ni_allocatable ?c = ni_allocatable info"
    using remove_group_all [of info "ni_pods info" calc g] assms
    by (simp add: wf_FNodeInfo_def list_all_iff)
  have body: "(\<lambda>left (k, a). case map_get rq k of None \<Rightarrow> map_set k a left | Some r \<Rightarrow> map_set k (a - r) left) =
     (\<lambda>left (k, a). map_set k (a - map_getd 0 rq k) left)" for rq :: "(string, int64) gomap"
    by (auto simp: fun_eq_iff map_getd_def split: option.splits)
  show ?thesis
    using assms foldl_set_key_wf [of "[]" IsScalarResourceName "ScalarResources (ni_allocatable info)"
        "\<lambda>k a. a - map_getd 0 (ScalarResources (ni_requested ?c)) k"]
    by (simp add: getNodeResource_def Let_def wf_Resource_def alloc wf_FNodeInfo_def body del: list.pred_map)
qed

lemma node_resource_left:
  "wf_FNodeInfo calc info \<Longrightarrow>
   map_getd 0 (ResourceList_of (getNodeResource calc info g)) n = name_left calc g info n"
  by (simp add: map_getd_ResourceList_of wf_getNodeResource name_left_def amount_getNodeResource split: option.splits)

lemma set_subtract_node:
  "set (subtract_node nr rq) = {(n, q - map_getd 0 nr n) | n q. (n, q) \<in> set rq \<and> map_getd 0 nr n < q}"
  by (induction nr rq rule: subtract_node.induct) (auto simp: Let_def)

text \<open>A request is met along a list of contributions when some non-empty prefix adds up to it.\<close>

fun met :: "int \<Rightarrow> int list \<Rightarrow> bool" where
  "met q [] = False"
| "met q (x # xs) = (q \<le> x \<or> met (q - x) xs)"

lemma met_prefix: "met q xs \<longleftrightarrow> (\<exists>k. 0 < k \<and> k \<le> length xs \<and> q \<le> sum_list (take k xs))"
proof (induction xs arbitrary: q)
  case Nil
  then show ?case by simp
next
  case (Cons x xs)
  have "(\<exists>k. 0 < k \<and> k \<le> length (x # xs) \<and> q \<le> sum_list (take k (x # xs))) \<longleftrightarrow>
        (\<exists>k. k \<le> length xs \<and> q \<le> x + sum_list (take k xs))"
    by (metis Suc_le_mono gr0_conv_Suc length_Cons sum_list.Cons take_Suc_Cons zero_less_Suc)
  also have "\<dots> \<longleftrightarrow> q \<le> x \<or> (\<exists>k. 0 < k \<and> k \<le> length xs \<and> q - x \<le> sum_list (take k xs))"
    by (metis add.commute add_0 diff_le_eq gr0I le0 sum_list.Nil take0)
  finally show ?case using Cons.IH by simp
qed

lemma met_nonneg:
  assumes "\<forall>x \<in> set xs. 0 \<le> x" and "xs \<noteq> []"
  shows "met q xs \<longleftrightarrow> q \<le> sum_list xs"
  using assms
proof (induction xs arbitrary: q)
  case (Cons x xs)
  have "0 \<le> sum_list xs" using Cons.prems(1) by (intro sum_list_nonneg) simp
  with Cons show ?case by (cases "xs = []") auto
qed simp

lemma CheckClusterResource_met:
  assumes "\<forall>info \<in> set nodes. wf_FNodeInfo calc info" and "request \<noteq> []"
  shows "CheckClusterResource calc nodes request g = Inr () \<longleftrightarrow>
    (\<forall>(n, q) \<in> set request. met q (map (\<lambda>info. name_left calc g info n) (filter ni_hasNode nodes)))"
  using assms
proof (induction nodes arbitrary: request)
  case Nil
  then show ?case by (cases request) auto
next
  case (Cons info nodes)
  let ?rq = "subtract_node (ResourceList_of (getNodeResource calc info g)) request"
  have left: "map_getd 0 (ResourceList_of (getNodeResource calc info g)) n = name_left calc g info n" for n
    using Cons.prems(1) by (simp add: node_resource_left)
  show ?case
  proof (cases "ni_hasNode info")
    case False
    with Cons show ?thesis by simp
  next
    case True
    have set: "set ?rq = {(n, q - name_left calc g info n) | n q. (n, q) \<in> set request \<and> name_left calc g info n < q}"
      by (simp add: set_subtract_node left)
    have "(\<forall>(n, q) \<in> set request. met q (map (\<lambda>info. name_left calc g info n) (filter ni_hasNode (info # nodes)))) \<longleftrightarrow>
      (\<forall>(n, q) \<in> set ?rq. met q (map (\<lambda>info. name_left calc g info n) (filter ni_hasNode nodes)))"
      using True by (fastforce simp: set)
    moreover have "CheckClusterResource calc (info # nodes) request g = Inr () \<longleftrightarrow>
      (\<forall>(n, q) \<in> set ?rq. met q (map (\<lambda>info. name_left calc g info n) (filter ni_hasNode nodes)))"
      using True Cons.IH [of ?rq] Cons.prems(1) by (cases "?rq = []") (simp_all add: Let_def)
    ultimately show ?thesis by blast
  qed
qed

text \<open>
  C15. The cluster resource check accepts a group exactly when every requested resource is covered:
  walking over the nodes of the snapshot that have a node object, some non-empty prefix of them has
  left, without counting the pods of the group itself, at least the requested amount. What a node
  has left is its allocatable amount less the requests of the pods of other groups; for the pod
  count it is the allowed number less the number of those pods.
\<close>

theorem CheckClusterResource_spec:
  assumes "\<forall>info \<in> set nodes. wf_FNodeInfo calc info" and "request \<noteq> []"
  shows "CheckClusterResource calc nodes request g = Inr () \<longleftrightarrow>
    (\<forall>(n, q) \<in> set request. \<exists>k. 0 < k \<and> k \<le> length (filter ni_hasNode nodes) \<and>
       q \<le> (\<Sum>info \<leftarrow> take k (filter ni_hasNode nodes). name_left calc g info n))"
  unfolding CheckClusterResource_met [OF assms] met_prefix by (auto simp: take_map)

definition demo_gpod :: Pod where
  "demo_gpod = demo_pod\<lparr>pod_labels := [(PodGroupLabel, ''g'')]\<rparr>"

definition demo_calc :: "Pod \<Rightarrow> Resource" where
  "demo_calc _ = empty_Resource\<lparr>MilliCPU := 2000\<rparr>"

definition demo_ninfo :: FNodeInfo where
  "demo_ninfo = \<lparr>ni_name = ''n1'', ni_pods = [demo_gpod], ni_hasNode = True,
     ni_allocatable = empty_Resource\<lparr>MilliCPU := 3000, AllowedPodNumber := 10\<rparr>,
     ni_requested = empty_Resource\<lparr>MilliCPU := 2000\<rparr>\<rparr>"

lemma demo_ninfo_wf: "\<forall>info \<in> set [demo_ninfo]. wf_FNodeInfo demo_calc info"
  by (simp add: wf_FNodeInfo_def demo_ninfo_def demo_calc_def wf_Resource_def empty_Resource_def
      demo_gpod_def demo_pod_def)

theorem CheckClusterResource_spec_witness:
  "3 * 10 ^ 9 \<le> name_left demo_calc ''ns1/g'' demo_ninfo ResourceCPU"
proof -
  have "CheckClusterResource demo_calc [demo_ninfo] [(ResourceCPU, 3 * 10 ^ 9)] ''ns1/g'' = Inr ()"
    by code_simp
  with CheckClusterResource_spec [OF demo_ninfo_wf, of "[(ResourceCPU, 3 * 10 ^ 9)]" "''ns1/g''"]
  have "\<exists>k. 0 < k \<and> k \<le> length (filter ni_hasNode [demo_ninfo]) \<and>
    3 * 10 ^ 9 \<le> (\<Sum>info \<leftarrow> take k (filter ni_hasNode [demo_ninfo]). name_left demo_calc ''ns1/g'' info ResourceCPU)"
    by fastforce
  moreover have "filter ni_hasNode [demo_ninfo] = [demo_ninfo]" by (simp add: demo_ninfo_def)
  ultimately show ?thesis by (auto simp: take_Cons' split: if_splits)
qed

section \<open>The manager's PreFilter\<close>

definition group_backed_off :: "PGEnv \<Rightarrow> PodGroupManager \<Rightarrow> Pod \<Rightarrow> bool" where
  "group_backed_off env m pod = Cache_Get (env_now env) (backedOffPG m) (GetPodGroupFullName pod)"

definition group_permitted :: "PGEnv \<Rightarrow> PodGroupManager \<Rightarrow> Pod \<Rightarrow> bool" where
  "group_permitted env m pod = Cache_Get (env_now env) (permittedPG m) (GetPodGroupFullName pod)"

definition enough_siblings :: "PGEnv \<Rightarrow> Pod \<Rightarrow> PodGroup \<Rightarrow> bool" where
  "enough_siblings env pod pg \<longleftrightarrow>
     (\<exists>pods. env_pods env = Inr pods \<and>
        sint (pg_MinMember pg) \<le> int (length (filter
          (\<lambda>p. pod_namespace p = pod_namespace pod \<and> map_of (pod_labels p) PodGroupLabel = Some (GetPodGroupLabel pod)) pods)))"

definition group_request :: "PodGroup \<Rightarrow> ResourceList \<Rightarrow> ResourceList" where
  "group_request pg minResources =
     map_set ResourcePods (NewQuantity (word_of_int (sint (pg_MinMember pg)))) minResources"

definition cluster_fits :: "PGEnv \<Rightarrow> Pod \<Rightarrow> ResourceList \<Rightarrow> bool" where
  "cluster_fits env pod request \<longleftrightarrow>
     (\<exists>nodes. env_nodeInfos env = Inr nodes \<and>
        CheckClusterResource (env_calculateResource env) nodes request (GetPodGroupFullName pod) = Inr ())"

lemma GetPodGroup_eq:
  "GetPodGroup env pod =
     (GetPodGroupFullName pod,
      if GetPodGroupLabel pod = [] then None else env_getPG env (pod_namespace pod) (GetPodGroupLabel pod))"
  by (simp add: GetPodGroup_def GetPodGroupFullName_def Let_def)

text \<open>
  The manager's \<open>PreFilter\<close> lets a pod pass exactly when it belongs to no existing group, or when
  its group is not backed off, the namespace holds at least \<open>MinMember\<close> pods with the group's label,
  and either the group asks for no minimal resources, or it was permitted recently, or the cluster
  check accepts the minimal resources together with \<open>MinMember\<close> pod slots. Only a pass through the
  cluster check changes the manager: from then on the group is recorded as permitted.
\<close>

theorem Manager_PreFilter_verdict:
  assumes "Manager_PreFilter env m pod = (err, m')" and "0 \<le> env_now env"
  shows "(err = None \<longleftrightarrow>
      (case snd (GetPodGroup env pod) of
         None \<Rightarrow> True
       | Some pg \<Rightarrow> \<not> group_backed_off env m pod \<and> enough_siblings env pod pg \<and>
           (case pg_MinResources pg of
              None \<Rightarrow> True
            | Some mr \<Rightarrow> group_permitted env m pod \<or> cluster_fits env pod (group_request pg mr))))
    \<and> (m' \<noteq> m \<longrightarrow> err = None \<and> \<not> group_permitted env m pod \<and> group_permitted env m' pod \<and>
         (\<exists>pg mr. snd (GetPodGroup env pod) = Some pg \<and> pg_MinResources pg = Some mr \<and>
            cluster_fits env pod (group_request pg mr)))"
proof (cases "snd (GetPodGroup env pod)")
  case None
  then show ?thesis using assms(1) by (auto simp: Manager_PreFilter_def GetPodGroup_eq)
next
  case (Some pg)
  then have gp: "GetPodGroup env pod = (GetPodGroupFullName pod, Some pg)" by (simp add: GetPodGroup_eq)
  note unfolded = group_backed_off_def group_permitted_def enough_siblings_def cluster_fits_def group_request_def
    list_group_pods_def
  show ?thesis
  proof (cases "group_backed_off env m pod \<or> \<not> enough_siblings env pod pg \<or> pg_MinResources pg = None \<or>
      group_permitted env m pod")
    case True
    then show ?thesis using assms(1) gp
      by (auto simp: Manager_PreFilter_def unfolded split: sum.splits option.splits if_splits)
  next
    case False
    then obtain mr where mr: "pg_MinResources pg = Some mr" by auto
    from False have "Manager_PreFilter env m pod =
      (case env_nodeInfos env of
         Inl e \<Rightarrow> (Some (ListNodesFailed e), m)
       | Inr nodes \<Rightarrow>
           (case CheckClusterResource (env_calculateResource env) nodes (group_request pg mr) (GetPodGroupFullName pod) of
              Inl gap \<Rightarrow> (Some (ResourceGap gap), m)
            | Inr _ \<Rightarrow> (None, m\<lparr>permittedPG := Cache_Add (env_now env) (permittedPG m)
                         (GetPodGroupFullName pod) (pgm_scheduleTimeout m)\<rparr>)))"
      using gp mr by (auto simp: Manager_PreFilter_def unfolded Let_def split: sum.splits)
    then show ?thesis using assms False gp mr
      by (auto simp: group_permitted_def cluster_fits_def Cache_Get_Add_now split: sum.splits)
  qed
qed

definition demo_pg :: PodGroup where
  "demo_pg = \<lparr>pg_name = ''g'', pg_namespace = ''ns1'', pg_creationTimestamp = 5, pg_MinMember = 2,
     pg_MinResources = Some [(ResourceCPU, 3 * 10 ^ 9)], pg_ScheduleTimeoutSeconds = None\<rparr>"

definition demo_gpod2 :: Pod where
  "demo_gpod2 = demo_gpod\<lparr>pod_name := ''q'', pod_uid := ''u2'', pod_nodeName := []\<rparr>"

definition demo_env :: PGEnv where
  "demo_env = \<lparr>env_getPG = (\<lambda>ns n. if ns = ''ns1'' \<and> n = ''g'' then Some demo_pg else None),
     env_pods = Inr [demo_gpod, demo_gpod2], env_nodeInfos = Inr [demo_ninfo],
     env_calculateResource = demo_calc, env_now = 100\<rparr>"

theorem Manager_PreFilter_verdict_witness:
  "cluster_fits demo_env demo_gpod2 (group_request demo_pg [(ResourceCPU, 3 * 10 ^ 9)])"
proof -
  let ?r = "Manager_PreFilter demo_env (NewPodGroupManager 5) demo_gpod2"
  have e: "fst ?r = None" "snd (GetPodGroup demo_env demo_gpod2) = Some demo_pg"
    "\<not> group_permitted demo_env (NewPodGroupManager 5) demo_gpod2" "0 \<le> env_now demo_env"
    by code_simp+
  with Manager_PreFilter_verdict [OF surjective_pairing e(4), of "NewPodGroupManager 5" demo_gpod2]
  show ?thesis by (simp add: demo_pg_def)
qed

end
