(* ===== verification/QueueSort.thy ===== *)
theory QueueSort
  imports KubeApi "HOL-Library.Char_ord" "HOL-Library.List_Lexorder"
begin

text \<open>
  Queue sorting. A queue-sort plugin gives the scheduler's active queue one function \<open>Less\<close>; the
  queue is a heap that hands out a pod that no other waiting pod precedes. \<open>queue_preorder\<close> states
  what that needs of a comparison read as ``may come before'': totality and transitivity;
  \<open>queue_sort\<close> states the stronger contract of a strict weak order. The plugins are measured against
  them: \<open>pkg/qos\<close> here, \<open>pkg/coscheduling\<close> in its own theory.
\<close>

record QueuedPodInfo =
  qpi_pod :: Pod
  qpi_timestamp :: int
  qpi_initialAttempt :: "int option"

section \<open>The queue's contract\<close>

text \<open>What the queue hands out: the first element that precedes every other one.\<close>

fun pop_min :: "('a \<Rightarrow> 'a \<Rightarrow> bool) \<Rightarrow> 'a list \<Rightarrow> 'a option" where
  "pop_min le [] = None"
| "pop_min le (x # xs) =
     (case pop_min le xs of
        None \<Rightarrow> Some x
      | Some y \<Rightarrow> if le x y then Some x else Some y)"

locale queue_preorder =
  fixes le :: "'a \<Rightarrow> 'a \<Rightarrow> bool" and ok :: "'a \<Rightarrow> bool"
  assumes total: "ok a \<Longrightarrow> ok b \<Longrightarrow> le a b \<or> le b a"
    and trans: "ok a \<Longrightarrow> ok b \<Longrightarrow> ok c \<Longrightarrow> le a b \<Longrightarrow> le b c \<Longrightarrow> le a c"
begin

lemma refl: "ok a \<Longrightarrow> le a a"
  using total by blast

lemma pop_min_in: "pop_min le xs = Some x \<Longrightarrow> x \<in> set xs"
  by (induction xs arbitrary: x) (auto split: option.splits if_splits)

lemma pop_min_Nil_iff: "pop_min le xs = None \<longleftrightarrow> xs = []"
  by (cases xs) (auto split: option.splits)

text \<open>The popped element precedes every element of the queue.\<close>

lemma pop_min_least:
  assumes "\<forall>y \<in> set xs. ok y" and "pop_min le xs = Some x" and "y \<in> set xs"
  shows "le x y"
  using assms
proof (induction xs arbitrary: x y)
  case (Cons z xs)
  show ?case
  proof (cases "pop_min le xs")
    case None
    then have "xs = []" by (simp add: pop_min_Nil_iff)
    with Cons.prems refl show ?thesis by auto
  next
    case (Some w)
    then have w: "ok w" "\<forall>v \<in> set xs. le w v" using pop_min_in Cons by auto
    have z: "ok z" "\<forall>v \<in> set xs. ok v" using Cons.prems(1) by auto
    show ?thesis
    proof (cases "le z w")
      case True
      then have "x = z" using Cons.prems(2) Some by simp
      then show ?thesis using Cons.prems(3) w z True refl trans by (metis set_ConsD)
    next
      case False
      then have "x = w" "le w z" using Cons.prems(2) Some total w z by auto
      then show ?thesis using Cons.prems(3) w by auto
    qed
  qed
qed simp

end

locale queue_sort =
  fixes less :: "'a \<Rightarrow> 'a \<Rightarrow> bool" and ok :: "'a \<Rightarrow> bool"
  assumes irrefl: "ok a \<Longrightarrow> \<not> less a a"
    and less_trans: "ok a \<Longrightarrow> ok b \<Longrightarrow> ok c \<Longrightarrow> less a b \<Longrightarrow> less b c \<Longrightarrow> less a c"
    and neg_trans: "ok a \<Longrightarrow> ok b \<Longrightarrow> ok c \<Longrightarrow> \<not> less a b \<Longrightarrow> \<not> less b c \<Longrightarrow> \<not> less a c"
begin

lemma asym: "ok a \<Longrightarrow> ok b \<Longrightarrow> less a b \<Longrightarrow> \<not> less b a"
  using irrefl less_trans by blast

end

text \<open>A strict weak order read backwards is a total preorder.\<close>

sublocale queue_sort \<subseteq> not_after: queue_preorder "\<lambda>a b. \<not> less b a" ok
  by unfold_locales (use asym neg_trans in blast)+

context queue_sort
begin

text \<open>With a strict weak order the popped pod is one that no waiting pod precedes.\<close>

lemma popped_not_preceded:
  assumes "\<forall>y \<in> set xs. ok y" and "pop_min (\<lambda>a b. \<not> less b a) xs = Some x" and "y \<in> set xs"
  shows "\<not> less y x"
  using not_after.pop_min_least [OF assms] .

end

section \<open>Quality-of-service classes\<close>

datatype PodQOSClass = PodQOSGuaranteed | PodQOSBurstable | PodQOSBestEffort

definition isSupportedQoSComputeResource :: "string \<Rightarrow> bool" where
  "isSupportedQoSComputeResource name \<longleftrightarrow> name = ResourceCPU \<or> name = ResourceMemory"

definition qos_add :: "ResourceList \<Rightarrow> string \<times> Quantity \<Rightarrow> ResourceList" where
  "qos_add m e =
     (case e of (name, quantity) \<Rightarrow>
        if \<not> isSupportedQoSComputeResource name then m
        else if quantity > 0 then
          map_set name (case map_get m name of None \<Rightarrow> quantity | Some q \<Rightarrow> quantity + q) m
        else m)"

definition qos_limits_found :: "Container \<Rightarrow> string set" where
  "qos_limits_found c =
     set (map fst (filter (\<lambda>(name, quantity). isSupportedQoSComputeResource name \<and> quantity > 0) (ctr_limits c)))"

definition GetPodQOS :: "Pod \<Rightarrow> PodQOSClass" where
  "GetPodQOS pod =
     (let allContainers = pod_containers pod @ pod_initContainers pod;
          requests = foldl (\<lambda>m c. foldl qos_add m (ctr_requests c)) [] allContainers;
          limits = foldl (\<lambda>m c. foldl qos_add m (ctr_limits c)) [] allContainers;
          isGuaranteed = list_all (\<lambda>c. ResourceMemory \<in> qos_limits_found c \<and> ResourceCPU \<in> qos_limits_found c)
            allContainers
      in if length requests = 0 \<and> length limits = 0 then PodQOSBestEffort
         else (let isGuaranteed' = (isGuaranteed \<and> list_all (\<lambda>(name, req). map_get limits name = Some req) requests)
               in if isGuaranteed' \<and> length requests = length limits then PodQOSGuaranteed
                  else PodQOSBurstable))"

definition compQOS :: "Pod \<Rightarrow> Pod \<Rightarrow> bool" where
  "compQOS p1 p2 =
     (let p1QOS = GetPodQOS p1; p2QOS = GetPodQOS p2
      in if p1QOS = PodQOSGuaranteed then True
         else if p1QOS = PodQOSBurstable then p2QOS \<noteq> PodQOSGuaranteed
         else p2QOS = PodQOSBestEffort)"

definition QOS_Less :: "QueuedPodInfo \<Rightarrow> QueuedPodInfo \<Rightarrow> bool" where
  "QOS_Less pInfo1 pInfo2 =
     (let p1 = PodPriority (qpi_pod pInfo1); p2 = PodPriority (qpi_pod pInfo2)
      in p1 > p2 \<or> (p1 = p2 \<and> compQOS (qpi_pod pInfo1) (qpi_pod pInfo2)))"

definition PrioritySort_Less :: "QueuedPodInfo \<Rightarrow> QueuedPodInfo \<Rightarrow> bool" where
  "PrioritySort_Less pInfo1 pInfo2 =
     (let p1 = PodPriority (qpi_pod pInfo1); p2 = PodPriority (qpi_pod pInfo2)
      in p1 > p2 \<or> (p1 = p2 \<and> qpi_timestamp pInfo1 < qpi_timestamp pInfo2))"

interpretation qos: queue_preorder QOS_Less "\<lambda>_. True"
proof
  show "QOS_Less a b \<or> QOS_Less b a" for a b
    by (cases "GetPodQOS (qpi_pod a)"; cases "GetPodQOS (qpi_pod b)") (auto simp: QOS_Less_def compQOS_def Let_def)
  show "QOS_Less a c" if "QOS_Less a b" "QOS_Less b c" for a b c
    using that by (cases "GetPodQOS (qpi_pod a)"; cases "GetPodQOS (qpi_pod b)"; cases "GetPodQOS (qpi_pod c)")
      (auto simp: QOS_Less_def compQOS_def Let_def)
qed

interpretation priority: queue_sort PrioritySort_Less "\<lambda>_. True"
  by unfold_locales (auto simp: PrioritySort_Less_def Let_def)

fun qos_rank :: "PodQOSClass \<Rightarrow> nat" where
  "qos_rank PodQOSGuaranteed = 0"
| "qos_rank PodQOSBurstable = 1"
| "qos_rank PodQOSBestEffort = 2"

text \<open>
  The QoS sort hands out a pod of the highest priority waiting and, among those, one of the best
  quality-of-service class; pods of equal priority and class are each reported as preceding the
  other, so \<open>Less\<close> is a total preorder and not the strict order its name suggests.
\<close>

theorem QOS_sort_pops_best:
  assumes "pop_min QOS_Less waiting = Some x" and "y \<in> set waiting"
  shows "PodPriority (qpi_pod y) \<le> PodPriority (qpi_pod x) \<and>
    (PodPriority (qpi_pod y) = PodPriority (qpi_pod x) \<longrightarrow>
      qos_rank (GetPodQOS (qpi_pod x)) \<le> qos_rank (GetPodQOS (qpi_pod y))) \<and> QOS_Less x x"
proof -
  have "QOS_Less x y" using qos.pop_min_least [OF _ assms] by simp
  moreover have "QOS_Less x x" using qos.refl by simp
  ultimately show ?thesis
    by (cases "GetPodQOS (qpi_pod x)"; cases "GetPodQOS (qpi_pod y)")
      (auto simp: QOS_Less_def compQOS_def Let_def)
qed

definition demo_qpi :: "int \<Rightarrow> QueuedPodInfo" where
  "demo_qpi prio = \<lparr>qpi_pod = \<lparr>pod_name = ''p'', pod_namespace = ''ns1'', pod_uid = ''u1'', pod_labels = [],
     pod_annotations = [], pod_creationTimestamp = 0, pod_deletionTimestamp = None,
     pod_containers = [], pod_initContainers = [], pod_overhead = [],
     pod_nodeName = [], pod_priority = Some prio, pod_priorityClassName = [],
     pod_preemptionPolicy = None, pod_phase = PodPending, pod_startTime = None,
     pod_nominatedNodeName = []\<rparr>, qpi_timestamp = 0, qpi_initialAttempt = Some 0\<rparr>"

theorem QOS_sort_pops_best_witness:
  "\<exists>x. pop_min QOS_Less [demo_qpi 1, demo_qpi 7] = Some x \<and> 7 \<le> PodPriority (qpi_pod x) \<and> QOS_Less x x"
proof -
  have "pop_min QOS_Less [demo_qpi 1, demo_qpi 7] = Some (demo_qpi 7)" by code_simp
  from QOS_sort_pops_best [OF this, of "demo_qpi 1"] this show ?thesis
    by (auto simp: demo_qpi_def PodPriority_def)
qed

end
