(* ===== verification/GoFloat.thy ===== *)
theory GoFloat
  imports Prelude Complex_Main "HOL-Library.Log_Nat"
begin

text \<open>
  Go's \<open>float32\<close> and \<open>float64\<close>: IEEE 754 binary formats with rounding to nearest, ties to even,
  gradual underflow and overflow to infinity. A finite value is the rational number it denotes, so
  that every operation is the exact operation followed by one rounding. The two zeros are one value
  (no code modelled here divides by a computed negative zero or prints a zero's sign).

  The lemmas give what the clients use: rounding is monotone, it keeps every number that the format
  represents, and therefore keeps the bounds of a computation that are themselves representable.
\<close>

section \<open>Rounding a rational number\<close>

definition rne :: "rat \<Rightarrow> int" where
  "rne x = (let f = \<lfloor>x\<rfloor>; d = x - of_int f
            in if d < 1/2 \<or> (d = 1/2 \<and> even f) then f else f + 1)"

definition ilog2 :: "rat \<Rightarrow> int" where
  "ilog2 x = (case quotient_of x of (p, q) \<Rightarrow>
     let e = bitlen p - bitlen q in if 2 powi e \<le> x then e else e - 1)"

text \<open>A format has a precision \<open>p\<close>, the exponent \<open>emin\<close> of its smallest unit and a bound \<open>emax\<close>.\<close>

record float_format =
  ff_prec :: int
  ff_emin :: int
  ff_emax :: int

definition ulp_exp :: "float_format \<Rightarrow> rat \<Rightarrow> int" where
  "ulp_exp F x = max (ilog2 \<bar>x\<bar> - (ff_prec F - 1)) (ff_emin F)"

definition round_to :: "float_format \<Rightarrow> rat \<Rightarrow> rat" where
  "round_to F x = (if x = 0 then 0 else of_int (rne (x / 2 powi ulp_exp F x)) * 2 powi ulp_exp F x)"

definition binary32 :: float_format where
  "binary32 = \<lparr>ff_prec = 24, ff_emin = - 149, ff_emax = 128\<rparr>"

definition binary64 :: float_format where
  "binary64 = \<lparr>ff_prec = 53, ff_emin = - 1074, ff_emax = 1024\<rparr>"

lemma rne_of_int [simp]: "rne (of_int m) = m"
  by (simp add: rne_def)

lemma rne_floor: "\<lfloor>x\<rfloor> \<le> rne x" "rne x \<le> \<lfloor>x\<rfloor> + 1"
  by (auto simp: rne_def Let_def)

lemma rne_mono: "x \<le> y \<Longrightarrow> rne x \<le> rne y"
proof (cases "\<lfloor>x\<rfloor> = \<lfloor>y\<rfloor>")
  case True
  assume "x \<le> y"
  with True show ?thesis by (auto simp: rne_def Let_def)
next
  case False
  assume "x \<le> y"
  with False have "\<lfloor>x\<rfloor> + 1 \<le> \<lfloor>y\<rfloor>" using floor_mono [of x y] by linarith
  then show ?thesis using rne_floor [of x] rne_floor [of y] by linarith
qed

lemma rne_minus: "rne (- x) = - rne x"
proof (cases "x = of_int \<lfloor>x\<rfloor>")
  case True
  then show ?thesis by (metis of_int_minus rne_of_int)
next
  case False
  then have "\<lceil>x\<rceil> = \<lfloor>x\<rfloor> + 1" by (simp add: ceiling_altdef)
  then have f: "\<lfloor>- x\<rfloor> = - \<lfloor>x\<rfloor> - 1" by (simp add: floor_minus)
  show ?thesis by (auto simp: rne_def Let_def f)
qed

lemma powi2_nat: "0 \<le> k \<Longrightarrow> (2 :: rat) powi k = of_int (2 ^ nat k)"
  by (simp add: power_int_def)

lemma powi2_bitlen_bounds:
  assumes "0 < n"
  shows "2 powi (bitlen n - 1) \<le> (of_int n :: rat)" and "(of_int n :: rat) < 2 powi bitlen n"
proof -
  have "1 \<le> bitlen n" using assms bitlen_nonneg [of n] bitlen_eq_zero_iff [of n] by linarith
  then have b: "0 \<le> bitlen n - 1" by simp
  show "2 powi (bitlen n - 1) \<le> (of_int n :: rat)"
    using bitlen_bounds [OF assms] b powi2_nat [of "bitlen n - 1"] of_int_le_iff by metis
  show "(of_int n :: rat) < 2 powi bitlen n"
    using bitlen_bounds [OF assms] powi2_nat [of "bitlen n"] bitlen_nonneg [of n] of_int_less_iff by metis
qed

lemma ilog2_bounds:
  assumes "0 < x"
  shows "2 powi ilog2 x \<le> x" and "x < 2 powi (ilog2 x + 1)"
proof -
  obtain p q where pq: "quotient_of x = (p, q)" by fastforce
  have q: "0 < q" using pq quotient_of_denom_pos by blast
  have x: "x = of_int p / of_int q" using pq quotient_of_div by blast
  have p: "0 < p" using assms q by (simp add: x zero_less_divide_iff)
  let ?bp = "bitlen p" and ?bq = "bitlen q"
  note P = powi2_bitlen_bounds [OF p] and Q = powi2_bitlen_bounds [OF q]
  have up: "x < 2 powi (?bp - ?bq + 1)"
  proof -
    have "of_int p / of_int q < (2 powi ?bp / 2 powi (?bq - 1) :: rat)"
      using P Q q p by (intro frac_less) auto
    also have "\<dots> = 2 powi (?bp - ?bq + 1)" by (simp add: power_int_diff power_int_add)
    finally show ?thesis by (simp add: x)
  qed
  have lo: "2 powi (?bp - ?bq - 1) \<le> x"
  proof -
    have "2 powi (?bp - ?bq - 1) = (2 powi (?bp - 1) / 2 powi ?bq :: rat)"
      by (simp add: power_int_diff)
    also have "\<dots> \<le> of_int p / of_int q" using P Q q p by (intro frac_le) auto
    finally show ?thesis by (simp add: x)
  qed
  show "2 powi ilog2 x \<le> x" and "x < 2 powi (ilog2 x + 1)"
    using up lo by (auto simp: ilog2_def pq Let_def)
qed

lemma powi2_le_iff [simp]: "(2 :: rat) powi a \<le> 2 powi b \<longleftrightarrow> a \<le> b"
  by (metis linorder_not_le one_less_numeral_iff power_int_increasing power_int_strict_increasing
      order_less_imp_le semiring_norm(76))

lemma powi2_less_iff [simp]: "(2 :: rat) powi a < 2 powi b \<longleftrightarrow> a < b"
  by (simp flip: linorder_not_le)

lemma ilog2_less_iff: "0 < x \<Longrightarrow> ilog2 x < e \<longleftrightarrow> x < 2 powi e"
  using ilog2_bounds [of x]
  by (metis add1_zle_eq leD linorder_not_le order_less_le_trans powi2_le_iff powi2_less_iff)

lemma ilog2_le_iff: "0 < x \<Longrightarrow> e \<le> ilog2 x \<longleftrightarrow> 2 powi e \<le> x"
  using ilog2_less_iff [of x e] by linarith

lemma ilog2_mono: "0 < x \<Longrightarrow> x \<le> y \<Longrightarrow> ilog2 x \<le> ilog2 y"
  using ilog2_bounds [of x] by (simp add: ilog2_le_iff)

section \<open>Monotonicity and exactness\<close>

text \<open>Multiples of the unit in the last place bound the rounded value when they bound the argument.\<close>

lemma round_to_le:
  assumes "x \<le> of_int m * 2 powi ulp_exp F x"
  shows "round_to F x \<le> of_int m * 2 powi ulp_exp F x"
proof (cases "x = 0")
  case False
  have "x / 2 powi ulp_exp F x \<le> of_int m" using assms by (simp add: divide_le_eq)
  from rne_mono [OF this] have "rne (x / 2 powi ulp_exp F x) \<le> m" by simp
  then show ?thesis using False by (simp add: round_to_def)
qed (use assms in \<open>simp add: round_to_def\<close>)

lemma round_to_ge:
  assumes "of_int m * 2 powi ulp_exp F x \<le> x"
  shows "of_int m * 2 powi ulp_exp F x \<le> round_to F x"
proof (cases "x = 0")
  case False
  have "of_int m \<le> x / 2 powi ulp_exp F x" using assms by (simp add: le_divide_eq)
  from rne_mono [OF this] have "m \<le> rne (x / 2 powi ulp_exp F x)" by simp
  then show ?thesis using False by (simp add: round_to_def)
qed (use assms in \<open>simp add: round_to_def\<close>)

lemma ulp_exp_minus [simp]: "ulp_exp F (- x) = ulp_exp F x"
  by (simp add: ulp_exp_def)

lemma round_to_0 [simp]: "round_to F 0 = 0"
  by (simp add: round_to_def)

lemma round_to_minus: "round_to F (- x) = - round_to F x"
  by (simp add: round_to_def rne_minus)

lemma round_to_nonneg: "0 \<le> x \<Longrightarrow> 0 \<le> round_to F x"
  using round_to_ge [of 0 F x] by simp

lemma round_to_mono_pos:
  assumes "0 < x" and "x \<le> y" and prec: "1 \<le> ff_prec F"
  shows "round_to F x \<le> round_to F y"
proof (cases "ulp_exp F x = ulp_exp F y")
  case True
  have "x / 2 powi ulp_exp F y \<le> y / 2 powi ulp_exp F y"
    using assms by (simp add: divide_right_mono)
  from rne_mono [OF this] show ?thesis using assms True by (simp add: round_to_def)
next
  case False
  let ?e = "ilog2 y"
  have y: "0 < y" using assms by simp
  have "ilog2 x \<le> ?e" using assms by (simp add: ilog2_mono)
  with False assms have lt: "ilog2 x < ?e" and uy: "ulp_exp F y = ?e - (ff_prec F - 1)"
    and uxy: "ulp_exp F x < ulp_exp F y" by (auto simp: ulp_exp_def max_def split: if_splits)
  have ux: "0 \<le> ?e - ulp_exp F x" using uxy uy prec by linarith
  have split_e: "(2 :: rat) powi ?e = of_int (2 ^ nat (?e - u)) * 2 powi u" if "u \<le> ?e" for u
    using that powi2_nat [of "?e - u"] by (simp add: power_int_diff divide_eq_eq)
  have "x \<le> 2 powi ?e" using lt assms by (simp add: ilog2_less_iff)
  then have "round_to F x \<le> 2 powi ?e"
    using round_to_le [of x "2 ^ nat (?e - ulp_exp F x)" F] split_e [of "ulp_exp F x"] ux by simp
  also have "\<dots> \<le> round_to F y"
    using round_to_ge [of "2 ^ nat (?e - ulp_exp F y)" F y] split_e [of "ulp_exp F y"] uy prec
      ilog2_bounds(1) [OF y] by simp
  finally show ?thesis .
qed

lemma round_to_mono:
  assumes "x \<le> y" and prec: "1 \<le> ff_prec F"
  shows "round_to F x \<le> round_to F y"
proof (cases "0 < x")
  case True
  then show ?thesis using assms by (simp add: round_to_mono_pos)
next
  case x: False
  show ?thesis
  proof (cases "0 \<le> y")
    case True
    then show ?thesis
      using x round_to_nonneg [of y F] round_to_nonneg [of "- x" F] by (simp add: round_to_minus)
  next
    case False
    then show ?thesis
      using round_to_mono_pos [of "- y" "- x" F] assms by (simp add: round_to_minus)
  qed
qed

lemma round_to_exact:
  assumes "\<bar>m\<bar> < 2 ^ nat (ff_prec F)" and "ff_emin F \<le> k" and "0 \<le> ff_prec F"
  shows "round_to F (of_int m * 2 powi k) = of_int m * 2 powi k"
proof (cases "m = 0")
  case False
  let ?x = "(of_int m :: rat) * 2 powi k"
  have "\<bar>?x\<bar> = of_int \<bar>m\<bar> * 2 powi k" by (simp add: abs_mult power_int_abs)
  also have "\<dots> < of_int (2 ^ nat (ff_prec F)) * 2 powi k"
    using assms(1) by (intro mult_strict_right_mono) (simp_all only: of_int_less_iff zero_less_power_int zero_less_numeral)
  also have "\<dots> = 2 powi (ff_prec F + k)" 
    using assms(3) by (simp add: power_int_add power_int_nonneg_exp)
  finally have "ilog2 \<bar>?x\<bar> < ff_prec F + k" using False by (subst ilog2_less_iff) auto
  then have u: "ulp_exp F ?x \<le> k" using assms(2) by (simp add: ulp_exp_def)
  have "?x / 2 powi ulp_exp F ?x = of_int m * 2 powi (k - ulp_exp F ?x)"
    by (simp add: power_int_diff)
  also have "\<dots> = of_int (m * 2 ^ nat (k - ulp_exp F ?x))" using u by (simp add: powi2_nat)
  finally have q: "?x / 2 powi ulp_exp F ?x = of_int (m * 2 ^ nat (k - ulp_exp F ?x))" .
  have "round_to F ?x = of_int (rne (?x / 2 powi ulp_exp F ?x)) * 2 powi ulp_exp F ?x"
    using False by (simp add: round_to_def)
  also have "\<dots> = ?x / 2 powi ulp_exp F ?x * 2 powi ulp_exp F ?x" by (simp only: q rne_of_int)
  finally show ?thesis by simp
qed simp


section \<open>Values and operations\<close>

datatype gofloat = NaN | PInf | NInf | Fin rat

definition fl :: "float_format \<Rightarrow> rat \<Rightarrow> gofloat" where
  "fl F x = (let r = round_to F x
             in if 2 powi ff_emax F \<le> r then PInf else if r \<le> - (2 powi ff_emax F) then NInf else Fin r)"

fun f_neg :: "gofloat \<Rightarrow> gofloat" where
  "f_neg NaN = NaN"
| "f_neg PInf = NInf"
| "f_neg NInf = PInf"
| "f_neg (Fin x) = Fin (- x)"

fun f_add :: "float_format \<Rightarrow> gofloat \<Rightarrow> gofloat \<Rightarrow> gofloat" where
  "f_add F (Fin x) (Fin y) = fl F (x + y)"
| "f_add F NaN _ = NaN"
| "f_add F _ NaN = NaN"
| "f_add F PInf NInf = NaN"
| "f_add F NInf PInf = NaN"
| "f_add F PInf _ = PInf"
| "f_add F NInf _ = NInf"
| "f_add F _ PInf = PInf"
| "f_add F _ NInf = NInf"

definition f_sub :: "float_format \<Rightarrow> gofloat \<Rightarrow> gofloat \<Rightarrow> gofloat" where
  "f_sub F a b = f_add F a (f_neg b)"

text \<open>An infinity with the sign of a product or quotient; \<open>s\<close> is that sign, zero for an invalid operation.\<close>

definition f_inf :: "rat \<Rightarrow> gofloat" where
  "f_inf s = (if s > 0 then PInf else if s < 0 then NInf else NaN)"

fun f_sgn :: "gofloat \<Rightarrow> rat" where
  "f_sgn NaN = 0"
| "f_sgn PInf = 1"
| "f_sgn NInf = - 1"
| "f_sgn (Fin x) = sgn x"

fun f_mul :: "float_format \<Rightarrow> gofloat \<Rightarrow> gofloat \<Rightarrow> gofloat" where
  "f_mul F (Fin x) (Fin y) = fl F (x * y)"
| "f_mul F a b = f_inf (f_sgn a * f_sgn b)"

fun f_div :: "float_format \<Rightarrow> gofloat \<Rightarrow> gofloat \<Rightarrow> gofloat" where
  "f_div F (Fin x) (Fin y) = (if y = 0 then f_inf (sgn x) else fl F (x / y))"
| "f_div F NaN _ = NaN"
| "f_div F _ NaN = NaN"
| "f_div F (Fin x) _ = Fin 0"
| "f_div F a (Fin y) = f_inf (f_sgn a * (if y < 0 then - 1 else 1))"
| "f_div F _ _ = NaN"

fun f_le :: "gofloat \<Rightarrow> gofloat \<Rightarrow> bool" where
  "f_le NaN _ = False"
| "f_le _ NaN = False"
| "f_le (Fin x) (Fin y) = (x \<le> y)"
| "f_le NInf _ = True"
| "f_le _ PInf = True"
| "f_le _ _ = False"

definition f_eq :: "gofloat \<Rightarrow> gofloat \<Rightarrow> bool" where
  "f_eq a b \<longleftrightarrow> a = b \<and> a \<noteq> NaN"

definition f_lt :: "gofloat \<Rightarrow> gofloat \<Rightarrow> bool" where
  "f_lt a b \<longleftrightarrow> f_le a b \<and> \<not> f_eq a b"

text \<open>\<open>math.Min\<close> and \<open>math.Max\<close>: an infinity of their own sign wins over a NaN, a NaN over the rest.\<close>

definition f_min :: "gofloat \<Rightarrow> gofloat \<Rightarrow> gofloat" where
  "f_min a b = (if a = NInf \<or> b = NInf then NInf else if a = NaN \<or> b = NaN then NaN
                else if f_lt a b then a else b)"

definition f_max :: "gofloat \<Rightarrow> gofloat \<Rightarrow> gofloat" where
  "f_max a b = (if a = PInf \<or> b = PInf then PInf else if a = NaN \<or> b = NaN then NaN
                else if f_lt b a then a else b)"

text \<open>Conversions: from an integer (rounded) and to \<open>int64\<close> (truncated; the most negative value for a
  NaN or a value out of range, as on amd64).\<close>

definition f_of_int :: "float_format \<Rightarrow> int \<Rightarrow> gofloat" where
  "f_of_int F n = fl F (of_int n)"

definition rat_trunc :: "rat \<Rightarrow> int" where
  "rat_trunc x = (if x < 0 then \<lceil>x\<rceil> else \<lfloor>x\<rfloor>)"

fun f_to_int64 :: "gofloat \<Rightarrow> int64" where
  "f_to_int64 (Fin x) = (if in_int64 (rat_trunc x) then word_of_int (rat_trunc x) else 0x8000000000000000)"
| "f_to_int64 _ = 0x8000000000000000"

section \<open>Operations stay within representable bounds\<close>

lemma f_min_Fin [simp]: "f_min (Fin a) (Fin b) = Fin (min a b)"
  by (auto simp: f_min_def f_lt_def f_eq_def min_def)

lemma f_max_Fin [simp]: "f_max (Fin a) (Fin b) = Fin (max a b)"
  by (auto simp: f_max_def f_lt_def f_eq_def max_def)

lemma fl_Fin:
  assumes "\<bar>round_to F x\<bar> < 2 powi ff_emax F"
  shows "fl F x = Fin (round_to F x)"
  using assms by (auto simp: fl_def Let_def abs_less_iff)

lemma fl_between:
  assumes "lo \<le> x" "x \<le> hi" and "round_to F lo = lo" "round_to F hi = hi"
    and "\<bar>lo\<bar> < 2 powi ff_emax F" "\<bar>hi\<bar> < 2 powi ff_emax F" and "1 \<le> ff_prec F"
  obtains r where "fl F x = Fin r" "r = round_to F x" "lo \<le> r" "r \<le> hi"
proof
  have "lo \<le> round_to F x" "round_to F x \<le> hi"
    using round_to_mono [of lo x F] round_to_mono [of x hi F] assms by simp_all
  then show "lo \<le> round_to F x" "round_to F x \<le> hi" by simp_all
  moreover have "\<bar>round_to F x\<bar> < 2 powi ff_emax F" using calculation assms(5,6) by linarith
  ultimately show "fl F x = Fin (round_to F x)" by (simp add: fl_Fin)
qed simp

lemma round_to_int64_exact:
  "\<bar>m\<bar> \<le> 2 ^ 52 \<Longrightarrow> round_to binary64 (of_int m) = of_int m"
  using round_to_exact [of m binary64 0] by (simp add: binary64_def)

lemma round_to_int32_exact:
  "\<bar>m\<bar> < 2 ^ 24 \<Longrightarrow> round_to binary32 (of_int m) = of_int m"
  using round_to_exact [of m binary32 0] by (simp add: binary32_def)

lemma fl64_of_int: "\<bar>m\<bar> \<le> 2 ^ 52 \<Longrightarrow> fl binary64 (of_int m) = Fin (of_int m)"
proof -
  assume m: "\<bar>m\<bar> \<le> 2 ^ 52"
  have "\<bar>rat_of_int m\<bar> = of_int \<bar>m\<bar>" by simp
  also have "\<dots> \<le> of_int (2 ^ 52)" using m by (simp only: of_int_le_iff)
  also have "\<dots> < 2 powi ff_emax binary64" by (simp add: binary64_def)
  finally show ?thesis using round_to_int64_exact [OF m] fl_Fin [of binary64 "of_int m"] by simp
qed

lemma f64_of_int: "\<bar>m\<bar> \<le> 2 ^ 52 \<Longrightarrow> f_of_int binary64 m = Fin (of_int m)"
  by (simp add: f_of_int_def fl64_of_int)

lemma round64_pow2: "- 1074 \<le> k \<Longrightarrow> round_to binary64 (2 powi k) = 2 powi k"
  using round_to_exact [of 1 binary64 k] by (simp add: binary64_def)

lemma fl64_between:
  assumes "lo \<le> x" "x \<le> hi" and "round_to binary64 lo = lo" "round_to binary64 hi = hi"
    and "\<bar>lo\<bar> \<le> 2 ^ 100" "\<bar>hi\<bar> \<le> 2 ^ 100"
  shows "fl binary64 x = Fin (round_to binary64 x) \<and> lo \<le> round_to binary64 x \<and> round_to binary64 x \<le> hi"
proof -
  have big: "(2 :: rat) ^ 100 < 2 powi ff_emax binary64" by (simp add: binary64_def)
  have "\<bar>lo\<bar> < 2 powi ff_emax binary64" "\<bar>hi\<bar> < 2 powi ff_emax binary64" using assms(5,6) big by linarith+
  then show ?thesis using fl_between [OF assms(1-4)] by (metis binary64_def float_format.select_convs(1) one_le_numeral)
qed

lemma f_to_int64_between:
  assumes "of_int l \<le> x" "x < of_int h + 1" and "0 \<le> l" "h < 2 ^ 62"
  shows "l \<le> sint (f_to_int64 (Fin x)) \<and> sint (f_to_int64 (Fin x)) \<le> h"
proof -
  have "0 \<le> x" using assms(1,3) by (metis of_int_0_le_iff order_trans)
  then have t: "rat_trunc x = \<lfloor>x\<rfloor>" by (simp add: rat_trunc_def)
  have b: "l \<le> \<lfloor>x\<rfloor>" "\<lfloor>x\<rfloor> \<le> h" using assms(1,2) by (simp_all add: le_floor_iff floor_le_iff)
  have "l \<le> i \<Longrightarrow> i \<le> h \<Longrightarrow> in_int64 i" for i using assms(3,4) by (simp add: in_int64_def)
  from this [OF b] have "in_int64 \<lfloor>x\<rfloor>" .
  then show ?thesis using b by (simp add: t sint_of_int64)
qed

lemma round64_dyadic:
  assumes "\<bar>m\<bar> < 2 ^ 53" "k \<le> 1074"
  shows "round_to binary64 (of_int m / 2 ^ k) = of_int m / 2 ^ k"
proof -
  have "(of_int m :: rat) / 2 ^ k = of_int m * 2 powi (- int k)" by (simp add: power_int_minus divide_inverse)
  then show ?thesis using round_to_exact [of m binary64 "- int k"] assms by (simp add: binary64_def)
qed

lemma fl64_dyadic:
  assumes "\<bar>m\<bar> < 2 ^ 53" "k \<le> 1074"
  shows "fl binary64 (of_int m / 2 ^ k) = Fin (of_int m / 2 ^ k)"
proof -
  have "of_int \<bar>m\<bar> \<le> (of_int (2 ^ 53) :: rat)" using assms(1) by (simp only: of_int_le_iff)
  moreover have "\<bar>of_int m / 2 ^ k\<bar> \<le> \<bar>of_int m :: rat\<bar> / 1"
    unfolding abs_divide by (intro divide_left_mono) auto
  ultimately have "\<bar>of_int m / 2 ^ k\<bar> \<le> (2 :: rat) ^ 100" by simp
  with fl64_between [OF order_refl order_refl round64_dyadic [OF assms] round64_dyadic [OF assms]] show ?thesis
    by (simp add: round64_dyadic [OF assms])
qed

section \<open>Monotone computations on nonnegative numbers\<close>

text \<open>
  \<open>f_upto k x y\<close>: both values are finite and nonnegative, \<open>x\<close> is at most \<open>y\<close> and \<open>y\<close> at most the power
  of two. The rules below carry two runs of one computation at once; with \<open>x = y\<close> they give bounds of a
  single run. Powers up to 100 are far below the overflow of binary64.
\<close>

definition f_upto :: "nat \<Rightarrow> gofloat \<Rightarrow> gofloat \<Rightarrow> bool" where
  "f_upto k x y \<longleftrightarrow> (\<exists>p q. x = Fin p \<and> y = Fin q \<and> 0 \<le> p \<and> p \<le> q \<and> q \<le> 2 ^ k)"

lemma uptoE:
  assumes "f_upto k x y"
  obtains p q where "x = Fin p" "y = Fin q" "0 \<le> p" "p \<le> q" "q \<le> 2 ^ k"
  using assms by (auto simp: f_upto_def)

lemma upto_Fin [simp]: "f_upto k (Fin p) (Fin q) \<longleftrightarrow> 0 \<le> p \<and> p \<le> q \<and> q \<le> 2 ^ k"
  by (simp add: f_upto_def)

lemma upto_le: "f_upto k x y \<Longrightarrow> k \<le> l \<Longrightarrow> f_upto l x y"
proof (elim uptoE)
  fix p q :: rat
  assume "k \<le> l" "x = Fin p" "y = Fin q" "0 \<le> p" "p \<le> q" "q \<le> 2 ^ k"
  moreover from this have "q \<le> 2 ^ l" using power_increasing [of k l "2 :: rat"] by linarith
  ultimately show ?thesis by simp
qed

lemma upto_left: "f_upto k x y \<Longrightarrow> f_upto k x x" and upto_right: "f_upto k x y \<Longrightarrow> f_upto k y y"
  by (auto elim!: uptoE)

lemma fl64_upto:
  assumes "0 \<le> x" "x \<le> y" "y \<le> 2 ^ k" "k \<le> 100"
  shows "f_upto k (fl binary64 x) (fl binary64 y)"
proof -
  have e: "round_to binary64 (2 ^ k) = 2 ^ k" using round64_pow2 [of "int k"] by simp
  have "(2 :: rat) ^ k \<le> 2 ^ 100" using assms(4) by (rule power_increasing) simp
  then have b: "\<bar>2 ^ k\<bar> \<le> (2 :: rat) ^ 100" unfolding power_abs by simp
  have "fl binary64 z = Fin (round_to binary64 z) \<and> 0 \<le> round_to binary64 z \<and> round_to binary64 z \<le> 2 ^ k"
    if "0 \<le> z" "z \<le> 2 ^ k" for z
    using fl64_between [OF that _ e _ b] by simp
  moreover have "round_to binary64 x \<le> round_to binary64 y" using assms(2) by (intro round_to_mono) (simp_all add: binary64_def)
  moreover have "0 \<le> y" "x \<le> 2 ^ k" using assms by linarith+
  ultimately show ?thesis using assms by simp
qed

lemma upto_add: "f_upto k x x' \<Longrightarrow> f_upto k y y' \<Longrightarrow> k < 100 \<Longrightarrow> f_upto (Suc k) (f_add binary64 x y) (f_add binary64 x' y')"
  by (elim uptoE) (auto intro!: fl64_upto)

lemma upto_mul:
  "f_upto i x x' \<Longrightarrow> f_upto j y y' \<Longrightarrow> i + j \<le> 100 \<Longrightarrow> f_upto (i + j) (f_mul binary64 x y) (f_mul binary64 x' y')"
  by (elim uptoE) (auto intro!: fl64_upto mult_mono simp: power_add)

lemma upto_div:
  assumes "f_upto i x x'" and "1 / 2 ^ j \<le> c" and "i + j \<le> 100"
  shows "f_upto (i + j) (f_div binary64 x (Fin c)) (f_div binary64 x' (Fin c))"
  using assms(1)
proof (elim uptoE)
  fix p q :: rat
  assume x: "x = Fin p" "x' = Fin q" "0 \<le> p" "p \<le> q" "q \<le> 2 ^ i"
  have "(0 :: rat) < 1 / 2 ^ j" by simp
  then have c: "0 < c" using assms(2) by (rule less_le_trans)
  have "1 \<le> c * 2 ^ j" using assms(2) by (simp add: divide_le_eq)
  then have "2 ^ i * 1 \<le> 2 ^ i * (c * 2 ^ j)" by (rule mult_left_mono) simp
  also have "\<dots> = 2 ^ (i + j) * c" by (simp add: power_add)
  finally have "q \<le> 2 ^ (i + j) * c" using x(5) by linarith
  then show ?thesis using c x assms(3) by (auto intro!: fl64_upto divide_right_mono simp: divide_le_eq)
qed

lemma upto_clamp: "f_upto i x x' \<Longrightarrow> f_upto j (Fin c) (Fin c) \<Longrightarrow> f_upto j (f_max (f_min x (Fin c)) (Fin 0)) (f_max (f_min x' (Fin c)) (Fin 0))"
  by (elim uptoE) (auto simp: min_def max_def)

lemma upto_half: "f_upto (Suc k) x x' \<Longrightarrow> k \<le> 100 \<Longrightarrow> f_upto k (f_div binary64 x (Fin 2)) (f_div binary64 x' (Fin 2))"
  by (elim uptoE) (auto intro!: fl64_upto)

lemma upto_one_minus: "f_upto 0 x y \<Longrightarrow> f_upto 0 (f_sub binary64 (Fin 1) y) (f_sub binary64 (Fin 1) x)"
  by (elim uptoE) (auto simp: f_sub_def intro!: fl64_upto)

lemma upto_max: "f_upto k x x' \<Longrightarrow> f_upto k y y' \<Longrightarrow> f_upto k (f_max x y) (f_max x' y')"
  by (elim uptoE) (auto simp: max_def)

lemma upto_min: "f_upto k x x' \<Longrightarrow> f_upto k y y' \<Longrightarrow> f_upto k (f_min x y) (f_min x' y')"
  by (elim uptoE) (auto simp: min_def)

lemma upto_of_int:
  assumes "0 \<le> m" "m \<le> n" "n \<le> 2 ^ k" "k \<le> 100"
  shows "f_upto k (f_of_int binary64 m) (f_of_int binary64 n)"
proof -
  have "(of_int n :: rat) \<le> of_int (2 ^ k)" using assms(3) by (simp only: of_int_le_iff)
  then show ?thesis unfolding f_of_int_def using assms by (intro fl64_upto) simp_all
qed

lemma of_int_pos: "1 \<le> m \<Longrightarrow> m \<le> 2 ^ 63 \<Longrightarrow> \<exists>c. f_of_int binary64 m = Fin c \<and> 1 \<le> c \<and> c \<le> 2 ^ 63"
proof -
  assume m: "1 \<le> m" "m \<le> 2 ^ 63"
  have "(of_int m :: rat) \<le> of_int (2 ^ 63)" using m(2) by (simp only: of_int_le_iff)
  then show ?thesis
    using fl64_between [of 1 "of_int m" "2 ^ 63"] m(1) round_to_int64_exact [of 1] round64_pow2 [of 63]
    by (simp add: f_of_int_def)
qed

lemma of_int64_cases:
  assumes "- (2 ^ 63) \<le> n" "n < 2 ^ 63"
  shows "\<exists>c. f_of_int binary64 n = Fin c \<and> \<bar>c\<bar> \<le> 2 ^ 63 \<and> (0 < c \<longrightarrow> 1 \<le> c)"
proof (cases "1 \<le> n")
  case True
  then show ?thesis using of_int_pos [of n] assms by fastforce
next
  case False
  have m: "round_to binary64 (- (2 ^ 63)) = - (2 ^ 63)" using round64_pow2 [of 63] by (simp add: round_to_minus)
  have "of_int (- (2 ^ 63)) \<le> (of_int n :: rat)" using assms(1) by (simp only: of_int_le_iff)
  then have lo: "- (2 ^ 63) \<le> (of_int n :: rat)" by simp
  have "of_int n \<le> (0 :: rat)" using False by simp
  from fl64_between [OF lo this m] show ?thesis by (auto simp: f_of_int_def)
qed

lemma fl_nonneg: "0 \<le> x \<Longrightarrow> fl binary64 x = PInf \<or> (\<exists>r \<ge> 0. fl binary64 x = Fin r)"
proof -
  assume "0 \<le> x"
  then have r: "0 \<le> round_to binary64 x" by (rule round_to_nonneg)
  have "\<not> round_to binary64 x \<le> - (2 powi ff_emax binary64)"
  proof
    assume "round_to binary64 x \<le> - (2 powi ff_emax binary64)"
    moreover have "(0 :: rat) < 2 powi ff_emax binary64" by simp
    ultimately show False using r by linarith
  qed
  then show ?thesis using r by (auto simp: fl_def Let_def)
qed

lemma fl_not_NaN [simp]: "fl F x \<noteq> NaN"
  by (auto simp: fl_def Let_def)

lemma clamp_unit:
  assumes "x \<noteq> NaN"
  shows "f_upto 0 (f_min (f_max x (Fin 0)) (Fin 1)) (f_min (f_max x (Fin 0)) (Fin 1))"
    and "f_upto 0 (f_max (f_min x (Fin 1)) (Fin 0)) (f_max (f_min x (Fin 1)) (Fin 0))"
  using assms by (cases x; simp add: f_max_def f_min_def f_lt_def f_eq_def f_upto_def)+

end
