(* ===== verification/Coscheduling.thy ===== *)
theory Coscheduling
  imports PodGroups QueueSort GoFloat
begin

text \<open>
  The coscheduling plugin, \<open>pkg/coscheduling/coscheduling.go\<close>: queue order, the extension points
  \<open>PreFilter\<close>, \<open>PostFilter\<close>, \<open>Permit\<close> and \<open>Unreserve\<close>. The framework's waiting pods are an argument;
  what a handler does to them is the list of \<open>Allow\<close> and \<open>Reject\<close> calls it makes, in order.
\<close>

record Coscheduling =
  cs_pgMgr :: PodGroupManager
  cs_scheduleTimeout :: int64
  cs_pgBackoff :: "int64 option"

datatype WaitingAction = Allow Pod | Reject Pod string

text \<open>\<open>New\<close> with the arguments in seconds; a negative backoff is refused.\<close>

definition New_Coscheduling :: "int64 \<Rightarrow> int64 \<Rightarrow> string + Coscheduling" where
  "New_Coscheduling permitWaitingTimeSeconds podGroupBackoffSeconds =
     (let scheduleTimeDuration = permitWaitingTimeSeconds * time_Second;
          plugin = \<lparr>cs_pgMgr = NewPodGroupManager scheduleTimeDuration,
                    cs_scheduleTimeout = scheduleTimeDuration, cs_pgBackoff = None\<rparr>
      in if slt podGroupBackoffSeconds 0 then Inl ''parse arguments failed''
         else if slt 0 podGroupBackoffSeconds then
           Inr (plugin\<lparr>cs_pgBackoff := Some (podGroupBackoffSeconds * time_Second)\<rparr>)
         else Inr plugin)"

text \<open>\<^const>\<open>None\<close> stands for the panic on a missing initial attempt timestamp.\<close>

definition Cosched_Less :: "PGEnv \<Rightarrow> QueuedPodInfo \<Rightarrow> QueuedPodInfo \<Rightarrow> bool option" where
  "Cosched_Less env podInfo1 podInfo2 =
     (let prio1 = PodPriority (qpi_pod podInfo1); prio2 = PodPriority (qpi_pod podInfo2)
      in if prio1 \<noteq> prio2 then Some (prio1 > prio2)
         else (case (qpi_initialAttempt podInfo1, qpi_initialAttempt podInfo2) of
                 (Some ts1, Some ts2) \<Rightarrow>
                   (let creationTime1 = GetCreationTimestamp env (qpi_pod podInfo1) ts1;
                        creationTime2 = GetCreationTimestamp env (qpi_pod podInfo2) ts2
                    in if creationTime1 = creationTime2
                       then Some (GetNamespacedName (qpi_pod podInfo1) < GetNamespacedName (qpi_pod podInfo2))
                       else Some (creationTime1 < creationTime2))
               | _ \<Rightarrow> None))"

definition Cosched_PreFilter :: "PGEnv \<Rightarrow> Coscheduling \<Rightarrow> Pod \<Rightarrow> Code \<times> PFError option \<times> Coscheduling" where
  "Cosched_PreFilter env cs pod =
     (case Manager_PreFilter env (cs_pgMgr cs) pod of
        (Some err, m) \<Rightarrow> (UnschedulableAndUnresolvable, Some err, cs\<lparr>cs_pgMgr := m\<rparr>)
      | (None, m) \<Rightarrow> (Success, None, cs\<lparr>cs_pgMgr := m\<rparr>))"

definition small_gap :: "int32 \<Rightarrow> nat \<Rightarrow> bool" where
  "small_gap minMember assigned =
     f_le (f_div binary32 (f_of_int binary32 (sint minMember - int assigned)) (f_of_int binary32 (sint minMember)))
          (fl binary32 (1 / 10))"

definition reject_waiting :: "Pod list \<Rightarrow> string \<Rightarrow> string \<Rightarrow> string \<Rightarrow> WaitingAction list" where
  "reject_waiting waiting ns pgName msg =
     map (\<lambda>w. Reject w msg) (filter (\<lambda>w. pod_namespace w = ns \<and> GetPodGroupLabel w = pgName) waiting)"

definition Cosched_PostFilter ::
  "PGEnv \<Rightarrow> Pod list \<Rightarrow> Coscheduling \<Rightarrow> Pod \<Rightarrow> Status \<times> WaitingAction list \<times> Coscheduling" where
  "Cosched_PostFilter env waiting cs pod =
     (case GetPodGroup env pod of
        (pgName, None) \<Rightarrow> (NewStatus Unschedulable [''can not find pod group''], [], cs)
      | (pgName, Some pg) \<Rightarrow>
          (let assigned = CalculateAssignedPods env (pg_name pg) (pod_namespace pod)
           in if sint (pg_MinMember pg) \<le> int assigned then (NewStatus Unschedulable [], [], cs)
              else if small_gap (pg_MinMember pg) assigned then (NewStatus Unschedulable [], [], cs)
              else
                (let acts = reject_waiting waiting (pod_namespace pod) (pg_name pg) ''optimistic rejection in PostFilter'';
                     m = (case cs_pgBackoff cs of
                            None \<Rightarrow> cs_pgMgr cs
                          | Some backoff \<Rightarrow>
                              (case list_group_pods env (pod_namespace pod) (GetPodGroupLabel pod) of
                                 Inl err \<Rightarrow> cs_pgMgr cs
                               | Inr pods \<Rightarrow>
                                   if sint (pg_MinMember pg) \<le> int (length pods)
                                   then BackoffPodGroup env (cs_pgMgr cs) pgName backoff else cs_pgMgr cs));
                     m' = DeletePermittedPodGroup m pgName
                 in (NewStatus Unschedulable
                       [''PodGroup '' @ pgName @ '' gets rejected due to Pod '' @ pod_name pod @
                        '' is unschedulable even after PostFilter''],
                     acts, cs\<lparr>cs_pgMgr := m'\<rparr>))))"

definition Cosched_Permit ::
  "PGEnv \<Rightarrow> Pod list \<Rightarrow> Coscheduling \<Rightarrow> CoState CycleState \<Rightarrow> Pod \<Rightarrow>
   Status \<times> int64 \<times> WaitingAction list \<times> CoState CycleState" where
  "Cosched_Permit env waiting cs state pod =
     (let waitTime = cs_scheduleTimeout cs; (s, state') = Manager_Permit env state pod
      in case s of
           PodGroupNotSpecified \<Rightarrow> (NewStatus Success [[]], 0, [], state')
         | PodGroupNotFound \<Rightarrow> (NewStatus Unschedulable [''PodGroup not found''], 0, [], state')
         | PGWait \<Rightarrow>
             (let pg = snd (GetPodGroup env pod);
                  wait = GetWaitTimeDuration pg (Some (cs_scheduleTimeout cs));
                  waitTime' = (if wait \<noteq> 0 then wait else waitTime)
              in (NewStatus Wait [], waitTime', [], ActivateSiblings env pod state'))
         | PGSuccess \<Rightarrow>
             (let pgFullName = GetPodGroupFullName pod
              in (NewStatus Success [], 0,
                  map Allow (filter (\<lambda>w. GetPodGroupFullName w = pgFullName) waiting), state')))"

definition Cosched_Unreserve ::
  "PGEnv \<Rightarrow> Pod list \<Rightarrow> Coscheduling \<Rightarrow> Pod \<Rightarrow> WaitingAction list \<times> Coscheduling" where
  "Cosched_Unreserve env waiting cs pod =
     (case GetPodGroup env pod of
        (pgName, None) \<Rightarrow> ([], cs)
      | (pgName, Some pg) \<Rightarrow>
          (reject_waiting waiting (pod_namespace pod) (pg_name pg) ''rejection in Unreserve'',
           cs\<lparr>cs_pgMgr := DeletePermittedPodGroup (cs_pgMgr cs) pgName\<rparr>))"

section \<open>Queue order\<close>

definition has_attempt :: "QueuedPodInfo \<Rightarrow> bool" where
  "has_attempt q \<longleftrightarrow> qpi_initialAttempt q \<noteq> None"

text \<open>The key the order compares: priority, time of the group or pod, name.\<close>

definition group_time :: "PGEnv \<Rightarrow> QueuedPodInfo \<Rightarrow> int" where
  "group_time env q = GetCreationTimestamp env (qpi_pod q) (the (qpi_initialAttempt q))"

lemma Cosched_Less_key:
  assumes "has_attempt a" and "has_attempt b"
  shows "Cosched_Less env a b = Some
    (PodPriority (qpi_pod b) < PodPriority (qpi_pod a) \<or>
     PodPriority (qpi_pod a) = PodPriority (qpi_pod b) \<and>
       (group_time env a < group_time env b \<or>
        group_time env a = group_time env b \<and>
          GetNamespacedName (qpi_pod a) < GetNamespacedName (qpi_pod b)))"
  using assms by (auto simp: Cosched_Less_def has_attempt_def group_time_def Let_def)

interpretation cosched: queue_sort "\<lambda>a b. Cosched_Less env a b = Some True" has_attempt for env
  by unfold_locales (auto simp: Cosched_Less_key)

lemma Cosched_Less_le:
  assumes "has_attempt a" and "has_attempt b" and "Cosched_Less env a b = Some True"
  shows "PodPriority (qpi_pod b) < PodPriority (qpi_pod a) \<or>
    PodPriority (qpi_pod a) = PodPriority (qpi_pod b) \<and> group_time env a \<le> group_time env b"
  using assms(3) unfolding Cosched_Less_key [OF assms(1,2)] by auto


definition demo_q :: "Pod \<Rightarrow> QueuedPodInfo" where
  "demo_q p = \<lparr>qpi_pod = p, qpi_timestamp = 0, qpi_initialAttempt = Some 5\<rparr>"


section \<open>Permit\<close>

lemma sint_int32_Suc:
  assumes "n < 2 ^ 31 - 1"
  shows "sint (word_of_nat n + 1 :: int32) = int n + 1"
proof -
  have "(word_of_nat n + 1 :: int32) = word_of_int (int n + 1)" by simp
  moreover have "sint (word_of_int (int n + 1) :: int32) = int n + 1"
    by (rule sint_of_int32) (use assms in simp_all)
  ultimately show ?thesis by simp
qed

definition group_pods :: "Pod \<Rightarrow> Pod list \<Rightarrow> Pod list" where
  "group_pods pod ps = filter (\<lambda>w. GetPodGroupFullName w = GetPodGroupFullName pod) ps"

text \<open>
  C7. \<open>Permit\<close> admits a gang as a whole. When a pod of an existing group reaches it, the members
  already assigned to nodes are counted; with this pod they either reach \<open>MinMember\<close>, and then the pod
  passes at once and exactly the waiting pods of its group are allowed, all of them, or they do not,
  and then the pod waits, no waiting pod is released, and a member that arrives first leaves the
  request to activate its siblings.
\<close>

theorem Permit_quorum:
  assumes "GetPodGroup env pod = (pgName, Some pg)" and "env_nodeInfos env = Inr nodes"
    and "n = length (assigned_members (pg_name pg) (pg_namespace pg) nodes)" and "n < 2 ^ 31 - 1"
    and "Cosched_Permit env waiting cs state pod = (st, t, acts, state')"
  shows "(if sint (pg_MinMember pg) \<le> int n + 1
          then st_code st = Success \<and> t = 0 \<and> acts = map Allow (group_pods pod waiting)
          else st_code st = Wait \<and> acts = [] \<and>
            (n = 0 \<longrightarrow> CycleState_Read state' permitStateKey = Some (PermitState True)))"
proof -
  have "pgName \<noteq> []" using assms(1) by (auto simp: GetPodGroup_eq GetPodGroupFullName_def Let_def split: if_splits)
  moreover have "CalculateAssignedPods env (pg_name pg) (pg_namespace pg) = n"
    using assms(2,3) by (simp add: CalculateAssignedPods_eq)
  moreover have "CycleState_Read (ActivateSiblings env pod (CycleState_Write st' permitStateKey v)) permitStateKey = Some v" for st' v
    by (auto simp: ActivateSiblings_def Let_def permitStateKey_def PodsToActivateKey_def
        split: option.splits CoState.splits bool.splits sum.splits)
  ultimately show ?thesis
    using assms(1,4,5) sint_int32_Suc [OF assms(4)]
    by (auto simp: Cosched_Permit_def Manager_Permit_def Let_def group_pods_def split: if_splits)
qed

definition demo_cs :: Coscheduling where
  "demo_cs = \<lparr>cs_pgMgr = NewPodGroupManager 5, cs_scheduleTimeout = 5, cs_pgBackoff = Some 7\<rparr>"

lemma demo_GetPodGroup: "GetPodGroup demo_env demo_gpod2 = (''ns1/g'', Some demo_pg)"
  by (simp add: GetPodGroup_def demo_env_def demo_gpod_def demo_gpod2_def demo_pod_def GetPodGroupLabel_def
      map_getd_def)

lemma demo_env_nodes: "env_nodeInfos demo_env = Inr [demo_ninfo]"
  by (simp add: demo_env_def)

theorem Permit_quorum_witness:
  "\<exists>st t state'. Cosched_Permit demo_env [demo_gpod, demo_pod] demo_cs (\<lambda>_. None) demo_gpod2 =
     (st, t, map Allow (group_pods demo_gpod2 [demo_gpod, demo_pod]), state') \<and> st_code st = Success"
proof -
  obtain st t acts state' where
    r: "Cosched_Permit demo_env [demo_gpod, demo_pod] demo_cs (\<lambda>_. None) demo_gpod2 = (st, t, acts, state')"
    by (rule prod_cases4)
  have n: "length (assigned_members (pg_name demo_pg) (pg_namespace demo_pg) [demo_ninfo]) = 1"
    "sint (pg_MinMember demo_pg) = 2" by code_simp+
  from Permit_quorum [OF demo_GetPodGroup demo_env_nodes n(1) [symmetric] _ r] n(2) r show ?thesis by simp
qed

section \<open>PostFilter\<close>

text \<open>
  The gap test in single precision is exact for every group of fewer than \<open>2^24\<close> members: the
  rounded quotient does not exceed the rounded constant exactly when the true one does not.
\<close>

lemma binary32_tenth: "fl binary32 (1 / 10) = Fin (round_to binary32 (1 / 10))"
  by code_simp

lemma binary32_above_tenth:
  "round_to binary32 (1 / 10) < round_to binary32 (1 / 10 + 1 / 167772160)"
  by code_simp

lemma binary32_of_int:
  assumes "0 \<le> k" and "k < 2 ^ 24"
  shows "f_of_int binary32 k = Fin (of_int k)"
proof -
  have "(of_int k :: rat) < of_int (2 ^ 24)" using assms(2) by (simp only: of_int_less_iff)
  then have "\<bar>round_to binary32 (of_int k)\<bar> < 2 powi ff_emax binary32"
    using assms round_to_int32_exact [of k] by (simp add: binary32_def)
  then show ?thesis using assms round_to_int32_exact [of k] by (simp add: f_of_int_def fl_Fin)
qed

lemma binary32_gap:
  assumes "0 < k" and "k < 2 ^ 24" and "0 \<le> g" and "g \<le> k"
  shows "f_le (f_div binary32 (f_of_int binary32 g) (f_of_int binary32 k)) (fl binary32 (1 / 10)) \<longleftrightarrow> 10 * g \<le> k"
    (is "?small \<longleftrightarrow> _")
proof -
  define M G where "M = rat_of_int (k)" and "G = rat_of_int g"
  have prec: "1 \<le> ff_prec binary32" by (simp add: binary32_def)
  have M: "0 < M" "M < 2 ^ 24"
    using assms(1,2) of_int_less_iff [of k "2 ^ 24", where 'a = rat] by (simp_all add: M_def del: of_int_less_iff)
  have G: "0 \<le> G" "G \<le> M" using assms(3,4) by (simp_all add: G_def M_def)
  have "0 \<le> G / M" "G / M \<le> 1" using M G by (simp_all add: divide_le_eq)
  then have "fl binary32 (G / M) = Fin (round_to binary32 (G / M))"
    using fl_between [of 0 "G / M" 1 binary32] round_to_int32_exact [of 1] by (auto simp: binary32_def)
  moreover have "f_of_int binary32 g = Fin G" "f_of_int binary32 (k) = Fin M"
    using assms by (simp_all add: binary32_of_int G_def M_def)
  ultimately have gap: "?small \<longleftrightarrow> round_to binary32 (G / M) \<le> round_to binary32 (1 / 10)"
    using M(1) by (simp add: binary32_tenth)
  have ten: "10 * g \<le> k \<longleftrightarrow> 10 * G \<le> M"
    using of_int_le_iff [of "10 * g" k, where 'a = rat] by (simp add: G_def M_def del: of_int_le_iff)
  show ?thesis
  proof (cases "10 * G \<le> M")
    case True
    then have "G / M \<le> 1 / 10" using M by (simp add: divide_simps)
    then show ?thesis using round_to_mono [OF _ prec] gap ten True by blast
  next
    case False
    then have "k + 1 \<le> 10 * g" using ten by linarith
    then have "M + 1 \<le> 10 * G"
      using of_int_le_iff [of "k + 1" "10 * g", where 'a = rat] by (simp add: G_def M_def del: of_int_le_iff)
    then have "1 / 10 + 1 / 167772160 \<le> G / M" using M by (simp add: divide_simps)
    from round_to_mono [OF this prec] binary32_above_tenth show ?thesis
      using gap ten False by linarith
  qed
qed

lemma small_gap_exact:
  assumes "0 < sint m" and "sint m < 2 ^ 24" and "int a \<le> sint m"
  shows "small_gap m a \<longleftrightarrow> 10 * (sint m - int a) \<le> sint m"
  using binary32_gap [of "sint m" "sint m - int a"] assms by (simp add: small_gap_def)

text \<open>
  C14. \<open>PostFilter\<close> gives a gang up as a whole. For a pod of an existing group, as long as at least nine
  tenths of \<open>MinMember\<close> members are assigned nothing changes and no waiting pod is touched. Below
  that, exactly the waiting pods of the group in the pod's namespace are rejected, the group loses
  its recent permission, and with a configured backoff and enough members in the namespace the
  group is backed off.
\<close>

theorem PostFilter_gang_rejection:
  assumes "GetPodGroup env pod = (pgName, Some pg)" and "env_nodeInfos env = Inr nodes"
    and "n = length (assigned_members (pg_name pg) (pod_namespace pod) nodes)" and "sint (pg_MinMember pg) < 2 ^ 24"
    and "0 \<le> env_now env"
    and "Cosched_PostFilter env waiting cs pod = (st, acts, cs')"
  shows "st_code st = Unschedulable \<and>
    (if 9 * sint (pg_MinMember pg) \<le> 10 * int n then acts = [] \<and> cs' = cs
     else acts = reject_waiting waiting (pod_namespace pod) (pg_name pg) ''optimistic rejection in PostFilter'' \<and>
       \<not> group_permitted env (cs_pgMgr cs') pod \<and>
       (cs_pgBackoff cs \<noteq> None \<and> cs_pgBackoff cs \<noteq> Some 0 \<and> enough_siblings env pod pg \<longrightarrow>
          group_backed_off env (cs_pgMgr cs') pod))"
proof -
  let ?M = "sint (pg_MinMember pg)"
  have name: "pgName = GetPodGroupFullName pod" using assms(1) by (simp add: GetPodGroup_eq)
  have count: "CalculateAssignedPods env (pg_name pg) (pod_namespace pod) = n"
    using assms(2,3) by (simp add: CalculateAssignedPods_eq)
  have keep: "9 * ?M \<le> 10 * int n \<longleftrightarrow> ?M \<le> int n \<or> small_gap (pg_MinMember pg) n"
    using small_gap_exact [of "pg_MinMember pg" n] assms(4) by (cases "?M \<le> int n") auto
  show ?thesis
  proof (cases "9 * ?M \<le> 10 * int n")
    case True
    then have "Cosched_PostFilter env waiting cs pod = (NewStatus Unschedulable [], [], cs)"
      using assms(1) keep count by (auto simp: Cosched_PostFilter_def)
    with assms(6) True show ?thesis by auto
  next
    case False
    then show ?thesis
      using assms(1,5,6) keep count
      by (auto simp: Cosched_PostFilter_def Let_def name DeletePermittedPodGroup_def group_permitted_def
          group_backed_off_def Cache_Get_Delete enough_siblings_def list_group_pods_def BackoffPodGroup_def
          Cache_Get_Add_now split: option.splits)
  qed
qed

definition demo_env0 :: PGEnv where
  "demo_env0 = demo_env\<lparr>env_nodeInfos := Inr []\<rparr>"

theorem PostFilter_gang_rejection_witness:
  "group_backed_off demo_env0 (cs_pgMgr (snd (snd (Cosched_PostFilter demo_env0 [demo_gpod] demo_cs demo_gpod2)))) demo_gpod2"
proof -
  obtain st acts cs' where r: "Cosched_PostFilter demo_env0 [demo_gpod] demo_cs demo_gpod2 = (st, acts, cs')"
    by (rule prod_cases3)
  have g: "GetPodGroup demo_env0 demo_gpod2 = (''ns1/g'', Some demo_pg)"
    using demo_GetPodGroup by (simp add: demo_env0_def GetPodGroup_def Let_def split: if_splits)
  have n: "env_nodeInfos demo_env0 = Inr []" "0 \<le> env_now demo_env0" by (simp_all add: demo_env0_def demo_env_def)
  have "sint (pg_MinMember demo_pg) = 2" by code_simp
  moreover have "enough_siblings demo_env0 demo_gpod2 demo_pg"
    by (simp add: enough_siblings_def demo_env0_def demo_env_def demo_gpod2_def demo_gpod_def demo_pod_def
        demo_pg_def GetPodGroupLabel_def map_getd_def)
  ultimately show ?thesis
    using PostFilter_gang_rejection [OF g n(1) refl _ n(2) r] r
    by (simp add: assigned_members_def demo_cs_def)
qed

end
