(* ===== verification/NetworkAware.thy ===== *)
theory NetworkAware
  imports QueueSort UtilResource
begin

text \<open>
  \<open>pkg/networkaware/util\<close> and \<open>pkg/networkaware/topologicalsort\<close>: lookups in the sorted lists of the
  AppGroup and NetworkTopology objects, and the queue order by position in the application's
  topology. The three binary searches of the source are one loop at three types; it is written once
  over the key and the list and instantiated.
\<close>

section \<open>API objects\<close>

record CostInfo =
  ci_Destination :: string
  ci_NetworkCost :: int64

record OriginInfo =
  oi_Origin :: string
  oi_CostList :: "CostInfo list"

record TopologyInfo =
  ti_TopologyKey :: string
  ti_OriginList :: "OriginInfo list"

record WeightInfo =
  wi_Name :: string
  wi_TopologyList :: "TopologyInfo list"

record NetworkTopology =
  nt_uid :: string
  nt_Weights :: "WeightInfo list"

record DependenciesInfo =
  di_Selector :: string
  di_MaxNetworkCost :: int64

record AppGroupWorkload =
  aw_Selector :: string
  aw_Dependencies :: "DependenciesInfo list"

record AppGroupTopologyInfo =
  at_Selector :: string
  at_Index :: "32 word"

record AppGroup =
  ag_uid :: string
  ag_Workloads :: "AppGroupWorkload list"
  ag_TopologyOrder :: "AppGroupTopologyInfo list"

definition AppGroupLabel :: string where "AppGroupLabel = ''appgroup.diktyo.x-k8s.io''"
definition AppGroupSelectorLabel :: string where "AppGroupSelectorLabel = AppGroupLabel @ ''.workload''"
definition NetworkTopologyRegion :: string where "NetworkTopologyRegion = ''topology.kubernetes.io/region''"
definition NetworkTopologyZone :: string where "NetworkTopologyZone = ''topology.kubernetes.io/zone''"
definition NetworkTopologyNetperfCosts :: string where "NetworkTopologyNetperfCosts = ''NetperfCosts''"

text \<open>A node of the snapshot: its name and labels.\<close>

record NNode =
  nn_name :: string
  nn_labels :: "(string, string) gomap"

definition GetNodeRegion :: "NNode \<Rightarrow> string" where
  "GetNodeRegion node = map_getd [] (nn_labels node) NetworkTopologyRegion"

definition GetNodeZone :: "NNode \<Rightarrow> string" where
  "GetNodeZone node = map_getd [] (nn_labels node) NetworkTopologyZone"

definition GetPodAppGroupLabel :: "Pod \<Rightarrow> string" where
  "GetPodAppGroupLabel pod = map_getd [] (pod_labels pod) AppGroupLabel"

definition GetPodAppGroupSelector :: "Pod \<Rightarrow> string" where
  "GetPodAppGroupSelector pod = map_getd [] (pod_labels pod) AppGroupSelectorLabel"

record ScheduledInfo =
  si_Name :: string
  si_Selector :: string
  si_ReplicaID :: string
  si_Hostname :: string

definition GetScheduledList :: "Pod list \<Rightarrow> ScheduledInfo list" where
  "GetScheduledList pods =
     map (\<lambda>p. \<lparr>si_Name = pod_name p, si_Selector = GetPodAppGroupSelector p, si_ReplicaID = pod_uid p,
               si_Hostname = pod_nodeName p\<rparr>)
       (filter (\<lambda>p. length (pod_nodeName p) \<noteq> 0) pods)"

definition GetDependencyList :: "Pod \<Rightarrow> AppGroup \<Rightarrow> DependenciesInfo list" where
  "GetDependencyList pod ag =
     foldl (\<lambda>deps w. if aw_Selector w = GetPodAppGroupSelector pod then deps @ aw_Dependencies w else deps)
       [] (ag_Workloads ag)"

section \<open>Binary search\<close>

text \<open>
  The loop \<open>for low <= high\<close>. Indices are unbounded integers here: a Go slice has fewer than
  \<open>2^62\<close> elements, so \<open>low + high\<close> does not wrap.
\<close>

function bsearch :: "('a \<Rightarrow> 'k :: linorder) \<Rightarrow> 'a list \<Rightarrow> 'k \<Rightarrow> int \<Rightarrow> int \<Rightarrow> 'a option" where
  "bsearch key xs k low high =
     (if low \<le> high then
        let mid = (low + high) div 2; x = xs ! nat mid
        in if key x = k then Some x
           else if key x < k then bsearch key xs k (mid + 1) high
           else bsearch key xs k low (mid - 1)
      else None)"
  by pat_completeness auto

termination
  by (relation "measure (\<lambda>(key, xs, k, low, high). nat (high - low + 1))") auto

declare bsearch.simps [simp del]

definition FindPodOrder :: "AppGroupTopologyInfo list \<Rightarrow> string \<Rightarrow> 32 word" where
  "FindPodOrder t selector =
     (case bsearch at_Selector t selector 0 (int (length t) - 1) of Some x \<Rightarrow> at_Index x | None \<Rightarrow> - 1)"

definition FindOriginCosts :: "OriginInfo list \<Rightarrow> string \<Rightarrow> CostInfo list" where
  "FindOriginCosts originList origin =
     (case bsearch oi_Origin originList origin 0 (int (length originList) - 1) of
        Some x \<Rightarrow> oi_CostList x | None \<Rightarrow> [])"

definition FindTopologyKey :: "TopologyInfo list \<Rightarrow> string \<Rightarrow> OriginInfo list" where
  "FindTopologyKey topologyList key =
     (case bsearch ti_TopologyKey topologyList key 0 (int (length topologyList) - 1) of
        Some x \<Rightarrow> ti_OriginList x | None \<Rightarrow> [])"

lemma bsearch_Some:
  assumes "bsearch key xs k low high = Some x" and "0 \<le> low" and "high < int (length xs)"
  shows "x \<in> set xs \<and> key x = k"
  using assms
proof (induction key xs k low high rule: bsearch.induct)
  case (1 key xs k low high)
  let ?mid = "(low + high) div 2"
  have le: "low \<le> high" using "1.prems"(1) by (simp add: bsearch.simps [of key xs k low high] split: if_splits)
  then have "xs ! nat ?mid \<in> set xs" using "1.prems"(2,3) by simp
  then show ?case
    using "1.prems" "1.IH" [OF le refl refl] le
    by (auto simp: bsearch.simps [of key xs k low high] Let_def split: if_splits)
qed

lemma bsearch_finds:
  assumes "sorted (map key xs)" and "0 \<le> low" and "high < int (length xs)"
    and "low \<le> int i" and "int i \<le> high" and "key (xs ! i) = k"
  shows "bsearch key xs k low high \<noteq> None"
  using assms
proof (induction key xs k low high rule: bsearch.induct)
  case (1 key xs k low high)
  let ?mid = "(low + high) div 2"
  have le: "low \<le> high" using "1.prems"(4,5) by linarith
  have i: "i < length xs" using "1.prems"(3,5) by linarith
  have m: "nat ?mid < length xs" "low \<le> ?mid" "?mid \<le> high" using le "1.prems"(2,3) by linarith+
  have mono: "a \<le> b \<Longrightarrow> b < length xs \<Longrightarrow> key (xs ! a) \<le> key (xs ! b)" for a b
    using "1.prems"(1) by (simp add: sorted_iff_nth_mono)
  consider "key (xs ! nat ?mid) = k" | "key (xs ! nat ?mid) < k" | "k < key (xs ! nat ?mid)" by (meson less_linear)
  then show ?case
  proof cases
    case 1
    then show ?thesis using le by (simp add: bsearch.simps [of key xs k low high] Let_def)
  next
    case 2
    then have "?mid + 1 \<le> int i" using mono [of i "nat ?mid"] m "1.prems"(6) by fastforce
    then show ?thesis
      using "1.IH"(1) [OF le refl refl] 2 "1.prems" m le
      by (auto simp: bsearch.simps [of key xs k low high] Let_def)
  next
    case 3
    then have "int i \<le> ?mid - 1" using mono [of "nat ?mid" i] m i "1.prems"(2,6) by fastforce
    then show ?thesis
      using "1.IH"(2) [OF le refl refl] 3 "1.prems" m le
      by (auto simp: bsearch.simps [of key xs k low high] Let_def)
  qed
qed

text \<open>On a sorted list with distinct keys the search is the linear lookup.\<close>

lemma bsearch_find:
  assumes "sorted (map key xs)" and "distinct (map key xs)"
  shows "bsearch key xs k 0 (int (length xs) - 1) = find (\<lambda>x. key x = k) xs"
proof (cases "find (\<lambda>x. key x = k) xs")
  case None
  then have "\<forall>x \<in> set xs. key x \<noteq> k" by (simp add: find_None_iff)
  then show ?thesis using None bsearch_Some [of key xs k 0 "int (length xs) - 1"]
    by (cases "bsearch key xs k 0 (int (length xs) - 1)") auto
next
  case (Some x)
  then obtain i where i: "i < length xs" "key (xs ! i) = k" "x = xs ! i" by (auto simp: find_Some_iff)
  from bsearch_finds [OF assms(1), of 0 "int (length xs) - 1" i] i obtain y
    where y: "bsearch key xs k 0 (int (length xs) - 1) = Some y" by auto
  from bsearch_Some [OF y] have "y \<in> set xs" "key y = k" by simp_all
  then have "y = x" using i assms(2) by (auto simp: distinct_map dest: inj_onD)
  then show ?thesis using y Some by simp
qed

text \<open>
  C24. The binary searches agree with a linear lookup: on lists sorted by their key without
  duplicates, \<open>FindPodOrder\<close> returns the index of the workload with the selector (-1 if there is
  none), \<open>FindOriginCosts\<close> the costs of the origin and \<open>FindTopologyKey\<close> the origins of the key (the
  empty list if there is none).
\<close>

theorem binary_searches_are_lookups:
  assumes "sorted (map at_Selector t)" "distinct (map at_Selector t)"
    and "sorted (map oi_Origin os)" "distinct (map oi_Origin os)"
    and "sorted (map ti_TopologyKey ts)" "distinct (map ti_TopologyKey ts)"
  shows "FindPodOrder t s = (case find (\<lambda>x. at_Selector x = s) t of Some x \<Rightarrow> at_Index x | None \<Rightarrow> - 1) \<and>
    FindOriginCosts os s = (case find (\<lambda>x. oi_Origin x = s) os of Some x \<Rightarrow> oi_CostList x | None \<Rightarrow> []) \<and>
    FindTopologyKey ts s = (case find (\<lambda>x. ti_TopologyKey x = s) ts of Some x \<Rightarrow> ti_OriginList x | None \<Rightarrow> [])"
  using assms by (simp add: FindPodOrder_def FindOriginCosts_def FindTopologyKey_def bsearch_find)

theorem binary_searches_are_lookups_witness:
  "FindPodOrder [\<lparr>at_Selector = ''a'', at_Index = 3\<rparr>, \<lparr>at_Selector = ''b'', at_Index = 5\<rparr>] ''b'' = 5"
  using binary_searches_are_lookups
    [of "[\<lparr>at_Selector = ''a'', at_Index = 3\<rparr>, \<lparr>at_Selector = ''b'', at_Index = 5\<rparr>]" "[]" "[]" "''b''"]
  by simp

section \<open>Topological sort\<close>

text \<open>
  \<open>getAG ns name\<close> is the client's \<open>Get\<close>. A pod whose AppGroup object cannot be read makes \<open>Less\<close>
  dereference nil (\<^const>\<open>None\<close>).
\<close>

fun findAppGroupTopologicalSort :: "(string \<Rightarrow> string \<Rightarrow> AppGroup option) \<Rightarrow> string list \<Rightarrow> string \<Rightarrow> AppGroup option" where
  "findAppGroupTopologicalSort getAG [] agName = None"
| "findAppGroupTopologicalSort getAG (namespace # nss) agName =
     (case getAG namespace agName of
        None \<Rightarrow> findAppGroupTopologicalSort getAG nss agName
      | Some appGroup \<Rightarrow> Some appGroup)"

definition TopologicalSort_Less ::
  "(string \<Rightarrow> string \<Rightarrow> AppGroup option) \<Rightarrow> string list \<Rightarrow> QueuedPodInfo \<Rightarrow> QueuedPodInfo \<Rightarrow> bool option" where
  "TopologicalSort_Less getAG namespaces pInfo1 pInfo2 =
     (let p1AppGroup = GetPodAppGroupLabel (qpi_pod pInfo1); p2AppGroup = GetPodAppGroupLabel (qpi_pod pInfo2)
      in if p1AppGroup \<noteq> p2AppGroup \<or> length p1AppGroup = 0 then Some (PrioritySort_Less pInfo1 pInfo2)
         else (case findAppGroupTopologicalSort getAG namespaces p1AppGroup of
                 None \<Rightarrow> None
               | Some appGroup \<Rightarrow>
                   (let orderP1 = FindPodOrder (ag_TopologyOrder appGroup) (GetPodAppGroupSelector (qpi_pod pInfo1));
                        orderP2 = FindPodOrder (ag_TopologyOrder appGroup) (GetPodAppGroupSelector (qpi_pod pInfo2))
                    in Some (sint orderP1 \<le> sint orderP2))))"

text \<open>The queued pods of one AppGroup whose object can be read.\<close>

definition in_app_group ::
  "(string \<Rightarrow> string \<Rightarrow> AppGroup option) \<Rightarrow> string list \<Rightarrow> string \<Rightarrow> QueuedPodInfo \<Rightarrow> bool" where
  "in_app_group getAG nss g q \<longleftrightarrow>
     GetPodAppGroupLabel (qpi_pod q) = g \<and> g \<noteq> [] \<and> findAppGroupTopologicalSort getAG nss g \<noteq> None"

definition topo_order :: "(string \<Rightarrow> string \<Rightarrow> AppGroup option) \<Rightarrow> string list \<Rightarrow> string \<Rightarrow> QueuedPodInfo \<Rightarrow> int" where
  "topo_order getAG nss g q =
     sint (FindPodOrder (ag_TopologyOrder (the (findAppGroupTopologicalSort getAG nss g))) (GetPodAppGroupSelector (qpi_pod q)))"

lemma TopologicalSort_Less_in_group:
  "in_app_group getAG nss g a \<Longrightarrow> in_app_group getAG nss g b \<Longrightarrow>
   TopologicalSort_Less getAG nss a b = Some (topo_order getAG nss g a \<le> topo_order getAG nss g b)"
  by (auto simp: in_app_group_def TopologicalSort_Less_def topo_order_def Let_def)

interpretation topo: queue_preorder "\<lambda>a b. TopologicalSort_Less getAG nss a b = Some True" "in_app_group getAG nss g"
  for getAG nss g
  by unfold_locales (auto simp: TopologicalSort_Less_in_group)

text \<open>
  Within one AppGroup the topological sort hands out a pod whose workload comes first in the
  group's topology order, whatever the priorities.
\<close>

theorem TopologicalSort_pops_first:
  assumes "\<forall>q \<in> set waiting. in_app_group getAG nss g q"
    and "pop_min (\<lambda>a b. TopologicalSort_Less getAG nss a b = Some True) waiting = Some x" and "y \<in> set waiting"
  shows "topo_order getAG nss g x \<le> topo_order getAG nss g y"
proof -
  have "TopologicalSort_Less getAG nss x y = Some True" by (rule topo.pop_min_least [OF assms])
  moreover have "x \<in> set waiting" using topo.pop_min_in [OF assms(2)] .
  ultimately show ?thesis using TopologicalSort_Less_in_group [of getAG nss g x y] assms(1,3) by simp
qed

definition demo_ag :: AppGroup where
  "demo_ag = \<lparr>ag_uid = ''u'', ag_Workloads = [],
     ag_TopologyOrder = [\<lparr>at_Selector = ''back'', at_Index = 2\<rparr>, \<lparr>at_Selector = ''front'', at_Index = 1\<rparr>]\<rparr>"

definition demo_getAG :: "string \<Rightarrow> string \<Rightarrow> AppGroup option" where
  "demo_getAG ns name = (if name = ''app'' then Some demo_ag else None)"

definition demo_app_pod :: "string \<Rightarrow> int \<Rightarrow> QueuedPodInfo" where
  "demo_app_pod selector prio =
     (demo_qpi prio)\<lparr>qpi_pod := (qpi_pod (demo_qpi prio))\<lparr>pod_labels := [(AppGroupLabel, ''app''), (AppGroupSelectorLabel, selector)]\<rparr>\<rparr>"

theorem TopologicalSort_pops_first_witness:
  "\<exists>x. pop_min (\<lambda>a b. TopologicalSort_Less demo_getAG [''ns1''] a b = Some True)
       [demo_app_pod ''back'' 9, demo_app_pod ''front'' 1] = Some x \<and>
     topo_order demo_getAG [''ns1''] ''app'' x \<le> topo_order demo_getAG [''ns1''] ''app'' (demo_app_pod ''back'' 9)"
proof -
  have pop: "pop_min (\<lambda>a b. TopologicalSort_Less demo_getAG [''ns1''] a b = Some True)
       [demo_app_pod ''back'' 9, demo_app_pod ''front'' 1] = Some (demo_app_pod ''front'' 1)" by code_simp
  have "\<forall>q \<in> set [demo_app_pod ''back'' 9, demo_app_pod ''front'' 1]. in_app_group demo_getAG [''ns1''] ''app'' q"
    by (simp add: in_app_group_def demo_getAG_def demo_app_pod_def GetPodAppGroupLabel_def map_getd_def)
  from TopologicalSort_pops_first [OF this pop, of "demo_app_pod ''back'' 9"] pop show ?thesis by simp
qed

text \<open>
  Across groups the topological sort is not an order: there are three queued pods, two of one
  AppGroup and one outside it, each of which precedes the next in a circle, so which pod the queue
  hands out depends on how they arrived.
\<close>

theorem TopologicalSort_Less_cycle:
  "\<exists>getAG nss a b c.
     TopologicalSort_Less getAG nss a b = Some True \<and> TopologicalSort_Less getAG nss b a = Some False \<and>
     TopologicalSort_Less getAG nss b c = Some True \<and> TopologicalSort_Less getAG nss c b = Some False \<and>
     TopologicalSort_Less getAG nss c a = Some True \<and> TopologicalSort_Less getAG nss a c = Some False"
proof (intro exI)
  let ?L = "TopologicalSort_Less demo_getAG [''ns1'']"
  let ?a = "demo_app_pod ''back'' 9" and ?b = "demo_qpi 5" and ?c = "demo_app_pod ''front'' 1"
  show "?L ?a ?b = Some True \<and> ?L ?b ?a = Some False \<and> ?L ?b ?c = Some True \<and> ?L ?c ?b = Some False \<and>
    ?L ?c ?a = Some True \<and> ?L ?a ?c = Some False"
    by code_simp
qed

end
