(* ===== verification/ScoreNorm.thy ===== *)
theory ScoreNorm
  imports Prelude
begin

text \<open>
  What the scheduler framework asks of a score plugin: after \<open>NormalizeScore\<close> every node's score lies
  between \<open>MinNodeScore\<close> and \<open>MaxNodeScore\<close>; then the framework multiplies it with the plugin's weight.
  \<open>score_normalizer\<close> is that contract, interpreted by the normalizations of the plugins.
\<close>

definition MinNodeScore :: int64 where "MinNodeScore = 0"
definition MaxNodeScore :: int64 where "MaxNodeScore = 100"

text \<open>Go's truncating division of two \<open>int64\<close> values.\<close>

definition sdiv64 :: "int64 \<Rightarrow> int64 \<Rightarrow> int64" where
  "sdiv64 a b = word_of_int (go_div (sint a) (sint b))"

text \<open>The loops that find the extreme scores, from a starting value.\<close>

definition scan_max :: "int64 \<Rightarrow> int64 list \<Rightarrow> int64" where
  "scan_max start scores = foldl (\<lambda>m s. if slt m s then s else m) start scores"

definition scan_min :: "int64 \<Rightarrow> int64 list \<Rightarrow> int64" where
  "scan_min start scores = foldl (\<lambda>m s. if slt s m then s else m) start scores"

text \<open>
  The framework's step after normalization: a score out of range is an error (\<^const>\<open>None\<close>),
  otherwise scores are weighted.
\<close>

definition apply_weight :: "int64 \<Rightarrow> int64 list \<Rightarrow> int64 list option" where
  "apply_weight weight scores =
     (if list_ex (\<lambda>score. slt MaxNodeScore score \<or> slt score MinNodeScore) scores then None
      else Some (map (\<lambda>score. score * weight) scores))"

section \<open>Extreme scores\<close>

lemma sint_scan_max: "sint (scan_max start scores) = Max (insert (sint start) (sint ` set scores))"
proof -
  have "sint (foldl (\<lambda>m s. if slt m s then s else m) m0 scores) = foldl max (sint m0) (map sint scores)" for m0
    by (induction scores arbitrary: m0) (auto simp: slt_def max_def)
  then show ?thesis by (simp add: scan_max_def foldl_max_Max)
qed

lemma sint_scan_min: "sint (scan_min start scores) = Min (insert (sint start) (sint ` set scores))"
proof -
  have "sint (foldl (\<lambda>m s. if slt s m then s else m) m0 scores) = foldl min (sint m0) (map sint scores)" for m0
    by (induction scores arbitrary: m0) (auto simp: slt_def min_def)
  then show ?thesis by (simp add: scan_min_def foldl_min_Min)
qed

definition moderate :: "int64 \<Rightarrow> bool" where
  "moderate s \<longleftrightarrow> \<bar>sint s\<bar> < 2 ^ 62"

lemma scan_extrema:
  assumes "scores \<noteq> []" and "\<forall>s \<in> set scores. moderate s"
    and "sint lo \<le> - (2 ^ 62)" and "2 ^ 62 \<le> sint hi"
  shows "sint (scan_max lo scores) = Max (sint ` set scores)" and "sint (scan_min hi scores) = Min (sint ` set scores)"
proof -
  have ne: "sint ` set scores \<noteq> {}" "finite (sint ` set scores)" using assms(1) by simp_all
  have b: "\<bar>Max (sint ` set scores)\<bar> < 2 ^ 62" "\<bar>Min (sint ` set scores)\<bar> < 2 ^ 62"
    using Max_in [OF ne(2,1)] Min_in [OF ne(2,1)] assms(2) by (auto simp: moderate_def)
  have "sint lo \<le> Max (sint ` set scores)" "Min (sint ` set scores) \<le> sint hi"
    using b assms(3,4) by linarith+
  then show "sint (scan_max lo scores) = Max (sint ` set scores)" and "sint (scan_min hi scores) = Min (sint ` set scores)"
    using ne by (simp_all add: sint_scan_max sint_scan_min)
qed

section \<open>The contract\<close>

locale score_normalizer =
  fixes norm :: "int64 list \<Rightarrow> int64 list" and ok :: "int64 list \<Rightarrow> bool"
  assumes norm_length: "ok ss \<Longrightarrow> length (norm ss) = length ss"
    and norm_range: "ok ss \<Longrightarrow> s \<in> set (norm ss) \<Longrightarrow> 0 \<le> sint s \<and> sint s \<le> 100"
begin

text \<open>The framework accepts the scores, and weighting them is exact integer multiplication.\<close>

lemma framework_accepts:
  assumes "ok ss"
  shows "apply_weight w (norm ss) = Some (map (\<lambda>s. s * w) (norm ss))"
  using norm_range [OF assms] by (fastforce simp: apply_weight_def list_ex_iff slt_def MaxNodeScore_def MinNodeScore_def)

lemma weight_exact:
  assumes "ok ss" and "s \<in> set (norm ss)" and "0 \<le> sint w" and "sint w < 2 ^ 31"
  shows "sint (s * w) = sint s * sint w \<and> 0 \<le> sint (s * w) \<and> sint (s * w) \<le> 100 * sint w"
proof -
  have r: "0 \<le> sint s" "sint s \<le> 100" using norm_range [OF assms(1,2)] by simp_all
  have b: "0 \<le> sint s * sint w" "sint s * sint w \<le> 100 * sint w"
    using r assms(3) by (simp_all add: mult_right_mono)
  then have "in_int64 (sint s * sint w)" using assms(4) by (simp add: in_int64_def)
  then show ?thesis using b by (simp add: sint_mult64)
qed

end

end
