(* ===== verification/NetworkOverhead.thy ===== *)
theory NetworkOverhead
  imports NetworkAware GoFloat ScoreNorm
begin

text \<open>
  The NetworkOverhead plugin, \<open>pkg/networkaware/networkoverhead/networkoverhead.go\<close>: for every node,
  how many network-cost requirements towards already scheduled workloads it satisfies and violates,
  and what the traffic to them would cost. \<^const>\<open>None\<close> is a panic; status messages are left out.

  \<open>sort.Sort\<close> on the cost lists is the stable sort here; keys are unique in a valid object, and then
  every sort gives the same list. The sorts happen in place in the shared object; sorting again is
  without effect, so the model sorts where the list is read.
\<close>

definition MaxCost :: int64 where "MaxCost = 100"
definition SameHostname :: int64 where "SameHostname = 0"
definition SameZone :: int64 where "SameZone = 1"

text \<open>The plugin with its client, lister and snapshot.\<close>

record NetworkOverhead =
  no_getAG :: "string \<Rightarrow> string \<Rightarrow> AppGroup option"
  no_getNT :: "string \<Rightarrow> string \<Rightarrow> NetworkTopology option"
  no_pods :: "string + Pod list"
  no_nodes :: "string + NNode list"
  no_namespaces :: "string list"
  no_weightsName :: string
  no_ntName :: string

type_synonym cost_map = "(string \<times> string, int64) gomap"

record NO_PreFilterState =
  pf_scoreEqually :: bool
  pf_dependencyList :: "DependenciesInfo list"
  pf_scheduledList :: "ScheduledInfo list"
  pf_nodeCostMap :: "(string, cost_map) gomap"
  pf_satisfiedMap :: "(string, int64) gomap"
  pf_violatedMap :: "(string, int64) gomap"
  pf_finalCostMap :: "(string, int64) gomap"

definition initial_state :: NO_PreFilterState where
  "initial_state = \<lparr>pf_scoreEqually = True, pf_dependencyList = [], pf_scheduledList = [], pf_nodeCostMap = [],
     pf_satisfiedMap = [], pf_violatedMap = [], pf_finalCostMap = []\<rparr>"

fun findAppGroupNetworkOverhead :: "NetworkOverhead \<Rightarrow> string list \<Rightarrow> string \<Rightarrow> AppGroup option" where
  "findAppGroupNetworkOverhead no [] agName = None"
| "findAppGroupNetworkOverhead no (namespace # nss) agName =
     (case no_getAG no namespace agName of
        None \<Rightarrow> findAppGroupNetworkOverhead no nss agName
      | Some appGroup \<Rightarrow>
          if ag_uid appGroup \<noteq> [] then Some appGroup else findAppGroupNetworkOverhead no nss agName)"

fun findNetworkTopologyNetworkOverhead :: "NetworkOverhead \<Rightarrow> string list \<Rightarrow> NetworkTopology option" where
  "findNetworkTopologyNetworkOverhead no [] = None"
| "findNetworkTopologyNetworkOverhead no (namespace # nss) =
     (case no_getNT no namespace (no_ntName no) of
        None \<Rightarrow> findNetworkTopologyNetworkOverhead no nss
      | Some networkTopology \<Rightarrow>
          if nt_uid networkTopology \<noteq> [] then Some networkTopology else findNetworkTopologyNetworkOverhead no nss)"

definition manual_weights :: "NetworkOverhead \<Rightarrow> bool" where
  "manual_weights no \<longleftrightarrow> no_weightsName no \<noteq> NetworkTopologyNetperfCosts"

definition sortNetworkTopologyCosts :: "NetworkOverhead \<Rightarrow> NetworkTopology \<Rightarrow> NetworkTopology" where
  "sortNetworkTopologyCosts no nt =
     (if manual_weights no
      then nt\<lparr>nt_Weights := map (\<lambda>w. w\<lparr>wi_TopologyList := sort_key ti_TopologyKey (wi_TopologyList w)\<rparr>) (nt_Weights nt)\<rparr>
      else nt)"

text \<open>The costs of one topology key from one origin, and their entry into the map.\<close>

definition add_costs :: "NetworkOverhead \<Rightarrow> WeightInfo \<Rightarrow> string \<Rightarrow> string \<Rightarrow> cost_map \<Rightarrow> cost_map" where
  "add_costs no w key origin costMap =
     (if origin \<noteq> [] then
        let topologyList = FindTopologyKey (wi_TopologyList w) key;
            topologyList' = (if manual_weights no then sort_key oi_Origin topologyList else topologyList);
            costs = FindOriginCosts topologyList' origin
        in foldl (\<lambda>m c. map_set (origin, ci_Destination c) (ci_NetworkCost c) m) costMap costs
      else costMap)"

definition populateCostMap :: "NetworkOverhead \<Rightarrow> NetworkTopology \<Rightarrow> string \<Rightarrow> string \<Rightarrow> cost_map" where
  "populateCostMap no nt region zone =
     foldl (\<lambda>costMap w.
        if wi_Name w \<noteq> no_weightsName no then costMap
        else add_costs no w NetworkTopologyZone zone (add_costs no w NetworkTopologyRegion region costMap))
       [] (nt_Weights nt)"

text \<open>The snapshot's lookup by host name.\<close>

definition snapshot_get :: "NNode list \<Rightarrow> string \<Rightarrow> NNode option" where
  "snapshot_get nodes name = find (\<lambda>n. nn_name n = name) nodes"

text \<open>The cost the map holds between a node's place and another node, by zone or by region.\<close>

definition place_cost :: "string \<Rightarrow> string \<Rightarrow> cost_map \<Rightarrow> NNode \<Rightarrow> int64 option" where
  "place_cost region zone costMap other =
     (if region = GetNodeRegion other then map_get costMap (zone, GetNodeZone other)
      else map_get costMap (region, GetNodeRegion other))"

text \<open>One dependency against one scheduled pod: the increments of \<open>satisfied\<close> and \<open>violated\<close>.\<close>

definition check_dependency ::
  "NNode list \<Rightarrow> string \<Rightarrow> string \<Rightarrow> string \<Rightarrow> cost_map \<Rightarrow> ScheduledInfo \<Rightarrow> int64 \<times> int64 \<Rightarrow> DependenciesInfo \<Rightarrow>
   (int64 \<times> int64) option" where
  "check_dependency nodes nodeName region zone costMap podAllocated acc d =
     (case acc of (satisfied, violated) \<Rightarrow>
        if si_Selector podAllocated \<noteq> di_Selector d then Some (satisfied, violated)
        else if si_Hostname podAllocated = nodeName then Some (satisfied + 1, violated)
        else (case snapshot_get nodes (si_Hostname podAllocated) of
                None \<Rightarrow> None
              | Some podNode \<Rightarrow>
                  if GetNodeRegion podNode = [] \<and> GetNodeZone podNode = [] then Some (satisfied, violated + 1)
                  else if region = GetNodeRegion podNode \<and> zone = GetNodeZone podNode then Some (satisfied + 1, violated)
                  else (case place_cost region zone costMap podNode of
                          None \<Rightarrow> Some (satisfied, violated)
                        | Some cost \<Rightarrow>
                            if sle cost (di_MaxNetworkCost d) then Some (satisfied + 1, violated)
                            else Some (satisfied, violated + 1))))"

text \<open>The loops over scheduled pods and dependencies; \<^const>\<open>None\<close> is the error return.\<close>

definition checkMaxNetworkCostRequirements ::
  "NNode list \<Rightarrow> ScheduledInfo list \<Rightarrow> DependenciesInfo list \<Rightarrow> string \<Rightarrow> string \<Rightarrow> string \<Rightarrow> cost_map \<Rightarrow>
   (int64 \<times> int64) option" where
  "checkMaxNetworkCostRequirements nodes scheduledList dependencyList nodeName region zone costMap =
     foldM (\<lambda>acc podAllocated.
        if si_Hostname podAllocated \<noteq> []
        then foldM (check_dependency nodes nodeName region zone costMap podAllocated) acc dependencyList
        else Some acc) (0, 0) scheduledList"

definition dependency_cost ::
  "NNode list \<Rightarrow> string \<Rightarrow> string \<Rightarrow> string \<Rightarrow> cost_map \<Rightarrow> ScheduledInfo \<Rightarrow> int64 \<Rightarrow> DependenciesInfo \<Rightarrow> int64 option" where
  "dependency_cost nodes nodeName region zone costMap podAllocated cost d =
     (if si_Selector podAllocated \<noteq> di_Selector d then Some cost
      else if si_Hostname podAllocated = nodeName then Some (cost + SameHostname)
      else (case snapshot_get nodes (si_Hostname podAllocated) of
              None \<Rightarrow> None
            | Some podNode \<Rightarrow>
                if GetNodeRegion podNode = [] \<and> GetNodeZone podNode = [] then Some (cost + MaxCost)
                else if region = GetNodeRegion podNode \<and> zone = GetNodeZone podNode then Some (cost + SameZone)
                else (case place_cost region zone costMap podNode of
                        None \<Rightarrow> Some (cost + MaxCost)
                      | Some value \<Rightarrow> Some (cost + value))))"

definition getAccumulatedCost ::
  "NNode list \<Rightarrow> ScheduledInfo list \<Rightarrow> DependenciesInfo list \<Rightarrow> string \<Rightarrow> string \<Rightarrow> string \<Rightarrow> cost_map \<Rightarrow> int64 option" where
  "getAccumulatedCost nodes scheduledList dependencyList nodeName region zone costMap =
     foldM (\<lambda>cost podAllocated. foldM (dependency_cost nodes nodeName region zone costMap podAllocated) cost dependencyList)
       0 scheduledList"

text \<open>One node of the loop in \<open>PreFilter\<close>; an error return is \<^const>\<open>None\<close>.\<close>

definition prefilter_node ::
  "NetworkOverhead \<Rightarrow> NetworkTopology \<Rightarrow> NNode list \<Rightarrow> NO_PreFilterState \<Rightarrow> NNode \<Rightarrow> NO_PreFilterState option" where
  "prefilter_node no nt nodes st node =
     (let region = GetNodeRegion node; zone = GetNodeZone node; name = nn_name node;
          costMap = populateCostMap no nt region zone
      in case checkMaxNetworkCostRequirements nodes (pf_scheduledList st) (pf_dependencyList st) name region zone costMap of
           None \<Rightarrow> None
         | Some (satisfied, violated) \<Rightarrow>
             (case getAccumulatedCost nodes (pf_scheduledList st) (pf_dependencyList st) name region zone costMap of
                None \<Rightarrow> None
              | Some cost \<Rightarrow>
                  Some (st\<lparr>pf_nodeCostMap := map_set name costMap (pf_nodeCostMap st),
                           pf_satisfiedMap := map_set name satisfied (pf_satisfiedMap st),
                           pf_violatedMap := map_set name violated (pf_violatedMap st),
                           pf_finalCostMap := map_set name cost (pf_finalCostMap st)\<rparr>)))"

text \<open>
  The result is the state written to the cycle state with the status code; the outer \<^const>\<open>None\<close> is the
  panic on an AppGroup or NetworkTopology that was not found.
\<close>

definition NO_PreFilter :: "NetworkOverhead \<Rightarrow> Pod \<Rightarrow> (NO_PreFilterState \<times> Code) option" where
  "NO_PreFilter no pod =
     (let agName = GetPodAppGroupLabel pod
      in if length agName = 0 then Some (initial_state, Success)
         else (let nt = findNetworkTopologyNetworkOverhead no (no_namespaces no)
               in if nt = None \<and> manual_weights no then None
                  else (case findAppGroupNetworkOverhead no (no_namespaces no) agName of
                          None \<Rightarrow> None
                        | Some appGroup \<Rightarrow>
                            (let dependencyList = GetDependencyList pod appGroup
                             in if dependencyList = [] then Some (initial_state, Success)
                                else (case no_pods no of
                                        Inl err \<Rightarrow> Some (initial_state, Success)
                                      | Inr allPods \<Rightarrow>
                                          (let pods = filter (\<lambda>p. map_get (pod_labels p) AppGroupLabel = Some agName) allPods;
                                               scheduledList = GetScheduledList pods
                                           in if length pods = 0 then Some (initial_state, Success)
                                              else if length scheduledList = 0 then Some (initial_state, Success)
                                              else (case no_nodes no of
                                                      Inl err \<Rightarrow> Some (initial_state, Error)
                                                    | Inr nodeList \<Rightarrow>
                                                        if nt = None \<and> nodeList \<noteq> [] then None
                                                        else (case foldM (prefilter_node no (sortNetworkTopologyCosts no (the nt)) nodeList)
                                                                    (initial_state\<lparr>pf_scoreEqually := False,
                                                                       pf_dependencyList := dependencyList,
                                                                       pf_scheduledList := scheduledList\<rparr>) nodeList of
                                                                None \<Rightarrow> Some (initial_state, Error)
                                                              | Some st \<Rightarrow> Some (st, Success)))))))))"

definition NO_Filter :: "NO_PreFilterState option \<Rightarrow> string \<Rightarrow> Code" where
  "NO_Filter preFilterState nodeName =
     (case preFilterState of
        None \<Rightarrow> Error
      | Some st \<Rightarrow>
          if pf_scoreEqually st then Success
          else (let satisfied = map_getd 0 (pf_satisfiedMap st) nodeName;
                    violated = map_getd 0 (pf_violatedMap st) nodeName
                in if slt satisfied violated then Unschedulable else Success))"

definition NO_Score :: "NO_PreFilterState option \<Rightarrow> string \<Rightarrow> int64 \<times> Code" where
  "NO_Score preFilterState nodeName =
     (case preFilterState of
        None \<Rightarrow> (MinNodeScore, Error)
      | Some st \<Rightarrow>
          if pf_scoreEqually st then (MinNodeScore, Success)
          else (map_getd 0 (pf_finalCostMap st) nodeName, Success))"

definition MinInt64 :: int64 where "MinInt64 = 0x8000000000000000"

definition getMinMaxScores :: "int64 list \<Rightarrow> int64 \<times> int64" where
  "getMinMaxScores scores = (scan_min MaxInt64 scores, scan_max MinInt64 scores)"

definition NO_NormalizeScore :: "int64 list \<Rightarrow> int64 list" where
  "NO_NormalizeScore scores =
     (let (minCost, maxCost) = getMinMaxScores scores
      in if minCost = 0 \<and> maxCost = 0 then scores
         else map (\<lambda>score.
                if maxCost \<noteq> minCost then
                  let normCost = f_div binary64 (f_mul binary64 (f_of_int binary64 (sint MaxNodeScore))
                                                   (f_of_int binary64 (sint (score - minCost))))
                                   (f_of_int binary64 (sint (maxCost - minCost)))
                  in MaxNodeScore - f_to_int64 normCost
                else
                  let normCost = f_of_int binary64 (sint (score - minCost))
                  in MaxNodeScore - f_to_int64 normCost) scores)"

section \<open>Counting requirements\<close>

text \<open>
  The specification: the verdict and the cost of one dependency towards one scheduled pod, as seen
  from a node.
\<close>

datatype verdict = Satisfied | Violated | Ignored

definition dep_verdict :: "NNode list \<Rightarrow> NNode \<Rightarrow> cost_map \<Rightarrow> ScheduledInfo \<times> DependenciesInfo \<Rightarrow> verdict" where
  "dep_verdict nodes n costMap pd =
     (case pd of (p, d) \<Rightarrow>
        if si_Selector p \<noteq> di_Selector d then Ignored
        else if si_Hostname p = nn_name n then Satisfied
        else (case snapshot_get nodes (si_Hostname p) of
                None \<Rightarrow> Ignored
              | Some o' \<Rightarrow>
                  if GetNodeRegion o' = [] \<and> GetNodeZone o' = [] then Violated
                  else if GetNodeRegion n = GetNodeRegion o' \<and> GetNodeZone n = GetNodeZone o' then Satisfied
                  else (case place_cost (GetNodeRegion n) (GetNodeZone n) costMap o' of
                          None \<Rightarrow> Ignored
                        | Some c \<Rightarrow> if sint c \<le> sint (di_MaxNetworkCost d) then Satisfied else Violated)))"

definition dep_cost :: "NNode list \<Rightarrow> NNode \<Rightarrow> cost_map \<Rightarrow> ScheduledInfo \<times> DependenciesInfo \<Rightarrow> int64" where
  "dep_cost nodes n costMap pd =
     (case pd of (p, d) \<Rightarrow>
        if si_Selector p \<noteq> di_Selector d \<or> si_Hostname p = nn_name n then 0
        else (case snapshot_get nodes (si_Hostname p) of
                None \<Rightarrow> 0
              | Some o' \<Rightarrow>
                  if GetNodeRegion o' = [] \<and> GetNodeZone o' = [] then 100
                  else if GetNodeRegion n = GetNodeRegion o' \<and> GetNodeZone n = GetNodeZone o' then 1
                  else (case place_cost (GetNodeRegion n) (GetNodeZone n) costMap o' of None \<Rightarrow> 100 | Some c \<Rightarrow> c)))"

definition dep_pairs :: "ScheduledInfo list \<Rightarrow> DependenciesInfo list \<Rightarrow> (ScheduledInfo \<times> DependenciesInfo) list" where
  "dep_pairs sched deps = concat (map (\<lambda>p. map (\<lambda>d. (p, d)) deps) sched)"

lemma foldM_map: "foldM f s (map g xs) = foldM (\<lambda>s x. f s (g x)) s xs"
  by (induction xs arbitrary: s) (auto split: option.splits)

lemma foldM_cong: "(\<And>s x. x \<in> set xs \<Longrightarrow> f s x = g s x) \<Longrightarrow> foldM f s xs = foldM g s xs"
  by (induction xs arbitrary: s) (auto split: option.splits)

lemma foldM_pairs: "foldM (\<lambda>acc p. foldM (f p) acc deps) acc sched = foldM (\<lambda>acc (p, d). f p acc d) acc (dep_pairs sched deps)"
proof -
  have "foldM (\<lambda>acc p. foldM (f p) acc deps) acc sched =
    foldM (\<lambda>acc p. foldM (\<lambda>acc (p, d). f p acc d) acc (map (\<lambda>d. (p, d)) deps)) acc sched"
    by (simp add: foldM_map)
  then show ?thesis by (simp add: dep_pairs_def foldM_concat)
qed

text \<open>A fold whose every successful step adds an amount adds up the amounts.\<close>

lemma foldM_adds:
  assumes "foldM f s xs = Some s'" and "\<And>s x s'. f s x = Some s' \<Longrightarrow> h s' = h s + a x"
  shows "h s' = h s + sum_list (map a xs)"
  using assms(1)
proof (induction xs arbitrary: s)
  case (Cons x xs)
  then obtain t where t: "f s x = Some t" "foldM f t xs = Some s'" by (auto split: option.splits)
  from Cons.IH [OF t(2)] assms(2) [OF t(1)] show ?case by (simp add: add.assoc)
qed simp

lemma sum_indicator: "sum_list (map (\<lambda>x. if P x then 1 else 0) xs) = (of_nat (length (filter P xs)) :: 'a :: semiring_1)"
  by (induction xs) auto

lemma check_dependency_step:
  assumes "check_dependency nodes (nn_name n) (GetNodeRegion n) (GetNodeZone n) costMap p acc d = Some acc'"
  shows "fst acc' = fst acc + (if dep_verdict nodes n costMap (p, d) = Satisfied then 1 else 0)"
    and "snd acc' = snd acc + (if dep_verdict nodes n costMap (p, d) = Violated then 1 else 0)"
  using assms by (auto simp: check_dependency_def dep_verdict_def sle_def split: prod.splits if_splits option.splits)

lemma dependency_cost_step:
  assumes "dependency_cost nodes (nn_name n) (GetNodeRegion n) (GetNodeZone n) costMap p c d = Some c'"
  shows "c' = c + dep_cost nodes n costMap (p, d)"
  using assms
  by (auto simp: dependency_cost_def dep_cost_def SameHostname_def SameZone_def MaxCost_def split: if_splits option.splits)

definition n_verdict :: "verdict \<Rightarrow> NNode list \<Rightarrow> NNode \<Rightarrow> cost_map \<Rightarrow> ScheduledInfo list \<Rightarrow> DependenciesInfo list \<Rightarrow> nat" where
  "n_verdict v nodes n costMap sched deps =
     length (filter (\<lambda>pd. dep_verdict nodes n costMap pd = v) (dep_pairs sched deps))"

lemma checkMaxNetworkCostRequirements_counts:
  assumes "checkMaxNetworkCostRequirements nodes sched deps (nn_name n) (GetNodeRegion n) (GetNodeZone n) costMap =
      Some (sat, viol)"
    and "\<forall>p \<in> set sched. si_Hostname p \<noteq> []"
  shows "sat = of_nat (n_verdict Satisfied nodes n costMap sched deps)"
    and "viol = of_nat (n_verdict Violated nodes n costMap sched deps)"
proof -
  let ?f = "\<lambda>acc (p, d). check_dependency nodes (nn_name n) (GetNodeRegion n) (GetNodeZone n) costMap p acc d"
  have "checkMaxNetworkCostRequirements nodes sched deps (nn_name n) (GetNodeRegion n) (GetNodeZone n) costMap =
    foldM (\<lambda>acc p. foldM (check_dependency nodes (nn_name n) (GetNodeRegion n) (GetNodeZone n) costMap p) acc deps) (0, 0) sched"
    unfolding checkMaxNetworkCostRequirements_def using assms(2) by (intro foldM_cong) simp
  then have f: "foldM ?f (0, 0) (dep_pairs sched deps) = Some (sat, viol)" using assms(1) by (simp add: foldM_pairs)
  have "fst (sat, viol) = fst (0 :: int64, 0 :: int64) +
      sum_list (map (\<lambda>pd. if dep_verdict nodes n costMap pd = Satisfied then 1 else 0) (dep_pairs sched deps))"
    by (rule foldM_adds [OF f]) (auto dest: check_dependency_step(1) split: prod.splits)
  then show "sat = of_nat (n_verdict Satisfied nodes n costMap sched deps)"
    by (simp add: sum_indicator n_verdict_def)
  have "snd (sat, viol) = snd (0 :: int64, 0 :: int64) +
      sum_list (map (\<lambda>pd. if dep_verdict nodes n costMap pd = Violated then 1 else 0) (dep_pairs sched deps))"
    by (rule foldM_adds [OF f]) (auto dest: check_dependency_step(2) split: prod.splits)
  then show "viol = of_nat (n_verdict Violated nodes n costMap sched deps)"
    by (simp add: sum_indicator n_verdict_def)
qed

lemma getAccumulatedCost_sum:
  assumes "getAccumulatedCost nodes sched deps (nn_name n) (GetNodeRegion n) (GetNodeZone n) costMap = Some c"
  shows "c = sum_list (map (dep_cost nodes n costMap) (dep_pairs sched deps))"
proof -
  have f: "foldM (\<lambda>acc (p, d). dependency_cost nodes (nn_name n) (GetNodeRegion n) (GetNodeZone n) costMap p acc d)
      0 (dep_pairs sched deps) = Some c"
    using assms by (simp add: getAccumulatedCost_def foldM_pairs)
  have "id c = id 0 + sum_list (map (dep_cost nodes n costMap) (dep_pairs sched deps))"
    by (rule foldM_adds [OF f]) (auto dest: dependency_cost_step split: prod.splits)
  then show ?thesis by simp
qed

section \<open>PreFilter, Filter and Score together\<close>

lemma prefilter_node_Some:
  assumes "prefilter_node no nt nodes st node = Some st'"
  obtains s v c where
    "checkMaxNetworkCostRequirements nodes (pf_scheduledList st) (pf_dependencyList st) (nn_name node)
       (GetNodeRegion node) (GetNodeZone node) (populateCostMap no nt (GetNodeRegion node) (GetNodeZone node)) = Some (s, v)"
    "getAccumulatedCost nodes (pf_scheduledList st) (pf_dependencyList st) (nn_name node)
       (GetNodeRegion node) (GetNodeZone node) (populateCostMap no nt (GetNodeRegion node) (GetNodeZone node)) = Some c"
    "pf_satisfiedMap st' = map_set (nn_name node) s (pf_satisfiedMap st)"
    "pf_violatedMap st' = map_set (nn_name node) v (pf_violatedMap st)"
    "pf_finalCostMap st' = map_set (nn_name node) c (pf_finalCostMap st)"
    "pf_scheduledList st' = pf_scheduledList st" "pf_dependencyList st' = pf_dependencyList st"
    "pf_scoreEqually st' = pf_scoreEqually st"
  using assms by (auto simp: prefilter_node_def Let_def split: option.splits prod.splits)

definition node_entry :: "NetworkOverhead \<Rightarrow> NetworkTopology \<Rightarrow> NNode list \<Rightarrow> NO_PreFilterState \<Rightarrow> NNode \<Rightarrow> bool" where
  "node_entry no nt nodes st n \<longleftrightarrow>
     (let cm = populateCostMap no nt (GetNodeRegion n) (GetNodeZone n)
      in \<exists>s v c.
        checkMaxNetworkCostRequirements nodes (pf_scheduledList st) (pf_dependencyList st) (nn_name n)
          (GetNodeRegion n) (GetNodeZone n) cm = Some (s, v) \<and>
        getAccumulatedCost nodes (pf_scheduledList st) (pf_dependencyList st) (nn_name n)
          (GetNodeRegion n) (GetNodeZone n) cm = Some c \<and>
        map_of (pf_satisfiedMap st) (nn_name n) = Some s \<and> map_of (pf_violatedMap st) (nn_name n) = Some v \<and>
        map_of (pf_finalCostMap st) (nn_name n) = Some c)"

lemma prefilter_loop:
  assumes "foldM (prefilter_node no nt nodes) st ns = Some st'" and "distinct (map nn_name ns)"
  shows "pf_scheduledList st' = pf_scheduledList st \<and> pf_dependencyList st' = pf_dependencyList st \<and>
    pf_scoreEqually st' = pf_scoreEqually st \<and>
    (\<forall>n \<in> set ns. node_entry no nt nodes st' n) \<and>
    (\<forall>m. m \<notin> nn_name ` set ns \<longrightarrow>
       map_of (pf_satisfiedMap st') m = map_of (pf_satisfiedMap st) m \<and>
       map_of (pf_violatedMap st') m = map_of (pf_violatedMap st) m \<and>
       map_of (pf_finalCostMap st') m = map_of (pf_finalCostMap st) m)"
  using assms
proof (induction ns arbitrary: st)
  case (Cons n ns)
  then obtain t where t: "prefilter_node no nt nodes st n = Some t" "foldM (prefilter_node no nt nodes) t ns = Some st'"
    by (auto split: option.splits)
  from prefilter_node_Some [OF t(1)] obtain s v c where step:
    "checkMaxNetworkCostRequirements nodes (pf_scheduledList st) (pf_dependencyList st) (nn_name n)
       (GetNodeRegion n) (GetNodeZone n) (populateCostMap no nt (GetNodeRegion n) (GetNodeZone n)) = Some (s, v)"
    "getAccumulatedCost nodes (pf_scheduledList st) (pf_dependencyList st) (nn_name n)
       (GetNodeRegion n) (GetNodeZone n) (populateCostMap no nt (GetNodeRegion n) (GetNodeZone n)) = Some c"
    "pf_satisfiedMap t = map_set (nn_name n) s (pf_satisfiedMap st)"
    "pf_violatedMap t = map_set (nn_name n) v (pf_violatedMap st)"
    "pf_finalCostMap t = map_set (nn_name n) c (pf_finalCostMap st)"
    "pf_scheduledList t = pf_scheduledList st" "pf_dependencyList t = pf_dependencyList st"
    "pf_scoreEqually t = pf_scoreEqually st" .
  note IH = Cons.IH [OF t(2)]
  have "nn_name n \<notin> nn_name ` set ns" "distinct (map nn_name ns)" using Cons.prems(2) by simp_all
  with IH step have "node_entry no nt nodes st' n" by (simp add: node_entry_def Let_def map_of_set)
  with IH step Cons.prems(2) show ?case by (auto simp: map_of_set)
qed simp

lemma GetScheduledList_hosts: "p \<in> set (GetScheduledList pods) \<Longrightarrow> si_Hostname p \<noteq> []"
  by (auto simp: GetScheduledList_def)

text \<open>
  C23. The plugin judges a node by counting. Once \<open>PreFilter\<close> has succeeded for a pod with scheduled
  dependencies, \<open>Filter\<close> rejects a node exactly when more (scheduled pod, dependency) pairs are
  violated than satisfied, and \<open>Score\<close> is the sum of the pairs' costs. A pair is satisfied on the same
  host, in the same region and zone, or if the known cost is within the dependency's maximum, and
  violated beyond it or if the other node has no place; a pair without a known cost counts for
  neither side in the filter but with the maximal cost of 100 in the score.
\<close>

theorem NO_Filter_Score_verdict:
  assumes "NO_PreFilter no pod = Some (st, Success)" and "\<not> pf_scoreEqually st"
    and "no_nodes no = Inr nodes" and "distinct (map nn_name nodes)" and "n \<in> set nodes"
    and "findNetworkTopologyNetworkOverhead no (no_namespaces no) = Some nt"
    and "cm = populateCostMap no (sortNetworkTopologyCosts no nt) (GetNodeRegion n) (GetNodeZone n)"
    and "length (dep_pairs (pf_scheduledList st) (pf_dependencyList st)) < 2 ^ 63"
  shows "(NO_Filter (Some st) (nn_name n) = Unschedulable \<longleftrightarrow>
      n_verdict Satisfied nodes n cm (pf_scheduledList st) (pf_dependencyList st) <
      n_verdict Violated nodes n cm (pf_scheduledList st) (pf_dependencyList st)) \<and>
    NO_Score (Some st) (nn_name n) =
      (sum_list (map (dep_cost nodes n cm) (dep_pairs (pf_scheduledList st) (pf_dependencyList st))), Success)"
proof -
  let ?sched = "pf_scheduledList st" and ?deps = "pf_dependencyList st"
  have init: "pf_scoreEqually initial_state" by (simp add: initial_state_def)
  from assms(1,2,3,6) init obtain deps sched pods where
    f: "foldM (prefilter_node no (sortNetworkTopologyCosts no nt) nodes)
       (initial_state\<lparr>pf_scoreEqually := False, pf_dependencyList := deps, pf_scheduledList := sched\<rparr>) nodes = Some st"
    and sched: "sched = GetScheduledList pods"
    by (auto simp: NO_PreFilter_def Let_def split: if_splits option.splits sum.splits)
  note loop = prefilter_loop [OF f assms(4)]
  then have hosts: "\<forall>p \<in> set ?sched. si_Hostname p \<noteq> []" using sched GetScheduledList_hosts by auto
  from loop assms(5,7) obtain s v c where
    e: "checkMaxNetworkCostRequirements nodes ?sched ?deps (nn_name n) (GetNodeRegion n) (GetNodeZone n) cm = Some (s, v)"
    "getAccumulatedCost nodes ?sched ?deps (nn_name n) (GetNodeRegion n) (GetNodeZone n) cm = Some c"
    "map_of (pf_satisfiedMap st) (nn_name n) = Some s" "map_of (pf_violatedMap st) (nn_name n) = Some v"
    "map_of (pf_finalCostMap st) (nn_name n) = Some c"
    by (auto simp: node_entry_def Let_def)
  note counts = checkMaxNetworkCostRequirements_counts [OF e(1) hosts]
  have le: "n_verdict x nodes n cm ?sched ?deps < 2 ^ 63" for x
    using assms(8) le_less_trans [OF length_filter_le] by (simp add: n_verdict_def)
  have "sint (of_nat k :: int64) = int k" if "k < 2 ^ 63" for k
    using that sint_of_int64 [of "int k"] by (simp add: in_int64_def)
  with le have "slt s v \<longleftrightarrow> n_verdict Satisfied nodes n cm ?sched ?deps < n_verdict Violated nodes n cm ?sched ?deps"
    by (simp add: slt_def counts)
  then show ?thesis
    using assms(2) e(3-5) getAccumulatedCost_sum [OF e(2)] by (simp add: NO_Filter_def NO_Score_def map_getd_def Let_def)
qed

definition demo_nodes :: "NNode list" where
  "demo_nodes = [\<lparr>nn_name = ''a'', nn_labels = [(NetworkTopologyRegion, ''r''), (NetworkTopologyZone, ''z1'')]\<rparr>,
                 \<lparr>nn_name = ''b'', nn_labels = [(NetworkTopologyRegion, ''r''), (NetworkTopologyZone, ''z2'')]\<rparr>]"

definition demo_nt :: NetworkTopology where
  "demo_nt = \<lparr>nt_uid = ''nt'', nt_Weights = [\<lparr>wi_Name = ''UserDefined'', wi_TopologyList =
     [\<lparr>ti_TopologyKey = NetworkTopologyZone, ti_OriginList =
        [\<lparr>oi_Origin = ''z1'', oi_CostList = [\<lparr>ci_Destination = ''z2'', ci_NetworkCost = 7\<rparr>]\<rparr>]\<rparr>]\<rparr>]\<rparr>"

definition demo_app :: AppGroup where
  "demo_app = \<lparr>ag_uid = ''ag'', ag_Workloads = [\<lparr>aw_Selector = ''front'',
     aw_Dependencies = [\<lparr>di_Selector = ''back'', di_MaxNetworkCost = 5\<rparr>]\<rparr>], ag_TopologyOrder = []\<rparr>"

definition demo_labelled :: "string \<Rightarrow> string \<Rightarrow> Pod" where
  "demo_labelled selector host =
     demo_pod\<lparr>pod_labels := [(AppGroupLabel, ''app''), (AppGroupSelectorLabel, selector)], pod_nodeName := host\<rparr>"

definition demo_no :: NetworkOverhead where
  "demo_no = \<lparr>no_getAG = (\<lambda>_ _. Some demo_app), no_getNT = (\<lambda>_ _. Some demo_nt),
     no_pods = Inr [demo_labelled ''back'' ''b''], no_nodes = Inr demo_nodes, no_namespaces = [''ns1''],
     no_weightsName = ''UserDefined'', no_ntName = ''nt''\<rparr>"

theorem NO_Filter_Score_verdict_witness:
  "\<exists>st. NO_PreFilter demo_no (demo_labelled ''front'' []) = Some (st, Success) \<and>
     NO_Filter (Some st) ''a'' = Unschedulable"
proof -
  let ?p = "demo_labelled ''front'' []"
  let ?st = "fst (the (NO_PreFilter demo_no ?p))"
  let ?n = "hd demo_nodes"
  let ?cm = "populateCostMap demo_no (sortNetworkTopologyCosts demo_no demo_nt) (GetNodeRegion ?n) (GetNodeZone ?n)"
  have e: "map_option snd (NO_PreFilter demo_no ?p) = Some Success" "\<not> pf_scoreEqually ?st"
    "distinct (map nn_name demo_nodes)" "length (dep_pairs (pf_scheduledList ?st) (pf_dependencyList ?st)) = 1"
    "n_verdict Satisfied demo_nodes ?n ?cm (pf_scheduledList ?st) (pf_dependencyList ?st) = 0"
    "n_verdict Violated demo_nodes ?n ?cm (pf_scheduledList ?st) (pf_dependencyList ?st) = 1"
    by code_simp+
  have f: "no_nodes demo_no = Inr demo_nodes" "?n \<in> set demo_nodes" "nn_name ?n = ''a''"
    "findNetworkTopologyNetworkOverhead demo_no (no_namespaces demo_no) = Some demo_nt"
    by (simp_all add: demo_no_def demo_nodes_def demo_nt_def)
  from e(1) have "NO_PreFilter demo_no ?p = Some (?st, Success)" by auto
  with NO_Filter_Score_verdict [OF this e(2) f(1) e(3) f(2) f(4) refl] e f(3) show ?thesis by auto
qed

section \<open>Normalization\<close>

definition small_cost :: "int64 \<Rightarrow> bool" where
  "small_cost c \<longleftrightarrow> \<bar>sint c\<bar> \<le> 2 ^ 40"

lemma floor_round_between:
  assumes "0 \<le> d" "d \<le> D" "0 < D"
  shows "0 \<le> \<lfloor>round_to binary64 (100 * of_int d / of_int D)\<rfloor> \<and> \<lfloor>round_to binary64 (100 * of_int d / of_int D)\<rfloor> \<le> 100 \<and>
    fl binary64 (100 * of_int d / of_int D) = Fin (round_to binary64 (100 * of_int d / of_int D)) \<and>
    0 \<le> round_to binary64 (100 * of_int d / of_int D)"
proof -
  have "0 \<le> 100 * rat_of_int d / of_int D" "100 * rat_of_int d / of_int D \<le> 100"
    using assms by (simp_all add: divide_le_eq)
  from fl64_between [OF this] round_to_int64_exact [of 100] show ?thesis by (auto simp: le_floor_iff floor_le_iff)
qed

text \<open>The value a cost \<open>s\<close> is mapped to when the costs range from \<open>mn\<close> to \<open>mx\<close>.\<close>

definition norm_cost :: "int \<Rightarrow> int \<Rightarrow> int \<Rightarrow> int" where
  "norm_cost mn mx s =
     (if mn = 0 \<and> mx = 0 then s else if mn = mx then 100
      else 100 - \<lfloor>round_to binary64 (100 * of_int (s - mn) / of_int (mx - mn))\<rfloor>)"

lemma sint_MaxNodeScore: "sint MaxNodeScore = 100"
  by (simp add: MaxNodeScore_def)

lemma in_int64_score: "0 \<le> x \<Longrightarrow> x \<le> 100 \<Longrightarrow> in_int64 (100 - x)"
  by (simp add: in_int64_def)

lemma norm_word:
  assumes "0 \<le> d" "d \<le> D" "0 < D" "D \<le> 2 ^ 41"
  shows "sint (MaxNodeScore - f_to_int64 (f_div binary64 (f_mul binary64 (f_of_int binary64 (sint MaxNodeScore))
      (f_of_int binary64 d)) (f_of_int binary64 D))) = 100 - \<lfloor>round_to binary64 (100 * of_int d / of_int D)\<rfloor>"
proof -
  let ?q = "round_to binary64 (100 * of_int d / of_int D)"
  note b = floor_round_between [OF assms(1-3)]
  have "fl binary64 (100 * of_int d) = Fin (100 * of_int d)"
    using fl64_of_int [of "100 * d"] assms by simp
  then have "f_div binary64 (f_mul binary64 (f_of_int binary64 100) (f_of_int binary64 d)) (f_of_int binary64 D) = Fin ?q"
    using assms b by (simp add: f64_of_int)
  then have e: "f_to_int64 (f_div binary64 (f_mul binary64 (f_of_int binary64 (sint MaxNodeScore))
      (f_of_int binary64 d)) (f_of_int binary64 D)) = f_to_int64 (Fin ?q)"
    by (simp only: sint_MaxNodeScore)
  have "in_int64 \<lfloor>?q\<rfloor>" using b by (simp add: in_int64_def del: le_floor_iff floor_le_iff zero_le_floor floor_less_iff)
  then have w: "sint (f_to_int64 (Fin ?q)) = \<lfloor>?q\<rfloor>" using b by (simp add: rat_trunc_def sint_of_int64)
  have "in_int64 (sint MaxNodeScore - \<lfloor>?q\<rfloor>)"
    unfolding sint_MaxNodeScore by (rule in_int64_score) (use b in simp_all)
  with w have "sint (MaxNodeScore - f_to_int64 (Fin ?q)) = sint MaxNodeScore - \<lfloor>?q\<rfloor>"
    using sint_diff64 [of MaxNodeScore "f_to_int64 (Fin ?q)"] by (simp only:)
  then show ?thesis unfolding e by (simp only: sint_MaxNodeScore)
qed

lemma NO_NormalizeScore_nth:
  assumes "\<forall>s \<in> set scores. small_cost s" and "i < length scores"
    and "mn = Min (sint ` set scores)" and "mx = Max (sint ` set scores)"
  shows "sint (NO_NormalizeScore scores ! i) = norm_cost mn mx (sint (scores ! i))"
proof -
  let ?s = "sint (scores ! i)"
  have ne: "scores \<noteq> []" using assms(2) by auto
  have mod: "\<forall>s \<in> set scores. moderate s" using assms(1) by (auto simp: small_cost_def moderate_def)
  have "sint MinInt64 \<le> - (2 ^ 62)" "2 ^ 62 \<le> sint MaxInt64" by (simp_all add: MaxInt64_def MinInt64_def)
  from scan_extrema [OF ne mod this] have ex: "sint (scan_max MinInt64 scores) = mx" "sint (scan_min MaxInt64 scores) = mn"
    using assms(3,4) by simp_all
  have "?s \<in> sint ` set scores" using assms(2) by simp
  then have b: "mn \<le> ?s" "?s \<le> mx" using assms(3,4) by simp_all
  have "mn \<in> sint ` set scores" "mx \<in> sint ` set scores" using ne assms(3,4) by simp_all
  then have m: "\<bar>mn\<bar> \<le> 2 ^ 40" "\<bar>mx\<bar> \<le> 2 ^ 40" using assms(1) by (auto simp: small_cost_def)
  have r: "sint (scan_max MinInt64 scores - scan_min MaxInt64 scores) = mx - mn"
    using m b ex by (subst sint_diff64) (simp_all add: in_int64_def)
  have d: "sint (scores ! i - scan_min MaxInt64 scores) = ?s - mn"
    using m b ex by (subst sint_diff64) (simp_all add: in_int64_def)
  have zero: "scan_min MaxInt64 scores = 0 \<longleftrightarrow> mn = 0" "scan_max MinInt64 scores = 0 \<longleftrightarrow> mx = 0"
    "scan_max MinInt64 scores = scan_min MaxInt64 scores \<longleftrightarrow> mn = mx"
    using ex by (metis sint_0 signed_word_eqI)+
  have "sint (MaxNodeScore - f_to_int64 (f_of_int binary64 0)) = 100"
    using f64_of_int [of 0] by (simp add: MaxNodeScore_def rat_trunc_def in_int64_def)
  then show ?thesis
    using assms(2) zero norm_word [of "?s - mn" "mx - mn"] b m
    by (auto simp: NO_NormalizeScore_def getMinMaxScores_def norm_cost_def r d Let_def)
qed

lemma norm_cost_antimono:
  assumes "mn \<le> s" "s \<le> t" "t \<le> mx" and "\<not> (mn = 0 \<and> mx = 0)"
  shows "norm_cost mn mx t \<le> norm_cost mn mx s"
proof (cases "mn = mx")
  case False
  then have "0 < rat_of_int (mx - mn)" using assms by simp
  then have "100 * rat_of_int (s - mn) / of_int (mx - mn) \<le> 100 * rat_of_int (t - mn) / of_int (mx - mn)"
    using assms(2) by (intro divide_right_mono) simp_all
  then have "round_to binary64 (100 * of_int (s - mn) / of_int (mx - mn)) \<le> round_to binary64 (100 * of_int (t - mn) / of_int (mx - mn))"
    by (rule round_to_mono) (simp add: binary64_def)
  then show ?thesis using assms(4) False by (simp add: norm_cost_def floor_mono)
qed (use assms in \<open>simp add: norm_cost_def\<close>)

lemma norm_cost_range:
  assumes "mn \<le> s" "s \<le> mx"
  shows "0 \<le> norm_cost mn mx s \<and> norm_cost mn mx s \<le> 100"
proof (cases "mn = mx")
  case True
  then show ?thesis using assms by (auto simp: norm_cost_def)
next
  case False
  then show ?thesis using floor_round_between [of "s - mn" "mx - mn"] assms by (auto simp: norm_cost_def)
qed

interpretation no_norm: score_normalizer NO_NormalizeScore "list_all small_cost"
proof
  show "length (NO_NormalizeScore ss) = length ss" for ss
    by (simp add: NO_NormalizeScore_def getMinMaxScores_def Let_def)
  show "0 \<le> sint s \<and> sint s \<le> 100" if ok: "list_all small_cost ss" and s: "s \<in> set (NO_NormalizeScore ss)" for ss s
  proof -
    from s obtain i where i: "i < length ss" "s = NO_NormalizeScore ss ! i"
      by (auto simp: in_set_conv_nth NO_NormalizeScore_def getMinMaxScores_def Let_def split: if_splits)
    have "Min (sint ` set ss) \<le> sint (ss ! i)" "sint (ss ! i) \<le> Max (sint ` set ss)" using i by simp_all
    with norm_cost_range NO_NormalizeScore_nth [OF _ i(1) refl refl] ok i show ?thesis by (simp add: list_all_iff)
  qed
qed

text \<open>
  Normalization turns costs into scores that favour cheap nodes: for costs up to \<open>2^40\<close> in size
  every score lies between 0 and 100, a cheaper node never scores less than a dearer one, and when the
  costs differ the cheapest node gets 100 and the dearest 0, float rounding included. Costs that are
  all zero stay zero.
\<close>

theorem NO_NormalizeScore_spec:
  assumes "\<forall>s \<in> set scores. small_cost s" and "i < length scores" and "j < length scores"
  shows "0 \<le> sint (NO_NormalizeScore scores ! i) \<and> sint (NO_NormalizeScore scores ! i) \<le> 100 \<and>
    (sint (scores ! i) \<le> sint (scores ! j) \<longrightarrow>
       sint (NO_NormalizeScore scores ! j) \<le> sint (NO_NormalizeScore scores ! i)) \<and>
    (Min (sint ` set scores) < Max (sint ` set scores) \<longrightarrow>
       (sint (scores ! i) = Min (sint ` set scores) \<longrightarrow> sint (NO_NormalizeScore scores ! i) = 100) \<and>
       (sint (scores ! i) = Max (sint ` set scores) \<longrightarrow> sint (NO_NormalizeScore scores ! i) = 0))"
proof -
  let ?mn = "Min (sint ` set scores)" and ?mx = "Max (sint ` set scores)"
  have b: "?mn \<le> sint (scores ! k)" "sint (scores ! k) \<le> ?mx" if "k < length scores" for k using that by simp_all
  note nth = NO_NormalizeScore_nth [OF assms(1) _ refl refl]
  have r100: "round_to binary64 100 = 100" using round_to_int64_exact [of 100] by simp
  show ?thesis
  proof (intro conjI impI)
    show "0 \<le> sint (NO_NormalizeScore scores ! i)" "sint (NO_NormalizeScore scores ! i) \<le> 100"
      using norm_cost_range [OF b [OF assms(2)]] nth [OF assms(2)] by simp_all
    show "sint (NO_NormalizeScore scores ! j) \<le> sint (NO_NormalizeScore scores ! i)"
      if "sint (scores ! i) \<le> sint (scores ! j)"
    proof (cases "?mn = 0 \<and> ?mx = 0")
      case True
      then have "sint (scores ! i) = 0" "sint (scores ! j) = 0" using b [OF assms(2)] b [OF assms(3)] by linarith+
      then show ?thesis using nth [OF assms(2)] nth [OF assms(3)] True by (simp add: norm_cost_def)
    next
      case False
      then show ?thesis
        using norm_cost_antimono [OF b(1) [OF assms(2)] that b(2) [OF assms(3)]] nth [OF assms(2)] nth [OF assms(3)] by simp
    qed
    show "sint (NO_NormalizeScore scores ! i) = 100" if "?mn < ?mx" "sint (scores ! i) = ?mn"
      using nth [OF assms(2)] that by (auto simp: norm_cost_def)
    show "sint (NO_NormalizeScore scores ! i) = 0" if "?mn < ?mx" "sint (scores ! i) = ?mx"
    proof -
      have "100 * rat_of_int (?mx - ?mn) / of_int (?mx - ?mn) = 100"
        using that(1) by (simp del: of_int_diff)
      then show ?thesis using nth [OF assms(2)] that r100 by (simp add: norm_cost_def del: of_int_diff)
    qed
  qed
qed

theorem NO_NormalizeScore_spec_witness:
  "sint (NO_NormalizeScore [3, 7, 5] ! 0) = 100 \<and> sint (NO_NormalizeScore [3, 7, 5] ! 1) = 0"
proof -
  have "\<forall>s \<in> set [3, 7, 5 :: int64]. small_cost s" by (simp add: small_cost_def)
  from NO_NormalizeScore_spec [OF this, of 0 0] NO_NormalizeScore_spec [OF this, of 1 0] show ?thesis by simp
qed

end
