(* ===== verification/ConfigTypes.thy ===== *)
theory ConfigTypes
  imports KubeApi GoFloat
begin

text \<open>
  The arguments of the plugins, \<open>apis/config\<close>: the internal types (\<open>types.go\<close>), which the plugins read,
  and the versioned types of \<open>v1/types.go\<close>, which a user writes. The struct types of \<open>v1beta3/types.go\<close>
  have the same fields as those of \<open>v1\<close> and are the same types here.

  A pointer that may be nil is an option. A slice or map that is only tested for its length is a list
  that is empty for nil. The enumerations are strings in Go; their datatypes have one more constructor
  for any other string. The embedded \<open>TypeMeta\<close> carries no configuration and is left out.
\<close>

section \<open>Shared types\<close>

record ResourceSpec =
  rs_Name :: string
  rs_Weight :: int64

record UserAddressSecretMap =
  NodeAddress :: string
  NodeSecret :: string

datatype ScoringStrategyType = MostAllocated | BalancedAllocation | LeastAllocated | LeastNUMANodes | OtherStrategy string

datatype ForeignPodsDetectMode =
  ForeignPodsDetectNone | ForeignPodsDetectAll | ForeignPodsDetectOnlyExclusiveResources | OtherForeignPodsDetect string

datatype CacheResyncMethod =
  CacheResyncAutodetect | CacheResyncAll | CacheResyncOnlyExclusiveResources | OtherCacheResync string

datatype CacheInformerMode = CacheInformerShared | CacheInformerDedicated | OtherCacheInformer string

definition mode_Least :: string where "mode_Least = ''Least''"
definition mode_Most :: string where "mode_Most = ''Most''"

definition KubernetesMetricsServer :: string where "KubernetesMetricsServer = ''KubernetesMetricsServer''"
definition Prometheus :: string where "Prometheus = ''Prometheus''"
definition SignalFx :: string where "SignalFx = ''SignalFx''"

lemmas config_names = mode_Least_def mode_Most_def KubernetesMetricsServer_def Prometheus_def SignalFx_def

section \<open>Internal types\<close>

record NeilatsArgs =
  PrometheusAddress :: string
  NetworkDevice :: "(string, string) gomap"
  StorageDevice :: "(string, string) gomap"
  EnableSLA :: bool
  KubeNodeAddressAndSecret :: "(string, UserAddressSecretMap) gomap"
  LstmAdfModuleAddress :: string

record CoschedulingArgs =
  csa_PermitWaitingTimeSeconds :: int64
  csa_PodGroupBackoffSeconds :: int64

record NodeResourcesAllocatableArgs =
  nra_Resources :: "ResourceSpec list"
  nra_Mode :: string

record MetricProviderSpec =
  mp_Type :: string
  mp_Address :: string
  mp_Token :: string
  mp_InsecureSkipVerify :: bool

record TrimaranSpec =
  ts_MetricProvider :: MetricProviderSpec
  ts_WatcherAddress :: string

record TargetLoadPackingArgs =
  tlp_TrimaranSpec :: TrimaranSpec
  tlp_DefaultRequests :: "ResourceList option"
  tlp_DefaultRequestsMultiplier :: string
  tlp_TargetUtilization :: int64

record LoadVariationRiskBalancingArgs =
  lvr_TrimaranSpec :: TrimaranSpec
  lvr_SafeVarianceMargin :: gofloat
  lvr_SafeVarianceSensitivity :: gofloat

record LowRiskOverCommitmentArgs =
  lro_TrimaranSpec :: TrimaranSpec
  lro_SmoothingWindowSize :: int64
  lro_RiskLimitWeights :: "(string, gofloat) gomap"

record ScoringStrategy =
  sst_Type :: ScoringStrategyType
  sst_Resources :: "ResourceSpec list"

record NodeResourceTopologyCache =
  nrc_ForeignPodsDetect :: "ForeignPodsDetectMode option"
  nrc_ResyncMethod :: "CacheResyncMethod option"
  nrc_InformerMode :: "CacheInformerMode option"

record NodeResourceTopologyMatchArgs =
  tma_ScoringStrategy :: ScoringStrategy
  tma_CacheResyncPeriodSeconds :: int64
  tma_DiscardReservedNodes :: bool
  tma_Cache :: "NodeResourceTopologyCache option"

record PreemptionTolerationArgs =
  MinCandidateNodesPercentage :: int32
  MinCandidateNodesAbsolute :: int32

record TopologicalSortArgs =
  tps_Namespaces :: "string list"

record NetworkOverheadArgs =
  noa_Namespaces :: "string list"
  noa_WeightsName :: string
  noa_NetworkTopologyName :: string

record SySchedArgs =
  sya_DefaultProfileNamespace :: string
  sya_DefaultProfileName :: string

section \<open>Versioned types\<close>

record CoschedulingArgs_v =
  vcs_PermitWaitingTimeSeconds :: "int64 option"
  vcs_PodGroupBackoffSeconds :: "int64 option"

record MetricProviderSpec_v =
  vmp_Type :: string
  vmp_Address :: "string option"
  vmp_Token :: "string option"
  vmp_InsecureSkipVerify :: "bool option"

record TrimaranSpec_v =
  vts_MetricProvider :: MetricProviderSpec_v
  vts_WatcherAddress :: "string option"

record TargetLoadPackingArgs_v =
  vtl_TrimaranSpec :: TrimaranSpec_v
  vtl_DefaultRequests :: "ResourceList option"
  vtl_DefaultRequestsMultiplier :: "string option"
  vtl_TargetUtilization :: "int64 option"

record LoadVariationRiskBalancingArgs_v =
  vlv_TrimaranSpec :: TrimaranSpec_v
  vlv_SafeVarianceMargin :: "gofloat option"
  vlv_SafeVarianceSensitivity :: "gofloat option"

record LowRiskOverCommitmentArgs_v =
  vlr_TrimaranSpec :: TrimaranSpec_v
  vlr_SmoothingWindowSize :: "int64 option"
  vlr_RiskLimitWeights :: "(string, gofloat) gomap"

record NodeResourceTopologyMatchArgs_v =
  vtm_ScoringStrategy :: "ScoringStrategy option"
  vtm_CacheResyncPeriodSeconds :: "int64 option"
  vtm_DiscardReservedNodes :: bool
  vtm_Cache :: "NodeResourceTopologyCache option"

record PreemptionTolerationArgs_v =
  vpt_MinCandidateNodesPercentage :: "int32 option"
  vpt_MinCandidateNodesAbsolute :: "int32 option"

record NetworkOverheadArgs_v =
  vno_Namespaces :: "string list"
  vno_WeightsName :: "string option"
  vno_NetworkTopologyName :: "string option"

record SySchedArgs_v =
  vsy_DefaultProfileNamespace :: "string option"
  vsy_DefaultProfileName :: "string option"

text \<open>The fields of these structs are the same in the versioned and the internal package.\<close>

type_synonym NeilatsArgs_v = NeilatsArgs
type_synonym NodeResourcesAllocatableArgs_v = NodeResourcesAllocatableArgs
type_synonym TopologicalSortArgs_v = TopologicalSortArgs

text \<open>An object of one of the registered types (\<open>addKnownTypes\<close>), versioned and internal.\<close>

datatype PluginArgs_v =
    VCoscheduling CoschedulingArgs_v
  | VNeilats NeilatsArgs_v
  | VNodeResourcesAllocatable NodeResourcesAllocatableArgs_v
  | VTargetLoadPacking TargetLoadPackingArgs_v
  | VLoadVariationRiskBalancing LoadVariationRiskBalancingArgs_v
  | VLowRiskOverCommitment LowRiskOverCommitmentArgs_v
  | VNodeResourceTopologyMatch NodeResourceTopologyMatchArgs_v
  | VPreemptionToleration PreemptionTolerationArgs_v
  | VTopologicalSort TopologicalSortArgs_v
  | VNetworkOverhead NetworkOverheadArgs_v
  | VSySched SySchedArgs_v

datatype PluginArgs =
    ICoscheduling CoschedulingArgs
  | INeilats NeilatsArgs
  | INodeResourcesAllocatable NodeResourcesAllocatableArgs
  | ITargetLoadPacking TargetLoadPackingArgs
  | ILoadVariationRiskBalancing LoadVariationRiskBalancingArgs
  | ILowRiskOverCommitment LowRiskOverCommitmentArgs
  | INodeResourceTopologyMatch NodeResourceTopologyMatchArgs
  | IPreemptionToleration PreemptionTolerationArgs
  | ITopologicalSort TopologicalSortArgs
  | INetworkOverhead NetworkOverheadArgs
  | ISySched SySchedArgs

text \<open>The conversions of pointers: \<open>Convert_Pointer_int64_To_int64\<close> and its like give the zero value for nil.\<close>

definition deref :: "'a \<Rightarrow> 'a option \<Rightarrow> 'a" where
  "deref z p = (case p of None \<Rightarrow> z | Some v \<Rightarrow> v)"

lemma deref_Some [simp]: "deref z (Some v) = v"
  by (simp add: deref_def)

section \<open>Complete arguments\<close>

text \<open>Arguments that leave nothing to default: every field is set, to a value that the defaults accept.\<close>

definition complete_trimaran :: "TrimaranSpec_v \<Rightarrow> bool" where
  "complete_trimaran t \<longleftrightarrow>
     (vts_WatcherAddress t = None \<longrightarrow> vmp_Type (vts_MetricProvider t) \<noteq> []) \<and>
     (vmp_Type (vts_MetricProvider t) = Prometheus \<longrightarrow> vmp_InsecureSkipVerify (vts_MetricProvider t) \<noteq> None)"

fun complete_args :: "PluginArgs_v \<Rightarrow> bool" where
  "complete_args (VCoscheduling a) \<longleftrightarrow> vcs_PermitWaitingTimeSeconds a \<noteq> None \<and> vcs_PodGroupBackoffSeconds a \<noteq> None"
| "complete_args (VNeilats a) \<longleftrightarrow> True"
| "complete_args (VNodeResourcesAllocatable a) \<longleftrightarrow> nra_Resources a \<noteq> [] \<and> nra_Mode a \<noteq> []"
| "complete_args (VTargetLoadPacking a) \<longleftrightarrow>
     complete_trimaran (vtl_TrimaranSpec a) \<and> vtl_DefaultRequests a \<noteq> None \<and> vtl_DefaultRequestsMultiplier a \<noteq> None \<and>
     (case vtl_TargetUtilization a of None \<Rightarrow> False | Some t \<Rightarrow> 0 < sint t)"
| "complete_args (VLoadVariationRiskBalancing a) \<longleftrightarrow>
     complete_trimaran (vlv_TrimaranSpec a) \<and>
     (case vlv_SafeVarianceMargin a of None \<Rightarrow> False | Some m \<Rightarrow> \<not> f_lt m (Fin 0)) \<and>
     (case vlv_SafeVarianceSensitivity a of None \<Rightarrow> False | Some s \<Rightarrow> \<not> f_lt s (Fin 0))"
| "complete_args (VLowRiskOverCommitment a) \<longleftrightarrow>
     complete_trimaran (vlr_TrimaranSpec a) \<and>
     (case vlr_SmoothingWindowSize a of None \<Rightarrow> False | Some w \<Rightarrow> 0 < sint w) \<and>
     vlr_RiskLimitWeights a \<noteq> [] \<and> list_all (\<lambda>(r, w). \<not> f_lt w (Fin 0) \<and> \<not> f_lt (Fin 1) w) (vlr_RiskLimitWeights a)"
| "complete_args (VNodeResourceTopologyMatch a) \<longleftrightarrow>
     (case vtm_ScoringStrategy a of
        None \<Rightarrow> False
      | Some s \<Rightarrow> sst_Resources s \<noteq> [] \<and> list_all (\<lambda>r. rs_Weight r \<noteq> 0) (sst_Resources s)) \<and>
     (case vtm_Cache a of
        None \<Rightarrow> False
      | Some c \<Rightarrow> nrc_ForeignPodsDetect c \<noteq> None \<and> nrc_ResyncMethod c \<noteq> None \<and> nrc_InformerMode c \<noteq> None)"
| "complete_args (VPreemptionToleration a) \<longleftrightarrow> vpt_MinCandidateNodesPercentage a \<noteq> None \<and> vpt_MinCandidateNodesAbsolute a \<noteq> None"
| "complete_args (VTopologicalSort a) \<longleftrightarrow> tps_Namespaces a \<noteq> []"
| "complete_args (VNetworkOverhead a) \<longleftrightarrow> vno_Namespaces a \<noteq> [] \<and> vno_WeightsName a \<noteq> None \<and> vno_NetworkTopologyName a \<noteq> None"
| "complete_args (VSySched a) \<longleftrightarrow> vsy_DefaultProfileNamespace a \<noteq> None \<and> vsy_DefaultProfileName a \<noteq> None"

section \<open>What a version promises\<close>

text \<open>
  A configuration version defaults the objects a user writes, converts them to the internal type and
  back. Loading is defaulting followed by conversion. The laws: defaulting makes an object complete and
  leaves a complete one alone, a complete object converts without a panic, no internal field is lost on
  the way out and back, and writing out what came from a complete object gives a complete object.
\<close>

locale config_version =
  fixes set_defaults :: "'v \<Rightarrow> 'v"
    and to_internal :: "'v \<Rightarrow> 'i option"
    and from_internal :: "'i \<Rightarrow> 'v"
    and is_complete :: "'v \<Rightarrow> bool"
  assumes defaults_complete: "is_complete (set_defaults v)"
    and complete_fixed: "is_complete v \<Longrightarrow> set_defaults v = v"
    and complete_converts: "is_complete v \<Longrightarrow> to_internal v \<noteq> None"
    and convert_back: "to_internal (from_internal i) = Some i"
    and saved_is_complete: "is_complete v \<Longrightarrow> to_internal v = Some i \<Longrightarrow> is_complete (from_internal i)"
begin

lemma defaults_idem: "set_defaults (set_defaults v) = set_defaults v"
  using defaults_complete complete_fixed by blast

lemma load_save_load:
  "\<exists>i. to_internal (set_defaults v) = Some i \<and> to_internal (set_defaults (from_internal i)) = Some i"
proof -
  obtain i where "to_internal (set_defaults v) = Some i"
    using complete_converts [OF defaults_complete] by auto
  moreover from this have "set_defaults (from_internal i) = from_internal i"
    using saved_is_complete [OF defaults_complete] complete_fixed by blast
  ultimately show ?thesis by (simp add: convert_back)
qed

lemma save_injective: "from_internal i = from_internal j \<Longrightarrow> i = j"
  by (metis convert_back option.inject)

end

end
