(* ===== verification/ConfigV1.thy ===== *)
theory ConfigV1
  imports ConfigTypes
begin

text \<open>
  Configuration version v1, \<open>apis/config/v1\<close>: the defaults (\<open>defaults.go\<close>, \<open>zz_generated.defaults.go\<close>)
  and the conversions to and from the internal types (\<open>conversion.go\<close>, \<open>zz_generated.conversion.go\<close>).
  An object is loaded by defaulting it and converting it.

  Results: the version keeps the contract \<open>config_version\<close>, and what loaded arguments satisfy.
\<close>

section \<open>Defaults\<close>

definition defaultPermitWaitingTimeSeconds :: int64 where "defaultPermitWaitingTimeSeconds = 60"
definition defaultPodGroupBackoffSeconds :: int64 where "defaultPodGroupBackoffSeconds = 0"
definition defaultNodeResourcesAllocatableMode :: string where "defaultNodeResourcesAllocatableMode = mode_Least"

definition defaultNodeResourcesAllocatableResourcesToWeightMap :: "ResourceSpec list" where
  "defaultNodeResourcesAllocatableResourcesToWeightMap =
     [\<lparr>rs_Name = ''cpu'', rs_Weight = push_bit 20 1\<rparr>, \<lparr>rs_Name = ''memory'', rs_Weight = 1\<rparr>]"

definition DefaultRequestsMilliCores :: int64 where "DefaultRequestsMilliCores = 1000"
definition DefaultRequestsMultiplier :: string where "DefaultRequestsMultiplier = ''1.5''"
definition DefaultTargetUtilizationPercent :: int64 where "DefaultTargetUtilizationPercent = 40"
definition DefaultSafeVarianceMargin :: gofloat where "DefaultSafeVarianceMargin = Fin 1"
definition DefaultSafeVarianceSensitivity :: gofloat where "DefaultSafeVarianceSensitivity = Fin 1"
definition DefaultSmoothingWindowSize :: int64 where "DefaultSmoothingWindowSize = 5"
definition DefaultRiskLimitWeight :: gofloat where "DefaultRiskLimitWeight = Fin (1 / 2)"

definition DefaultRiskLimitWeights :: "(string, gofloat) gomap" where
  "DefaultRiskLimitWeights = [(ResourceCPU, DefaultRiskLimitWeight), (ResourceMemory, DefaultRiskLimitWeight)]"

definition DefaultMetricProviderType :: string where "DefaultMetricProviderType = KubernetesMetricsServer"
definition DefaultInsecureSkipVerify :: bool where "DefaultInsecureSkipVerify = True"

definition defaultResourceSpec :: "ResourceSpec list" where
  "defaultResourceSpec = [\<lparr>rs_Name = ResourceCPU, rs_Weight = 1\<rparr>, \<lparr>rs_Name = ResourceMemory, rs_Weight = 1\<rparr>]"

definition defaultForeignPodsDetect :: ForeignPodsDetectMode where "defaultForeignPodsDetect = ForeignPodsDetectAll"
definition defaultResyncMethod :: CacheResyncMethod where "defaultResyncMethod = CacheResyncAutodetect"
definition defaultInformerMode :: CacheInformerMode where "defaultInformerMode = CacheInformerDedicated"
definition DefaultWeightsName :: string where "DefaultWeightsName = ''UserDefined''"
definition DefaultNetworkTopologyName :: string where "DefaultNetworkTopologyName = ''nt-default''"
definition DefaultSySchedProfileNamespace :: string where "DefaultSySchedProfileNamespace = ''default''"
definition DefaultSySchedProfileName :: string where "DefaultSySchedProfileName = ''all-syscalls''"

lemmas default_constants =
  defaultPermitWaitingTimeSeconds_def defaultPodGroupBackoffSeconds_def defaultNodeResourcesAllocatableMode_def
  defaultNodeResourcesAllocatableResourcesToWeightMap_def DefaultRequestsMilliCores_def DefaultRequestsMultiplier_def
  DefaultTargetUtilizationPercent_def DefaultSafeVarianceMargin_def DefaultSafeVarianceSensitivity_def
  DefaultSmoothingWindowSize_def DefaultRiskLimitWeight_def DefaultRiskLimitWeights_def DefaultMetricProviderType_def
  DefaultInsecureSkipVerify_def defaultResourceSpec_def defaultForeignPodsDetect_def defaultResyncMethod_def
  defaultInformerMode_def DefaultWeightsName_def DefaultNetworkTopologyName_def DefaultSySchedProfileNamespace_def
  DefaultSySchedProfileName_def

definition SetDefaults_CoschedulingArgs :: "CoschedulingArgs_v \<Rightarrow> CoschedulingArgs_v" where
  "SetDefaults_CoschedulingArgs obj =
     (let obj = (if vcs_PermitWaitingTimeSeconds obj = None
                 then obj\<lparr>vcs_PermitWaitingTimeSeconds := Some defaultPermitWaitingTimeSeconds\<rparr> else obj)
      in if vcs_PodGroupBackoffSeconds obj = None
         then obj\<lparr>vcs_PodGroupBackoffSeconds := Some defaultPodGroupBackoffSeconds\<rparr> else obj)"

definition SetDefaults_NodeResourcesAllocatableArgs :: "NodeResourcesAllocatableArgs_v \<Rightarrow> NodeResourcesAllocatableArgs_v" where
  "SetDefaults_NodeResourcesAllocatableArgs obj =
     (let obj = (if length (nra_Resources obj) = 0
                 then obj\<lparr>nra_Resources := defaultNodeResourcesAllocatableResourcesToWeightMap\<rparr> else obj)
      in if nra_Mode obj = [] then obj\<lparr>nra_Mode := defaultNodeResourcesAllocatableMode\<rparr> else obj)"

definition SetDefaultTrimaranSpec :: "TrimaranSpec_v \<Rightarrow> TrimaranSpec_v" where
  "SetDefaultTrimaranSpec args =
     (let args = (if vts_WatcherAddress args = None \<and> vmp_Type (vts_MetricProvider args) = []
                  then args\<lparr>vts_MetricProvider := (vts_MetricProvider args)\<lparr>vmp_Type := DefaultMetricProviderType\<rparr>\<rparr> else args)
      in if vmp_Type (vts_MetricProvider args) = Prometheus \<and> vmp_InsecureSkipVerify (vts_MetricProvider args) = None
         then args\<lparr>vts_MetricProvider := (vts_MetricProvider args)\<lparr>vmp_InsecureSkipVerify := Some DefaultInsecureSkipVerify\<rparr>\<rparr> else args)"

text \<open>The default quantity is the text of the default millicores with the suffix \<open>m\<close>.\<close>

definition SetDefaults_TargetLoadPackingArgs :: "TargetLoadPackingArgs_v \<Rightarrow> TargetLoadPackingArgs_v" where
  "SetDefaults_TargetLoadPackingArgs args =
     (let args = args\<lparr>vtl_TrimaranSpec := SetDefaultTrimaranSpec (vtl_TrimaranSpec args)\<rparr>;
          args = (if vtl_DefaultRequests args = None
                  then args\<lparr>vtl_DefaultRequests := Some [(ResourceCPU, NewMilliQuantity DefaultRequestsMilliCores)]\<rparr> else args);
          args = (if vtl_DefaultRequestsMultiplier args = None
                  then args\<lparr>vtl_DefaultRequestsMultiplier := Some DefaultRequestsMultiplier\<rparr> else args)
      in if (case vtl_TargetUtilization args of None \<Rightarrow> True | Some t \<Rightarrow> sle t 0)
         then args\<lparr>vtl_TargetUtilization := Some DefaultTargetUtilizationPercent\<rparr> else args)"

definition SetDefaults_LoadVariationRiskBalancingArgs :: "LoadVariationRiskBalancingArgs_v \<Rightarrow> LoadVariationRiskBalancingArgs_v" where
  "SetDefaults_LoadVariationRiskBalancingArgs args =
     (let args = args\<lparr>vlv_TrimaranSpec := SetDefaultTrimaranSpec (vlv_TrimaranSpec args)\<rparr>;
          args = (if (case vlv_SafeVarianceMargin args of None \<Rightarrow> True | Some m \<Rightarrow> f_lt m (Fin 0))
                  then args\<lparr>vlv_SafeVarianceMargin := Some DefaultSafeVarianceMargin\<rparr> else args)
      in if (case vlv_SafeVarianceSensitivity args of None \<Rightarrow> True | Some s \<Rightarrow> f_lt s (Fin 0))
         then args\<lparr>vlv_SafeVarianceSensitivity := Some DefaultSafeVarianceSensitivity\<rparr> else args)"

text \<open>The loop over the weights: what is outside the unit interval is replaced, a NaN is not.\<close>

definition valid_weight :: "gofloat \<Rightarrow> gofloat" where
  "valid_weight w = (if f_lt w (Fin 0) \<or> f_lt (Fin 1) w then DefaultRiskLimitWeight else w)"

definition SetDefaults_LowRiskOverCommitmentArgs :: "LowRiskOverCommitmentArgs_v \<Rightarrow> LowRiskOverCommitmentArgs_v" where
  "SetDefaults_LowRiskOverCommitmentArgs args =
     (let args = args\<lparr>vlr_TrimaranSpec := SetDefaultTrimaranSpec (vlr_TrimaranSpec args)\<rparr>;
          args = (if (case vlr_SmoothingWindowSize args of None \<Rightarrow> True | Some w \<Rightarrow> sle w 0)
                  then args\<lparr>vlr_SmoothingWindowSize := Some DefaultSmoothingWindowSize\<rparr> else args)
      in if length (vlr_RiskLimitWeights args) = 0 then args\<lparr>vlr_RiskLimitWeights := DefaultRiskLimitWeights\<rparr>
         else args\<lparr>vlr_RiskLimitWeights :=
                map (map_prod id valid_weight) (vlr_RiskLimitWeights args)\<rparr>)"

definition SetDefaults_NodeResourceTopologyMatchArgs :: "NodeResourceTopologyMatchArgs_v \<Rightarrow> NodeResourceTopologyMatchArgs_v" where
  "SetDefaults_NodeResourceTopologyMatchArgs obj =
     (let strategy = (case vtm_ScoringStrategy obj of None \<Rightarrow> \<lparr>sst_Type = LeastAllocated, sst_Resources = defaultResourceSpec\<rparr> | Some s \<Rightarrow> s);
          strategy = (if length (sst_Resources strategy) = 0
                      then strategy\<lparr>sst_Resources := sst_Resources strategy @ defaultResourceSpec\<rparr> else strategy);
          strategy = strategy\<lparr>sst_Resources := map (\<lambda>r. if rs_Weight r = 0 then r\<lparr>rs_Weight := 1\<rparr> else r) (sst_Resources strategy)\<rparr>;
          cache = (case vtm_Cache obj of None \<Rightarrow> \<lparr>nrc_ForeignPodsDetect = None, nrc_ResyncMethod = None, nrc_InformerMode = None\<rparr> | Some c \<Rightarrow> c);
          cache = (if nrc_ForeignPodsDetect cache = None then cache\<lparr>nrc_ForeignPodsDetect := Some defaultForeignPodsDetect\<rparr> else cache);
          cache = (if nrc_ResyncMethod cache = None then cache\<lparr>nrc_ResyncMethod := Some defaultResyncMethod\<rparr> else cache);
          cache = (if nrc_InformerMode cache = None then cache\<lparr>nrc_InformerMode := Some defaultInformerMode\<rparr> else cache)
      in obj\<lparr>vtm_ScoringStrategy := Some strategy, vtm_Cache := Some cache\<rparr>)"

text \<open>The framework's \<open>SetDefaults_DefaultPreemptionArgs\<close>, which the plugin's function calls.\<close>

definition SetDefaults_DefaultPreemptionArgs :: "PreemptionTolerationArgs_v \<Rightarrow> PreemptionTolerationArgs_v" where
  "SetDefaults_DefaultPreemptionArgs obj =
     (let obj = (if vpt_MinCandidateNodesPercentage obj = None then obj\<lparr>vpt_MinCandidateNodesPercentage := Some 10\<rparr> else obj)
      in if vpt_MinCandidateNodesAbsolute obj = None then obj\<lparr>vpt_MinCandidateNodesAbsolute := Some 100\<rparr> else obj)"

definition SetDefaults_PreemptionTolerationArgs :: "PreemptionTolerationArgs_v \<Rightarrow> PreemptionTolerationArgs_v" where
  "SetDefaults_PreemptionTolerationArgs obj = SetDefaults_DefaultPreemptionArgs obj"

definition SetDefaults_TopologicalSortArgs :: "TopologicalSortArgs_v \<Rightarrow> TopologicalSortArgs_v" where
  "SetDefaults_TopologicalSortArgs obj =
     (if length (tps_Namespaces obj) = 0 then obj\<lparr>tps_Namespaces := [''default'']\<rparr> else obj)"

definition SetDefaults_NetworkOverheadArgs :: "NetworkOverheadArgs_v \<Rightarrow> NetworkOverheadArgs_v" where
  "SetDefaults_NetworkOverheadArgs obj =
     (let obj = (if length (vno_Namespaces obj) = 0 then obj\<lparr>vno_Namespaces := [''default'']\<rparr> else obj);
          obj = (if vno_WeightsName obj = None then obj\<lparr>vno_WeightsName := Some DefaultWeightsName\<rparr> else obj)
      in if vno_NetworkTopologyName obj = None
         then obj\<lparr>vno_NetworkTopologyName := Some DefaultNetworkTopologyName\<rparr> else obj)"

definition SetDefaults_SySchedArgs :: "SySchedArgs_v \<Rightarrow> SySchedArgs_v" where
  "SetDefaults_SySchedArgs obj =
     (let obj = (if vsy_DefaultProfileNamespace obj = None
                 then obj\<lparr>vsy_DefaultProfileNamespace := Some DefaultSySchedProfileNamespace\<rparr> else obj)
      in if vsy_DefaultProfileName obj = None
         then obj\<lparr>vsy_DefaultProfileName := Some DefaultSySchedProfileName\<rparr> else obj)"

lemmas SetDefaults_defs =
  SetDefaults_CoschedulingArgs_def SetDefaults_NodeResourcesAllocatableArgs_def SetDefaultTrimaranSpec_def
  SetDefaults_TargetLoadPackingArgs_def SetDefaults_LoadVariationRiskBalancingArgs_def
  SetDefaults_LowRiskOverCommitmentArgs_def SetDefaults_NodeResourceTopologyMatchArgs_def
  SetDefaults_DefaultPreemptionArgs_def SetDefaults_PreemptionTolerationArgs_def SetDefaults_TopologicalSortArgs_def
  SetDefaults_NetworkOverheadArgs_def SetDefaults_SySchedArgs_def

text \<open>The defaulting functions that are registered; there is none for the arguments of the neilats plugin.\<close>

fun RegisterDefaults :: "PluginArgs_v \<Rightarrow> PluginArgs_v" where
  "RegisterDefaults (VCoscheduling a) = VCoscheduling (SetDefaults_CoschedulingArgs a)"
| "RegisterDefaults (VLoadVariationRiskBalancing a) = VLoadVariationRiskBalancing (SetDefaults_LoadVariationRiskBalancingArgs a)"
| "RegisterDefaults (VLowRiskOverCommitment a) = VLowRiskOverCommitment (SetDefaults_LowRiskOverCommitmentArgs a)"
| "RegisterDefaults (VNetworkOverhead a) = VNetworkOverhead (SetDefaults_NetworkOverheadArgs a)"
| "RegisterDefaults (VNodeResourceTopologyMatch a) = VNodeResourceTopologyMatch (SetDefaults_NodeResourceTopologyMatchArgs a)"
| "RegisterDefaults (VNodeResourcesAllocatable a) = VNodeResourcesAllocatable (SetDefaults_NodeResourcesAllocatableArgs a)"
| "RegisterDefaults (VPreemptionToleration a) = VPreemptionToleration (SetDefaults_PreemptionTolerationArgs a)"
| "RegisterDefaults (VSySched a) = VSySched (SetDefaults_SySchedArgs a)"
| "RegisterDefaults (VTargetLoadPacking a) = VTargetLoadPacking (SetDefaults_TargetLoadPackingArgs a)"
| "RegisterDefaults (VTopologicalSort a) = VTopologicalSort (SetDefaults_TopologicalSortArgs a)"
| "RegisterDefaults (VNeilats a) = VNeilats a"

section \<open>Conversions\<close>

definition Convert_v1_CoschedulingArgs_To_config_CoschedulingArgs :: "CoschedulingArgs_v \<Rightarrow> CoschedulingArgs" where
  "Convert_v1_CoschedulingArgs_To_config_CoschedulingArgs inp =
     \<lparr>csa_PermitWaitingTimeSeconds = deref 0 (vcs_PermitWaitingTimeSeconds inp),
      csa_PodGroupBackoffSeconds = deref 0 (vcs_PodGroupBackoffSeconds inp)\<rparr>"

definition Convert_config_CoschedulingArgs_To_v1_CoschedulingArgs :: "CoschedulingArgs \<Rightarrow> CoschedulingArgs_v" where
  "Convert_config_CoschedulingArgs_To_v1_CoschedulingArgs inp =
     \<lparr>vcs_PermitWaitingTimeSeconds = Some (csa_PermitWaitingTimeSeconds inp),
      vcs_PodGroupBackoffSeconds = Some (csa_PodGroupBackoffSeconds inp)\<rparr>"

definition Convert_v1_MetricProviderSpec_To_config_MetricProviderSpec :: "MetricProviderSpec_v \<Rightarrow> MetricProviderSpec" where
  "Convert_v1_MetricProviderSpec_To_config_MetricProviderSpec inp =
     \<lparr>mp_Type = vmp_Type inp, mp_Address = deref [] (vmp_Address inp), mp_Token = deref [] (vmp_Token inp),
      mp_InsecureSkipVerify = deref False (vmp_InsecureSkipVerify inp)\<rparr>"

definition Convert_config_MetricProviderSpec_To_v1_MetricProviderSpec :: "MetricProviderSpec \<Rightarrow> MetricProviderSpec_v" where
  "Convert_config_MetricProviderSpec_To_v1_MetricProviderSpec inp =
     \<lparr>vmp_Type = mp_Type inp, vmp_Address = Some (mp_Address inp), vmp_Token = Some (mp_Token inp),
      vmp_InsecureSkipVerify = Some (mp_InsecureSkipVerify inp)\<rparr>"

definition Convert_v1_TrimaranSpec_To_config_TrimaranSpec :: "TrimaranSpec_v \<Rightarrow> TrimaranSpec" where
  "Convert_v1_TrimaranSpec_To_config_TrimaranSpec inp =
     \<lparr>ts_MetricProvider = Convert_v1_MetricProviderSpec_To_config_MetricProviderSpec (vts_MetricProvider inp),
      ts_WatcherAddress = deref [] (vts_WatcherAddress inp)\<rparr>"

definition Convert_config_TrimaranSpec_To_v1_TrimaranSpec :: "TrimaranSpec \<Rightarrow> TrimaranSpec_v" where
  "Convert_config_TrimaranSpec_To_v1_TrimaranSpec inp =
     \<lparr>vts_MetricProvider = Convert_config_MetricProviderSpec_To_v1_MetricProviderSpec (ts_MetricProvider inp),
      vts_WatcherAddress = Some (ts_WatcherAddress inp)\<rparr>"

definition Convert_v1_LoadVariationRiskBalancingArgs_To_config_LoadVariationRiskBalancingArgs ::
  "LoadVariationRiskBalancingArgs_v \<Rightarrow> LoadVariationRiskBalancingArgs" where
  "Convert_v1_LoadVariationRiskBalancingArgs_To_config_LoadVariationRiskBalancingArgs inp =
     \<lparr>lvr_TrimaranSpec = Convert_v1_TrimaranSpec_To_config_TrimaranSpec (vlv_TrimaranSpec inp),
      lvr_SafeVarianceMargin = deref (Fin 0) (vlv_SafeVarianceMargin inp),
      lvr_SafeVarianceSensitivity = deref (Fin 0) (vlv_SafeVarianceSensitivity inp)\<rparr>"

definition Convert_config_LoadVariationRiskBalancingArgs_To_v1_LoadVariationRiskBalancingArgs ::
  "LoadVariationRiskBalancingArgs \<Rightarrow> LoadVariationRiskBalancingArgs_v" where
  "Convert_config_LoadVariationRiskBalancingArgs_To_v1_LoadVariationRiskBalancingArgs inp =
     \<lparr>vlv_TrimaranSpec = Convert_config_TrimaranSpec_To_v1_TrimaranSpec (lvr_TrimaranSpec inp),
      vlv_SafeVarianceMargin = Some (lvr_SafeVarianceMargin inp),
      vlv_SafeVarianceSensitivity = Some (lvr_SafeVarianceSensitivity inp)\<rparr>"

definition Convert_v1_LowRiskOverCommitmentArgs_To_config_LowRiskOverCommitmentArgs ::
  "LowRiskOverCommitmentArgs_v \<Rightarrow> LowRiskOverCommitmentArgs" where
  "Convert_v1_LowRiskOverCommitmentArgs_To_config_LowRiskOverCommitmentArgs inp =
     \<lparr>lro_TrimaranSpec = Convert_v1_TrimaranSpec_To_config_TrimaranSpec (vlr_TrimaranSpec inp),
      lro_SmoothingWindowSize = deref 0 (vlr_SmoothingWindowSize inp),
      lro_RiskLimitWeights = vlr_RiskLimitWeights inp\<rparr>"

definition Convert_config_LowRiskOverCommitmentArgs_To_v1_LowRiskOverCommitmentArgs ::
  "LowRiskOverCommitmentArgs \<Rightarrow> LowRiskOverCommitmentArgs_v" where
  "Convert_config_LowRiskOverCommitmentArgs_To_v1_LowRiskOverCommitmentArgs inp =
     \<lparr>vlr_TrimaranSpec = Convert_config_TrimaranSpec_To_v1_TrimaranSpec (lro_TrimaranSpec inp),
      vlr_SmoothingWindowSize = Some (lro_SmoothingWindowSize inp),
      vlr_RiskLimitWeights = lro_RiskLimitWeights inp\<rparr>"

definition Convert_v1_NeilatsRefactorSchedulerArgs_To_config_NeilatsRefactorSchedulerArgs :: "NeilatsArgs_v \<Rightarrow> NeilatsArgs" where
  "Convert_v1_NeilatsRefactorSchedulerArgs_To_config_NeilatsRefactorSchedulerArgs inp =
     \<lparr>PrometheusAddress = PrometheusAddress inp, NetworkDevice = NetworkDevice inp, StorageDevice = StorageDevice inp,
      EnableSLA = EnableSLA inp, KubeNodeAddressAndSecret = KubeNodeAddressAndSecret inp,
      LstmAdfModuleAddress = LstmAdfModuleAddress inp\<rparr>"

definition Convert_config_NeilatsRefactorSchedulerArgs_To_v1_NeilatsRefactorSchedulerArgs :: "NeilatsArgs \<Rightarrow> NeilatsArgs_v" where
  "Convert_config_NeilatsRefactorSchedulerArgs_To_v1_NeilatsRefactorSchedulerArgs inp =
     \<lparr>PrometheusAddress = PrometheusAddress inp, NetworkDevice = NetworkDevice inp, StorageDevice = StorageDevice inp,
      EnableSLA = EnableSLA inp, KubeNodeAddressAndSecret = KubeNodeAddressAndSecret inp,
      LstmAdfModuleAddress = LstmAdfModuleAddress inp\<rparr>"

definition Convert_v1_NetworkOverheadArgs_To_config_NetworkOverheadArgs :: "NetworkOverheadArgs_v \<Rightarrow> NetworkOverheadArgs" where
  "Convert_v1_NetworkOverheadArgs_To_config_NetworkOverheadArgs inp =
     \<lparr>noa_Namespaces = vno_Namespaces inp, noa_WeightsName = deref [] (vno_WeightsName inp),
      noa_NetworkTopologyName = deref [] (vno_NetworkTopologyName inp)\<rparr>"

definition Convert_config_NetworkOverheadArgs_To_v1_NetworkOverheadArgs :: "NetworkOverheadArgs \<Rightarrow> NetworkOverheadArgs_v" where
  "Convert_config_NetworkOverheadArgs_To_v1_NetworkOverheadArgs inp =
     \<lparr>vno_Namespaces = noa_Namespaces inp, vno_WeightsName = Some (noa_WeightsName inp),
      vno_NetworkTopologyName = Some (noa_NetworkTopologyName inp)\<rparr>"

text \<open>Reading the strategy through a nil pointer panics.\<close>

definition Convert_v1_NodeResourceTopologyMatchArgs_To_config_NodeResourceTopologyMatchArgs ::
  "NodeResourceTopologyMatchArgs_v \<Rightarrow> NodeResourceTopologyMatchArgs option" where
  "Convert_v1_NodeResourceTopologyMatchArgs_To_config_NodeResourceTopologyMatchArgs inp =
     (case vtm_ScoringStrategy inp of
        None \<Rightarrow> None
      | Some strategy \<Rightarrow>
          Some \<lparr>tma_ScoringStrategy = strategy,
                tma_CacheResyncPeriodSeconds = deref 0 (vtm_CacheResyncPeriodSeconds inp),
                tma_DiscardReservedNodes = vtm_DiscardReservedNodes inp, tma_Cache = vtm_Cache inp\<rparr>)"

definition Convert_config_NodeResourceTopologyMatchArgs_To_v1_NodeResourceTopologyMatchArgs ::
  "NodeResourceTopologyMatchArgs \<Rightarrow> NodeResourceTopologyMatchArgs_v" where
  "Convert_config_NodeResourceTopologyMatchArgs_To_v1_NodeResourceTopologyMatchArgs inp =
     \<lparr>vtm_ScoringStrategy = Some (tma_ScoringStrategy inp),
      vtm_CacheResyncPeriodSeconds = Some (tma_CacheResyncPeriodSeconds inp),
      vtm_DiscardReservedNodes = tma_DiscardReservedNodes inp, vtm_Cache = tma_Cache inp\<rparr>"

definition Convert_v1_NodeResourcesAllocatableArgs_To_config_NodeResourcesAllocatableArgs ::
  "NodeResourcesAllocatableArgs_v \<Rightarrow> NodeResourcesAllocatableArgs" where
  "Convert_v1_NodeResourcesAllocatableArgs_To_config_NodeResourcesAllocatableArgs inp =
     \<lparr>nra_Resources = nra_Resources inp, nra_Mode = nra_Mode inp\<rparr>"

definition Convert_config_NodeResourcesAllocatableArgs_To_v1_NodeResourcesAllocatableArgs ::
  "NodeResourcesAllocatableArgs \<Rightarrow> NodeResourcesAllocatableArgs_v" where
  "Convert_config_NodeResourcesAllocatableArgs_To_v1_NodeResourcesAllocatableArgs inp =
     \<lparr>nra_Resources = nra_Resources inp, nra_Mode = nra_Mode inp\<rparr>"

definition Convert_v1_PreemptionTolerationArgs_To_config_PreemptionTolerationArgs ::
  "PreemptionTolerationArgs_v \<Rightarrow> PreemptionTolerationArgs" where
  "Convert_v1_PreemptionTolerationArgs_To_config_PreemptionTolerationArgs inp =
     \<lparr>MinCandidateNodesPercentage = deref 0 (vpt_MinCandidateNodesPercentage inp),
      MinCandidateNodesAbsolute = deref 0 (vpt_MinCandidateNodesAbsolute inp)\<rparr>"

definition Convert_config_PreemptionTolerationArgs_To_v1_PreemptionTolerationArgs ::
  "PreemptionTolerationArgs \<Rightarrow> PreemptionTolerationArgs_v" where
  "Convert_config_PreemptionTolerationArgs_To_v1_PreemptionTolerationArgs inp =
     \<lparr>vpt_MinCandidateNodesPercentage = Some (MinCandidateNodesPercentage inp),
      vpt_MinCandidateNodesAbsolute = Some (MinCandidateNodesAbsolute inp)\<rparr>"

definition Convert_v1_SySchedArgs_To_config_SySchedArgs :: "SySchedArgs_v \<Rightarrow> SySchedArgs" where
  "Convert_v1_SySchedArgs_To_config_SySchedArgs inp =
     \<lparr>sya_DefaultProfileNamespace = deref [] (vsy_DefaultProfileNamespace inp),
      sya_DefaultProfileName = deref [] (vsy_DefaultProfileName inp)\<rparr>"

definition Convert_config_SySchedArgs_To_v1_SySchedArgs :: "SySchedArgs \<Rightarrow> SySchedArgs_v" where
  "Convert_config_SySchedArgs_To_v1_SySchedArgs inp =
     \<lparr>vsy_DefaultProfileNamespace = Some (sya_DefaultProfileNamespace inp),
      vsy_DefaultProfileName = Some (sya_DefaultProfileName inp)\<rparr>"

definition Convert_v1_TargetLoadPackingArgs_To_config_TargetLoadPackingArgs ::
  "TargetLoadPackingArgs_v \<Rightarrow> TargetLoadPackingArgs" where
  "Convert_v1_TargetLoadPackingArgs_To_config_TargetLoadPackingArgs inp =
     \<lparr>tlp_TrimaranSpec = Convert_v1_TrimaranSpec_To_config_TrimaranSpec (vtl_TrimaranSpec inp),
      tlp_DefaultRequests = vtl_DefaultRequests inp,
      tlp_DefaultRequestsMultiplier = deref [] (vtl_DefaultRequestsMultiplier inp),
      tlp_TargetUtilization = deref 0 (vtl_TargetUtilization inp)\<rparr>"

definition Convert_config_TargetLoadPackingArgs_To_v1_TargetLoadPackingArgs ::
  "TargetLoadPackingArgs \<Rightarrow> TargetLoadPackingArgs_v" where
  "Convert_config_TargetLoadPackingArgs_To_v1_TargetLoadPackingArgs inp =
     \<lparr>vtl_TrimaranSpec = Convert_config_TrimaranSpec_To_v1_TrimaranSpec (tlp_TrimaranSpec inp),
      vtl_DefaultRequests = tlp_DefaultRequests inp,
      vtl_DefaultRequestsMultiplier = Some (tlp_DefaultRequestsMultiplier inp),
      vtl_TargetUtilization = Some (tlp_TargetUtilization inp)\<rparr>"

definition Convert_v1_TopologicalSortArgs_To_config_TopologicalSortArgs :: "TopologicalSortArgs_v \<Rightarrow> TopologicalSortArgs" where
  "Convert_v1_TopologicalSortArgs_To_config_TopologicalSortArgs inp = \<lparr>tps_Namespaces = tps_Namespaces inp\<rparr>"

definition Convert_config_TopologicalSortArgs_To_v1_TopologicalSortArgs :: "TopologicalSortArgs \<Rightarrow> TopologicalSortArgs_v" where
  "Convert_config_TopologicalSortArgs_To_v1_TopologicalSortArgs inp = \<lparr>tps_Namespaces = tps_Namespaces inp\<rparr>"

lemmas Convert_defs =
  Convert_v1_CoschedulingArgs_To_config_CoschedulingArgs_def Convert_config_CoschedulingArgs_To_v1_CoschedulingArgs_def
  Convert_v1_MetricProviderSpec_To_config_MetricProviderSpec_def Convert_config_MetricProviderSpec_To_v1_MetricProviderSpec_def
  Convert_v1_TrimaranSpec_To_config_TrimaranSpec_def Convert_config_TrimaranSpec_To_v1_TrimaranSpec_def
  Convert_v1_LoadVariationRiskBalancingArgs_To_config_LoadVariationRiskBalancingArgs_def
  Convert_config_LoadVariationRiskBalancingArgs_To_v1_LoadVariationRiskBalancingArgs_def
  Convert_v1_LowRiskOverCommitmentArgs_To_config_LowRiskOverCommitmentArgs_def
  Convert_config_LowRiskOverCommitmentArgs_To_v1_LowRiskOverCommitmentArgs_def
  Convert_v1_NeilatsRefactorSchedulerArgs_To_config_NeilatsRefactorSchedulerArgs_def
  Convert_config_NeilatsRefactorSchedulerArgs_To_v1_NeilatsRefactorSchedulerArgs_def
  Convert_v1_NetworkOverheadArgs_To_config_NetworkOverheadArgs_def Convert_config_NetworkOverheadArgs_To_v1_NetworkOverheadArgs_def
  Convert_v1_NodeResourceTopologyMatchArgs_To_config_NodeResourceTopologyMatchArgs_def
  Convert_config_NodeResourceTopologyMatchArgs_To_v1_NodeResourceTopologyMatchArgs_def
  Convert_v1_NodeResourcesAllocatableArgs_To_config_NodeResourcesAllocatableArgs_def
  Convert_config_NodeResourcesAllocatableArgs_To_v1_NodeResourcesAllocatableArgs_def
  Convert_v1_PreemptionTolerationArgs_To_config_PreemptionTolerationArgs_def
  Convert_config_PreemptionTolerationArgs_To_v1_PreemptionTolerationArgs_def
  Convert_v1_SySchedArgs_To_config_SySchedArgs_def Convert_config_SySchedArgs_To_v1_SySchedArgs_def
  Convert_v1_TargetLoadPackingArgs_To_config_TargetLoadPackingArgs_def
  Convert_config_TargetLoadPackingArgs_To_v1_TargetLoadPackingArgs_def
  Convert_v1_TopologicalSortArgs_To_config_TopologicalSortArgs_def
  Convert_config_TopologicalSortArgs_To_v1_TopologicalSortArgs_def

text \<open>The registered conversions, by the type of the object.\<close>

fun Convert_v1_To_config :: "PluginArgs_v \<Rightarrow> PluginArgs option" where
  "Convert_v1_To_config (VCoscheduling a) = Some (ICoscheduling (Convert_v1_CoschedulingArgs_To_config_CoschedulingArgs a))"
| "Convert_v1_To_config (VLoadVariationRiskBalancing a) =
     Some (ILoadVariationRiskBalancing (Convert_v1_LoadVariationRiskBalancingArgs_To_config_LoadVariationRiskBalancingArgs a))"
| "Convert_v1_To_config (VLowRiskOverCommitment a) =
     Some (ILowRiskOverCommitment (Convert_v1_LowRiskOverCommitmentArgs_To_config_LowRiskOverCommitmentArgs a))"
| "Convert_v1_To_config (VNeilats a) = Some (INeilats (Convert_v1_NeilatsRefactorSchedulerArgs_To_config_NeilatsRefactorSchedulerArgs a))"
| "Convert_v1_To_config (VNetworkOverhead a) = Some (INetworkOverhead (Convert_v1_NetworkOverheadArgs_To_config_NetworkOverheadArgs a))"
| "Convert_v1_To_config (VNodeResourcesAllocatable a) =
     Some (INodeResourcesAllocatable (Convert_v1_NodeResourcesAllocatableArgs_To_config_NodeResourcesAllocatableArgs a))"
| "Convert_v1_To_config (VPreemptionToleration a) =
     Some (IPreemptionToleration (Convert_v1_PreemptionTolerationArgs_To_config_PreemptionTolerationArgs a))"
| "Convert_v1_To_config (VSySched a) = Some (ISySched (Convert_v1_SySchedArgs_To_config_SySchedArgs a))"
| "Convert_v1_To_config (VTargetLoadPacking a) =
     Some (ITargetLoadPacking (Convert_v1_TargetLoadPackingArgs_To_config_TargetLoadPackingArgs a))"
| "Convert_v1_To_config (VTopologicalSort a) = Some (ITopologicalSort (Convert_v1_TopologicalSortArgs_To_config_TopologicalSortArgs a))"
| "Convert_v1_To_config (VNodeResourceTopologyMatch a) =
     map_option INodeResourceTopologyMatch (Convert_v1_NodeResourceTopologyMatchArgs_To_config_NodeResourceTopologyMatchArgs a)"

fun Convert_config_To_v1 :: "PluginArgs \<Rightarrow> PluginArgs_v" where
  "Convert_config_To_v1 (ICoscheduling a) = VCoscheduling (Convert_config_CoschedulingArgs_To_v1_CoschedulingArgs a)"
| "Convert_config_To_v1 (ILoadVariationRiskBalancing a) =
     VLoadVariationRiskBalancing (Convert_config_LoadVariationRiskBalancingArgs_To_v1_LoadVariationRiskBalancingArgs a)"
| "Convert_config_To_v1 (ILowRiskOverCommitment a) =
     VLowRiskOverCommitment (Convert_config_LowRiskOverCommitmentArgs_To_v1_LowRiskOverCommitmentArgs a)"
| "Convert_config_To_v1 (INeilats a) = VNeilats (Convert_config_NeilatsRefactorSchedulerArgs_To_v1_NeilatsRefactorSchedulerArgs a)"
| "Convert_config_To_v1 (INetworkOverhead a) = VNetworkOverhead (Convert_config_NetworkOverheadArgs_To_v1_NetworkOverheadArgs a)"
| "Convert_config_To_v1 (INodeResourcesAllocatable a) =
     VNodeResourcesAllocatable (Convert_config_NodeResourcesAllocatableArgs_To_v1_NodeResourcesAllocatableArgs a)"
| "Convert_config_To_v1 (IPreemptionToleration a) =
     VPreemptionToleration (Convert_config_PreemptionTolerationArgs_To_v1_PreemptionTolerationArgs a)"
| "Convert_config_To_v1 (ISySched a) = VSySched (Convert_config_SySchedArgs_To_v1_SySchedArgs a)"
| "Convert_config_To_v1 (ITargetLoadPacking a) =
     VTargetLoadPacking (Convert_config_TargetLoadPackingArgs_To_v1_TargetLoadPackingArgs a)"
| "Convert_config_To_v1 (ITopologicalSort a) = VTopologicalSort (Convert_config_TopologicalSortArgs_To_v1_TopologicalSortArgs a)"
| "Convert_config_To_v1 (INodeResourceTopologyMatch a) =
     VNodeResourceTopologyMatch (Convert_config_NodeResourceTopologyMatchArgs_To_v1_NodeResourceTopologyMatchArgs a)"

definition load_v1 :: "PluginArgs_v \<Rightarrow> PluginArgs option" where
  "load_v1 obj = Convert_v1_To_config (RegisterDefaults obj)"

section \<open>The contract\<close>

lemma complete_default_trimaran: "complete_trimaran (SetDefaultTrimaranSpec t)"
  by (auto simp: complete_trimaran_def SetDefaultTrimaranSpec_def Let_def DefaultMetricProviderType_def config_names)

lemma default_complete_trimaran: "complete_trimaran t \<Longrightarrow> SetDefaultTrimaranSpec t = t"
  by (auto simp: complete_trimaran_def SetDefaultTrimaranSpec_def Let_def)

lemma saved_complete_trimaran: "complete_trimaran (Convert_config_TrimaranSpec_To_v1_TrimaranSpec t)"
  by (simp add: complete_trimaran_def Convert_defs)

lemma valid_weight_range: "\<not> f_lt (valid_weight w) (Fin 0)" "\<not> f_lt (Fin 1) (valid_weight w)"
  by (simp_all add: valid_weight_def DefaultRiskLimitWeight_def f_lt_def)

lemma default_weight_range: "\<not> f_lt DefaultRiskLimitWeight (Fin 0)" "\<not> f_lt (Fin 1) DefaultRiskLimitWeight"
  by (simp_all add: DefaultRiskLimitWeight_def f_lt_def)

lemma nonzero_weights: "list_all (\<lambda>r. rs_Weight r \<noteq> 0) (map (\<lambda>r. if rs_Weight r = 0 then r\<lparr>rs_Weight := 1\<rparr> else r) rs)"
  by (induction rs) auto

lemma complete_defaults_v1: "complete_args (RegisterDefaults v)"
proof (cases v)
  case (VLowRiskOverCommitment a)
  then show ?thesis
    by (auto simp: SetDefaults_LowRiskOverCommitmentArgs_def Let_def DefaultSmoothingWindowSize_def DefaultRiskLimitWeights_def sle_def
        complete_default_trimaran list_all_iff valid_weight_range default_weight_range split: option.splits)
next
  case (VLoadVariationRiskBalancing a)
  then show ?thesis
    by (simp add: SetDefaults_LoadVariationRiskBalancingArgs_def Let_def default_constants f_lt_def complete_default_trimaran
        split: option.splits)
next
  case (VTargetLoadPacking a)
  then show ?thesis
    by (simp add: SetDefaults_TargetLoadPackingArgs_def Let_def default_constants sle_def complete_default_trimaran split: option.splits)
next
  case (VNodeResourceTopologyMatch a)
  then show ?thesis
    by (simp add: SetDefaults_NodeResourceTopologyMatchArgs_def Let_def defaultResourceSpec_def nonzero_weights)
qed (simp_all add: SetDefaults_defs Let_def default_constants config_names)

lemma valid_weights_fixed:
  "list_all (\<lambda>(r, w). \<not> f_lt w (Fin 0) \<and> \<not> f_lt (Fin 1) w) ws \<Longrightarrow> map (map_prod id valid_weight) ws = ws"
  by (induction ws) (auto simp: valid_weight_def)

lemma nonzero_weights_fixed:
  "list_all (\<lambda>r. rs_Weight r \<noteq> 0) rs \<Longrightarrow> map (\<lambda>r. if rs_Weight r = 0 then r\<lparr>rs_Weight := 1\<rparr> else r) rs = rs"
  by (induction rs) auto

lemma complete_fixed_v1: "complete_args v \<Longrightarrow> RegisterDefaults v = v"
proof (cases v)
  case (VLowRiskOverCommitment a)
  then show "complete_args v \<Longrightarrow> RegisterDefaults v = v"
    by (auto simp: SetDefaults_LowRiskOverCommitmentArgs_def Let_def sle_def default_complete_trimaran valid_weights_fixed split: option.splits)
next
  case (VLoadVariationRiskBalancing a)
  then show "complete_args v \<Longrightarrow> RegisterDefaults v = v"
    by (auto simp: SetDefaults_LoadVariationRiskBalancingArgs_def Let_def default_complete_trimaran split: option.splits)
next
  case (VTargetLoadPacking a)
  then show "complete_args v \<Longrightarrow> RegisterDefaults v = v"
    by (auto simp: SetDefaults_TargetLoadPackingArgs_def Let_def sle_def default_complete_trimaran split: option.splits)
next
  case (VNodeResourceTopologyMatch a)
  then show "complete_args v \<Longrightarrow> RegisterDefaults v = v"
    by (auto simp: SetDefaults_NodeResourceTopologyMatchArgs_def Let_def nonzero_weights_fixed split: option.splits)
qed (auto simp: SetDefaults_defs Let_def)

lemma complete_converts_v1: "complete_args v \<Longrightarrow> Convert_v1_To_config v \<noteq> None"
  by (cases v) (auto simp: Convert_v1_NodeResourceTopologyMatchArgs_To_config_NodeResourceTopologyMatchArgs_def split: option.splits)

lemma converts_back_v1: "Convert_v1_To_config (Convert_config_To_v1 i) = Some i"
  by (cases i) (simp_all add: Convert_defs)

lemma saved_complete_v1: "complete_args v \<Longrightarrow> Convert_v1_To_config v = Some i \<Longrightarrow> complete_args (Convert_config_To_v1 i)"
  by (cases v) (auto simp: Convert_defs complete_trimaran_def split: option.splits)

interpretation v1: config_version RegisterDefaults Convert_v1_To_config Convert_config_To_v1 complete_args
  by unfold_locales (fact complete_defaults_v1 complete_fixed_v1 complete_converts_v1 converts_back_v1 saved_complete_v1)+

section \<open>Loading\<close>

text \<open>
  C28. Loading a version v1 configuration is total and stable. Whatever fields a user leaves out, the
  arguments of every plugin load without an error or a panic; when the loaded arguments are written out
  as version v1 and loaded again the result is the same; and no two internal configurations are written
  out as the same object.
\<close>

theorem v1_load_save_load:
  "(\<exists>i. load_v1 v = Some i \<and> load_v1 (Convert_config_To_v1 i) = Some i) \<and>
   RegisterDefaults (RegisterDefaults v) = RegisterDefaults v \<and> inj Convert_config_To_v1"
  unfolding load_v1_def using v1.load_save_load v1.defaults_idem v1.save_injective by (blast intro: injI)

text \<open>
  The manual conversion of the topology arguments reads the scoring strategy through its pointer, so
  conversion relies on defaulting having run.
\<close>

lemma undefaulted_conversion_panics:
  "Convert_v1_To_config v = None \<longleftrightarrow> (\<exists>a. v = VNodeResourceTopologyMatch a \<and> vtm_ScoringStrategy a = None)"
  by (cases v) (auto simp: Convert_v1_NodeResourceTopologyMatchArgs_To_config_NodeResourceTopologyMatchArgs_def split: option.splits)

end
