(* ===== verification/ConfigV1beta3.thy ===== *)
theory ConfigV1beta3
  imports ConfigV1
begin

text \<open>
  Configuration version v1beta3, \<open>apis/config/v1beta3\<close>: its own defaults and conversions, which are
  separate functions of the source and of the model. The result is that the two versions load every
  configuration to the same arguments.
\<close>

section \<open>Defaults\<close>

definition defaultPermitWaitingTimeSeconds_v1beta3 :: int64 where "defaultPermitWaitingTimeSeconds_v1beta3 = 60"
definition defaultPodGroupBackoffSeconds_v1beta3 :: int64 where "defaultPodGroupBackoffSeconds_v1beta3 = 0"
definition defaultNodeResourcesAllocatableMode_v1beta3 :: string where "defaultNodeResourcesAllocatableMode_v1beta3 = mode_Least"

definition defaultNodeResourcesAllocatableResourcesToWeightMap_v1beta3 :: "ResourceSpec list" where
  "defaultNodeResourcesAllocatableResourcesToWeightMap_v1beta3 =
     [\<lparr>rs_Name = ''cpu'', rs_Weight = push_bit 20 1\<rparr>, \<lparr>rs_Name = ''memory'', rs_Weight = 1\<rparr>]"

definition DefaultRequestsMilliCores_v1beta3 :: int64 where "DefaultRequestsMilliCores_v1beta3 = 1000"
definition DefaultRequestsMultiplier_v1beta3 :: string where "DefaultRequestsMultiplier_v1beta3 = ''1.5''"
definition DefaultTargetUtilizationPercent_v1beta3 :: int64 where "DefaultTargetUtilizationPercent_v1beta3 = 40"
definition DefaultSafeVarianceMargin_v1beta3 :: gofloat where "DefaultSafeVarianceMargin_v1beta3 = Fin 1"
definition DefaultSafeVarianceSensitivity_v1beta3 :: gofloat where "DefaultSafeVarianceSensitivity_v1beta3 = Fin 1"
definition DefaultSmoothingWindowSize_v1beta3 :: int64 where "DefaultSmoothingWindowSize_v1beta3 = 5"
definition DefaultRiskLimitWeight_v1beta3 :: gofloat where "DefaultRiskLimitWeight_v1beta3 = Fin (1 / 2)"

definition DefaultRiskLimitWeights_v1beta3 :: "(string, gofloat) gomap" where
  "DefaultRiskLimitWeights_v1beta3 = [(ResourceCPU, DefaultRiskLimitWeight_v1beta3), (ResourceMemory, DefaultRiskLimitWeight_v1beta3)]"

definition DefaultMetricProviderType_v1beta3 :: string where "DefaultMetricProviderType_v1beta3 = KubernetesMetricsServer"
definition DefaultInsecureSkipVerify_v1beta3 :: bool where "DefaultInsecureSkipVerify_v1beta3 = True"

definition defaultResourceSpec_v1beta3 :: "ResourceSpec list" where
  "defaultResourceSpec_v1beta3 = [\<lparr>rs_Name = ResourceCPU, rs_Weight = 1\<rparr>, \<lparr>rs_Name = ResourceMemory, rs_Weight = 1\<rparr>]"

definition defaultForeignPodsDetect_v1beta3 :: ForeignPodsDetectMode where "defaultForeignPodsDetect_v1beta3 = ForeignPodsDetectAll"
definition defaultResyncMethod_v1beta3 :: CacheResyncMethod where "defaultResyncMethod_v1beta3 = CacheResyncAutodetect"
definition defaultInformerMode_v1beta3 :: CacheInformerMode where "defaultInformerMode_v1beta3 = CacheInformerDedicated"
definition DefaultWeightsName_v1beta3 :: string where "DefaultWeightsName_v1beta3 = ''UserDefined''"
definition DefaultNetworkTopologyName_v1beta3 :: string where "DefaultNetworkTopologyName_v1beta3 = ''nt-default''"
definition DefaultSySchedProfileNamespace_v1beta3 :: string where "DefaultSySchedProfileNamespace_v1beta3 = ''default''"
definition DefaultSySchedProfileName_v1beta3 :: string where "DefaultSySchedProfileName_v1beta3 = ''all-syscalls''"

lemmas default_constants_v1beta3 =
  defaultPermitWaitingTimeSeconds_v1beta3_def defaultPodGroupBackoffSeconds_v1beta3_def defaultNodeResourcesAllocatableMode_v1beta3_def
  defaultNodeResourcesAllocatableResourcesToWeightMap_v1beta3_def DefaultRequestsMilliCores_v1beta3_def DefaultRequestsMultiplier_v1beta3_def
  DefaultTargetUtilizationPercent_v1beta3_def DefaultSafeVarianceMargin_v1beta3_def DefaultSafeVarianceSensitivity_v1beta3_def
  DefaultSmoothingWindowSize_v1beta3_def DefaultRiskLimitWeight_v1beta3_def DefaultRiskLimitWeights_v1beta3_def DefaultMetricProviderType_v1beta3_def
  DefaultInsecureSkipVerify_v1beta3_def defaultResourceSpec_v1beta3_def defaultForeignPodsDetect_v1beta3_def defaultResyncMethod_v1beta3_def
  defaultInformerMode_v1beta3_def DefaultWeightsName_v1beta3_def DefaultNetworkTopologyName_v1beta3_def DefaultSySchedProfileNamespace_v1beta3_def
  DefaultSySchedProfileName_v1beta3_def

definition SetDefaults_CoschedulingArgs_v1beta3 :: "CoschedulingArgs_v \<Rightarrow> CoschedulingArgs_v" where
  "SetDefaults_CoschedulingArgs_v1beta3 obj =
     (let obj = (if vcs_PermitWaitingTimeSeconds obj = None
                 then obj\<lparr>vcs_PermitWaitingTimeSeconds := Some defaultPermitWaitingTimeSeconds_v1beta3\<rparr> else obj)
      in if vcs_PodGroupBackoffSeconds obj = None
         then obj\<lparr>vcs_PodGroupBackoffSeconds := Some defaultPodGroupBackoffSeconds_v1beta3\<rparr> else obj)"

definition SetDefaults_NodeResourcesAllocatableArgs_v1beta3 :: "NodeResourcesAllocatableArgs_v \<Rightarrow> NodeResourcesAllocatableArgs_v" where
  "SetDefaults_NodeResourcesAllocatableArgs_v1beta3 obj =
     (let obj = (if length (nra_Resources obj) = 0
                 then obj\<lparr>nra_Resources := defaultNodeResourcesAllocatableResourcesToWeightMap_v1beta3\<rparr> else obj)
      in if nra_Mode obj = [] then obj\<lparr>nra_Mode := defaultNodeResourcesAllocatableMode_v1beta3\<rparr> else obj)"

definition SetDefaultTrimaranSpec_v1beta3 :: "TrimaranSpec_v \<Rightarrow> TrimaranSpec_v" where
  "SetDefaultTrimaranSpec_v1beta3 args =
     (let args = (if vts_WatcherAddress args = None \<and> vmp_Type (vts_MetricProvider args) = []
                  then args\<lparr>vts_MetricProvider := (vts_MetricProvider args)\<lparr>vmp_Type := DefaultMetricProviderType_v1beta3\<rparr>\<rparr> else args)
      in if vmp_Type (vts_MetricProvider args) = Prometheus \<and> vmp_InsecureSkipVerify (vts_MetricProvider args) = None
         then args\<lparr>vts_MetricProvider := (vts_MetricProvider args)\<lparr>vmp_InsecureSkipVerify := Some DefaultInsecureSkipVerify_v1beta3\<rparr>\<rparr> else args)"

text \<open>The default quantity is the text of the default millicores with the suffix \<open>m\<close>.\<close>

definition SetDefaults_TargetLoadPackingArgs_v1beta3 :: "TargetLoadPackingArgs_v \<Rightarrow> TargetLoadPackingArgs_v" where
  "SetDefaults_TargetLoadPackingArgs_v1beta3 args =
     (let args = args\<lparr>vtl_TrimaranSpec := SetDefaultTrimaranSpec_v1beta3 (vtl_TrimaranSpec args)\<rparr>;
          args = (if vtl_DefaultRequests args = None
                  then args\<lparr>vtl_DefaultRequests := Some [(ResourceCPU, NewMilliQuantity DefaultRequestsMilliCores_v1beta3)]\<rparr> else args);
          args = (if vtl_DefaultRequestsMultiplier args = None
                  then args\<lparr>vtl_DefaultRequestsMultiplier := Some DefaultRequestsMultiplier_v1beta3\<rparr> else args)
      in if (case vtl_TargetUtilization args of None \<Rightarrow> True | Some t \<Rightarrow> sle t 0)
         then args\<lparr>vtl_TargetUtilization := Some DefaultTargetUtilizationPercent_v1beta3\<rparr> else args)"

definition SetDefaults_LoadVariationRiskBalancingArgs_v1beta3 :: "LoadVariationRiskBalancingArgs_v \<Rightarrow> LoadVariationRiskBalancingArgs_v" where
  "SetDefaults_LoadVariationRiskBalancingArgs_v1beta3 args =
     (let args = args\<lparr>vlv_TrimaranSpec := SetDefaultTrimaranSpec_v1beta3 (vlv_TrimaranSpec args)\<rparr>;
          args = (if (case vlv_SafeVarianceMargin args of None \<Rightarrow> True | Some m \<Rightarrow> f_lt m (Fin 0))
                  then args\<lparr>vlv_SafeVarianceMargin := Some DefaultSafeVarianceMargin_v1beta3\<rparr> else args)
      in if (case vlv_SafeVarianceSensitivity args of None \<Rightarrow> True | Some s \<Rightarrow> f_lt s (Fin 0))
         then args\<lparr>vlv_SafeVarianceSensitivity := Some DefaultSafeVarianceSensitivity_v1beta3\<rparr> else args)"

text \<open>The loop over the weights: what is outside the unit interval is replaced, a NaN is not.\<close>

definition valid_weight_v1beta3 :: "gofloat \<Rightarrow> gofloat" where
  "valid_weight_v1beta3 w = (if f_lt w (Fin 0) \<or> f_lt (Fin 1) w then DefaultRiskLimitWeight_v1beta3 else w)"

definition SetDefaults_LowRiskOverCommitmentArgs_v1beta3 :: "LowRiskOverCommitmentArgs_v \<Rightarrow> LowRiskOverCommitmentArgs_v" where
  "SetDefaults_LowRiskOverCommitmentArgs_v1beta3 args =
     (let args = args\<lparr>vlr_TrimaranSpec := SetDefaultTrimaranSpec_v1beta3 (vlr_TrimaranSpec args)\<rparr>;
          args = (if (case vlr_SmoothingWindowSize args of None \<Rightarrow> True | Some w \<Rightarrow> sle w 0)
                  then args\<lparr>vlr_SmoothingWindowSize := Some DefaultSmoothingWindowSize_v1beta3\<rparr> else args)
      in if length (vlr_RiskLimitWeights args) = 0 then args\<lparr>vlr_RiskLimitWeights := DefaultRiskLimitWeights_v1beta3\<rparr>
         else args\<lparr>vlr_RiskLimitWeights :=
                map (map_prod id valid_weight_v1beta3) (vlr_RiskLimitWeights args)\<rparr>)"

definition SetDefaults_NodeResourceTopologyMatchArgs_v1beta3 :: "NodeResourceTopologyMatchArgs_v \<Rightarrow> NodeResourceTopologyMatchArgs_v" where
  "SetDefaults_NodeResourceTopologyMatchArgs_v1beta3 obj =
     (let strategy = (case vtm_ScoringStrategy obj of None \<Rightarrow> \<lparr>sst_Type = LeastAllocated, sst_Resources = defaultResourceSpec_v1beta3\<rparr> | Some s \<Rightarrow> s);
          strategy = (if length (sst_Resources strategy) = 0
                      then strategy\<lparr>sst_Resources := sst_Resources strategy @ defaultResourceSpec_v1beta3\<rparr> else strategy);
          strategy = strategy\<lparr>sst_Resources := map (\<lambda>r. if rs_Weight r = 0 then r\<lparr>rs_Weight := 1\<rparr> else r) (sst_Resources strategy)\<rparr>;
          cache = (case vtm_Cache obj of None \<Rightarrow> \<lparr>nrc_ForeignPodsDetect = None, nrc_ResyncMethod = None, nrc_InformerMode = None\<rparr> | Some c \<Rightarrow> c);
          cache = (if nrc_ForeignPodsDetect cache = None then cache\<lparr>nrc_ForeignPodsDetect := Some defaultForeignPodsDetect_v1beta3\<rparr> else cache);
          cache = (if nrc_ResyncMethod cache = None then cache\<lparr>nrc_ResyncMethod := Some defaultResyncMethod_v1beta3\<rparr> else cache);
          cache = (if nrc_InformerMode cache = None then cache\<lparr>nrc_InformerMode := Some defaultInformerMode_v1beta3\<rparr> else cache)
      in obj\<lparr>vtm_ScoringStrategy := Some strategy, vtm_Cache := Some cache\<rparr>)"

text \<open>The framework's \<open>SetDefaults_DefaultPreemptionArgs_v1beta3\<close>, which the plugin's function calls.\<close>

definition SetDefaults_DefaultPreemptionArgs_v1beta3 :: "PreemptionTolerationArgs_v \<Rightarrow> PreemptionTolerationArgs_v" where
  "SetDefaults_DefaultPreemptionArgs_v1beta3 obj =
     (let obj = (if vpt_MinCandidateNodesPercentage obj = None then obj\<lparr>vpt_MinCandidateNodesPercentage := Some 10\<rparr> else obj)
      in if vpt_MinCandidateNodesAbsolute obj = None then obj\<lparr>vpt_MinCandidateNodesAbsolute := Some 100\<rparr> else obj)"

definition SetDefaults_PreemptionTolerationArgs_v1beta3 :: "PreemptionTolerationArgs_v \<Rightarrow> PreemptionTolerationArgs_v" where
  "SetDefaults_PreemptionTolerationArgs_v1beta3 obj = SetDefaults_DefaultPreemptionArgs_v1beta3 obj"

definition SetDefaults_TopologicalSortArgs_v1beta3 :: "TopologicalSortArgs_v \<Rightarrow> TopologicalSortArgs_v" where
  "SetDefaults_TopologicalSortArgs_v1beta3 obj =
     (if length (tps_Namespaces obj) = 0 then obj\<lparr>tps_Namespaces := [''default'']\<rparr> else obj)"

definition SetDefaults_NetworkOverheadArgs_v1beta3 :: "NetworkOverheadArgs_v \<Rightarrow> NetworkOverheadArgs_v" where
  "SetDefaults_NetworkOverheadArgs_v1beta3 obj =
     (let obj = (if length (vno_Namespaces obj) = 0 then obj\<lparr>vno_Namespaces := [''default'']\<rparr> else obj);
          obj = (if vno_WeightsName obj = None then obj\<lparr>vno_WeightsName := Some DefaultWeightsName_v1beta3\<rparr> else obj)
      in if vno_NetworkTopologyName obj = None
         then obj\<lparr>vno_NetworkTopologyName := Some DefaultNetworkTopologyName_v1beta3\<rparr> else obj)"

definition SetDefaults_SySchedArgs_v1beta3 :: "SySchedArgs_v \<Rightarrow> SySchedArgs_v" where
  "SetDefaults_SySchedArgs_v1beta3 obj =
     (let obj = (if vsy_DefaultProfileNamespace obj = None
                 then obj\<lparr>vsy_DefaultProfileNamespace := Some DefaultSySchedProfileNamespace_v1beta3\<rparr> else obj)
      in if vsy_DefaultProfileName obj = None
         then obj\<lparr>vsy_DefaultProfileName := Some DefaultSySchedProfileName_v1beta3\<rparr> else obj)"

lemmas SetDefaults_defs_v1beta3 =
  SetDefaults_CoschedulingArgs_v1beta3_def SetDefaults_NodeResourcesAllocatableArgs_v1beta3_def SetDefaultTrimaranSpec_v1beta3_def
  SetDefaults_TargetLoadPackingArgs_v1beta3_def SetDefaults_LoadVariationRiskBalancingArgs_v1beta3_def
  SetDefaults_LowRiskOverCommitmentArgs_v1beta3_def SetDefaults_NodeResourceTopologyMatchArgs_v1beta3_def
  SetDefaults_DefaultPreemptionArgs_v1beta3_def SetDefaults_PreemptionTolerationArgs_v1beta3_def SetDefaults_TopologicalSortArgs_v1beta3_def
  SetDefaults_NetworkOverheadArgs_v1beta3_def SetDefaults_SySchedArgs_v1beta3_def

text \<open>The defaulting functions that are registered; there is none for the arguments of the neilats plugin.\<close>

fun RegisterDefaults_v1beta3 :: "PluginArgs_v \<Rightarrow> PluginArgs_v" where
  "RegisterDefaults_v1beta3 (VCoscheduling a) = VCoscheduling (SetDefaults_CoschedulingArgs_v1beta3 a)"
| "RegisterDefaults_v1beta3 (VLoadVariationRiskBalancing a) = VLoadVariationRiskBalancing (SetDefaults_LoadVariationRiskBalancingArgs_v1beta3 a)"
| "RegisterDefaults_v1beta3 (VLowRiskOverCommitment a) = VLowRiskOverCommitment (SetDefaults_LowRiskOverCommitmentArgs_v1beta3 a)"
| "RegisterDefaults_v1beta3 (VNetworkOverhead a) = VNetworkOverhead (SetDefaults_NetworkOverheadArgs_v1beta3 a)"
| "RegisterDefaults_v1beta3 (VNodeResourceTopologyMatch a) = VNodeResourceTopologyMatch (SetDefaults_NodeResourceTopologyMatchArgs_v1beta3 a)"
| "RegisterDefaults_v1beta3 (VNodeResourcesAllocatable a) = VNodeResourcesAllocatable (SetDefaults_NodeResourcesAllocatableArgs_v1beta3 a)"
| "RegisterDefaults_v1beta3 (VPreemptionToleration a) = VPreemptionToleration (SetDefaults_PreemptionTolerationArgs_v1beta3 a)"
| "RegisterDefaults_v1beta3 (VSySched a) = VSySched (SetDefaults_SySchedArgs_v1beta3 a)"
| "RegisterDefaults_v1beta3 (VTargetLoadPacking a) = VTargetLoadPacking (SetDefaults_TargetLoadPackingArgs_v1beta3 a)"
| "RegisterDefaults_v1beta3 (VTopologicalSort a) = VTopologicalSort (SetDefaults_TopologicalSortArgs_v1beta3 a)"
| "RegisterDefaults_v1beta3 (VNeilats a) = VNeilats a"

section \<open>Conversions\<close>

definition Convert_v1beta3_CoschedulingArgs_To_config_CoschedulingArgs :: "CoschedulingArgs_v \<Rightarrow> CoschedulingArgs" where
  "Convert_v1beta3_CoschedulingArgs_To_config_CoschedulingArgs inp =
     \<lparr>csa_PermitWaitingTimeSeconds = deref 0 (vcs_PermitWaitingTimeSeconds inp),
      csa_PodGroupBackoffSeconds = deref 0 (vcs_PodGroupBackoffSeconds inp)\<rparr>"

definition Convert_config_CoschedulingArgs_To_v1beta3_CoschedulingArgs :: "CoschedulingArgs \<Rightarrow> CoschedulingArgs_v" where
  "Convert_config_CoschedulingArgs_To_v1beta3_CoschedulingArgs inp =
     \<lparr>vcs_PermitWaitingTimeSeconds = Some (csa_PermitWaitingTimeSeconds inp),
      vcs_PodGroupBackoffSeconds = Some (csa_PodGroupBackoffSeconds inp)\<rparr>"

definition Convert_v1beta3_MetricProviderSpec_To_config_MetricProviderSpec :: "MetricProviderSpec_v \<Rightarrow> MetricProviderSpec" where
  "Convert_v1beta3_MetricProviderSpec_To_config_MetricProviderSpec inp =
     \<lparr>mp_Type = vmp_Type inp, mp_Address = deref [] (vmp_Address inp), mp_Token = deref [] (vmp_Token inp),
      mp_InsecureSkipVerify = deref False (vmp_InsecureSkipVerify inp)\<rparr>"

definition Convert_config_MetricProviderSpec_To_v1beta3_MetricProviderSpec :: "MetricProviderSpec \<Rightarrow> MetricProviderSpec_v" where
  "Convert_config_MetricProviderSpec_To_v1beta3_MetricProviderSpec inp =
     \<lparr>vmp_Type = mp_Type inp, vmp_Address = Some (mp_Address inp), vmp_Token = Some (mp_Token inp),
      vmp_InsecureSkipVerify = Some (mp_InsecureSkipVerify inp)\<rparr>"

definition Convert_v1beta3_TrimaranSpec_To_config_TrimaranSpec :: "TrimaranSpec_v \<Rightarrow> TrimaranSpec" where
  "Convert_v1beta3_TrimaranSpec_To_config_TrimaranSpec inp =
     \<lparr>ts_MetricProvider = Convert_v1beta3_MetricProviderSpec_To_config_MetricProviderSpec (vts_MetricProvider inp),
      ts_WatcherAddress = deref [] (vts_WatcherAddress inp)\<rparr>"

definition Convert_config_TrimaranSpec_To_v1beta3_TrimaranSpec :: "TrimaranSpec \<Rightarrow> TrimaranSpec_v" where
  "Convert_config_TrimaranSpec_To_v1beta3_TrimaranSpec inp =
     \<lparr>vts_MetricProvider = Convert_config_MetricProviderSpec_To_v1beta3_MetricProviderSpec (ts_MetricProvider inp),
      vts_WatcherAddress = Some (ts_WatcherAddress inp)\<rparr>"

definition Convert_v1beta3_LoadVariationRiskBalancingArgs_To_config_LoadVariationRiskBalancingArgs ::
  "LoadVariationRiskBalancingArgs_v \<Rightarrow> LoadVariationRiskBalancingArgs" where
  "Convert_v1beta3_LoadVariationRiskBalancingArgs_To_config_LoadVariationRiskBalancingArgs inp =
     \<lparr>lvr_TrimaranSpec = Convert_v1beta3_TrimaranSpec_To_config_TrimaranSpec (vlv_TrimaranSpec inp),
      lvr_SafeVarianceMargin = deref (Fin 0) (vlv_SafeVarianceMargin inp),
      lvr_SafeVarianceSensitivity = deref (Fin 0) (vlv_SafeVarianceSensitivity inp)\<rparr>"

definition Convert_config_LoadVariationRiskBalancingArgs_To_v1beta3_LoadVariationRiskBalancingArgs ::
  "LoadVariationRiskBalancingArgs \<Rightarrow> LoadVariationRiskBalancingArgs_v" where
  "Convert_config_LoadVariationRiskBalancingArgs_To_v1beta3_LoadVariationRiskBalancingArgs inp =
     \<lparr>vlv_TrimaranSpec = Convert_config_TrimaranSpec_To_v1beta3_TrimaranSpec (lvr_TrimaranSpec inp),
      vlv_SafeVarianceMargin = Some (lvr_SafeVarianceMargin inp),
      vlv_SafeVarianceSensitivity = Some (lvr_SafeVarianceSensitivity inp)\<rparr>"

definition Convert_v1beta3_LowRiskOverCommitmentArgs_To_config_LowRiskOverCommitmentArgs ::
  "LowRiskOverCommitmentArgs_v \<Rightarrow> LowRiskOverCommitmentArgs" where
  "Convert_v1beta3_LowRiskOverCommitmentArgs_To_config_LowRiskOverCommitmentArgs inp =
     \<lparr>lro_TrimaranSpec = Convert_v1beta3_TrimaranSpec_To_config_TrimaranSpec (vlr_TrimaranSpec inp),
      lro_SmoothingWindowSize = deref 0 (vlr_SmoothingWindowSize inp),
      lro_RiskLimitWeights = vlr_RiskLimitWeights inp\<rparr>"

definition Convert_config_LowRiskOverCommitmentArgs_To_v1beta3_LowRiskOverCommitmentArgs ::
  "LowRiskOverCommitmentArgs \<Rightarrow> LowRiskOverCommitmentArgs_v" where
  "Convert_config_LowRiskOverCommitmentArgs_To_v1beta3_LowRiskOverCommitmentArgs inp =
     \<lparr>vlr_TrimaranSpec = Convert_config_TrimaranSpec_To_v1beta3_TrimaranSpec (lro_TrimaranSpec inp),
      vlr_SmoothingWindowSize = Some (lro_SmoothingWindowSize inp),
      vlr_RiskLimitWeights = lro_RiskLimitWeights inp\<rparr>"

definition Convert_v1beta3_NeilatsRefactorSchedulerArgs_To_config_NeilatsRefactorSchedulerArgs :: "NeilatsArgs_v \<Rightarrow> NeilatsArgs" where
  "Convert_v1beta3_NeilatsRefactorSchedulerArgs_To_config_NeilatsRefactorSchedulerArgs inp =
     \<lparr>PrometheusAddress = PrometheusAddress inp, NetworkDevice = NetworkDevice inp, StorageDevice = StorageDevice inp,
      EnableSLA = EnableSLA inp, KubeNodeAddressAndSecret = KubeNodeAddressAndSecret inp,
      LstmAdfModuleAddress = LstmAdfModuleAddress inp\<rparr>"

definition Convert_config_NeilatsRefactorSchedulerArgs_To_v1beta3_NeilatsRefactorSchedulerArgs :: "NeilatsArgs \<Rightarrow> NeilatsArgs_v" where
  "Convert_config_NeilatsRefactorSchedulerArgs_To_v1beta3_NeilatsRefactorSchedulerArgs inp =
     \<lparr>PrometheusAddress = PrometheusAddress inp, NetworkDevice = NetworkDevice inp, StorageDevice = StorageDevice inp,
      EnableSLA = EnableSLA inp, KubeNodeAddressAndSecret = KubeNodeAddressAndSecret inp,
      LstmAdfModuleAddress = LstmAdfModuleAddress inp\<rparr>"

definition Convert_v1beta3_NetworkOverheadArgs_To_config_NetworkOverheadArgs :: "NetworkOverheadArgs_v \<Rightarrow> NetworkOverheadArgs" where
  "Convert_v1beta3_NetworkOverheadArgs_To_config_NetworkOverheadArgs inp =
     \<lparr>noa_Namespaces = vno_Namespaces inp, noa_WeightsName = deref [] (vno_WeightsName inp),
      noa_NetworkTopologyName = deref [] (vno_NetworkTopologyName inp)\<rparr>"

definition Convert_config_NetworkOverheadArgs_To_v1beta3_NetworkOverheadArgs :: "NetworkOverheadArgs \<Rightarrow> NetworkOverheadArgs_v" where
  "Convert_config_NetworkOverheadArgs_To_v1beta3_NetworkOverheadArgs inp =
     \<lparr>vno_Namespaces = noa_Namespaces inp, vno_WeightsName = Some (noa_WeightsName inp),
      vno_NetworkTopologyName = Some (noa_NetworkTopologyName inp)\<rparr>"

text \<open>Reading the strategy through a nil pointer panics.\<close>

definition Convert_v1beta3_NodeResourceTopologyMatchArgs_To_config_NodeResourceTopologyMatchArgs ::
  "NodeResourceTopologyMatchArgs_v \<Rightarrow> NodeResourceTopologyMatchArgs option" where
  "Convert_v1beta3_NodeResourceTopologyMatchArgs_To_config_NodeResourceTopologyMatchArgs inp =
     (case vtm_ScoringStrategy inp of
        None \<Rightarrow> None
      | Some strategy \<Rightarrow>
          Some \<lparr>tma_ScoringStrategy = strategy,
                tma_CacheResyncPeriodSeconds = deref 0 (vtm_CacheResyncPeriodSeconds inp),
                tma_DiscardReservedNodes = vtm_DiscardReservedNodes inp, tma_Cache = vtm_Cache inp\<rparr>)"

definition Convert_config_NodeResourceTopologyMatchArgs_To_v1beta3_NodeResourceTopologyMatchArgs ::
  "NodeResourceTopologyMatchArgs \<Rightarrow> NodeResourceTopologyMatchArgs_v" where
  "Convert_config_NodeResourceTopologyMatchArgs_To_v1beta3_NodeResourceTopologyMatchArgs inp =
     \<lparr>vtm_ScoringStrategy = Some (tma_ScoringStrategy inp),
      vtm_CacheResyncPeriodSeconds = Some (tma_CacheResyncPeriodSeconds inp),
      vtm_DiscardReservedNodes = tma_DiscardReservedNodes inp, vtm_Cache = tma_Cache inp\<rparr>"

definition Convert_v1beta3_NodeResourcesAllocatableArgs_To_config_NodeResourcesAllocatableArgs ::
  "NodeResourcesAllocatableArgs_v \<Rightarrow> NodeResourcesAllocatableArgs" where
  "Convert_v1beta3_NodeResourcesAllocatableArgs_To_config_NodeResourcesAllocatableArgs inp =
     \<lparr>nra_Resources = nra_Resources inp, nra_Mode = nra_Mode inp\<rparr>"

definition Convert_config_NodeResourcesAllocatableArgs_To_v1beta3_NodeResourcesAllocatableArgs ::
  "NodeResourcesAllocatableArgs \<Rightarrow> NodeResourcesAllocatableArgs_v" where
  "Convert_config_NodeResourcesAllocatableArgs_To_v1beta3_NodeResourcesAllocatableArgs inp =
     \<lparr>nra_Resources = nra_Resources inp, nra_Mode = nra_Mode inp\<rparr>"

definition Convert_v1beta3_PreemptionTolerationArgs_To_config_PreemptionTolerationArgs ::
  "PreemptionTolerationArgs_v \<Rightarrow> PreemptionTolerationArgs" where
  "Convert_v1beta3_PreemptionTolerationArgs_To_config_PreemptionTolerationArgs inp =
     \<lparr>MinCandidateNodesPercentage = deref 0 (vpt_MinCandidateNodesPercentage inp),
      MinCandidateNodesAbsolute = deref 0 (vpt_MinCandidateNodesAbsolute inp)\<rparr>"

definition Convert_config_PreemptionTolerationArgs_To_v1beta3_PreemptionTolerationArgs ::
  "PreemptionTolerationArgs \<Rightarrow> PreemptionTolerationArgs_v" where
  "Convert_config_PreemptionTolerationArgs_To_v1beta3_PreemptionTolerationArgs inp =
     \<lparr>vpt_MinCandidateNodesPercentage = Some (MinCandidateNodesPercentage inp),
      vpt_MinCandidateNodesAbsolute = Some (MinCandidateNodesAbsolute inp)\<rparr>"

definition Convert_v1beta3_SySchedArgs_To_config_SySchedArgs :: "SySchedArgs_v \<Rightarrow> SySchedArgs" where
  "Convert_v1beta3_SySchedArgs_To_config_SySchedArgs inp =
     \<lparr>sya_DefaultProfileNamespace = deref [] (vsy_DefaultProfileNamespace inp),
      sya_DefaultProfileName = deref [] (vsy_DefaultProfileName inp)\<rparr>"

definition Convert_config_SySchedArgs_To_v1beta3_SySchedArgs :: "SySchedArgs \<Rightarrow> SySchedArgs_v" where
  "Convert_config_SySchedArgs_To_v1beta3_SySchedArgs inp =
     \<lparr>vsy_DefaultProfileNamespace = Some (sya_DefaultProfileNamespace inp),
      vsy_DefaultProfileName = Some (sya_DefaultProfileName inp)\<rparr>"

definition Convert_v1beta3_TargetLoadPackingArgs_To_config_TargetLoadPackingArgs ::
  "TargetLoadPackingArgs_v \<Rightarrow> TargetLoadPackingArgs" where
  "Convert_v1beta3_TargetLoadPackingArgs_To_config_TargetLoadPackingArgs inp =
     \<lparr>tlp_TrimaranSpec = Convert_v1beta3_TrimaranSpec_To_config_TrimaranSpec (vtl_TrimaranSpec inp),
      tlp_DefaultRequests = vtl_DefaultRequests inp,
      tlp_DefaultRequestsMultiplier = deref [] (vtl_DefaultRequestsMultiplier inp),
      tlp_TargetUtilization = deref 0 (vtl_TargetUtilization inp)\<rparr>"

definition Convert_config_TargetLoadPackingArgs_To_v1beta3_TargetLoadPackingArgs ::
  "TargetLoadPackingArgs \<Rightarrow> TargetLoadPackingArgs_v" where
  "Convert_config_TargetLoadPackingArgs_To_v1beta3_TargetLoadPackingArgs inp =
     \<lparr>vtl_TrimaranSpec = Convert_config_TrimaranSpec_To_v1beta3_TrimaranSpec (tlp_TrimaranSpec inp),
      vtl_DefaultRequests = tlp_DefaultRequests inp,
      vtl_DefaultRequestsMultiplier = Some (tlp_DefaultRequestsMultiplier inp),
      vtl_TargetUtilization = Some (tlp_TargetUtilization inp)\<rparr>"

definition Convert_v1beta3_TopologicalSortArgs_To_config_TopologicalSortArgs :: "TopologicalSortArgs_v \<Rightarrow> TopologicalSortArgs" where
  "Convert_v1beta3_TopologicalSortArgs_To_config_TopologicalSortArgs inp = \<lparr>tps_Namespaces = tps_Namespaces inp\<rparr>"

definition Convert_config_TopologicalSortArgs_To_v1beta3_TopologicalSortArgs :: "TopologicalSortArgs \<Rightarrow> TopologicalSortArgs_v" where
  "Convert_config_TopologicalSortArgs_To_v1beta3_TopologicalSortArgs inp = \<lparr>tps_Namespaces = tps_Namespaces inp\<rparr>"

lemmas Convert_defs_v1beta3 =
  Convert_v1beta3_CoschedulingArgs_To_config_CoschedulingArgs_def Convert_config_CoschedulingArgs_To_v1beta3_CoschedulingArgs_def
  Convert_v1beta3_MetricProviderSpec_To_config_MetricProviderSpec_def Convert_config_MetricProviderSpec_To_v1beta3_MetricProviderSpec_def
  Convert_v1beta3_TrimaranSpec_To_config_TrimaranSpec_def Convert_config_TrimaranSpec_To_v1beta3_TrimaranSpec_def
  Convert_v1beta3_LoadVariationRiskBalancingArgs_To_config_LoadVariationRiskBalancingArgs_def
  Convert_config_LoadVariationRiskBalancingArgs_To_v1beta3_LoadVariationRiskBalancingArgs_def
  Convert_v1beta3_LowRiskOverCommitmentArgs_To_config_LowRiskOverCommitmentArgs_def
  Convert_config_LowRiskOverCommitmentArgs_To_v1beta3_LowRiskOverCommitmentArgs_def
  Convert_v1beta3_NeilatsRefactorSchedulerArgs_To_config_NeilatsRefactorSchedulerArgs_def
  Convert_config_NeilatsRefactorSchedulerArgs_To_v1beta3_NeilatsRefactorSchedulerArgs_def
  Convert_v1beta3_NetworkOverheadArgs_To_config_NetworkOverheadArgs_def Convert_config_NetworkOverheadArgs_To_v1beta3_NetworkOverheadArgs_def
  Convert_v1beta3_NodeResourceTopologyMatchArgs_To_config_NodeResourceTopologyMatchArgs_def
  Convert_config_NodeResourceTopologyMatchArgs_To_v1beta3_NodeResourceTopologyMatchArgs_def
  Convert_v1beta3_NodeResourcesAllocatableArgs_To_config_NodeResourcesAllocatableArgs_def
  Convert_config_NodeResourcesAllocatableArgs_To_v1beta3_NodeResourcesAllocatableArgs_def
  Convert_v1beta3_PreemptionTolerationArgs_To_config_PreemptionTolerationArgs_def
  Convert_config_PreemptionTolerationArgs_To_v1beta3_PreemptionTolerationArgs_def
  Convert_v1beta3_SySchedArgs_To_config_SySchedArgs_def Convert_config_SySchedArgs_To_v1beta3_SySchedArgs_def
  Convert_v1beta3_TargetLoadPackingArgs_To_config_TargetLoadPackingArgs_def
  Convert_config_TargetLoadPackingArgs_To_v1beta3_TargetLoadPackingArgs_def
  Convert_v1beta3_TopologicalSortArgs_To_config_TopologicalSortArgs_def
  Convert_config_TopologicalSortArgs_To_v1beta3_TopologicalSortArgs_def

text \<open>The registered conversions, by the type of the object.\<close>

fun Convert_v1beta3_To_config :: "PluginArgs_v \<Rightarrow> PluginArgs option" where
  "Convert_v1beta3_To_config (VCoscheduling a) = Some (ICoscheduling (Convert_v1beta3_CoschedulingArgs_To_config_CoschedulingArgs a))"
| "Convert_v1beta3_To_config (VLoadVariationRiskBalancing a) =
     Some (ILoadVariationRiskBalancing (Convert_v1beta3_LoadVariationRiskBalancingArgs_To_config_LoadVariationRiskBalancingArgs a))"
| "Convert_v1beta3_To_config (VLowRiskOverCommitment a) =
     Some (ILowRiskOverCommitment (Convert_v1beta3_LowRiskOverCommitmentArgs_To_config_LowRiskOverCommitmentArgs a))"
| "Convert_v1beta3_To_config (VNeilats a) = Some (INeilats (Convert_v1beta3_NeilatsRefactorSchedulerArgs_To_config_NeilatsRefactorSchedulerArgs a))"
| "Convert_v1beta3_To_config (VNetworkOverhead a) = Some (INetworkOverhead (Convert_v1beta3_NetworkOverheadArgs_To_config_NetworkOverheadArgs a))"
| "Convert_v1beta3_To_config (VNodeResourcesAllocatable a) =
     Some (INodeResourcesAllocatable (Convert_v1beta3_NodeResourcesAllocatableArgs_To_config_NodeResourcesAllocatableArgs a))"
| "Convert_v1beta3_To_config (VPreemptionToleration a) =
     Some (IPreemptionToleration (Convert_v1beta3_PreemptionTolerationArgs_To_config_PreemptionTolerationArgs a))"
| "Convert_v1beta3_To_config (VSySched a) = Some (ISySched (Convert_v1beta3_SySchedArgs_To_config_SySchedArgs a))"
| "Convert_v1beta3_To_config (VTargetLoadPacking a) =
     Some (ITargetLoadPacking (Convert_v1beta3_TargetLoadPackingArgs_To_config_TargetLoadPackingArgs a))"
| "Convert_v1beta3_To_config (VTopologicalSort a) = Some (ITopologicalSort (Convert_v1beta3_TopologicalSortArgs_To_config_TopologicalSortArgs a))"
| "Convert_v1beta3_To_config (VNodeResourceTopologyMatch a) =
     map_option INodeResourceTopologyMatch (Convert_v1beta3_NodeResourceTopologyMatchArgs_To_config_NodeResourceTopologyMatchArgs a)"

fun Convert_config_To_v1beta3 :: "PluginArgs \<Rightarrow> PluginArgs_v" where
  "Convert_config_To_v1beta3 (ICoscheduling a) = VCoscheduling (Convert_config_CoschedulingArgs_To_v1beta3_CoschedulingArgs a)"
| "Convert_config_To_v1beta3 (ILoadVariationRiskBalancing a) =
     VLoadVariationRiskBalancing (Convert_config_LoadVariationRiskBalancingArgs_To_v1beta3_LoadVariationRiskBalancingArgs a)"
| "Convert_config_To_v1beta3 (ILowRiskOverCommitment a) =
     VLowRiskOverCommitment (Convert_config_LowRiskOverCommitmentArgs_To_v1beta3_LowRiskOverCommitmentArgs a)"
| "Convert_config_To_v1beta3 (INeilats a) = VNeilats (Convert_config_NeilatsRefactorSchedulerArgs_To_v1beta3_NeilatsRefactorSchedulerArgs a)"
| "Convert_config_To_v1beta3 (INetworkOverhead a) = VNetworkOverhead (Convert_config_NetworkOverheadArgs_To_v1beta3_NetworkOverheadArgs a)"
| "Convert_config_To_v1beta3 (INodeResourcesAllocatable a) =
     VNodeResourcesAllocatable (Convert_config_NodeResourcesAllocatableArgs_To_v1beta3_NodeResourcesAllocatableArgs a)"
| "Convert_config_To_v1beta3 (IPreemptionToleration a) =
     VPreemptionToleration (Convert_config_PreemptionTolerationArgs_To_v1beta3_PreemptionTolerationArgs a)"
| "Convert_config_To_v1beta3 (ISySched a) = VSySched (Convert_config_SySchedArgs_To_v1beta3_SySchedArgs a)"
| "Convert_config_To_v1beta3 (ITargetLoadPacking a) =
     VTargetLoadPacking (Convert_config_TargetLoadPackingArgs_To_v1beta3_TargetLoadPackingArgs a)"
| "Convert_config_To_v1beta3 (ITopologicalSort a) = VTopologicalSort (Convert_config_TopologicalSortArgs_To_v1beta3_TopologicalSortArgs a)"
| "Convert_config_To_v1beta3 (INodeResourceTopologyMatch a) =
     VNodeResourceTopologyMatch (Convert_config_NodeResourceTopologyMatchArgs_To_v1beta3_NodeResourceTopologyMatchArgs a)"

definition load_v1beta3 :: "PluginArgs_v \<Rightarrow> PluginArgs option" where
  "load_v1beta3 obj = Convert_v1beta3_To_config (RegisterDefaults_v1beta3 obj)"

section \<open>The two versions\<close>

lemma valid_weight_versions: "valid_weight_v1beta3 = valid_weight"
  by (rule ext) (simp add: valid_weight_v1beta3_def valid_weight_def default_constants_v1beta3 default_constants)

lemma RegisterDefaults_versions: "RegisterDefaults_v1beta3 = RegisterDefaults"
proof
  show "RegisterDefaults_v1beta3 v = RegisterDefaults v" for v
    by (cases v) (simp_all only: RegisterDefaults_v1beta3.simps RegisterDefaults.simps SetDefaults_defs_v1beta3 SetDefaults_defs
        default_constants_v1beta3 default_constants valid_weight_versions)
qed

lemma Convert_versions:
  "Convert_v1beta3_To_config = Convert_v1_To_config" "Convert_config_To_v1beta3 = Convert_config_To_v1"
proof -
  show "Convert_v1beta3_To_config = Convert_v1_To_config"
  proof
    show "Convert_v1beta3_To_config v = Convert_v1_To_config v" for v
      by (cases v) (simp_all only: Convert_v1beta3_To_config.simps Convert_v1_To_config.simps Convert_defs_v1beta3 Convert_defs)
  qed
  show "Convert_config_To_v1beta3 = Convert_config_To_v1"
  proof
    show "Convert_config_To_v1beta3 i = Convert_config_To_v1 i" for i
      by (cases i) (simp_all only: Convert_config_To_v1beta3.simps Convert_config_To_v1.simps Convert_defs_v1beta3 Convert_defs)
  qed
qed

interpretation v1beta3: config_version RegisterDefaults_v1beta3 Convert_v1beta3_To_config Convert_config_To_v1beta3 complete_args
  unfolding RegisterDefaults_versions Convert_versions by (rule v1.config_version_axioms)

text \<open>
  C30. Moving a configuration from version v1beta3 to version v1 changes nothing. Both versions load any
  object to the same arguments, without an error; and arguments loaded from a v1beta3 object, written out
  in either version, load back to themselves in that version.
\<close>

theorem v1beta3_migration:
  "load_v1beta3 v = load_v1 v \<and>
   (\<exists>i. load_v1beta3 v = Some i \<and> load_v1 (Convert_config_To_v1 i) = Some i \<and>
        load_v1beta3 (Convert_config_To_v1beta3 i) = Some i)"
  unfolding load_v1beta3_def load_v1_def
  using v1beta3.load_save_load [of v] by (simp add: RegisterDefaults_versions Convert_versions)

end
