(* ===== verification/Trimaran.thy ===== *)
theory Trimaran
  imports UtilResource ScoreNorm ConfigTypes
begin

text \<open>
  Load-aware scheduling, \<open>pkg/trimaran\<close>: the cache of recently assigned pods (\<open>handler.go\<close>), the collector
  of load watcher metrics (\<open>collector.go\<close>) and the TargetLoadPacking plugin.

  Arguments: the clock, the load watcher's answers, the snapshot of the nodes and \<open>strconv.ParseFloat\<close>.
  Instants are nanoseconds. \<^const>\<open>None\<close> is a panic. Float arithmetic is binary64 with one rounding per
  operation.

  Results: entries of the cache are in the order of their time stamps, what the periodic clean-up
  removes and what it leaves behind, and that TargetLoadPacking packs nodes up to the target
  utilization and spreads above it.
\<close>

section \<open>The cache of assigned pods\<close>

record TPodInfo =
  tpi_Timestamp :: int
  tpi_Pod :: Pod

type_synonym ScheduledPods = "(string, TPodInfo list) gomap"

definition cacheCleanupIntervalMinutes :: int where "cacheCleanupIntervalMinutes = 5"
definition metricsAgentReportingIntervalSeconds :: int where "metricsAgentReportingIntervalSeconds = 60"

definition isAssigned :: "Pod \<Rightarrow> bool" where
  "isAssigned pod = (length (pod_nodeName pod) \<noteq> 0)"

definition updateCache :: "int \<Rightarrow> ScheduledPods \<Rightarrow> Pod \<Rightarrow> ScheduledPods" where
  "updateCache now cache pod =
     (if pod_nodeName pod = [] then cache
      else map_set (pod_nodeName pod)
             (map_getd [] cache (pod_nodeName pod) @ [\<lparr>tpi_Timestamp = now, tpi_Pod = pod\<rparr>]) cache)"

definition OnAdd :: "int \<Rightarrow> ScheduledPods \<Rightarrow> Pod \<Rightarrow> ScheduledPods" where
  "OnAdd now cache pod = updateCache now cache pod"

definition OnUpdate :: "int \<Rightarrow> ScheduledPods \<Rightarrow> Pod \<Rightarrow> Pod \<Rightarrow> ScheduledPods" where
  "OnUpdate now cache oldPod newPod =
     (if pod_nodeName oldPod \<noteq> pod_nodeName newPod then updateCache now cache newPod else cache)"

text \<open>The first entry of the pod is taken out, later ones move up.\<close>

fun delete_pod :: "string \<Rightarrow> TPodInfo list \<Rightarrow> TPodInfo list" where
  "delete_pod uid [] = []"
| "delete_pod uid (v # vs) = (if uid = pod_uid (tpi_Pod v) then vs else v # delete_pod uid vs)"

definition OnDelete :: "ScheduledPods \<Rightarrow> Pod \<Rightarrow> ScheduledPods" where
  "OnDelete cache pod =
     (case map_get cache (pod_nodeName pod) of
        None \<Rightarrow> cache
      | Some infos \<Rightarrow> map_set (pod_nodeName pod) (delete_pod (pod_uid pod) infos) cache)"

text \<open>\<open>sort.Search\<close> on the half-open interval from \<open>i\<close> to \<open>j\<close>.\<close>

function search_from :: "(nat \<Rightarrow> bool) \<Rightarrow> nat \<Rightarrow> nat \<Rightarrow> nat" where
  "search_from f i j =
     (if i < j then let h = (i + j) div 2 in if \<not> f h then search_from f (h + 1) j else search_from f i h else i)"
  by auto
termination by (relation "measure (\<lambda>(f, i, j). j - i)") auto

declare search_from.simps [simp del]

definition sort_Search :: "nat \<Rightarrow> (nat \<Rightarrow> bool) \<Rightarrow> nat" where
  "sort_Search n f = search_from f 0 n"

definition fresh :: "int \<Rightarrow> TPodInfo \<Rightarrow> bool" where
  "fresh curTime info = (tpi_Timestamp info + metricsAgentReportingIntervalSeconds * 1000000000 > curTime)"

text \<open>One iteration of the clean-up: the new entries of a node, \<^const>\<open>None\<close> to delete the node.\<close>

definition cleanup_node :: "int \<Rightarrow> TPodInfo list \<Rightarrow> TPodInfo list option" where
  "cleanup_node curTime cache =
     (let idx = sort_Search (length cache) (\<lambda>i. fresh curTime (cache ! i))
      in if idx = length cache then Some cache
         else (let cache = drop idx cache in if length cache = 0 then None else Some cache))"

definition cleanupCache :: "(string \<Rightarrow> int) \<Rightarrow> ScheduledPods \<Rightarrow> ScheduledPods" where
  "cleanupCache now cache =
     foldl (\<lambda>m (nodeName, entries).
        case cleanup_node (now nodeName) entries of None \<Rightarrow> map_del nodeName m | Some entries' \<Rightarrow> map_set nodeName entries' m) cache cache"

text \<open>The handler's history: timed events, with \<open>isAssigned\<close> as the informer's filter.\<close>

datatype TEvent = TAdd int Pod | TUpdate int Pod Pod | TDelete int Pod | TClean int "string \<Rightarrow> int"

fun te_time :: "TEvent \<Rightarrow> int" where
  "te_time (TAdd t _) = t" | "te_time (TUpdate t _ _) = t" | "te_time (TDelete t _) = t" | "te_time (TClean t _) = t"

fun te_step :: "ScheduledPods \<Rightarrow> TEvent \<Rightarrow> ScheduledPods" where
  "te_step c (TAdd t p) = (if isAssigned p then OnAdd t c p else c)"
| "te_step c (TUpdate t old new) =
     (if isAssigned new then if isAssigned old then OnUpdate t c old new else OnAdd t c new
      else if isAssigned old then OnDelete c old else c)"
| "te_step c (TDelete t p) = (if isAssigned p then OnDelete c p else c)"
| "te_step c (TClean t now) = cleanupCache now c"

section \<open>The collector\<close>

record Metric =
  m_Type :: string
  m_Operator :: string
  m_Value :: gofloat

record WatcherMetrics =
  wm_NodeMetricsMap :: "(string, Metric list) gomap option"
  wm_WindowEnd :: int

definition watcher_CPU :: string where "watcher_CPU = ''CPU''"
definition watcher_Average :: string where "watcher_Average = ''AVG''"
definition watcher_Latest :: string where "watcher_Latest = ''Latest''"

definition checkSpecs :: "TrimaranSpec \<Rightarrow> string option" where
  "checkSpecs spec =
     (let metricProviderType = mp_Type (ts_MetricProvider spec)
      in if ts_WatcherAddress spec = [] \<and>
            \<not> (metricProviderType = KubernetesMetricsServer \<or> metricProviderType = Prometheus \<or> metricProviderType = SignalFx)
         then Some (''invalid MetricProvider.Type, got '' @ metricProviderType) else None)"

definition updateMetrics :: "string + WatcherMetrics \<Rightarrow> WatcherMetrics \<Rightarrow> WatcherMetrics" where
  "updateMetrics answer metrics = (case answer of Inl err \<Rightarrow> metrics | Inr new \<Rightarrow> new)"

definition NewCollector :: "TrimaranSpec \<Rightarrow> string + WatcherMetrics \<Rightarrow> string + WatcherMetrics" where
  "NewCollector spec answer =
     (case checkSpecs spec of
        Some err \<Rightarrow> Inl err
      | None \<Rightarrow> Inr (updateMetrics answer \<lparr>wm_NodeMetricsMap = None, wm_WindowEnd = 0\<rparr>))"

definition GetNodeMetrics :: "WatcherMetrics \<Rightarrow> string \<Rightarrow> Metric list option \<times> WatcherMetrics option" where
  "GetNodeMetrics allMetrics nodeName =
     (case wm_NodeMetricsMap allMetrics of
        None \<Rightarrow> (None, None)
      | Some m \<Rightarrow> (case map_get m nodeName of None \<Rightarrow> (None, Some allMetrics) | Some ms \<Rightarrow> (Some ms, Some allMetrics)))"

section \<open>Target load packing\<close>

text \<open>\<open>math.Round\<close>: half away from zero.\<close>

definition rat_round :: "rat \<Rightarrow> int" where
  "rat_round x = (if x < 0 then - \<lfloor>- x + 1/2\<rfloor> else \<lfloor>x + 1/2\<rfloor>)"

fun f_round :: "gofloat \<Rightarrow> gofloat" where
  "f_round (Fin x) = Fin (of_int (rat_round x))"
| "f_round x = x"

record TLPConfig =
  hostTargetUtilizationPercent :: int64
  requestsMilliCores :: int64
  requestsMultiplier :: gofloat

definition New_TargetLoadPacking ::
  "(string \<Rightarrow> gofloat option) \<Rightarrow> TargetLoadPackingArgs option \<Rightarrow> string + WatcherMetrics \<Rightarrow> string + (TLPConfig \<times> WatcherMetrics)" where
  "New_TargetLoadPacking ParseFloat obj answer =
     (case obj of
        None \<Rightarrow> Inl ''want args to be of type TargetLoadPackingArgs''
      | Some args \<Rightarrow>
          (case NewCollector (tlp_TrimaranSpec args) answer of
             Inl err \<Rightarrow> Inl err
           | Inr collector \<Rightarrow>
               (case ParseFloat (tlp_DefaultRequestsMultiplier args) of
                  None \<Rightarrow> Inl ''unable to parse DefaultRequestsMultiplier''
                | Some multiplier \<Rightarrow>
                    Inr (\<lparr>hostTargetUtilizationPercent = tlp_TargetUtilization args,
                          requestsMilliCores = Quantity_MilliValue (map_getd 0 (case tlp_DefaultRequests args of None \<Rightarrow> [] | Some rl \<Rightarrow> rl) ResourceCPU),
                          requestsMultiplier = multiplier\<rparr>, collector))))"

definition PredictUtilisation :: "TLPConfig \<Rightarrow> Container \<Rightarrow> int64" where
  "PredictUtilisation cfg container =
     (case map_get (ctr_limits container) ResourceCPU of
        Some q \<Rightarrow> Quantity_MilliValue q
      | None \<Rightarrow>
          (case map_get (ctr_requests container) ResourceCPU of
             Some q \<Rightarrow> f_to_int64 (f_round (f_mul binary64 (f_of_int binary64 (sint (Quantity_MilliValue q))) (requestsMultiplier cfg)))
           | None \<Rightarrow> requestsMilliCores cfg))"

definition pod_cpu_usage :: "TLPConfig \<Rightarrow> Pod \<Rightarrow> int64" where
  "pod_cpu_usage cfg pod =
     foldl (\<lambda>usage container. usage + PredictUtilisation cfg container) 0 (pod_containers pod) +
     Quantity_MilliValue (map_getd 0 (pod_overhead pod) ResourceCPU)"

text \<open>The last average or latest CPU metric.\<close>

definition cpu_metric :: "Metric list \<Rightarrow> gofloat option" where
  "cpu_metric metrics =
     foldl (\<lambda>found metric.
        if m_Type metric = watcher_CPU \<and> (m_Operator metric = watcher_Average \<or> m_Operator metric = watcher_Latest)
        then Some (m_Value metric) else found) None metrics"

definition unix :: "int \<Rightarrow> int" where "unix t = t div 1000000000"

text \<open>Pods assigned so recently that the metrics do not show them yet.\<close>

definition missing_usage :: "TLPConfig \<Rightarrow> int \<Rightarrow> TPodInfo list \<Rightarrow> int64" where
  "missing_usage cfg windowEnd infos =
     foldl (\<lambda>missing info.
        if unix (tpi_Timestamp info) > windowEnd \<or>
           (unix (tpi_Timestamp info) \<le> windowEnd \<and> windowEnd - unix (tpi_Timestamp info) < metricsAgentReportingIntervalSeconds)
        then missing + pod_cpu_usage cfg (tpi_Pod info) else missing) 0 infos"

definition predicted_usage :: "gofloat \<Rightarrow> int64 \<Rightarrow> int64 \<Rightarrow> int64 \<Rightarrow> gofloat" where
  "predicted_usage nodeCPUUtilPercent capacity curPodCPUUsage missingCPUUtilMillis =
     (let nodeCPUCapMillis = f_of_int binary64 (sint capacity);
          nodeCPUUtilMillis = f_mul binary64 (f_div binary64 nodeCPUUtilPercent (Fin 100)) nodeCPUCapMillis
      in if \<not> f_eq nodeCPUCapMillis (Fin 0) then
           f_div binary64 (f_mul binary64 (Fin 100)
             (f_add binary64 (f_add binary64 nodeCPUUtilMillis (f_of_int binary64 (sint curPodCPUUsage)))
                (f_of_int binary64 (sint missingCPUUtilMillis)))) nodeCPUCapMillis
         else Fin 0)"

definition packing_score :: "int64 \<Rightarrow> gofloat \<Rightarrow> int64" where
  "packing_score target predictedCPUUsage =
     (let t = f_of_int binary64 (sint target)
      in if f_lt t predictedCPUUsage then
           if f_lt (Fin 100) predictedCPUUsage then MinNodeScore
           else f_to_int64 (f_round (f_div binary64 (f_mul binary64 t (f_sub binary64 (Fin 100) predictedCPUUsage))
                  (f_sub binary64 (Fin 100) t)))
         else f_to_int64 (f_round (f_add binary64
                (f_div binary64 (f_mul binary64 (f_sub binary64 (Fin 100) t) predictedCPUUsage) t) t)))"

text \<open>\<open>getNode\<close> gives the capacity of a node of the snapshot; its object may be absent.\<close>

definition TLP_Score ::
  "TLPConfig \<Rightarrow> (string \<Rightarrow> string + ResourceList option) \<Rightarrow> WatcherMetrics \<Rightarrow> ScheduledPods \<Rightarrow> Pod \<Rightarrow> string \<Rightarrow> (Status + int64) option" where
  "TLP_Score cfg getNode collected cache pod nodeName =
     (case getNode nodeName of
        Inl err \<Rightarrow> Some (Inl (NewStatus Error [''getting node '' @ nodeName @ '' from Snapshot: '' @ err]))
      | Inr node \<Rightarrow>
          (case GetNodeMetrics collected nodeName of
             (Some metrics, Some allMetrics) \<Rightarrow>
               (case cpu_metric metrics of
                  None \<Rightarrow> Some (Inr MinNodeScore)
                | Some nodeCPUUtilPercent \<Rightarrow>
                    (case node of
                       None \<Rightarrow> None
                     | Some capacity \<Rightarrow>
                         Some (Inr (packing_score (hostTargetUtilizationPercent cfg)
                           (predicted_usage nodeCPUUtilPercent (Quantity_MilliValue (map_getd 0 capacity ResourceCPU))
                             (pod_cpu_usage cfg pod)
                             (missing_usage cfg (wm_WindowEnd allMetrics) (map_getd [] cache nodeName)))))))
           | _ \<Rightarrow> Some (Inr MinNodeScore)))"


section \<open>Binary search\<close>

lemma search_from_step:
  "i < j \<Longrightarrow> search_from f i j =
     (if f ((i + j) div 2) then search_from f i ((i + j) div 2) else search_from f ((i + j) div 2 + 1) j)"
  by (subst search_from.simps) (simp add: Let_def)

lemma search_from_stop: "\<not> i < j \<Longrightarrow> search_from f i j = i"
  by (subst search_from.simps) simp

lemma search_from_spec:
  assumes "\<And>a b. a \<le> b \<Longrightarrow> b < n \<Longrightarrow> f a \<Longrightarrow> f b"
    and "i \<le> j" and "j \<le> n" and "\<forall>k < i. \<not> f k" and "\<forall>k. j \<le> k \<and> k < n \<longrightarrow> f k"
  shows "search_from f i j \<le> n \<and> (\<forall>k < search_from f i j. \<not> f k) \<and> (\<forall>k. search_from f i j \<le> k \<and> k < n \<longrightarrow> f k)"
  using assms(2-)
proof (induction "j - i" arbitrary: i j rule: less_induct)
  case less
  show ?case
  proof (cases "i < j")
    case False
    then show ?thesis using less.prems by (simp add: search_from_stop)
  next
    case True
    define h where "h = (i + j) div 2"
    have h: "i \<le> h" "h < j" "h < n" using True less.prems(2) by (simp_all add: h_def)
    show ?thesis
    proof (cases "f h")
      case fh: True
      have above: "\<forall>k. h \<le> k \<and> k < n \<longrightarrow> f k" using assms(1) fh by blast
      show ?thesis
        unfolding search_from_step [OF True] h_def [symmetric] if_P [OF fh]
      proof (rule less.hyps)
        show "h - i < j - i" "i \<le> h" "h \<le> n" using h by linarith+
      qed (fact less.prems(3) above)+
    next
      case nf: False
      have below: "\<forall>k < h + 1. \<not> f k" using assms(1) [of _ h] nf h(3) by (metis Suc_eq_plus1 less_Suc_eq_le)
      show ?thesis
        unfolding search_from_step [OF True] h_def [symmetric] if_not_P [OF nf]
      proof (rule less.hyps)
        show "j - (h + 1) < j - i" "h + 1 \<le> j" using h by linarith+
      qed (fact less.prems(2) below less.prems(4))+
    qed
  qed
qed

lemma sort_Search_spec:
  assumes "\<And>a b. a \<le> b \<Longrightarrow> b < n \<Longrightarrow> f a \<Longrightarrow> f b"
  shows "sort_Search n f \<le> n \<and> (\<forall>k < sort_Search n f. \<not> f k) \<and> (\<forall>k. sort_Search n f \<le> k \<and> k < n \<longrightarrow> f k)"
  unfolding sort_Search_def by (rule search_from_spec [OF assms]) auto

section \<open>What the clean-up does\<close>

lemma drop_as_filter:
  assumes "n \<le> length xs" and "\<forall>k < n. \<not> P (xs ! k)" and "\<forall>k. n \<le> k \<and> k < length xs \<longrightarrow> P (xs ! k)"
  shows "drop n xs = filter P xs"
proof -
  have "filter P (take n xs) = []" using assms(1,2) by (auto simp: filter_empty_conv in_set_conv_nth)
  moreover have "filter P (drop n xs) = drop n xs" using assms(3) by (auto simp: filter_id_conv in_set_conv_nth)
  moreover have "filter P xs = filter P (take n xs) @ filter P (drop n xs)" by (metis append_take_drop_id filter_append)
  ultimately show ?thesis by simp
qed

lemma cleanup_node_sorted:
  assumes "sorted (map tpi_Timestamp es)"
  shows "cleanup_node now es = Some (if list_ex (fresh now) es then filter (fresh now) es else es)"
proof -
  let ?f = "\<lambda>i. fresh now (es ! i)" and ?r = "sort_Search (length es) (\<lambda>i. fresh now (es ! i))"
  have mono: "?f b" if "a \<le> b" "b < length es" "?f a" for a b
    using that sorted_nth_mono [OF assms, of a b] by (simp add: fresh_def)
  have spec: "?r \<le> length es \<and> (\<forall>k < ?r. \<not> ?f k) \<and> (\<forall>k. ?r \<le> k \<and> k < length es \<longrightarrow> ?f k)"
    by (rule sort_Search_spec) (rule mono)
  have "drop ?r es = filter (fresh now) es"
  proof (rule drop_as_filter)
    show "?r \<le> length es" using spec by (rule conjunct1)
    show "\<forall>k < ?r. \<not> ?f k" using spec [THEN conjunct2] by (rule conjunct1)
    show "\<forall>k. ?r \<le> k \<and> k < length es \<longrightarrow> ?f k" using spec [THEN conjunct2] by (rule conjunct2)
  qed
  moreover have "list_ex (fresh now) es \<longleftrightarrow> ?r < length es"
  proof
    assume "list_ex (fresh now) es"
    then obtain k where "k < length es" "?f k" by (auto simp: list_ex_iff in_set_conv_nth)
    then have "\<not> k < ?r" using spec by blast
    with \<open>k < length es\<close> show "?r < length es" by linarith
  next
    assume "?r < length es"
    then have "?f ?r" using spec [THEN conjunct2, THEN conjunct2] by (metis order_refl)
    with \<open>?r < length es\<close> show "list_ex (fresh now) es" unfolding list_ex_iff using nth_mem by metis
  qed
  moreover have "length (drop ?r es) = length es - ?r" by (rule length_drop)
  ultimately show ?thesis using conjunct1 [OF spec]
    by (cases "?r = length es") (simp_all only: cleanup_node_def Let_def refl if_True if_False nat_neq_iff, auto)
qed

lemma map_of_cleanup:
  assumes "wf_map c" and "\<forall>n es. map_of c n = Some es \<longrightarrow> cleanup_node (now n) es = Some (g n es)"
  shows "map_of (cleanupCache now c) n = map_option (g n) (map_of c n) \<and> wf_map (cleanupCache now c)"
proof -
  let ?step = "\<lambda>m (nodeName, entries). case cleanup_node (now nodeName) entries of None \<Rightarrow> map_del nodeName m | Some es \<Rightarrow> map_set nodeName es m"
  have "map_of (foldl ?step m xs) n = (case map_of xs n of None \<Rightarrow> map_of m n | Some es \<Rightarrow> Some (g n es)) \<and> wf_map (foldl ?step m xs)"
    if "wf_map xs" "wf_map m" "\<forall>n es. map_of xs n = Some es \<longrightarrow> cleanup_node (now n) es = Some (g n es)" for xs m
    using that
  proof (induction xs arbitrary: m)
    case (Cons x xs)
    obtain k es where x: "x = (k, es)" by (cases x)
    have wf: "wf_map xs" "map_of xs k = None" using wf_map_ConsD [OF Cons.prems(1)] by (simp_all add: x map_of_absent)
    have hd: "cleanup_node (now k) es = Some (g k es)" using Cons.prems(3) by (simp add: x)
    have "\<forall>n es. map_of xs n = Some es \<longrightarrow> cleanup_node (now n) es = Some (g n es)"
    proof (intro allI impI)
      fix n es'
      assume a: "map_of xs n = Some es'"
      then have "n \<noteq> k" using wf(2) by auto
      with a Cons.prems(3) show "cleanup_node (now n) es' = Some (g n es')" by (simp add: x)
    qed
    with Cons.IH [OF wf(1), of "map_set k (g k es) m"] Cons.prems(2) wf(2) show ?case
      by (auto simp: x hd map_of_set split: option.splits)
  qed simp
  from this [OF assms(1) assms(1) assms(2)] show ?thesis by (auto simp: cleanupCache_def split: option.splits)
qed

definition cache_inv :: "int \<Rightarrow> ScheduledPods \<Rightarrow> bool" where
  "cache_inv t c \<longleftrightarrow> wf_map c \<and> (\<forall>n es. map_of c n = Some es \<longrightarrow> sorted (map tpi_Timestamp es) \<and> (\<forall>e \<in> set es. tpi_Timestamp e \<le> t))"

lemma delete_pod_sublist: "subseq (delete_pod uid es) es"
  by (induction es) auto

lemma sorted_subseq: "subseq xs ys \<Longrightarrow> sorted (map f ys) \<Longrightarrow> sorted (map f xs)"
  by (metis subseq_conv_nths nths_map sorted_nths)

lemma cache_inv_le: "cache_inv t c \<Longrightarrow> t \<le> t' \<Longrightarrow> cache_inv t' c"
  unfolding cache_inv_def by fastforce

lemma cache_inv_set:
  "cache_inv t c \<Longrightarrow> sorted (map tpi_Timestamp es) \<Longrightarrow> \<forall>e \<in> set es. tpi_Timestamp e \<le> t \<Longrightarrow> cache_inv t (map_set n es c)"
  unfolding cache_inv_def by (auto simp: map_of_set)

lemma cache_inv_update: "cache_inv t c \<Longrightarrow> cache_inv t (updateCache t c pod)"
proof -
  assume inv: "cache_inv t c"
  define es where "es = map_getd [] c (pod_nodeName pod)"
  have "sorted (map tpi_Timestamp es) \<and> (\<forall>e \<in> set es. tpi_Timestamp e \<le> t)"
    using inv by (auto simp: es_def map_getd_def cache_inv_def split: option.splits)
  then show ?thesis unfolding updateCache_def es_def [symmetric] using inv by (auto intro!: cache_inv_set simp: sorted_append)
qed

lemma cache_inv_delete: "cache_inv t c \<Longrightarrow> cache_inv t (OnDelete c pod)"
proof (cases "map_of c (pod_nodeName pod)")
  case (Some es)
  assume inv: "cache_inv t c"
  have "sorted (map tpi_Timestamp (delete_pod (pod_uid pod) es))"
    by (rule sorted_subseq [OF delete_pod_sublist]) (use inv Some in \<open>simp add: cache_inv_def\<close>)
  moreover have "\<forall>e \<in> set (delete_pod (pod_uid pod) es). tpi_Timestamp e \<le> t"
    using inv Some delete_pod_sublist [of "pod_uid pod" es] by (fastforce simp: cache_inv_def elim: list_emb_set)
  ultimately show ?thesis using cache_inv_set [OF inv] by (simp add: OnDelete_def Some)
qed (simp add: OnDelete_def)

lemma cache_inv_cleanup:
  assumes "cache_inv t c"
  shows "map_of (cleanupCache now c) n =
      map_option (\<lambda>es. if list_ex (fresh (now n)) es then filter (fresh (now n)) es else es) (map_of c n)"
    and "cache_inv t (cleanupCache now c)"
proof -
  let ?g = "\<lambda>n es. if list_ex (fresh (now n)) es then filter (fresh (now n)) es else es"
  have c: "wf_map c" "\<forall>n es. map_of c n = Some es \<longrightarrow> cleanup_node (now n) es = Some (?g n es)"
    using assms cleanup_node_sorted by (auto simp: cache_inv_def)
  note look = map_of_cleanup [OF c]
  then show "map_of (cleanupCache now c) n = map_option (\<lambda>es. if list_ex (fresh (now n)) es then filter (fresh (now n)) es else es) (map_of c n)"
    by blast
  show "cache_inv t (cleanupCache now c)"
    using look assms by (auto simp: cache_inv_def sorted_filter)
qed

lemma cache_inv_step: "cache_inv t c \<Longrightarrow> t \<le> te_time e \<Longrightarrow> cache_inv (te_time e) (te_step c e)"
proof -
  assume "cache_inv t c" "t \<le> te_time e"
  then have "cache_inv (te_time e) c" by (rule cache_inv_le)
  then show ?thesis
    by (cases e) (auto simp: OnAdd_def OnUpdate_def cache_inv_update cache_inv_delete cache_inv_cleanup(2))
qed

lemma cache_inv_run:
  assumes "sorted (map te_time es)" and "\<forall>e \<in> set es. te_time e \<le> t"
  shows "cache_inv t (foldl te_step [] es)"
proof -
  have "cache_inv t (foldl te_step c es)" if "cache_inv t0 c" "sorted (map te_time es)" "\<forall>e \<in> set es. t0 \<le> te_time e \<and> te_time e \<le> t" "t0 \<le> t" for t0 c
    using that
  proof (induction es arbitrary: t0 c)
    case Nil
    then show ?case using cache_inv_le by auto
  next
    case (Cons e es)
    have "cache_inv (te_time e) (te_step c e)" using cache_inv_step Cons.prems(1,3) by auto
    then show ?case using Cons.IH [of "te_time e"] Cons.prems by auto
  qed
  moreover have "cache_inv (Min (insert t (te_time ` set es))) []" by (simp add: cache_inv_def)
  ultimately show ?thesis using assms by (auto simp: Min_le_iff)
qed

text \<open>
  What the periodic clean-up removes. After any history of pod events and clean-ups in the order of
  the clock, a clean-up keeps for a node with at least one recent assignment exactly the recent ones;
  but a node whose assignments are all older than the reporting interval keeps every one of them, and
  no node is ever dropped from the cache, although both are what the clean-up is for.
\<close>

theorem cleanup_keeps_stale_nodes:
  assumes "sorted (map te_time es)"
  shows "map_of (cleanupCache now (foldl te_step [] es)) n =
    (case map_of (foldl te_step [] es) n of
       None \<Rightarrow> None
     | Some entries \<Rightarrow>
         Some (if list_ex (fresh (now n)) entries then filter (fresh (now n)) entries else entries))"
proof -
  have "\<forall>e \<in> set es. te_time e \<le> Max (insert 0 (te_time ` set es))" by simp
  from cache_inv_cleanup(1) [OF cache_inv_run [OF assms this]] show ?thesis by (simp split: option.splits)
qed

definition demo_history :: "TEvent list" where
  "demo_history = [TAdd 0 demo_pod, TAdd (30 * 10 ^ 9) (demo_pod\<lparr>pod_uid := ''u2'', pod_nodeName := ''n2''\<rparr>),
     TUpdate (40 * 10 ^ 9) (demo_pod\<lparr>pod_uid := ''u3'', pod_nodeName := []\<rparr>) (demo_pod\<lparr>pod_uid := ''u3'', pod_nodeName := ''n2''\<rparr>)]"

theorem cleanup_keeps_stale_nodes_witness:
  "map_option (map (pod_uid \<circ> tpi_Pod)) (map_of (cleanupCache (\<lambda>_. 95 * 10 ^ 9) (foldl te_step [] demo_history)) ''n2'') = Some [''u3''] \<and>
   map_option (map (pod_uid \<circ> tpi_Pod)) (map_of (cleanupCache (\<lambda>_. 200 * 10 ^ 9) (foldl te_step [] demo_history)) ''n2'') = Some [''u2'', ''u3'']"
proof -
  have "sorted (map te_time demo_history)" by (simp add: demo_history_def)
  note run = cleanup_keeps_stale_nodes [OF this]
  have "map_of (foldl te_step [] demo_history) ''n2'' =
     Some [\<lparr>tpi_Timestamp = 30 * 10 ^ 9, tpi_Pod = demo_pod\<lparr>pod_uid := ''u2'', pod_nodeName := ''n2''\<rparr>\<rparr>,
           \<lparr>tpi_Timestamp = 40 * 10 ^ 9, tpi_Pod = demo_pod\<lparr>pod_uid := ''u3'', pod_nodeName := ''n2''\<rparr>\<rparr>]"
    by (simp add: demo_history_def isAssigned_def OnAdd_def updateCache_def demo_pod_def map_getd_def)
  then show ?thesis by (simp add: run fresh_def metricsAgentReportingIntervalSeconds_def)
qed

section \<open>Packing up to the target\<close>

lemma rat_round_mono: "0 \<le> x \<Longrightarrow> x \<le> y \<Longrightarrow> rat_round x \<le> rat_round y"
  by (simp add: rat_round_def floor_mono)

lemma rat_round_of_int [simp]: "rat_round (of_int m) = m"
  unfolding rat_round_def by (simp add: floor_unique)

lemma to_int64_round:
  assumes "0 \<le> c" "c \<le> 100"
  shows "sint (f_to_int64 (f_round (Fin c))) = rat_round c"
proof -
  have "0 \<le> rat_round c" "rat_round c \<le> 100"
    using rat_round_mono [of 0 c] rat_round_mono [of c 100] rat_round_of_int [of 0] rat_round_of_int [of 100] assms by simp_all
  then show ?thesis by (simp add: rat_trunc_def in_int64_def sint_of_int64)
qed

abbreviation rnd :: "rat \<Rightarrow> rat" where "rnd \<equiv> round_to binary64"

lemma fl64_between_int:
  assumes "of_int l \<le> x" "x \<le> of_int h" "0 \<le> l" "h \<le> 2 ^ 52"
  shows "fl binary64 x = Fin (rnd x) \<and> of_int l \<le> rnd x \<and> rnd x \<le> of_int h"
proof (rule fl64_between)
  have "l \<le> h" using assms(1,2) by (metis of_int_le_iff order_trans)
  then have b: "\<bar>l\<bar> \<le> 2 ^ 52" "\<bar>h\<bar> \<le> 2 ^ 52" using assms by linarith+
  show "rnd (of_int l) = of_int l" "rnd (of_int h) = of_int h" using b by (simp_all add: round_to_int64_exact)
  have "\<bar>(of_int m :: rat)\<bar> \<le> 2 ^ 100" if "\<bar>m\<bar> \<le> 2 ^ 52" for m
  proof -
    have "of_int \<bar>m\<bar> \<le> (of_int (2 ^ 52) :: rat)" using that by (simp only: of_int_le_iff)
    also have "\<dots> \<le> 2 ^ 100" by simp
    finally show ?thesis by simp
  qed
  then show "\<bar>(of_int l :: rat)\<bar> \<le> 2 ^ 100" "\<bar>(of_int h :: rat)\<bar> \<le> 2 ^ 100" using b by blast+
qed (use assms in simp_all)

definition below_target :: "int \<Rightarrow> rat \<Rightarrow> rat" where
  "below_target t x = rnd (rnd (rnd ((100 - of_int t) * x) / of_int t) + of_int t)"

definition above_target :: "int \<Rightarrow> rat \<Rightarrow> rat" where
  "above_target t x = rnd (rnd (of_int t * rnd (100 - x)) / (100 - of_int t))"

lemma f_sub_100:
  assumes "1 \<le> t" "t \<le> 100"
  shows "f_sub binary64 (Fin 100) (Fin (of_int t)) = Fin (100 - of_int t)"
  using fl64_of_int [of "100 - t"] assms by (simp add: f_sub_def)

lemma packing_below:
  assumes "sint target = t" "1 \<le> t" "t \<le> 100" "0 \<le> x" "x \<le> of_int t"
  shows "sint (packing_score target (Fin x)) = rat_round (below_target t x) \<and>
    of_int t \<le> below_target t x \<and> below_target t x \<le> 100"
proof -
  define a where "a = rnd ((100 - of_int t) * x)"
  define b where "b = rnd (a / of_int t)"
  have t: "(1 :: rat) \<le> of_int t" "of_int t \<le> (100 :: rat)" using assms(2,3) by simp_all
  have tt: "f_of_int binary64 t = Fin (of_int t)" using f64_of_int assms(2,3) by simp
  have "(100 - of_int t) * x \<le> (of_int ((100 - t) * t) :: rat)" using assms(5) t by (simp add: mult_left_mono)
  moreover have "(100 - t) * t \<le> 100 * 100" using assms(2,3) by (intro mult_mono) auto
  ultimately have a: "fl binary64 ((100 - of_int t) * x) = Fin a \<and> 0 \<le> a \<and> a \<le> of_int ((100 - t) * t)"
    using fl64_between_int [of 0 "(100 - of_int t) * x" "(100 - t) * t"] t assms(4) by (simp add: a_def)
  then have "a / of_int t \<le> of_int (100 - t)" using t by (simp add: divide_le_eq)
  then have b: "fl binary64 (a / of_int t) = Fin b \<and> 0 \<le> b \<and> b \<le> 100 - of_int t"
    using fl64_between_int [of 0 "a / of_int t" "100 - t"] a t assms(2,3) by (simp add: b_def)
  have c: "fl binary64 (b + of_int t) = Fin (below_target t x) \<and> of_int t \<le> below_target t x \<and> below_target t x \<le> 100"
    using fl64_between_int [of t "b + of_int t" 100] b assms(2,3) by (simp add: below_target_def b_def a_def)
  have "packing_score target (Fin x) = f_to_int64 (f_round (Fin (below_target t x)))"
    using assms(1,5) a b c t f_sub_100 [OF assms(2,3)]
    by (simp add: packing_score_def Let_def tt f_lt_def f_eq_def)
  then show ?thesis using c t to_int64_round [of "below_target t x"] by simp
qed

lemma packing_above:
  assumes "sint target = t" "1 \<le> t" "t < 100" "of_int t < x" "x \<le> 100"
  shows "sint (packing_score target (Fin x)) = rat_round (above_target t x) \<and>
    0 \<le> above_target t x \<and> above_target t x \<le> of_int t"
proof -
  define a where "a = rnd (100 - x)"
  define b where "b = rnd (of_int t * a)"
  have t: "(1 :: rat) \<le> of_int t" "of_int t < (100 :: rat)" using assms(2,3) by simp_all
  have tt: "f_of_int binary64 t = Fin (of_int t)" using f64_of_int assms(2,3) by simp
  have a: "fl binary64 (100 - x) = Fin a \<and> 0 \<le> a \<and> a \<le> of_int (100 - t)"
    using fl64_between_int [of 0 "100 - x" "100 - t"] assms by (simp add: a_def)
  have "of_int t * a \<le> of_int (t * (100 - t))" using a t by (simp add: mult_left_mono)
  moreover have "t * (100 - t) \<le> 100 * 100" using assms(2,3) by (intro mult_mono) auto
  ultimately have b: "fl binary64 (of_int t * a) = Fin b \<and> 0 \<le> b \<and> b \<le> of_int (t * (100 - t))"
    using fl64_between_int [of 0 "of_int t * a" "t * (100 - t)"] a t by (simp add: b_def)
  then have "b / (100 - of_int t) \<le> of_int t" using t by (simp add: divide_le_eq)
  then have c: "fl binary64 (b / (100 - of_int t)) = Fin (above_target t x) \<and> 0 \<le> above_target t x \<and> above_target t x \<le> of_int t"
    using fl64_between_int [of 0 "b / (100 - of_int t)" t] b t assms(2,3) by (simp add: above_target_def b_def a_def)
  have "packing_score target (Fin x) = f_to_int64 (f_round (Fin (above_target t x)))"
    using assms(1,4,5) a b c t f_sub_100 [of t] assms(2,3)
    by (simp add: packing_score_def Let_def tt f_lt_def f_eq_def f_sub_def)
  then show ?thesis using c t to_int64_round [of "above_target t x"] by simp
qed

lemma packing_overloaded:
  assumes "sint target = t" "1 \<le> t" "t \<le> 100" "100 < x"
  shows "packing_score target (Fin x) = MinNodeScore"
proof -
  have "of_int t \<le> (100 :: rat)" using assms(3) by simp
  then have "of_int t < x" using assms(4) by linarith
  then show ?thesis using assms f64_of_int [of t] by (simp add: packing_score_def Let_def f_lt_def f_eq_def)
qed

lemma below_target_mono:
  "1 \<le> t \<Longrightarrow> t \<le> 100 \<Longrightarrow> x \<le> y \<Longrightarrow> below_target t x \<le> below_target t y"
  unfolding below_target_def by (intro round_to_mono add_right_mono divide_right_mono mult_left_mono) (auto simp: binary64_def)

lemma above_target_antimono:
  "1 \<le> t \<Longrightarrow> t \<le> 100 \<Longrightarrow> x \<le> y \<Longrightarrow> above_target t y \<le> above_target t x"
  unfolding above_target_def by (intro round_to_mono divide_right_mono mult_left_mono) (auto simp: binary64_def)

text \<open>The usage predicted for a node, where the node, its metrics and its CPU metric are there.\<close>

definition node_prediction ::
  "TLPConfig \<Rightarrow> (string \<Rightarrow> string + ResourceList option) \<Rightarrow> WatcherMetrics \<Rightarrow> ScheduledPods \<Rightarrow> Pod \<Rightarrow> string \<Rightarrow> gofloat option" where
  "node_prediction cfg getNode collected cache pod nodeName =
     (case getNode nodeName of
        Inr (Some capacity) \<Rightarrow>
          (case GetNodeMetrics collected nodeName of
             (Some metrics, Some allMetrics) \<Rightarrow>
               map_option (\<lambda>u. predicted_usage u (Quantity_MilliValue (map_getd 0 capacity ResourceCPU)) (pod_cpu_usage cfg pod)
                   (missing_usage cfg (wm_WindowEnd allMetrics) (map_getd [] cache nodeName)))
                 (cpu_metric metrics)
           | _ \<Rightarrow> None)
      | _ \<Rightarrow> None)"

lemma TLP_Score_prediction:
  "node_prediction cfg getNode collected cache pod n = Some p \<Longrightarrow>
   TLP_Score cfg getNode collected cache pod n = Some (Inr (packing_score (hostTargetUtilizationPercent cfg) p))"
  by (auto simp: node_prediction_def TLP_Score_def split: sum.splits option.splits prod.splits)

lemma packing_ranges:
  assumes "sint target = t" "1 \<le> t" "t \<le> 100" "0 \<le> x"
  shows "x \<le> of_int t \<Longrightarrow> t \<le> sint (packing_score target (Fin x)) \<and> sint (packing_score target (Fin x)) \<le> 100"
    and "of_int t < x \<Longrightarrow> 0 \<le> sint (packing_score target (Fin x)) \<and> sint (packing_score target (Fin x)) \<le> t"
proof -
  have t: "(1 :: rat) \<le> of_int t" using assms(2) by simp
  show "t \<le> sint (packing_score target (Fin x)) \<and> sint (packing_score target (Fin x)) \<le> 100" if "x \<le> of_int t"
    using packing_below [OF assms that] t rat_round_mono [of "of_int t" "below_target t x"] rat_round_mono [of "below_target t x" 100]
      rat_round_of_int [of 100] by auto
  show "0 \<le> sint (packing_score target (Fin x)) \<and> sint (packing_score target (Fin x)) \<le> t" if above: "of_int t < x"
  proof (cases "x \<le> 100")
    case True
    then have "(of_int t :: rat) < 100" using above by linarith
    then have "t < 100" by simp
    from packing_above [OF assms(1,2) this above True] show ?thesis
      using rat_round_mono [of 0 "above_target t x"] rat_round_mono [of "above_target t x" "of_int t"] rat_round_of_int [of 0] by auto
  next
    case False
    then show ?thesis using packing_overloaded [OF assms(1-3)] assms(2) by (simp add: MinNodeScore_def)
  qed
qed

lemma packing_mono_below:
  assumes "sint target = t" "1 \<le> t" "t \<le> 100" "0 \<le> x" "x \<le> y" "y \<le> of_int t"
  shows "sint (packing_score target (Fin x)) \<le> sint (packing_score target (Fin y))"
proof -
  have "x \<le> of_int t" "0 \<le> y" using assms(4-6) by linarith+
  note xy = packing_below [OF assms(1-4) this(1)] packing_below [OF assms(1-3) this(2) assms(6)]
  have "(0 :: rat) \<le> of_int t" using assms(2) by simp
  then have "0 \<le> below_target t x" using xy(1) by linarith
  then show ?thesis using xy rat_round_mono below_target_mono [OF assms(2,3,5)] by simp
qed

lemma packing_antimono_above:
  assumes "sint target = t" "1 \<le> t" "t \<le> 100" "of_int t < x" "x \<le> y"
  shows "sint (packing_score target (Fin y)) \<le> sint (packing_score target (Fin x))"
proof (cases "y \<le> 100")
  case True
  have "(of_int t :: rat) < 100" "of_int t < y" "x \<le> 100" using True assms(4,5) by linarith+
  then have y: "t < 100" "of_int t < y" "x \<le> 100" by simp_all
  note xy = packing_above [OF assms(1,2) y(1) assms(4) y(3)] packing_above [OF assms(1,2) y(1,2) True]
  then show ?thesis using rat_round_mono above_target_antimono [OF assms(2,3,5)] by simp
next
  case False
  have "(0 :: rat) \<le> of_int t" using assms(2) by simp
  then have "0 \<le> x" using assms(4) by linarith
  from packing_ranges(2) [OF assms(1-3) this assms(4)] show ?thesis
    using False packing_overloaded [OF assms(1-3)] by (simp add: MinNodeScore_def)
qed

text \<open>
  C26. TargetLoadPacking packs up to the target utilization and spreads above it. For a target between
  1 and 100 and two nodes of which the second is predicted to be at least as busy as the first, both get
  a score from 0 to 100; when both stay at or below the target the busier one scores at least as high;
  when both exceed it the busier one scores at most as high; and a node at or below the target scores at
  least the target, one above it at most the target. This holds for the double precision arithmetic of
  the code, roundings included.
\<close>

theorem TLP_packs_to_target:
  assumes "node_prediction cfg getNode collected cache pod n1 = Some (Fin p1)"
    and "node_prediction cfg getNode collected cache pod n2 = Some (Fin p2)"
    and "0 \<le> p1" and "p1 \<le> p2" and "t = sint (hostTargetUtilizationPercent cfg)" and "1 \<le> t" and "t \<le> 100"
  shows "\<exists>s1 s2. TLP_Score cfg getNode collected cache pod n1 = Some (Inr s1) \<and>
      TLP_Score cfg getNode collected cache pod n2 = Some (Inr s2) \<and>
      0 \<le> sint s1 \<and> sint s1 \<le> 100 \<and> 0 \<le> sint s2 \<and> sint s2 \<le> 100 \<and>
      (p2 \<le> of_int t \<longrightarrow> sint s1 \<le> sint s2) \<and> (of_int t < p1 \<longrightarrow> sint s2 \<le> sint s1) \<and>
      (p1 \<le> of_int t \<longrightarrow> t \<le> sint s1) \<and> (of_int t < p2 \<longrightarrow> sint s2 \<le> t)"
proof -
  let ?s = "\<lambda>p. packing_score (hostTargetUtilizationPercent cfg) (Fin p)"
  note a = assms(5) [symmetric] assms(6,7)
  have range: "0 \<le> sint (?s p) \<and> sint (?s p) \<le> 100 \<and> (p \<le> of_int t \<longrightarrow> t \<le> sint (?s p)) \<and> (of_int t < p \<longrightarrow> sint (?s p) \<le> t)"
    if "0 \<le> p" for p
    using packing_ranges [OF a that] assms(6,7) by (cases "p \<le> of_int t") auto
  have "TLP_Score cfg getNode collected cache pod n1 = Some (Inr (?s p1))"
    "TLP_Score cfg getNode collected cache pod n2 = Some (Inr (?s p2))"
    using assms(1,2) by (simp_all add: TLP_Score_prediction)
  moreover have "p2 \<le> of_int t \<longrightarrow> sint (?s p1) \<le> sint (?s p2)" using packing_mono_below [OF a assms(3,4)] by blast
  moreover have "of_int t < p1 \<longrightarrow> sint (?s p2) \<le> sint (?s p1)" using packing_antimono_above [OF a _ assms(4)] by blast
  moreover have "0 \<le> p2" using assms(3,4) by linarith
  ultimately show ?thesis using range [OF assms(3)] range [of p2] by blast
qed

definition demo_tlp :: TLPConfig where
  "demo_tlp = \<lparr>hostTargetUtilizationPercent = 40, requestsMilliCores = 1000, requestsMultiplier = Fin (3 / 2)\<rparr>"

definition demo_watch :: WatcherMetrics where
  "demo_watch = \<lparr>wm_NodeMetricsMap = Some [(''n1'', [\<lparr>m_Type = watcher_CPU, m_Operator = watcher_Average, m_Value = Fin 25\<rparr>]),
      (''n2'', [\<lparr>m_Type = watcher_CPU, m_Operator = watcher_Latest, m_Value = Fin 50\<rparr>])], wm_WindowEnd = 1000\<rparr>"

definition demo_nodes :: "string \<Rightarrow> string + ResourceList option" where
  "demo_nodes n = Inr (Some [(ResourceCPU, 8 * 10 ^ 9)])"

definition demo_cpu_pod :: Pod where
  "demo_cpu_pod = demo_pod\<lparr>pod_containers := [\<lparr>ctr_requests = [], ctr_limits = [(ResourceCPU, 10 ^ 9)]\<rparr>]\<rparr>"

lemma demo_prediction_values:
  "predicted_usage (Fin 25) 8000 1000 0 = Fin (75 / 2)" "predicted_usage (Fin 50) 8000 1000 0 = Fin (125 / 2)"
proof -
  have dyadic: "fl binary64 (1 / 4) = Fin (1 / 4)" "fl binary64 (1 / 2) = Fin (1 / 2)"
    "fl binary64 (75 / 2) = Fin (75 / 2)" "fl binary64 (125 / 2) = Fin (125 / 2)"
    using fl64_dyadic [of 1 2] fl64_dyadic [of 1 1] fl64_dyadic [of 75 1] fl64_dyadic [of 125 1] by simp_all
  have fl: "fl binary64 (numeral m) = Fin (numeral m)" if "numeral m \<le> (2 ^ 52 :: int)" for m
    using fl64_of_int [of "numeral m"] that by simp
  show "predicted_usage (Fin 25) 8000 1000 0 = Fin (75 / 2)" "predicted_usage (Fin 50) 8000 1000 0 = Fin (125 / 2)"
    using f64_of_int [of 0] by (simp_all add: predicted_usage_def Let_def f64_of_int dyadic fl f_eq_def)
qed

lemma demo_prediction:
  "node_prediction demo_tlp demo_nodes demo_watch [] demo_cpu_pod n =
     (if n = ''n1'' then Some (Fin (75 / 2)) else if n = ''n2'' then Some (Fin (125 / 2)) else None)"
proof -
  have "pod_cpu_usage demo_tlp demo_cpu_pod = 1000"
    by (simp add: pod_cpu_usage_def demo_cpu_pod_def demo_pod_def PredictUtilisation_def Quantity_MilliValue_def round_away_def map_getd_def)
  then show ?thesis
    by (simp add: node_prediction_def demo_nodes_def demo_watch_def GetNodeMetrics_def cpu_metric_def missing_usage_def
        watcher_CPU_def watcher_Average_def watcher_Latest_def Quantity_MilliValue_def round_away_def map_getd_def demo_prediction_values)
qed

theorem TLP_packs_to_target_witness:
  "\<exists>s1 s2. TLP_Score demo_tlp demo_nodes demo_watch [] demo_cpu_pod ''n1'' = Some (Inr s1) \<and>
     TLP_Score demo_tlp demo_nodes demo_watch [] demo_cpu_pod ''n2'' = Some (Inr s2) \<and> sint s2 \<le> 40 \<and> 40 \<le> sint s1"
proof -
  have t: "hostTargetUtilizationPercent demo_tlp = 40" by (simp add: demo_tlp_def)
  show ?thesis
    using TLP_packs_to_target [of demo_tlp demo_nodes demo_watch "[]" demo_cpu_pod "''n1''" "75 / 2" "''n2''" "125 / 2" 40]
    by (auto simp: demo_prediction t)
qed

end
