(* ===== verification/TrimaranRisk.thy ===== *)
theory TrimaranRisk
  imports Trimaran FrameworkNode
begin

text \<open>
  The two risk-aware plugins of \<open>pkg/trimaran\<close>: the statistics they share (\<open>resourcestats.go\<close>),
  LoadVariationRiskBalancing and LowRiskOverCommitment with its beta distribution (\<open>beta.go\<close>).

  Arguments: \<open>math.Pow\<close>, \<open>math.Sqrt\<close>, the incomplete beta function of gonum, the load watcher and the
  snapshot. Float arithmetic is binary64. \<^const>\<open>None\<close> is a panic.

  Results: both plugins score within the framework's range, whatever the special functions return in the
  second case; a busier node never scores higher under load variation balancing; and a pod that requests
  a scalar resource without limiting any makes the second plugin panic.
\<close>

section \<open>Resource statistics\<close>

definition MegaFactor :: gofloat where "MegaFactor = Fin (1 / 1048576)"

definition watcher_Memory :: string where "watcher_Memory = ''Memory''"
definition watcher_Std :: string where "watcher_Std = ''STD''"

record ResourceStats =
  UsedAvg :: gofloat
  UsedStdev :: gofloat
  rst_Req :: gofloat
  rst_Capacity :: gofloat

definition resource_data_step :: "string \<Rightarrow> (gofloat \<times> gofloat \<times> bool \<times> bool) \<Rightarrow> Metric \<Rightarrow> (gofloat \<times> gofloat \<times> bool \<times> bool)" where
  "resource_data_step resourceType acc metric =
     (case acc of (avg, stDev, avgFound, isValid) \<Rightarrow>
        if m_Type metric = resourceType then
          if m_Operator metric = watcher_Average then (m_Value metric, stDev, True, True)
          else if m_Operator metric = watcher_Std then (avg, m_Value metric, avgFound, True)
          else if (m_Operator metric = [] \<or> m_Operator metric = watcher_Latest) \<and> \<not> avgFound
          then (m_Value metric, stDev, avgFound, True)
          else (avg, stDev, avgFound, True)
        else acc)"

definition GetResourceData :: "Metric list \<Rightarrow> string \<Rightarrow> gofloat \<times> gofloat \<times> bool" where
  "GetResourceData metrics resourceType =
     (case foldl (resource_data_step resourceType) (Fin 0, Fin 0, False, False) metrics of
        (avg, stDev, avgFound, isValid) \<Rightarrow> (avg, stDev, isValid))"

text \<open>\<open>allocatable\<close> are the node's allocatable resources.\<close>

definition CreateResourceStats ::
  "Metric list \<Rightarrow> ResourceList \<Rightarrow> Resource \<Rightarrow> string \<Rightarrow> string \<Rightarrow> ResourceStats option" where
  "CreateResourceStats metrics allocatable podRequest resourceName watcherType =
     (let (nodeUtil, nodeStd, metricFound) = GetResourceData metrics watcherType
      in if \<not> metricFound then None
         else let am = map_getd 0 allocatable resourceName;
                  (capacity, req) =
                    (if resourceName = ResourceCPU
                     then (f_of_int binary64 (sint (Quantity_MilliValue am)), f_of_int binary64 (sint (MilliCPU podRequest)))
                     else (f_mul binary64 (f_of_int binary64 (sint (Quantity_Value am))) MegaFactor,
                           f_mul binary64 (f_of_int binary64 (sint (Memory podRequest))) MegaFactor))
              in Some \<lparr>UsedAvg = f_div binary64 (f_mul binary64 nodeUtil capacity) (Fin 100),
                       UsedStdev = f_div binary64 (f_mul binary64 nodeStd capacity) (Fin 100),
                       rst_Req = req, rst_Capacity = capacity\<rparr>)"

definition GetMuSigma :: "ResourceStats \<Rightarrow> gofloat \<times> gofloat" where
  "GetMuSigma rs =
     (if f_le (rst_Capacity rs) (Fin 0) then (Fin 0, Fin 0)
      else let mu = f_div binary64 (f_add binary64 (UsedAvg rs) (rst_Req rs)) (rst_Capacity rs);
               mu = f_max (f_min mu (Fin 1)) (Fin 0);
               sigma = f_div binary64 (UsedStdev rs) (rst_Capacity rs);
               sigma = f_max (f_min sigma (Fin 1)) (Fin 0)
           in (mu, sigma))"

definition setMin :: "int64 \<Rightarrow> int64 \<Rightarrow> int64" where "setMin x y = (if slt y x then y else x)"
definition setMax :: "int64 \<Rightarrow> int64 \<Rightarrow> int64" where "setMax x y = (if slt x y then y else x)"

definition init_max_step :: "Resource \<Rightarrow> string \<times> Quantity \<Rightarrow> Resource" where
  "init_max_step r e =
     (case e of (rName, rQuantity) \<Rightarrow>
        if rName = ResourceCPU then r\<lparr>MilliCPU := setMax (MilliCPU r) (Quantity_MilliValue rQuantity)\<rparr>
        else if rName = ResourceMemory then r\<lparr>Memory := setMax (Memory r) (Quantity_Value rQuantity)\<rparr>
        else r)"

definition GetEffectiveResource :: "Pod \<Rightarrow> (Container \<Rightarrow> ResourceList) \<Rightarrow> Resource" where
  "GetEffectiveResource pod fn =
     (let result = foldl (\<lambda>r container. Resource_Add r (fn container)) empty_Resource (pod_containers pod);
          result = foldl (\<lambda>r container. foldl init_max_step r (fn container)) result (pod_initContainers pod)
      in Resource_Add result (pod_overhead pod))"

definition GetResourceRequested :: "Pod \<Rightarrow> Resource" where
  "GetResourceRequested pod = GetEffectiveResource pod ctr_requests"

definition GetResourceLimits :: "Pod \<Rightarrow> Resource" where
  "GetResourceLimits pod = GetEffectiveResource pod ctr_limits"

text \<open>
  The scalar limits are written into the map of the limits, which is nil when no scalar resource is
  limited; a write to a nil map panics. The map is nil exactly when it is empty.
\<close>

definition scalar_limit_step :: "Resource \<Rightarrow> string \<times> int64 \<Rightarrow> Resource option" where
  "scalar_limit_step limits e =
     (case e of (k, v) \<Rightarrow>
        if slt (map_getd 0 (ScalarResources limits) k) v then
          if ScalarResources limits = [] then None
          else Some (limits\<lparr>ScalarResources := map_set k v (ScalarResources limits)\<rparr>)
        else Some limits)"

definition SetMaxLimits :: "Resource \<Rightarrow> Resource \<Rightarrow> Resource option" where
  "SetMaxLimits requests limits =
     (let limits = limits\<lparr>MilliCPU := setMax (MilliCPU limits) (MilliCPU requests)\<rparr>;
          limits = limits\<lparr>Memory := setMax (Memory limits) (Memory requests)\<rparr>;
          limits = limits\<lparr>EphemeralStorage := setMax (EphemeralStorage limits) (EphemeralStorage requests)\<rparr>;
          limits = (if slt (AllowedPodNumber limits) (AllowedPodNumber requests)
                    then limits\<lparr>AllowedPodNumber := AllowedPodNumber requests\<rparr> else limits)
      in foldM scalar_limit_step limits (ScalarResources requests))"

record NodeRequestsAndLimits =
  NodeRequest :: Resource
  NodeLimit :: Resource
  NodeRequestMinusPod :: Resource
  NodeLimitMinusPod :: Resource
  Nodecapacity :: Resource

definition accumulate :: "Resource \<times> Resource \<Rightarrow> Resource \<times> Resource \<Rightarrow> Resource \<times> Resource" where
  "accumulate acc rl =
     (case (acc, rl) of ((nodeRequest, nodeLimit), (requested, limits)) \<Rightarrow>
        (nodeRequest\<lparr>MilliCPU := MilliCPU nodeRequest + MilliCPU requested, Memory := Memory nodeRequest + Memory requested\<rparr>,
         nodeLimit\<lparr>MilliCPU := MilliCPU nodeLimit + MilliCPU limits, Memory := Memory nodeLimit + Memory limits\<rparr>))"

definition node_pod_step :: "Resource \<times> Resource \<Rightarrow> Pod \<Rightarrow> (Resource \<times> Resource) option" where
  "node_pod_step acc p =
     (case SetMaxLimits (GetResourceRequested p) (GetResourceLimits p) of
        None \<Rightarrow> None
      | Some limits \<Rightarrow> Some (accumulate acc (GetResourceRequested p, limits)))"

text \<open>The pending pod comes last and is not one of the pods on the node.\<close>

definition GetNodeRequestsAndLimits ::
  "Pod list \<Rightarrow> ResourceList \<Rightarrow> Resource \<Rightarrow> Resource \<Rightarrow> NodeRequestsAndLimits option" where
  "GetNodeRequestsAndLimits podsOnNode allocatable podRequests podLimits =
     (let capCpu = Quantity_MilliValue (map_getd 0 allocatable ResourceCPU);
          capMem = Quantity_Value (map_getd 0 allocatable ResourceMemory);
          cap = (\<lambda>r. r\<lparr>MilliCPU := setMin (MilliCPU r) capCpu, Memory := setMin (Memory r) capMem\<rparr>)
      in case foldM node_pod_step (empty_Resource, empty_Resource) podsOnNode of
           None \<Rightarrow> None
         | Some (requestMinusPod, limitMinusPod) \<Rightarrow>
             (case accumulate (requestMinusPod, limitMinusPod) (podRequests, podLimits) of (nodeRequest, nodeLimit) \<Rightarrow>
                Some \<lparr>NodeRequest = cap nodeRequest, NodeLimit = nodeLimit,
                      NodeRequestMinusPod = cap requestMinusPod, NodeLimitMinusPod = limitMinusPod,
                      Nodecapacity = empty_Resource\<lparr>MilliCPU := capCpu, Memory := capMem\<rparr>\<rparr>))"

section \<open>Load variation risk balancing\<close>

definition computeScore :: "(gofloat \<Rightarrow> gofloat \<Rightarrow> gofloat) \<Rightarrow> ResourceStats \<Rightarrow> gofloat \<Rightarrow> gofloat \<Rightarrow> gofloat" where
  "computeScore pow rs margin sensitivity =
     (if f_le (rst_Capacity rs) (Fin 0) then Fin 0
      else let rs = rs\<lparr>rst_Req := f_max (rst_Req rs) (Fin 0)\<rparr>;
               rs = rs\<lparr>UsedAvg := f_max (f_min (UsedAvg rs) (rst_Capacity rs)) (Fin 0)\<rparr>;
               rs = rs\<lparr>UsedStdev := f_max (f_min (UsedStdev rs) (rst_Capacity rs)) (Fin 0)\<rparr>;
               (mu, sigma) = GetMuSigma rs;
               sigma = (if f_le (Fin 0) sensitivity then pow sigma (f_div binary64 (Fin 1) sensitivity) else sigma);
               sigma = f_mul binary64 sigma margin;
               sigma = f_max (f_min sigma (Fin 1)) (Fin 0);
               risk = f_div binary64 (f_add binary64 mu sigma) (Fin 2)
           in f_mul binary64 (f_sub binary64 (Fin 1) risk) (f_of_int binary64 (sint MaxNodeScore)))"

definition New_LoadVariationRiskBalancing ::
  "LoadVariationRiskBalancingArgs option \<Rightarrow> string + WatcherMetrics \<Rightarrow> string + (LoadVariationRiskBalancingArgs \<times> WatcherMetrics)" where
  "New_LoadVariationRiskBalancing obj answer =
     (case obj of
        None \<Rightarrow> Inl ''want args to be of type LoadVariationRiskBalancingArgs''
      | Some args \<Rightarrow>
          (case NewCollector (lvr_TrimaranSpec args) answer of Inl err \<Rightarrow> Inl err | Inr collector \<Rightarrow> Inr (args, collector)))"

text \<open>\<open>getNode\<close> gives the pods and the allocatable resources of a node of the snapshot; its object may be absent.\<close>

definition LVRB_Score ::
  "(gofloat \<Rightarrow> gofloat \<Rightarrow> gofloat) \<Rightarrow> LoadVariationRiskBalancingArgs \<Rightarrow> (string \<Rightarrow> string + Pod list \<times> ResourceList option) \<Rightarrow>
   WatcherMetrics \<Rightarrow> Pod \<Rightarrow> string \<Rightarrow> (Status + int64) option" where
  "LVRB_Score pow args getNode collected pod nodeName =
     (case getNode nodeName of
        Inl err \<Rightarrow> Some (Inl (NewStatus Error [''getting node '' @ nodeName @ '' from Snapshot: '' @ err]))
      | Inr (_, node) \<Rightarrow>
          (case fst (GetNodeMetrics collected nodeName) of
             None \<Rightarrow> Some (Inr MinNodeScore)
           | Some metrics \<Rightarrow>
               (let podRequest = GetResourceRequested pod;
                    stats = (\<lambda>resource watched.
                      case node of
                        None \<Rightarrow> if snd (snd (GetResourceData metrics watched)) then None else Some None
                      | Some allocatable \<Rightarrow> Some (CreateResourceStats metrics allocatable podRequest resource watched));
                    score = (\<lambda>st. case st of None \<Rightarrow> Fin 0
                      | Some rs \<Rightarrow> computeScore pow rs (lvr_SafeVarianceMargin args) (lvr_SafeVarianceSensitivity args))
                in case (stats ResourceCPU watcher_CPU, stats ResourceMemory watcher_Memory) of
                     (Some cpuStats, Some memoryStats) \<Rightarrow>
                       (let total = (if cpuStats \<noteq> None \<and> memoryStats \<noteq> None
                                     then f_min (score memoryStats) (score cpuStats)
                                     else f_max (score memoryStats) (score cpuStats))
                        in Some (Inr (f_to_int64 (f_round total))))
                   | _ \<Rightarrow> None)))"

section \<open>The beta distribution\<close>

record BetaDistribution =
  bd_alpha :: gofloat
  bd_beta :: gofloat
  bd_isValid :: bool
  bd_firstMoment :: gofloat
  bd_secondMoment :: gofloat
  bd_thirdMoment :: gofloat

definition checkValidity :: "gofloat \<Rightarrow> gofloat \<Rightarrow> bool" where
  "checkValidity alpha beta \<longleftrightarrow> f_lt (Fin 0) alpha \<and> f_lt (Fin 0) beta"

definition computeMoments :: "BetaDistribution \<Rightarrow> BetaDistribution \<times> bool" where
  "computeMoments b =
     (if \<not> bd_isValid b then (b, False)
      else let ab = f_add binary64 (bd_alpha b) (bd_beta b);
               b = b\<lparr>bd_firstMoment := f_div binary64 (bd_alpha b) ab\<rparr>;
               b = b\<lparr>bd_secondMoment := f_div binary64 (f_mul binary64 (bd_firstMoment b) (f_add binary64 (bd_alpha b) (Fin 1)))
                                         (f_add binary64 ab (Fin 1))\<rparr>;
               b = b\<lparr>bd_thirdMoment := f_div binary64 (f_mul binary64 (bd_secondMoment b) (f_add binary64 (bd_alpha b) (Fin 2)))
                                        (f_add binary64 ab (Fin 2))\<rparr>
           in (b, True))"

definition NewBetaDistribution :: "gofloat \<Rightarrow> gofloat \<Rightarrow> BetaDistribution option" where
  "NewBetaDistribution alpha beta =
     (if \<not> checkValidity alpha beta then None
      else Some (fst (computeMoments \<lparr>bd_alpha = alpha, bd_beta = beta, bd_isValid = True,
                        bd_firstMoment = Fin 0, bd_secondMoment = Fin 0, bd_thirdMoment = Fin 0\<rparr>)))"

definition SmallestNonzeroFloat64 :: gofloat where "SmallestNonzeroFloat64 = Fin (2 powi (- 1074))"

definition MatchMoments :: "BetaDistribution \<Rightarrow> gofloat \<Rightarrow> gofloat \<Rightarrow> BetaDistribution \<times> bool" where
  "MatchMoments b m1 m2 =
     (let variance = f_sub binary64 m2 (f_mul binary64 m1 m1);
          bound = f_mul binary64 m1 (f_sub binary64 (Fin 1) m1)
      in if f_lt m1 (Fin 0) \<or> f_lt (Fin 1) m1 \<or> f_lt variance (Fin 0) \<or> f_le bound variance then (b, False)
         else let temp = f_sub binary64 (f_div binary64 bound variance) (Fin 1);
                  temp = f_max temp SmallestNonzeroFloat64
              in computeMoments (b\<lparr>bd_alpha := f_mul binary64 m1 temp,
                                   bd_beta := f_mul binary64 (f_sub binary64 (Fin 1) m1) temp\<rparr>))"

definition GetMaxVariance :: "gofloat \<Rightarrow> gofloat" where
  "GetMaxVariance m1 =
     (if f_lt (Fin 0) m1 \<and> f_lt m1 (Fin 1) then f_mul binary64 m1 (f_sub binary64 (Fin 1) m1) else Fin 0)"

definition RegularizedIncomplete :: "(gofloat \<Rightarrow> gofloat \<Rightarrow> gofloat \<Rightarrow> gofloat) \<Rightarrow> gofloat \<Rightarrow> gofloat \<Rightarrow> gofloat \<Rightarrow> gofloat" where
  "RegularizedIncomplete RegIncBeta x a b =
     (if f_le a (Fin 0) \<or> f_le b (Fin 0) \<or> f_lt x (Fin 0) \<or> f_lt (Fin 1) x then NaN
      else if f_eq x (Fin 0) then Fin 0 else if f_eq x (Fin 1) then Fin 1 else RegIncBeta a b x)"

definition DistributionFunction :: "(gofloat \<Rightarrow> gofloat \<Rightarrow> gofloat \<Rightarrow> gofloat) \<Rightarrow> BetaDistribution \<Rightarrow> gofloat \<Rightarrow> gofloat" where
  "DistributionFunction RegIncBeta b x =
     (let p = RegularizedIncomplete RegIncBeta x (bd_alpha b) (bd_beta b)
      in if p = NaN \<or> f_lt p (Fin 0) \<or> f_lt (Fin 1) p then Fin 0 else p)"

text \<open>The constructor cannot fail on the parameters 1 and 1; a nil distribution would panic.\<close>

definition ComputeProbability ::
  "(gofloat \<Rightarrow> gofloat \<Rightarrow> gofloat \<Rightarrow> gofloat) \<Rightarrow> gofloat \<Rightarrow> gofloat \<Rightarrow> gofloat \<Rightarrow> (gofloat \<times> BetaDistribution option) option" where
  "ComputeProbability RegIncBeta mu sigma threshold =
     (if f_eq mu (Fin 0) \<or> (f_eq sigma (Fin 0) \<and> f_le mu threshold) then Some (Fin 1, None)
      else if f_eq sigma (Fin 0) \<and> f_lt threshold mu then Some (Fin 0, None)
      else let m2 = f_add binary64 (f_mul binary64 sigma sigma) (f_mul binary64 mu mu)
           in case NewBetaDistribution (Fin 1) (Fin 1) of
                None \<Rightarrow> None
              | Some betaDist \<Rightarrow>
                  (case MatchMoments betaDist mu m2 of
                     (_, False) \<Rightarrow> Some (Fin 0, None)
                   | (betaDist, True) \<Rightarrow>
                       (let belowLimit = DistributionFunction RegIncBeta betaDist threshold
                        in if belowLimit = NaN then Some (Fin 1, Some betaDist) else Some (belowLimit, Some betaDist))))"

section \<open>Low risk overcommitment\<close>

record PodResourcesStateData =
  podRequests :: Resource
  podLimits :: Resource

definition MaxVarianceAllowance :: gofloat where "MaxVarianceAllowance = fl binary64 (99 / 100)"

record LowRiskOverCommitment =
  lroc_args :: LowRiskOverCommitmentArgs
  riskLimitWeightsMap :: "(string, gofloat) gomap"

definition New_LowRiskOverCommitment ::
  "LowRiskOverCommitmentArgs option \<Rightarrow> string + WatcherMetrics \<Rightarrow> string + (LowRiskOverCommitment \<times> WatcherMetrics)" where
  "New_LowRiskOverCommitment obj answer =
     (case obj of
        None \<Rightarrow> Inl ''want args to be of type LowRiskOverCommitmentArgs''
      | Some args \<Rightarrow>
          (case NewCollector (lro_TrimaranSpec args) answer of
             Inl err \<Rightarrow> Inl err
           | Inr collector \<Rightarrow>
               Inr (\<lparr>lroc_args = args,
                     riskLimitWeightsMap = foldl (\<lambda>m (r, w). map_set r w m)
                       (map_set ResourceMemory (Fin (1 / 2)) (map_set ResourceCPU (Fin (1 / 2)) [])) (lro_RiskLimitWeights args)\<rparr>,
                    collector)))"

definition CreatePodResourcesStateData :: "Pod \<Rightarrow> PodResourcesStateData option" where
  "CreatePodResourcesStateData pod =
     (case SetMaxLimits (GetResourceRequested pod) (GetResourceLimits pod) of
        None \<Rightarrow> None
      | Some limits \<Rightarrow> Some \<lparr>podRequests = GetResourceRequested pod, podLimits = limits\<rparr>)"

definition PodResourcesKey :: string where "PodResourcesKey = ''LowRiskOverCommitment.PodResources''"

definition LROC_PreScore :: "PodResourcesStateData CycleState \<Rightarrow> Pod \<Rightarrow> PodResourcesStateData CycleState option" where
  "LROC_PreScore cycleState pod =
     (case CreatePodResourcesStateData pod of
        None \<Rightarrow> None
      | Some d \<Rightarrow> Some (CycleState_Write cycleState PodResourcesKey d))"

definition getPreScoreState :: "PodResourcesStateData CycleState \<Rightarrow> PodResourcesStateData option" where
  "getPreScoreState cycleState = CycleState_Read cycleState PodResourcesKey"

record SpecialFunctions =
  math_Pow :: "gofloat \<Rightarrow> gofloat \<Rightarrow> gofloat"
  math_Sqrt :: "gofloat \<Rightarrow> gofloat"
  gonum_RegIncBeta :: "gofloat \<Rightarrow> gofloat \<Rightarrow> gofloat \<Rightarrow> gofloat"

text \<open>The part of the measured load that exceeds what is allocated.\<close>

definition riskLoad :: "SpecialFunctions \<Rightarrow> int64 \<Rightarrow> ResourceStats \<Rightarrow> int64 \<Rightarrow> int64 \<Rightarrow> int64 \<Rightarrow> gofloat option" where
  "riskLoad sf windowSize stats requestMinusPod limitMinusPod capacity =
     (let (mu, sigma) = GetMuSigma stats;
          sigma = f_mul binary64 sigma (math_Pow sf (f_of_int binary64 (sint windowSize)) (Fin (1 / 2)));
          sigma = f_min sigma (math_Sqrt sf (f_mul binary64 (GetMaxVariance mu) MaxVarianceAllowance));
          allocThreshold = f_div binary64 (f_of_int binary64 (sint requestMinusPod)) (f_of_int binary64 (sint capacity));
          allocThreshold = f_min (f_max allocThreshold (Fin 0)) (Fin 1)
      in case ComputeProbability (gonum_RegIncBeta sf) mu sigma allocThreshold of
           None \<Rightarrow> None
         | Some (allocProb, fitDistribution) \<Rightarrow>
             (let allocProb =
                (if slt limitMinusPod capacity \<and> sle requestMinusPod limitMinusPod then
                   let limitThreshold = f_div binary64 (f_of_int binary64 (sint limitMinusPod)) (f_of_int binary64 (sint capacity))
                   in if f_eq limitThreshold (Fin 0) then Fin 1
                      else (case fitDistribution of
                              None \<Rightarrow> allocProb
                            | Some d \<Rightarrow>
                                (let limitProb = DistributionFunction (gonum_RegIncBeta sf) d limitThreshold
                                 in if f_lt (Fin 0) limitProb
                                    then f_min (f_max (f_div binary64 allocProb limitProb) (Fin 0)) (Fin 1) else allocProb))
                 else allocProb)
              in Some (f_sub binary64 (Fin 1) allocProb)))"

definition riskLimit :: "int64 \<Rightarrow> int64 \<Rightarrow> int64 \<Rightarrow> gofloat" where
  "riskLimit limit capacity request =
     (if slt capacity limit
      then f_div binary64 (f_of_int binary64 (sint (limit - capacity))) (f_of_int binary64 (sint (limit - request))) else Fin 0)"

definition computeRisk ::
  "SpecialFunctions \<Rightarrow> LowRiskOverCommitment \<Rightarrow> Metric list \<Rightarrow> string \<Rightarrow> string \<Rightarrow> ResourceList \<Rightarrow> NodeRequestsAndLimits \<Rightarrow> gofloat option" where
  "computeRisk sf pl metrics resourceName resourceType allocatable nrl =
     (if resourceName \<noteq> ResourceCPU \<and> resourceName \<noteq> ResourceMemory then Some (Fin 0)
      else let get = (if resourceName = ResourceCPU then MilliCPU else Memory);
               request = get (NodeRequest nrl);
               limit = get (NodeLimit nrl);
               requestMinusPod = get (NodeRequestMinusPod nrl);
               limitMinusPod = get (NodeLimitMinusPod nrl);
               capacity = get (Nodecapacity nrl);
               load = (case CreateResourceStats metrics allocatable empty_Resource resourceName resourceType of
                         None \<Rightarrow> Some (Fin 0)
                       | Some stats \<Rightarrow>
                           riskLoad sf (lro_SmoothingWindowSize (lroc_args pl)) stats requestMinusPod limitMinusPod capacity);
               w = map_getd (Fin 0) (riskLimitWeightsMap pl) resourceName
           in case load of
                None \<Rightarrow> None
              | Some l \<Rightarrow>
                  (let totalRisk = f_add binary64 (f_mul binary64 w (riskLimit limit capacity request))
                                     (f_mul binary64 (f_sub binary64 (Fin 1) w) l)
                   in Some (f_min (f_max totalRisk (Fin 0)) (Fin 1))))"

definition computeRank ::
  "SpecialFunctions \<Rightarrow> LowRiskOverCommitment \<Rightarrow> Metric list \<Rightarrow> Pod list \<Rightarrow> ResourceList \<Rightarrow> Resource \<Rightarrow> Resource \<Rightarrow> gofloat option" where
  "computeRank sf pl metrics podsOnNode allocatable podReq podLim =
     (case GetNodeRequestsAndLimits podsOnNode allocatable podReq podLim of
        None \<Rightarrow> None
      | Some nrl \<Rightarrow>
          (case (computeRisk sf pl metrics ResourceCPU watcher_CPU allocatable nrl,
                 computeRisk sf pl metrics ResourceMemory watcher_Memory allocatable nrl) of
             (Some riskCPU, Some riskMemory) \<Rightarrow> Some (f_sub binary64 (Fin 1) (f_max riskCPU riskMemory))
           | _ \<Rightarrow> None))"

definition LROC_Score ::
  "SpecialFunctions \<Rightarrow> LowRiskOverCommitment \<Rightarrow> (string \<Rightarrow> string + Pod list \<times> ResourceList option) \<Rightarrow> WatcherMetrics \<Rightarrow>
   PodResourcesStateData CycleState \<Rightarrow> Pod \<Rightarrow> string \<Rightarrow> (Status + int64) option" where
  "LROC_Score sf pl getNode collected cycleState pod nodeName =
     (case (case getPreScoreState cycleState of Some d \<Rightarrow> Some d | None \<Rightarrow> CreatePodResourcesStateData pod) of
        None \<Rightarrow> None
      | Some podResources \<Rightarrow>
          (let req = podRequests podResources; lim = podLimits podResources
           in if MilliCPU req = 0 \<and> Memory req = 0 \<and> MilliCPU lim = 0 \<and> Memory lim = 0 then Some (Inr MinNodeScore)
              else (case getNode nodeName of
                      Inl err \<Rightarrow> Some (Inl (NewStatus Error [''getting node '' @ nodeName @ '' from Snapshot: '' @ err]))
                    | Inr (podsOnNode, node) \<Rightarrow>
                        (case fst (GetNodeMetrics collected nodeName) of
                           None \<Rightarrow> Some (Inr MinNodeScore)
                         | Some metrics \<Rightarrow>
                             (case node of
                                None \<Rightarrow> None
                              | Some allocatable \<Rightarrow>
                                  (case computeRank sf pl metrics podsOnNode allocatable req lim of
                                     None \<Rightarrow> None
                                   | Some rank \<Rightarrow>
                                       Some (Inr (f_to_int64 (f_round (f_mul binary64 rank (f_of_int binary64 (sint MaxNodeScore))))))))))))"

section \<open>Low risk overcommitment stays in range\<close>

abbreviation unit :: "gofloat \<Rightarrow> bool" where "unit x \<equiv> f_upto 0 x x"

lemma DistributionFunction_unit: "unit (DistributionFunction B b x)"
proof -
  let ?p = "RegularizedIncomplete B x (bd_alpha b) (bd_beta b)"
  have "unit ?p" if "\<not> (?p = NaN \<or> f_lt ?p (Fin 0) \<or> f_lt (Fin 1) ?p)"
    using that by (cases ?p) (auto simp: f_lt_def f_eq_def)
  then show ?thesis by (simp add: DistributionFunction_def Let_def)
qed

lemma ComputeProbability_unit: "\<exists>p d. ComputeProbability B mu sigma x = Some (p, d) \<and> unit p"
proof -
  have "NewBetaDistribution (Fin 1) (Fin 1) \<noteq> None" by (simp add: NewBetaDistribution_def checkValidity_def f_lt_def f_eq_def)
  then show ?thesis
    using DistributionFunction_unit by (auto simp: ComputeProbability_def Let_def split: prod.split bool.split)
qed

lemma riskLoad_unit: "\<exists>l. riskLoad sf w stats r m c = Some l \<and> unit l"
proof -
  obtain mu sigma where ms: "GetMuSigma stats = (mu, sigma)" by (cases "GetMuSigma stats")
  define t where "t = f_min (f_max (f_div binary64 (f_of_int binary64 (sint r)) (f_of_int binary64 (sint c))) (Fin 0)) (Fin 1)"
  define s where "s = f_min (f_mul binary64 sigma (math_Pow sf (f_of_int binary64 (sint w)) (Fin (1 / 2))))
      (math_Sqrt sf (f_mul binary64 (GetMaxVariance mu) MaxVarianceAllowance))"
  obtain p d where cp: "ComputeProbability (gonum_RegIncBeta sf) mu s t = Some (p, d)" "unit p"
    using ComputeProbability_unit by blast
  have div: "f_div binary64 p q \<noteq> NaN" if "unit q" "f_lt (Fin 0) q" for q
    using that cp(2) by (auto elim!: uptoE simp: f_lt_def f_eq_def)
  define p' where "p' = (if slt m c \<and> sle r m then
       let limitThreshold = f_div binary64 (f_of_int binary64 (sint m)) (f_of_int binary64 (sint c))
       in if f_eq limitThreshold (Fin 0) then Fin 1
          else (case d of None \<Rightarrow> p | Some d \<Rightarrow>
                  (let limitProb = DistributionFunction (gonum_RegIncBeta sf) d limitThreshold
                   in if f_lt (Fin 0) limitProb then f_min (f_max (f_div binary64 p limitProb) (Fin 0)) (Fin 1) else p))
       else p)"
  have "unit p'"
    unfolding p'_def Let_def
    using cp(2) clamp_unit(1) [OF div [OF DistributionFunction_unit]] by (simp split: option.split)
  then have "unit (f_sub binary64 (Fin 1) p')" by (rule upto_one_minus)
  then show ?thesis by (simp add: riskLoad_def ms cp(1) Let_def p'_def t_def [symmetric] s_def [symmetric])
qed

lemma riskLimit_unit:
  assumes "0 \<le> sint request" "sint request \<le> sint capacity"
  shows "unit (riskLimit limit capacity request)"
proof (cases "slt capacity limit")
  case True
  have hi: "sint limit < 2 ^ 63" using sint_lt [of limit] by simp
  have d: "sint (limit - capacity) = sint limit - sint capacity" "sint (limit - request) = sint limit - sint request"
    using True assms hi by (simp_all add: sint_diff64 in_int64_def slt_def)
  obtain c where c: "f_of_int binary64 (sint limit - sint request) = Fin c" "1 \<le> c"
    using of_int_pos [of "sint limit - sint request"] True assms hi by (auto simp: slt_def)
  have "f_upto 63 (f_of_int binary64 (sint limit - sint capacity)) (f_of_int binary64 (sint limit - sint request))"
    using True assms hi by (intro upto_of_int) (simp_all add: slt_def)
  then obtain a where a: "f_of_int binary64 (sint limit - sint capacity) = Fin a" "0 \<le> a" "a \<le> c"
    using c by (auto elim!: uptoE)
  have "a / c \<le> 1" using a c by simp
  then show ?thesis
    using True a c fl64_upto [of "a / c" "a / c" 0] by (simp add: riskLimit_def d)
qed (simp add: riskLimit_def)

lemma weighted_unit:
  assumes "unit w" "unit a" "unit b"
  shows "unit (f_min (f_max (f_add binary64 (f_mul binary64 w a) (f_mul binary64 (f_sub binary64 (Fin 1) w) b)) (Fin 0)) (Fin 1))"
proof (rule clamp_unit)
  have "f_upto (Suc (0 + 0)) (f_add binary64 (f_mul binary64 w a) (f_mul binary64 (f_sub binary64 (Fin 1) w) b))
      (f_add binary64 (f_mul binary64 w a) (f_mul binary64 (f_sub binary64 (Fin 1) w) b))"
    using assms by (intro upto_add upto_mul upto_one_minus) auto
  then show "f_add binary64 (f_mul binary64 w a) (f_mul binary64 (f_sub binary64 (Fin 1) w) b) \<noteq> NaN"
    by (auto elim!: uptoE)
qed

lemma computeRisk_unit:
  assumes "res = ResourceCPU \<and> get = MilliCPU \<or> res = ResourceMemory \<and> get = Memory"
    and "unit (map_getd (Fin 0) (riskLimitWeightsMap pl) res)"
    and "0 \<le> sint (get (NodeRequest nrl))" "sint (get (NodeRequest nrl)) \<le> sint (get (Nodecapacity nrl))"
  shows "\<exists>x. computeRisk sf pl metrics res ty alloc nrl = Some x \<and> unit x"
proof -
  have g: "(if res = ResourceCPU then MilliCPU else Memory) = get" "res = ResourceCPU \<or> res = ResourceMemory"
    using assms(1) by (auto simp: resource_name_defs)
  have "\<exists>l. (case CreateResourceStats metrics alloc empty_Resource res ty of
      None \<Rightarrow> Some (Fin 0)
    | Some stats \<Rightarrow> riskLoad sf (lro_SmoothingWindowSize (lroc_args pl)) stats (get (NodeRequestMinusPod nrl))
        (get (NodeLimitMinusPod nrl)) (get (Nodecapacity nrl))) = Some l \<and> unit l"
    using riskLoad_unit by (cases "CreateResourceStats metrics alloc empty_Resource res ty") simp_all
  then obtain l where l: "(case CreateResourceStats metrics alloc empty_Resource res ty of
      None \<Rightarrow> Some (Fin 0)
    | Some stats \<Rightarrow> riskLoad sf (lro_SmoothingWindowSize (lroc_args pl)) stats (get (NodeRequestMinusPod nrl))
        (get (NodeLimitMinusPod nrl)) (get (Nodecapacity nrl))) = Some l" "unit l" by blast
  have "\<not> (res \<noteq> ResourceCPU \<and> res \<noteq> ResourceMemory)" using g(2) by blast
  then show ?thesis
    using weighted_unit [OF assms(2) riskLimit_unit [OF assms(3,4)] l(2)]
    unfolding computeRisk_def Let_def g(1) l(1) by simp
qed

section \<open>Totals of a node\<close>

lemma scalar_limits_written:
  "ScalarResources limits \<noteq> [] \<Longrightarrow> \<exists>limits'. foldM scalar_limit_step limits rs = Some limits'"
proof (induction rs arbitrary: limits)
  case (Cons e rs)
  have "map_set k v (ScalarResources limits) \<noteq> []" for k v using Cons.prems by (cases "ScalarResources limits") auto
  with Cons.prems Cons.IH show ?case by (cases e) (simp add: scalar_limit_step_def)
qed simp

lemma SetMaxLimits_panics:
  "SetMaxLimits requests limits = None \<longleftrightarrow>
     ScalarResources limits = [] \<and> (\<exists>(k, v) \<in> set (ScalarResources requests). 0 < sint v)"
proof (cases "ScalarResources limits = []")
  case False
  then show ?thesis using scalar_limits_written unfolding SetMaxLimits_def Let_def
    by (auto simp: option.expand)
next
  case True
  have "foldM scalar_limit_step l rs = None \<longleftrightarrow> (\<exists>(k, v) \<in> set rs. 0 < sint v)" if "ScalarResources l = []" for l rs
    using that by (induction rs) (auto simp: scalar_limit_step_def slt_def map_getd_def)
  then show ?thesis using True by (simp add: SetMaxLimits_def Let_def)
qed

text \<open>The total request of a resource, which has to stay within an \<open>int64\<close>.\<close>

definition total_request :: "(Resource \<Rightarrow> int64) \<Rightarrow> Pod list \<Rightarrow> int" where
  "total_request get pods = (\<Sum>p \<leftarrow> pods. sint (get (GetResourceRequested p)))"

definition limits_present :: "Pod \<Rightarrow> bool" where
  "limits_present p \<longleftrightarrow> SetMaxLimits (GetResourceRequested p) (GetResourceLimits p) \<noteq> None"

lemma node_totals:
  assumes "list_all limits_present pods" and "get = MilliCPU \<or> get = Memory"
    and "list_all (\<lambda>p. 0 \<le> sint (get (GetResourceRequested p))) pods"
    and "0 \<le> sint (get (fst acc))" and "sint (get (fst acc)) + total_request get pods < 2 ^ 63"
  shows "\<exists>r l. foldM node_pod_step acc pods = Some (r, l) \<and> sint (get r) = sint (get (fst acc)) + total_request get pods"
  using assms(1,3-5)
proof (induction pods arbitrary: acc)
  case (Cons p pods)
  obtain l where l: "SetMaxLimits (GetResourceRequested p) (GetResourceLimits p) = Some l"
    using Cons.prems(1) by (auto simp: limits_present_def)
  let ?x = "sint (get (GetResourceRequested p))" and ?acc = "accumulate acc (GetResourceRequested p, l)"
  have "0 \<le> total_request get pods" using Cons.prems(2) unfolding total_request_def
    by (intro sum_list_nonneg) (auto simp: list_all_iff)
  then have "in_int64 (sint (get (fst acc)) + ?x)" using Cons.prems by (simp add: in_int64_def total_request_def)
  moreover have "get (fst ?acc) = get (fst acc) + get (GetResourceRequested p)"
    using assms(2) by (cases acc) (auto simp: accumulate_def)
  ultimately have a: "sint (get (fst ?acc)) = sint (get (fst acc)) + ?x" by (simp add: sint_add64)
  then have ih: "\<exists>r l. foldM node_pod_step ?acc pods = Some (r, l) \<and> sint (get r) = sint (get (fst ?acc)) + total_request get pods"
    using Cons.prems by (intro Cons.IH) (simp_all add: total_request_def)
  have "node_pod_step acc p = Some ?acc" by (simp add: node_pod_step_def l)
  with ih show ?case by (simp add: a total_request_def add.assoc)
next
  case Nil
  then show ?case by (cases acc) (simp add: total_request_def)
qed

lemma node_requests_capped:
  assumes "list_all limits_present pods" and "get = MilliCPU \<or> get = Memory"
    and "list_all (\<lambda>p. 0 \<le> sint (get (GetResourceRequested p))) (pod # pods)" and "total_request get (pod # pods) < 2 ^ 63"
    and "GetNodeRequestsAndLimits pods alloc (GetResourceRequested pod) limits = Some nrl" and "0 \<le> sint (get (Nodecapacity nrl))"
  shows "0 \<le> sint (get (NodeRequest nrl))" and "sint (get (NodeRequest nrl)) \<le> sint (get (Nodecapacity nrl))"
proof -
  let ?x = "sint (get (GetResourceRequested pod))"
  have z: "sint (get empty_Resource) = 0" using assms(2) by (auto simp: empty_Resource_def)
  have nn: "0 \<le> ?x" using assms(3) by simp
  have "\<exists>r l. foldM node_pod_step (empty_Resource, empty_Resource) pods = Some (r, l) \<and>
      sint (get r) = sint (get (fst (empty_Resource, empty_Resource))) + total_request get pods"
    using assms nn by (intro node_totals) (simp_all add: z total_request_def)
  then obtain r l where rl: "foldM node_pod_step (empty_Resource, empty_Resource) pods = Some (r, l)"
    "sint (get r) = total_request get pods" by (auto simp: z)
  have "0 \<le> total_request get pods" using assms(3) unfolding total_request_def
    by (intro sum_list_nonneg) (auto simp: list_all_iff)
  then have s: "sint (get r + get (GetResourceRequested pod)) = total_request get (pod # pods)" "0 \<le> total_request get (pod # pods)"
    using assms(4) nn by (simp_all add: sint_add64 in_int64_def rl(2) total_request_def)
  have req: "get (NodeRequest nrl) = setMin (get r + get (GetResourceRequested pod)) (get (Nodecapacity nrl))"
    using assms(2,5) by (auto simp: GetNodeRequestsAndLimits_def Let_def rl(1) accumulate_def)
  then show "0 \<le> sint (get (NodeRequest nrl))" and "sint (get (NodeRequest nrl)) \<le> sint (get (Nodecapacity nrl))"
    using assms(6) s by (simp_all add: setMin_def slt_def)
qed

lemma to_int64_round_mono:
  assumes "0 \<le> x" "x \<le> y" "y \<le> 100"
  shows "0 \<le> sint (f_to_int64 (f_round (Fin x))) \<and> sint (f_to_int64 (f_round (Fin x))) \<le> sint (f_to_int64 (f_round (Fin y))) \<and>
    sint (f_to_int64 (f_round (Fin y))) \<le> 100"
proof -
  have "x \<le> 100" "0 \<le> y" using assms by linarith+
  note i = to_int64_round [OF assms(1) this(1)] to_int64_round [OF this(2) assms(3)]
  have "rat_round 0 \<le> rat_round x" "rat_round x \<le> rat_round y" "rat_round y \<le> rat_round 100"
    using assms by (auto intro: rat_round_mono)
  then show ?thesis unfolding i using rat_round_of_int [of 0] rat_round_of_int [of 100] by simp
qed

lemma score_of_rank:
  assumes "unit rank"
  shows "0 \<le> sint (f_to_int64 (f_round (f_mul binary64 rank (f_of_int binary64 (sint MaxNodeScore))))) \<and>
    sint (f_to_int64 (f_round (f_mul binary64 rank (f_of_int binary64 (sint MaxNodeScore))))) \<le> 100"
proof -
  obtain p where p: "rank = Fin p" "0 \<le> p" "p \<le> 1" using assms by (auto elim!: uptoE)
  have m: "f_of_int binary64 (sint MaxNodeScore) = Fin 100" using f64_of_int [of 100] by (simp add: MaxNodeScore_def)
  have c: "fl binary64 (p * 100) = Fin (rnd (p * 100)) \<and> 0 \<le> rnd (p * 100) \<and> rnd (p * 100) \<le> 100"
    using fl64_between_int [of 0 "p * 100" 100] p by simp
  then show ?thesis using to_int64_round_mono [of "rnd (p * 100)" "rnd (p * 100)"] by (simp only: p(1) m f_mul.simps)
qed

text \<open>
  C35. LowRiskOverCommitment always gives a score from 0 to 100, whatever the load watcher measured (NaN
  and infinities included) and whatever the special functions return, provided that the limit weights
  are between 0 and 1, every pod involved limits some scalar resource or requests none, and the requests
  of CPU and memory on the node add up within an \<open>int64\<close>.
\<close>

theorem LROC_score_range:
  assumes "getNode n = Inr (pods, Some alloc)"
    and "getPreScoreState st = None \<or> getPreScoreState st = CreatePodResourcesStateData pod"
    and "list_all limits_present (pod # pods)"
    and "\<forall>(res, get) \<in> {(ResourceCPU, MilliCPU), (ResourceMemory, Memory)}.
      unit (map_getd (Fin 0) (riskLimitWeightsMap pl) res) \<and>
      list_all (\<lambda>p. 0 \<le> sint (get (GetResourceRequested p))) (pod # pods) \<and> total_request get (pod # pods) < 2 ^ 63"
    and "0 \<le> sint (Quantity_MilliValue (map_getd 0 alloc ResourceCPU))" "0 \<le> sint (Quantity_Value (map_getd 0 alloc ResourceMemory))"
  shows "\<exists>s. LROC_Score sf pl getNode collected st pod n = Some (Inr s) \<and> 0 \<le> sint s \<and> sint s \<le> 100"
proof -
  obtain limits where l: "SetMaxLimits (GetResourceRequested pod) (GetResourceLimits pod) = Some limits"
    using assms(3) by (auto simp: limits_present_def)
  define d where "d = \<lparr>podRequests = GetResourceRequested pod, podLimits = limits\<rparr>"
  have st: "(case getPreScoreState st of Some d \<Rightarrow> Some d | None \<Rightarrow> CreatePodResourcesStateData pod) = Some d"
    using assms(2) by (auto simp: CreatePodResourcesStateData_def l d_def)
  obtain r m where "foldM node_pod_step (empty_Resource, empty_Resource) pods = Some (r, m)"
    using node_totals [of pods MilliCPU "(empty_Resource, empty_Resource)"] assms(3,4)
    by (auto simp: empty_Resource_def total_request_def)
  then obtain nrl where nrl: "GetNodeRequestsAndLimits pods alloc (GetResourceRequested pod) limits = Some nrl"
    by (simp add: GetNodeRequestsAndLimits_def Let_def accumulate_def)
  then have cap: "0 \<le> sint (MilliCPU (Nodecapacity nrl))" "0 \<le> sint (Memory (Nodecapacity nrl))"
    using assms(5,6) by (auto simp: GetNodeRequestsAndLimits_def Let_def split: option.splits prod.splits)
  have risk: "\<exists>x. computeRisk sf pl metrics res ty alloc nrl = Some x \<and> unit x"
    if "(res, get) \<in> {(ResourceCPU, MilliCPU), (ResourceMemory, Memory)}" for res metrics ty and get :: "Resource \<Rightarrow> int64"
  proof -
    have g: "get = MilliCPU \<or> get = Memory" "res = ResourceCPU \<and> get = MilliCPU \<or> res = ResourceMemory \<and> get = Memory"
      using that by auto
    have a: "unit (map_getd (Fin 0) (riskLimitWeightsMap pl) res)"
      "list_all (\<lambda>p. 0 \<le> sint (get (GetResourceRequested p))) (pod # pods)" "total_request get (pod # pods) < 2 ^ 63"
      using assms(4) that by auto
    have c: "0 \<le> sint (get (Nodecapacity nrl))" using g(1) cap by auto
    have p: "list_all limits_present pods" using assms(3) by simp
    show ?thesis using computeRisk_unit [OF g(2) a(1)] node_requests_capped [OF p g(1) a(2,3) nrl c] by blast
  qed
  have rank: "\<exists>x. computeRank sf pl metrics pods alloc (GetResourceRequested pod) limits = Some x \<and> unit x" for metrics
  proof -
    obtain x y where xy: "computeRisk sf pl metrics ResourceCPU watcher_CPU alloc nrl = Some x" "unit x"
      "computeRisk sf pl metrics ResourceMemory watcher_Memory alloc nrl = Some y" "unit y"
      using risk [of ResourceCPU MilliCPU metrics watcher_CPU] risk [of ResourceMemory Memory metrics watcher_Memory] by blast
    from upto_one_minus [OF upto_max [OF xy(2,4)]] show ?thesis by (simp add: computeRank_def nrl xy(1,3))
  qed
  show ?thesis
  proof (cases "fst (GetNodeMetrics collected n)")
    case (Some metrics)
    obtain x where x: "computeRank sf pl metrics pods alloc (GetResourceRequested pod) limits = Some x" "unit x"
      using rank [of metrics] by blast
    from score_of_rank [OF x(2)] show ?thesis
      by (simp add: LROC_Score_def st d_def assms(1) Let_def MinNodeScore_def Some x(1))
  qed (simp add: LROC_Score_def st d_def assms(1) Let_def MinNodeScore_def)
qed

section \<open>Load variation risk balancing prefers quieter nodes\<close>

text \<open>
  What is used of \<open>math.Pow\<close>: nonnegative powers of numbers of the unit interval stay in it, in their order.
\<close>

definition pow_ok :: "(gofloat \<Rightarrow> gofloat \<Rightarrow> gofloat) \<Rightarrow> bool" where
  "pow_ok pow \<longleftrightarrow> (\<forall>x y e. f_upto 0 x y \<and> (e = PInf \<or> (\<exists>r \<ge> 0. e = Fin r)) \<longrightarrow> f_upto 0 (pow x e) (pow y e))"

lemma computeScore_antimono:
  assumes "pow_ok pow" and "rst_Capacity rs = Fin c" "rst_Capacity rs' = Fin c" "1 / 2 ^ 20 \<le> c" "c \<le> 2 ^ 63"
    and "rst_Req rs = Fin q" "rst_Req rs' = Fin q" "q \<le> 2 ^ 63"
    and "f_upto 83 (UsedAvg rs) (UsedAvg rs')" "f_upto 83 (UsedStdev rs) (UsedStdev rs')"
    and "0 \<le> m" "m \<le> 2 ^ 40" "0 \<le> s"
  shows "\<exists>x y. computeScore pow rs' (Fin m) (Fin s) = Fin x \<and> computeScore pow rs (Fin m) (Fin s) = Fin y \<and> 0 \<le> x \<and> x \<le> y \<and> y \<le> 100"
proof -
  have c: "0 < c" using assms(4) by (rule less_le_trans [rotated]) simp
  let ?avg = "\<lambda>u. f_max (f_min u (Fin c)) (Fin 0)"
  let ?unit = "\<lambda>x. f_max (f_min x (Fin 1)) (Fin 0)"
  define e where "e = f_div binary64 (Fin 1) (Fin s)"
  define mu where "mu r = ?unit (f_div binary64 (f_add binary64 (?avg (UsedAvg r)) (Fin (max q 0))) (Fin c))" for r :: ResourceStats
  define sg where "sg r = ?unit (f_div binary64 (?avg (UsedStdev r)) (Fin c))" for r :: ResourceStats
  define risk where "risk r = f_div binary64 (f_add binary64 (mu r) (?unit (f_mul binary64 (pow (sg r) e) (Fin m)))) (Fin 2)" for r
  have cc: "f_upto 63 (Fin c) (Fin c)" using c assms(5) by simp
  have one: "f_upto 0 (Fin 1) (Fin 1)" by simp
  have "f_upto 0 (mu rs) (mu rs')"
    unfolding mu_def using assms(8) upto_clamp [OF assms(9) cc] assms(4)
    by (intro upto_clamp [OF _ one, of "64 + 20"] upto_div) (auto intro!: upto_add [of 63, simplified])
  moreover have "f_upto 0 (sg rs) (sg rs')"
    unfolding sg_def using upto_clamp [OF assms(10) cc] assms(4) by (intro upto_clamp [OF _ one, of "63 + 20"] upto_div) auto
  moreover have "e = PInf \<or> (\<exists>r \<ge> 0. e = Fin r)"
    unfolding e_def using fl_nonneg [of "1 / s"] assms(13) by (simp add: f_inf_def)
  ultimately have "f_upto 0 (pow (sg rs) e) (pow (sg rs') e)" using assms(1) by (simp add: pow_ok_def)
  then have "f_upto 0 (?unit (f_mul binary64 (pow (sg rs) e) (Fin m))) (?unit (f_mul binary64 (pow (sg rs') e) (Fin m)))"
    using assms(11,12) by (intro upto_clamp [OF _ one, of "0 + 40"] upto_mul) auto
  with \<open>f_upto 0 (mu rs) (mu rs')\<close> have "f_upto 0 (risk rs) (risk rs')"
    unfolding risk_def by (intro upto_half upto_add) auto
  from upto_one_minus [OF this] obtain x y where xy: "f_sub binary64 (Fin 1) (risk rs') = Fin x" "f_sub binary64 (Fin 1) (risk rs) = Fin y" "0 \<le> x" "x \<le> y" "y \<le> 1"
    by (elim uptoE) simp
  have score: "computeScore pow r (Fin m) (Fin s) = f_mul binary64 (f_sub binary64 (Fin 1) (risk r)) (Fin 100)"
    if "rst_Capacity r = Fin c" "rst_Req r = Fin q" for r
    using that c assms(13) f64_of_int [of 100]
    by (simp add: computeScore_def GetMuSigma_def Let_def risk_def mu_def sg_def e_def MaxNodeScore_def)
  have "fl binary64 (z * 100) = Fin (rnd (z * 100)) \<and> 0 \<le> rnd (z * 100) \<and> rnd (z * 100) \<le> 100" if "0 \<le> z" "z \<le> 1" for z
    using fl64_between_int [of 0 "z * 100" 100] that by simp
  moreover have "rnd (x * 100) \<le> rnd (y * 100)" using xy by (intro round_to_mono) (auto simp: binary64_def)
  ultimately show ?thesis using xy by (simp add: score assms(2,3,6,7))
qed

lemma sint64_range: "- (2 ^ 63) \<le> sint (w :: int64)" "sint (w :: int64) < 2 ^ 63"
  using sint_ge [of w] sint_lt [of w] by simp_all

lemma mega_cases:
  "\<exists>c. f_mul binary64 (f_of_int binary64 (sint (w :: int64))) MegaFactor = Fin c \<and> \<bar>c\<bar> \<le> 2 ^ 63 \<and> (0 < c \<longrightarrow> 1 / 2 ^ 20 \<le> c)"
proof -
  obtain r where r: "f_of_int binary64 (sint w) = Fin r" "\<bar>r\<bar> \<le> 2 ^ 63" "0 < r \<longrightarrow> 1 \<le> r"
    using of_int64_cases [OF sint64_range] by blast
  have e: "round_to binary64 (1 / 2 ^ 20) = 1 / 2 ^ 20" using round64_dyadic [of 1 20] by simp
  have h: "round_to binary64 (2 ^ 63) = 2 ^ 63" using round64_pow2 [of 63] by simp
  have l: "round_to binary64 (- (2 ^ 63)) = - (2 ^ 63)" using h by (simp add: round_to_minus)
  show ?thesis
  proof (cases "0 < r")
    case True
    then show ?thesis using fl64_between [of "1 / 2 ^ 20" "r / 2 ^ 20" "2 ^ 63"] r e h by (auto simp: MegaFactor_def)
  next
    case False
    then show ?thesis using fl64_between [of "- (2 ^ 63)" "r / 2 ^ 20" 0] r l by (auto simp: MegaFactor_def)
  qed
qed

lemma stats_shape:
  "\<exists>c q. \<bar>q\<bar> \<le> 2 ^ 63 \<and> c \<le> 2 ^ 63 \<and> (0 < c \<longrightarrow> 1 / 2 ^ 20 \<le> c) \<and>
     (\<forall>ms a d. GetResourceData ms ty = (a, d, True) \<longrightarrow>
        CreateResourceStats ms alloc req res ty =
          Some \<lparr>UsedAvg = f_div binary64 (f_mul binary64 a (Fin c)) (Fin 100),
                UsedStdev = f_div binary64 (f_mul binary64 d (Fin c)) (Fin 100), rst_Req = Fin q, rst_Capacity = Fin c\<rparr>)"
proof (cases "res = ResourceCPU")
  case True
  obtain c where c: "f_of_int binary64 (sint (Quantity_MilliValue (map_getd 0 alloc ResourceCPU))) = Fin c" "\<bar>c\<bar> \<le> 2 ^ 63" "0 < c \<longrightarrow> 1 \<le> c"
    using of_int64_cases [OF sint64_range] by blast
  obtain q where q: "f_of_int binary64 (sint (MilliCPU req)) = Fin q" "\<bar>q\<bar> \<le> 2 ^ 63"
    using of_int64_cases [OF sint64_range] by blast
  have "0 < c \<longrightarrow> 1 / 2 ^ 20 \<le> c" using c(3) by (auto intro: order_trans [of _ 1])
  then show ?thesis using c q True by (intro exI [of _ c] exI [of _ q]) (simp add: CreateResourceStats_def)
next
  case False
  obtain c where c: "f_mul binary64 (f_of_int binary64 (sint (Quantity_Value (map_getd 0 alloc res)))) MegaFactor = Fin c" "\<bar>c\<bar> \<le> 2 ^ 63"
    "0 < c \<longrightarrow> 1 / 2 ^ 20 \<le> c" using mega_cases by blast
  obtain q where q: "f_mul binary64 (f_of_int binary64 (sint (Memory req))) MegaFactor = Fin q" "\<bar>q\<bar> \<le> 2 ^ 63" using mega_cases by blast
  show ?thesis using c q False by (intro exI [of _ c] exI [of _ q]) (simp add: CreateResourceStats_def)
qed

lemma resource_pair:
  assumes "pow_ok pow" "0 \<le> m" "m \<le> 2 ^ 40" "0 \<le> s"
    and "GetResourceData ms ty = (a, d, True)" "GetResourceData ms' ty = (a', d', True)" "f_upto 20 a a'" "f_upto 20 d d'"
  shows "\<exists>rs rs'. CreateResourceStats ms alloc req res ty = Some rs \<and> CreateResourceStats ms' alloc req res ty = Some rs' \<and>
    (\<exists>x y. computeScore pow rs' (Fin m) (Fin s) = Fin x \<and> computeScore pow rs (Fin m) (Fin s) = Fin y \<and> 0 \<le> x \<and> x \<le> y \<and> y \<le> 100)"
proof -
  obtain c q where cq: "\<bar>q\<bar> \<le> 2 ^ 63" "c \<le> 2 ^ 63" "0 < c \<longrightarrow> 1 / 2 ^ 20 \<le> c"
    and stats: "\<And>ms a d. GetResourceData ms ty = (a, d, True) \<Longrightarrow> CreateResourceStats ms alloc req res ty =
          Some \<lparr>UsedAvg = f_div binary64 (f_mul binary64 a (Fin c)) (Fin 100),
                UsedStdev = f_div binary64 (f_mul binary64 d (Fin c)) (Fin 100), rst_Req = Fin q, rst_Capacity = Fin c\<rparr>"
    using stats_shape [of ty alloc req res] by blast
  show ?thesis
  proof (cases "0 < c")
    case True
    have "f_upto 83 (f_div binary64 (f_mul binary64 u (Fin c)) (Fin 100)) (f_div binary64 (f_mul binary64 u' (Fin c)) (Fin 100))"
      if "f_upto 20 u u'" for u u'
      using upto_div [OF upto_mul [OF that, of 63 "Fin c" "Fin c"], of 0 100] True cq(2) by simp
    note used = this [OF assms(7)] this [OF assms(8)]
    define rs where "rs u v = \<lparr>UsedAvg = f_div binary64 (f_mul binary64 u (Fin c)) (Fin 100),
      UsedStdev = f_div binary64 (f_mul binary64 v (Fin c)) (Fin 100), rst_Req = Fin q, rst_Capacity = Fin c\<rparr>" for u v
    have "\<exists>x y. computeScore pow (rs a' d') (Fin m) (Fin s) = Fin x \<and> computeScore pow (rs a d) (Fin m) (Fin s) = Fin y \<and> 0 \<le> x \<and> x \<le> y \<and> y \<le> 100"
      by (rule computeScore_antimono [OF assms(1), of _ c _ q]) (use used cq True assms(2-4) in \<open>simp_all add: rs_def\<close>)
    then show ?thesis unfolding stats [OF assms(5)] stats [OF assms(6)] rs_def [symmetric] by blast
  qed (simp add: stats [OF assms(5)] stats [OF assms(6)] computeScore_def)
qed

text \<open>
  C36. LoadVariationRiskBalancing prefers quieter nodes and stays in range. Of two nodes with the same
  allocatable resources and valid CPU and memory measurements, the one whose averages and standard
  deviations are at least as high never scores higher, and both scores are from 0 to 100. This holds for
  the double precision arithmetic of the code and every margin and sensitivity that the defaults accept
  (a margin up to two to the fortieth).
\<close>

theorem LVRB_prefers_quieter:
  assumes "getNode n1 = Inr (pods1, Some alloc)" "getNode n2 = Inr (pods2, Some alloc)"
    and "fst (GetNodeMetrics collected n1) = Some ms1" "fst (GetNodeMetrics collected n2) = Some ms2"
    and "\<forall>ty \<in> {watcher_CPU, watcher_Memory}. GetResourceData ms1 ty = (avg1 ty, dev1 ty, True) \<and>
      GetResourceData ms2 ty = (avg2 ty, dev2 ty, True) \<and> f_upto 20 (avg1 ty) (avg2 ty) \<and> f_upto 20 (dev1 ty) (dev2 ty)"
    and "pow_ok pow" and "lvr_SafeVarianceMargin args = Fin m" "0 \<le> m" "m \<le> 2 ^ 40"
    and "lvr_SafeVarianceSensitivity args = Fin s" "0 \<le> s"
  shows "\<exists>s1 s2. LVRB_Score pow args getNode collected pod n1 = Some (Inr s1) \<and>
    LVRB_Score pow args getNode collected pod n2 = Some (Inr s2) \<and> 0 \<le> sint s2 \<and> sint s2 \<le> sint s1 \<and> sint s1 \<le> 100"
proof -
  let ?req = "GetResourceRequested pod"
  have pair: "\<exists>rs rs'. CreateResourceStats ms1 alloc ?req res ty = Some rs \<and> CreateResourceStats ms2 alloc ?req res ty = Some rs' \<and>
    (\<exists>x y. computeScore pow rs' (Fin m) (Fin s) = Fin x \<and> computeScore pow rs (Fin m) (Fin s) = Fin y \<and> 0 \<le> x \<and> x \<le> y \<and> y \<le> 100)"
    if "ty \<in> {watcher_CPU, watcher_Memory}" for res ty
    using assms(5) that by (intro resource_pair [OF assms(6,8,9,11), of _ _ "avg1 ty" "dev1 ty" _ "avg2 ty" "dev2 ty"]) auto
  obtain c c' x y where c: "CreateResourceStats ms1 alloc ?req ResourceCPU watcher_CPU = Some c"
    "CreateResourceStats ms2 alloc ?req ResourceCPU watcher_CPU = Some c'"
    "computeScore pow c' (Fin m) (Fin s) = Fin x" "computeScore pow c (Fin m) (Fin s) = Fin y" "0 \<le> x" "x \<le> y" "y \<le> 100"
    using pair [of watcher_CPU ResourceCPU] by auto
  obtain e e' u v where e: "CreateResourceStats ms1 alloc ?req ResourceMemory watcher_Memory = Some e"
    "CreateResourceStats ms2 alloc ?req ResourceMemory watcher_Memory = Some e'"
    "computeScore pow e' (Fin m) (Fin s) = Fin u" "computeScore pow e (Fin m) (Fin s) = Fin v" "0 \<le> u" "u \<le> v" "v \<le> 100"
    using pair [of watcher_Memory ResourceMemory] by auto
  have "LVRB_Score pow args getNode collected pod n1 = Some (Inr (f_to_int64 (f_round (Fin (min v y)))))"
    "LVRB_Score pow args getNode collected pod n2 = Some (Inr (f_to_int64 (f_round (Fin (min u x)))))"
    using assms(1-4) c e by (simp_all add: LVRB_Score_def Let_def assms(7,10))
  moreover have o: "0 \<le> min u x" "min u x \<le> min v y" "min v y \<le> 100" using c(5-7) e(5-7) by auto
  ultimately show ?thesis using to_int64_round_mono [OF o] by blast
qed

text \<open>
  C37. A pod that requests a scalar resource (an extended or prefixed resource, huge pages) without
  limiting any scalar resource makes LowRiskOverCommitment panic: when it is the pod to schedule already
  at PreScore, and when it runs on a node as soon as any other pod that is not best effort is scored there.
\<close>

theorem LROC_unlimited_scalar_panics:
  assumes "ScalarResources (GetResourceLimits p) = []" and "(k, v) \<in> set (ScalarResources (GetResourceRequested p))" and "0 < sint v"
  shows "LROC_PreScore st p = None \<and>
    (getPreScoreState st = Some d \<and> MilliCPU (podRequests d) \<noteq> 0 \<and> getNode n = Inr (pods, Some alloc) \<and> p \<in> set pods \<and>
     fst (GetNodeMetrics collected n) = Some metrics \<longrightarrow> LROC_Score sf pl getNode collected st pod n = None)"
proof -
  have none: "SetMaxLimits (GetResourceRequested p) (GetResourceLimits p) = None" using assms by (auto simp: SetMaxLimits_panics)
  have "foldM node_pod_step acc pods = None" if "p \<in> set pods" for acc
    using that by (rule foldM_None) (simp add: node_pod_step_def none)
  then show ?thesis
    by (auto simp: LROC_PreScore_def CreatePodResourcesStateData_def none LROC_Score_def computeRank_def
        GetNodeRequestsAndLimits_def Let_def)
qed

section \<open>Concrete nodes\<close>

definition demo_scalar_pod :: Pod where
  "demo_scalar_pod = demo_pod\<lparr>pod_containers := [\<lparr>ctr_requests = [(''kubernetes.io/batch'', 3 * 10 ^ 9)], ctr_limits = []\<rparr>]\<rparr>"

theorem LROC_unlimited_scalar_panics_witness: "LROC_PreScore (\<lambda>_. None) demo_scalar_pod = None"
proof -
  have l: "ScalarResources (GetResourceLimits demo_scalar_pod) = []" by code_simp
  have r: "(''kubernetes.io/batch'', 3) \<in> set (ScalarResources (GetResourceRequested demo_scalar_pod))" by code_simp
  show ?thesis using LROC_unlimited_scalar_panics [OF l r] by simp
qed

definition demo_load :: "string \<Rightarrow> string + Pod list \<times> ResourceList option" where
  "demo_load n = Inr ([demo_cpu_pod], Some [(ResourceCPU, 8 * 10 ^ 9), (ResourceMemory, 2 ^ 34 * 10 ^ 9)])"

definition demo_measured :: "int \<Rightarrow> Metric list" where
  "demo_measured u =
     [\<lparr>m_Type = watcher_CPU, m_Operator = watcher_Average, m_Value = Fin (of_int u)\<rparr>,
      \<lparr>m_Type = watcher_CPU, m_Operator = watcher_Std, m_Value = Fin 10\<rparr>,
      \<lparr>m_Type = watcher_Memory, m_Operator = watcher_Latest, m_Value = Fin (of_int u)\<rparr>]"

definition demo_collected :: WatcherMetrics where
  "demo_collected = \<lparr>wm_NodeMetricsMap = Some [(''n1'', demo_measured 20), (''n2'', demo_measured 80)], wm_WindowEnd = 0\<rparr>"

definition demo_spec :: TrimaranSpec where
  "demo_spec = \<lparr>ts_MetricProvider = \<lparr>mp_Type = KubernetesMetricsServer, mp_Address = [], mp_Token = [], mp_InsecureSkipVerify = False\<rparr>,
     ts_WatcherAddress = []\<rparr>"

definition demo_lvr :: LoadVariationRiskBalancingArgs where
  "demo_lvr = \<lparr>lvr_TrimaranSpec = demo_spec, lvr_SafeVarianceMargin = Fin 1, lvr_SafeVarianceSensitivity = Fin 1\<rparr>"

lemma demo_measured_data:
  "GetResourceData (demo_measured u) watcher_CPU = (Fin (of_int u), Fin 10, True)"
  "GetResourceData (demo_measured u) watcher_Memory = (Fin (of_int u), Fin 0, True)"
  by (simp_all add: demo_measured_def GetResourceData_def resource_data_step_def watcher_CPU_def watcher_Memory_def
      watcher_Average_def watcher_Std_def watcher_Latest_def)

text \<open>At the default sensitivity the exponent is one, and the power of a number is the number.\<close>

theorem LVRB_prefers_quieter_witness:
  "\<exists>s1 s2. LVRB_Score (\<lambda>x e. x) demo_lvr demo_load demo_collected demo_cpu_pod ''n1'' = Some (Inr s1) \<and>
     LVRB_Score (\<lambda>x e. x) demo_lvr demo_load demo_collected demo_cpu_pod ''n2'' = Some (Inr s2) \<and>
     0 \<le> sint s2 \<and> sint s2 \<le> sint s1 \<and> sint s1 \<le> 100"
proof (rule LVRB_prefers_quieter)
  show "fst (GetNodeMetrics demo_collected ''n1'') = Some (demo_measured 20)" "fst (GetNodeMetrics demo_collected ''n2'') = Some (demo_measured 80)"
    by (simp_all add: GetNodeMetrics_def demo_collected_def)
  show "\<forall>ty \<in> {watcher_CPU, watcher_Memory}.
      GetResourceData (demo_measured 20) ty = (Fin 20, if ty = watcher_CPU then Fin 10 else Fin 0, True) \<and>
      GetResourceData (demo_measured 80) ty = (Fin 80, if ty = watcher_CPU then Fin 10 else Fin 0, True) \<and>
      f_upto 20 (Fin 20) (Fin 80) \<and> f_upto 20 (if ty = watcher_CPU then Fin 10 else Fin 0) (if ty = watcher_CPU then Fin 10 else Fin 0)"
    using demo_measured_data [of 20] demo_measured_data [of 80] by (simp add: watcher_CPU_def watcher_Memory_def)
  show "lvr_SafeVarianceMargin demo_lvr = Fin 1" "lvr_SafeVarianceSensitivity demo_lvr = Fin 1" "(0 :: rat) \<le> 1" "(1 :: rat) \<le> 2 ^ 40"
    by (simp_all add: demo_lvr_def)
qed (simp_all add: demo_load_def pow_ok_def)

definition demo_lroc :: LowRiskOverCommitment where
  "demo_lroc = \<lparr>lroc_args = \<lparr>lro_TrimaranSpec = demo_spec, lro_SmoothingWindowSize = 5,
                             lro_RiskLimitWeights = [(ResourceCPU, Fin (1 / 2)), (ResourceMemory, Fin (1 / 2))]\<rparr>,
                riskLimitWeightsMap = [(ResourceCPU, Fin (1 / 2)), (ResourceMemory, Fin (1 / 2))]\<rparr>"

definition demo_sf :: SpecialFunctions where
  "demo_sf = \<lparr>math_Pow = (\<lambda>_ _. NaN), math_Sqrt = (\<lambda>_. NaN), gonum_RegIncBeta = (\<lambda>_ _ _. Fin (1 / 2))\<rparr>"

lemma demo_requested: "GetResourceRequested demo_cpu_pod = empty_Resource"
  by (simp add: GetResourceRequested_def GetEffectiveResource_def demo_cpu_pod_def demo_pod_def Resource_Add_def)

theorem LROC_score_range_witness:
  "\<exists>s. LROC_Score demo_sf demo_lroc demo_load demo_collected (\<lambda>_. None) demo_cpu_pod ''n1'' = Some (Inr s) \<and> 0 \<le> sint s \<and> sint s \<le> 100"
proof (rule LROC_score_range)
  show "demo_load ''n1'' = Inr ([demo_cpu_pod], Some [(ResourceCPU, 8 * 10 ^ 9), (ResourceMemory, 2 ^ 34 * 10 ^ 9)])"
    by (simp add: demo_load_def)
  show "list_all limits_present [demo_cpu_pod, demo_cpu_pod]"
    using SetMaxLimits_panics [of empty_Resource] by (simp add: limits_present_def demo_requested empty_Resource_def)
  show "0 \<le> sint (Quantity_MilliValue (map_getd 0 [(ResourceCPU, 8 * 10 ^ 9), (ResourceMemory, 2 ^ 34 * 10 ^ 9)] ResourceCPU))"
    "0 \<le> sint (Quantity_Value (map_getd 0 [(ResourceCPU, 8 * 10 ^ 9), (ResourceMemory, 2 ^ 34 * 10 ^ 9)] ResourceMemory))"
    by (simp_all add: map_getd_def Quantity_MilliValue_def Quantity_Value_def round_away_def resource_name_defs)
qed (auto simp: getPreScoreState_def CycleState_Read_def demo_requested empty_Resource_def total_request_def demo_lroc_def map_getd_def resource_name_defs)

end
