(* ===== verification/NodeResources.thy ===== *)
theory NodeResources
  imports FrameworkNode ConfigTypes ScoreNorm
begin

text \<open>
  Two score plugins that stretch the scores of the nodes over the framework's range:
  \<open>pkg/noderesources\<close> (a weighted mean of the allocatable resources of a node, counted for or against
  it) and \<open>pkg/podstate\<close> (terminating pods count for a node, nominated pods against it). Their
  \<open>NormalizeScore\<close> methods are the same code, \<open>stretch\<close>; it meets the framework's contract
  \<open>score_normalizer\<close> and keeps the order of the nodes.
\<close>

section \<open>Normalization\<close>

definition stretch :: "int64 list \<Rightarrow> int64 list" where
  "stretch scores =
     (let highest = scan_max (- MaxInt64) scores; lowest = scan_min MaxInt64 scores;
          oldRange = highest - lowest; newRange = MaxNodeScore - MinNodeScore
      in map (\<lambda>score. if oldRange = 0 then MinNodeScore
                      else sdiv64 ((score - lowest) * newRange) oldRange + MinNodeScore) scores)"

section \<open>Requests and capacities\<close>

definition DefaultMilliCPURequest :: int64 where "DefaultMilliCPURequest = 100"
definition DefaultMemoryRequest :: int64 where "DefaultMemoryRequest = 200 * 1024 * 1024"

text \<open>\<open>schedutil.GetRequestForResource\<close>; an absent quantity is zero.\<close>

definition GetRequestForResource :: "string \<Rightarrow> ResourceList \<Rightarrow> bool \<Rightarrow> Quantity" where
  "GetRequestForResource resourceName requests nonZero =
     (if resourceName = ResourceCPU \<and> map_get requests ResourceCPU = None \<and> nonZero
      then NewMilliQuantity DefaultMilliCPURequest
      else if resourceName = ResourceMemory \<and> map_get requests ResourceMemory = None \<and> nonZero
      then NewQuantity DefaultMemoryRequest
      else map_getd 0 requests resourceName)"

definition calculatePodResourceRequest :: "Pod \<Rightarrow> string \<Rightarrow> int64" where
  "calculatePodResourceRequest pod resource =
     (let request = (\<lambda>c. Quantity_Value (GetRequestForResource resource (ctr_requests c) True));
          sum = foldl (\<lambda>podRequest c. podRequest + request c) 0 (pod_containers pod);
          init = foldl (\<lambda>podRequest c. if slt podRequest (request c) then request c else podRequest)
            sum (pod_initContainers pod)
      in case map_get (pod_overhead pod) resource of
           Some quantity \<Rightarrow> init + Quantity_Value quantity
         | None \<Rightarrow> init)"

record ANodeInfo = FNodeInfo +
  ni_nonZeroRequested :: Resource

definition calculateResourceAllocatableRequest :: "ANodeInfo \<Rightarrow> Pod \<Rightarrow> string \<Rightarrow> int64 \<times> int64" where
  "calculateResourceAllocatableRequest nodeInfo pod resource =
     (let podRequest = calculatePodResourceRequest pod resource
      in if resource = ResourceCPU then
           (MilliCPU (ni_allocatable nodeInfo), MilliCPU (ni_nonZeroRequested nodeInfo) + podRequest)
         else if resource = ResourceMemory then
           (Memory (ni_allocatable nodeInfo), Memory (ni_nonZeroRequested nodeInfo) + podRequest)
         else if resource = ResourceEphemeralStorage then
           (EphemeralStorage (ni_allocatable nodeInfo), EphemeralStorage (ni_requested nodeInfo) + podRequest)
         else if IsScalarResourceName resource then
           (map_getd 0 (ScalarResources (ni_allocatable nodeInfo)) resource,
            map_getd 0 (ScalarResources (ni_requested nodeInfo)) resource + podRequest)
         else (0, 0))"

section \<open>The allocatable plugin\<close>

type_synonym resourceToWeightMap = "(string, int64) gomap"
type_synonym resourceToValueMap = "(string, int64) gomap"

definition defaultResourcesToWeightMap :: resourceToWeightMap where
  "defaultResourcesToWeightMap = [(ResourceMemory, 1), (ResourceCPU, push_bit 20 1)]"

definition score_capacity :: "int64 \<Rightarrow> string \<Rightarrow> int64" where
  "score_capacity capacity mode =
     (if mode = mode_Least then - 1 * capacity else if mode = mode_Most then capacity else 0)"

text \<open>The division panics when the sum of the weights is zero.\<close>

definition resourceScorer ::
  "resourceToWeightMap \<Rightarrow> string \<Rightarrow> resourceToValueMap \<Rightarrow> resourceToValueMap \<Rightarrow> int64 option" where
  "resourceScorer resToWeightMap mode requested allocable =
     (let (nodeScore, weightSum) =
            foldl (\<lambda>(nodeScore, weightSum) (resource, weight).
                     (nodeScore + score_capacity (map_getd 0 allocable resource) mode * weight, weightSum + weight))
              (0, 0) resToWeightMap
      in if weightSum = 0 then None else Some (sdiv64 nodeScore weightSum))"

record Allocatable =
  al_mode :: string
  al_weights :: resourceToWeightMap

text \<open>The first weight that is not positive is reported.\<close>

fun validateResources :: "ResourceSpec list \<Rightarrow> string option" where
  "validateResources [] = None"
| "validateResources (resource # resources) =
     (if sle (rs_Weight resource) 0
      then Some (''resource Weight of '' @ rs_Name resource @ '' should be a positive value'')
      else validateResources resources)"

datatype AllocArgs = ArgsNil | ArgsOther | ArgsAllocatable string "ResourceSpec list"

definition NewAllocatable :: "AllocArgs \<Rightarrow> string + Allocatable" where
  "NewAllocatable allocArgs =
     (case allocArgs of
        ArgsNil \<Rightarrow> Inr \<lparr>al_mode = mode_Least, al_weights = defaultResourcesToWeightMap\<rparr>
      | ArgsOther \<Rightarrow> Inl ''want args to be of type NodeResourcesAllocatableArgs''
      | ArgsAllocatable argMode resources \<Rightarrow>
          (let mode = (if argMode \<noteq> [] then argMode else mode_Least)
           in if argMode \<noteq> [] \<and> mode \<noteq> mode_Least \<and> mode \<noteq> mode_Most then Inl (''invalid mode, got '' @ mode)
              else if length resources > 0 then
                (case validateResources resources of
                   Some err \<Rightarrow> Inl err
                 | None \<Rightarrow> Inr \<lparr>al_mode = mode,
                     al_weights = foldl (\<lambda>m resource. map_set (rs_Name resource) (rs_Weight resource) m) [] resources\<rparr>)
              else Inr \<lparr>al_mode = mode, al_weights = defaultResourcesToWeightMap\<rparr>))"

text \<open>
  The embedded scorer's \<open>score\<close> and the plugin's \<open>Score\<close>: an error status is \<^const>\<open>Inl\<close>, a panic
  \<^const>\<open>None\<close>. The constructor builds no empty weight map, so an empty one stands for nil.
\<close>

definition scorer_score :: "Allocatable \<Rightarrow> Pod \<Rightarrow> ANodeInfo \<Rightarrow> (Status + int64) option" where
  "scorer_score r pod nodeInfo =
     (if \<not> ni_hasNode nodeInfo then Some (Inl (NewStatus Error [''node not found'']))
      else if al_weights r = [] then Some (Inl (NewStatus Error [''resources not found'']))
      else
        (let values = foldl (\<lambda>(allocatable, requested) (resource, weight).
                 let (a, q) = calculateResourceAllocatableRequest nodeInfo pod resource
                 in (map_set resource a allocatable, map_set resource q requested)) ([], []) (al_weights r)
         in map_option Inr (resourceScorer (al_weights r) (al_mode r) (snd values) (fst values))))"

definition Allocatable_Score ::
  "Allocatable \<Rightarrow> (string \<Rightarrow> string + ANodeInfo) \<Rightarrow> Pod \<Rightarrow> string \<Rightarrow> (Status + int64) option" where
  "Allocatable_Score alloc getNode pod nodeName =
     (case getNode nodeName of
        Inl err \<Rightarrow> Some (Inl (NewStatus Error [''getting node '' @ nodeName @ '' from Snapshot: '' @ err]))
      | Inr nodeInfo \<Rightarrow> scorer_score alloc pod nodeInfo)"

definition Allocatable_NormalizeScore :: "int64 list \<Rightarrow> int64 list" where
  "Allocatable_NormalizeScore scores = stretch scores"

section \<open>The pod state plugin\<close>

definition PodState_score :: "(string \<Rightarrow> Pod list) \<Rightarrow> FNodeInfo \<Rightarrow> int64 option" where
  "PodState_score nominatedPodsForNode nodeInfo =
     (if \<not> ni_hasNode nodeInfo then None
      else let nominatedPodNum = of_nat (length (nominatedPodsForNode (ni_name nodeInfo)));
               terminatingPodNum =
                 foldl (\<lambda>n p. if pod_deletionTimestamp p \<noteq> None then n + 1 else n) 0 (ni_pods nodeInfo)
           in Some (terminatingPodNum - nominatedPodNum))"

definition PodState_Score ::
  "(string \<Rightarrow> string + FNodeInfo) \<Rightarrow> (string \<Rightarrow> Pod list) \<Rightarrow> string \<Rightarrow> (Status + int64) option" where
  "PodState_Score getNode nominatedPodsForNode nodeName =
     (case getNode nodeName of
        Inl err \<Rightarrow> Some (Inl (NewStatus Error [''getting node '' @ nodeName @ '' from Snapshot: '' @ err]))
      | Inr nodeInfo \<Rightarrow> map_option Inr (PodState_score nominatedPodsForNode nodeInfo))"

definition PodState_NormalizeScore :: "int64 list \<Rightarrow> int64 list" where
  "PodState_NormalizeScore scores = stretch scores"

section \<open>Stretching keeps the order and the range\<close>

text \<open>Scores of at most \<open>2\<^sup>5\<^sup>5\<close> in size: the multiplication by 100 stays within 64 bits.\<close>

definition stretchable :: "int64 list \<Rightarrow> bool" where
  "stretchable scores \<longleftrightarrow> list_all (\<lambda>s. \<bar>sint s\<bar> \<le> 2 ^ 55) scores"

definition stretched :: "int64 list \<Rightarrow> int \<Rightarrow> int" where
  "stretched scores x =
     (let lo = Min (sint ` set scores); hi = Max (sint ` set scores)
      in if hi = lo then 0 else (x - lo) * 100 div (hi - lo))"

lemma stretch_extrema:
  assumes "stretchable scores" and "scores \<noteq> []"
  shows "sint (scan_max (- MaxInt64) scores) = Max (sint ` set scores)"
    and "sint (scan_min MaxInt64 scores) = Min (sint ` set scores)"
proof -
  have "\<forall>s \<in> set scores. moderate s"
    using assms(1) by (fastforce simp: stretchable_def list_all_iff moderate_def)
  moreover have "sint (- MaxInt64) \<le> - (2 ^ 62)" "2 ^ 62 \<le> sint MaxInt64" by (simp_all add: MaxInt64_def)
  ultimately show "sint (scan_max (- MaxInt64) scores) = Max (sint ` set scores)"
    and "sint (scan_min MaxInt64 scores) = Min (sint ` set scores)"
    using scan_extrema [OF assms(2)] by blast+
qed

lemma stretch_step:
  fixes s lo hi :: int64
  assumes "sint lo \<le> sint s" and "sint s \<le> sint hi" and "\<bar>sint lo\<bar> \<le> 2 ^ 55" and "\<bar>sint hi\<bar> \<le> 2 ^ 55"
  shows "sint (if hi - lo = 0 then MinNodeScore else sdiv64 ((s - lo) * (MaxNodeScore - MinNodeScore)) (hi - lo) + MinNodeScore) =
    (if sint hi = sint lo then 0 else (sint s - sint lo) * 100 div (sint hi - sint lo))"
proof -
  have r: "sint (hi - lo) = sint hi - sint lo" "sint (s - lo) = sint s - sint lo"
    using assms by (intro sint_diff64; simp add: in_int64_def)+
  have m: "sint ((s - lo) * 100) = (sint s - sint lo) * 100"
    using assms r by (subst sint_mult64) (simp_all add: in_int64_def)
  have z: "hi - lo = 0 \<longleftrightarrow> sint hi = sint lo" using r(1) by (metis diff_self eq_iff_diff_eq_0 sint_0 signed_word_eqI)
  show ?thesis
  proof (cases "sint hi = sint lo")
    case True
    then show ?thesis using z by (simp add: MinNodeScore_def)
  next
    case False
    then have pos: "0 < sint hi - sint lo" using assms(1,2) by simp
    let ?q = "(sint s - sint lo) * 100 div (sint hi - sint lo)"
    have "(sint s - sint lo) * 100 \<le> (sint hi - sint lo) * 100" using assms(2) by simp
    then have "?q \<le> (sint hi - sint lo) * 100 div (sint hi - sint lo)" using pos by (rule zdiv_mono1)
    also have "\<dots> = 100" using pos by (simp del: left_diff_distrib_numeral)
    finally have "?q \<le> 100" .
    moreover have "0 \<le> ?q" using pos assms(1) by (simp add: pos_imp_zdiv_nonneg_iff)
    ultimately have "0 \<le> ?q" "?q \<le> 100" by simp_all
    then have "in_int64 ?q" by (simp add: in_int64_def)
    then show ?thesis
      using False z pos assms(1) by (simp add: sdiv64_def MaxNodeScore_def MinNodeScore_def m r go_div_nonneg sint_of_int64
          del: left_diff_distrib_numeral)
  qed
qed

lemma map_sint_stretch:
  assumes "stretchable scores"
  shows "map sint (stretch scores) = map (\<lambda>s. stretched scores (sint s)) scores"
proof (cases "scores = []")
  case False
  note ext = stretch_extrema [OF assms False]
  have fin: "finite (sint ` set scores)" "sint ` set scores \<noteq> {}" using False by simp_all
  have b: "\<bar>Max (sint ` set scores)\<bar> \<le> 2 ^ 55" "\<bar>Min (sint ` set scores)\<bar> \<le> 2 ^ 55"
    using Max_in [OF fin] Min_in [OF fin] assms by (auto simp: stretchable_def list_all_iff)
  show ?thesis
    unfolding stretch_def Let_def stretched_def map_map o_def
  proof (rule map_cong [OF refl])
    fix s assume "s \<in> set scores"
    then show "sint (if scan_max (- MaxInt64) scores - scan_min MaxInt64 scores = 0 then MinNodeScore
        else sdiv64 ((s - scan_min MaxInt64 scores) * (MaxNodeScore - MinNodeScore))
          (scan_max (- MaxInt64) scores - scan_min MaxInt64 scores) + MinNodeScore) =
      (if Max (sint ` set scores) = Min (sint ` set scores) then 0
       else (sint s - Min (sint ` set scores)) * 100 div (Max (sint ` set scores) - Min (sint ` set scores)))"
      using stretch_step [of "scan_min MaxInt64 scores" s "scan_max (- MaxInt64) scores"] fin b by (simp add: ext)
  qed
qed (simp add: stretch_def)

lemma stretched_mono: "x \<le> y \<Longrightarrow> stretched scores x \<le> stretched scores y" if "scores \<noteq> []"
proof -
  assume xy: "x \<le> y"
  have "Min (sint ` set scores) \<le> Max (sint ` set scores)" using that by simp
  then show ?thesis using xy by (auto simp: stretched_def Let_def intro!: zdiv_mono1 mult_right_mono)
qed

lemma stretched_ends:
  assumes "scores \<noteq> []"
  shows "stretched scores (Min (sint ` set scores)) = 0"
    and "stretched scores (Max (sint ` set scores)) =
      (if Max (sint ` set scores) = Min (sint ` set scores) then 0 else 100)"
  by (simp_all add: stretched_def Let_def nonzero_mult_div_cancel_left del: left_diff_distrib_numeral)

lemma stretched_range:
  assumes "s \<in> set scores"
  shows "0 \<le> stretched scores (sint s) \<and> stretched scores (sint s) \<le> 100"
proof -
  have ne: "scores \<noteq> []" using assms by auto
  have "Min (sint ` set scores) \<le> sint s" "sint s \<le> Max (sint ` set scores)" using assms by simp_all
  from stretched_mono [OF ne this(1)] stretched_mono [OF ne this(2)] show ?thesis
    using stretched_ends [OF ne] by (auto split: if_splits)
qed

lemma length_stretch [simp]: "length (stretch scores) = length scores"
  by (simp add: stretch_def Let_def)

lemma stretch_nth:
  "stretchable scores \<Longrightarrow> i < length scores \<Longrightarrow> sint (stretch scores ! i) = stretched scores (sint (scores ! i))"
  using map_sint_stretch [of scores] by (metis length_stretch nth_map)

interpretation stretch: score_normalizer stretch stretchable
proof
  fix ss s assume ok: "stretchable ss" and s: "s \<in> set (stretch ss)"
  then have "sint s \<in> set (map sint (stretch ss))" by simp
  then show "0 \<le> sint s \<and> sint s \<le> 100" using stretched_range by (auto simp: map_sint_stretch [OF ok])
qed simp


lemma stretch_hits_ends:
  assumes "stretchable scores" and "1 < card (sint ` set scores)"
  shows "{0, 100} \<subseteq> sint ` set (stretch scores)"
proof -
  have ne: "scores \<noteq> []" and fin: "finite (sint ` set scores)" "sint ` set scores \<noteq> {}" using assms(2) by auto
  have "Max (sint ` set scores) \<noteq> Min (sint ` set scores)"
  proof
    assume "Max (sint ` set scores) = Min (sint ` set scores)"
    then have "sint ` set scores \<subseteq> {Min (sint ` set scores)}" using fin(1) by (metis Max_ge Min_le antisym singletonI subsetI)
    with card_mono [OF _ this] assms(2) show False by simp
  qed
  moreover have "sint ` set (stretch scores) = stretched scores ` (sint ` set scores)"
    using arg_cong [OF map_sint_stretch [OF assms(1)], of set] by (simp add: image_image)
  ultimately show ?thesis
    using Max_in [OF fin] Min_in [OF fin] stretched_ends [OF ne] by (metis empty_subsetI imageI insert_subset)
qed

text \<open>The order of the nodes survives: what the normalization does to any two of them.\<close>

lemma stretch_order:
  assumes "stretchable scores" and "i < length scores" and "j < length scores" and "sint (scores ! i) \<le> sint (scores ! j)"
  shows "sint (stretch scores ! i) \<le> sint (stretch scores ! j)"
proof -
  have "scores \<noteq> []" using assms(2) by auto
  from stretched_mono [OF this assms(4)] show ?thesis using assms(1-3) by (simp add: stretch_nth)
qed

section \<open>Terminating and nominated pods\<close>

lemma count_fold: "foldl (\<lambda>n p. if P p then n + 1 else n) (k :: int64) ps = k + of_nat (length (filter P ps))"
  by (induction ps arbitrary: k) simp_all

lemma PodState_score_exact:
  assumes "ni_hasNode n" and "length (nominated (ni_name n)) < 2 ^ 55" and "length (ni_pods n) < 2 ^ 55"
  shows "\<exists>s. PodState_score nominated n = Some s \<and> \<bar>sint s\<bar> \<le> 2 ^ 55 \<and>
    sint s = int (length (filter (\<lambda>p. pod_deletionTimestamp p \<noteq> None) (ni_pods n))) - int (length (nominated (ni_name n)))"
proof -
  let ?t = "length (filter (\<lambda>p. pod_deletionTimestamp p \<noteq> None) (ni_pods n))" and ?m = "length (nominated (ni_name n))"
  let ?s = "of_nat ?t - of_nat ?m :: int64"
  have "?t < 2 ^ 55" using assms(3) le_less_trans [OF length_filter_le] by blast
  then have "in_int64 (int ?t - int ?m)" and b: "\<bar>int ?t - int ?m\<bar> \<le> 2 ^ 55" using assms(2) by (auto simp: in_int64_def)
  moreover have "?s = word_of_int (int ?t - int ?m)" by (simp add: wi_hom_syms(2) word_of_int_nat)
  ultimately have "sint ?s = int ?t - int ?m" using sint_of_int64 by metis
  moreover have "PodState_score nominated n = Some ?s"
    using assms(1) by (simp add: PodState_score_def count_fold del: One_nat_def)
  ultimately show ?thesis using b by auto
qed


text \<open>
  The pod state plugin ranks nodes by how many pods are leaving them less how many are nominated to
  them. Whatever nodes are scored, no call panics or fails, the normalized scores are in the
  framework's range, a node with a larger difference never gets a smaller score, and unless all
  differences are equal the best node gets 100 and the worst 0.
\<close>

theorem PodState_ranking:
  assumes "\<forall>nm \<in> set names. \<exists>n. getNode nm = Inr n \<and> ni_hasNode n \<and> ni_name n = nm \<and>
      length (nominated nm) < 2 ^ 55 \<and> length (ni_pods n) < 2 ^ 55"
    and "\<And>nm. diff nm = int (length (filter (\<lambda>p. pod_deletionTimestamp p \<noteq> None) (ni_pods (projr (getNode nm)))))
      - int (length (nominated nm))"
  shows "\<exists>scores. map (PodState_Score getNode nominated) names = map (Some \<circ> Inr) scores \<and>
    (let out = map sint (PodState_NormalizeScore scores)
     in length out = length names \<and> set out \<subseteq> {0..100} \<and>
        (\<forall>i < length names. \<forall>j < length names. diff (names ! i) \<le> diff (names ! j) \<longrightarrow> out ! i \<le> out ! j) \<and>
        (1 < card (diff ` set names) \<longrightarrow> {0, 100} \<subseteq> set out))"
proof -
  have ex: "\<forall>nm \<in> set names. \<exists>s. PodState_Score getNode nominated nm = Some (Inr s) \<and> \<bar>sint s\<bar> \<le> 2 ^ 55 \<and> sint s = diff nm"
  proof
    fix nm assume "nm \<in> set names"
    with assms(1) obtain n where "getNode nm = Inr n" "ni_hasNode n" "ni_name n = nm"
      "length (nominated (ni_name n)) < 2 ^ 55" "length (ni_pods n) < 2 ^ 55" by auto
    then show "\<exists>s. PodState_Score getNode nominated nm = Some (Inr s) \<and> \<bar>sint s\<bar> \<le> 2 ^ 55 \<and> sint s = diff nm"
      using PodState_score_exact [of n nominated] by (auto simp: PodState_Score_def assms(2))
  qed
  then obtain f where f: "\<forall>nm \<in> set names. PodState_Score getNode nominated nm = Some (Inr (f nm)) \<and>
      \<bar>sint (f nm)\<bar> \<le> 2 ^ 55 \<and> sint (f nm) = diff nm" by metis
  let ?scores = "map f names"
  have ok: "stretchable ?scores" using f unfolding stretchable_def list_all_iff by auto
  have img: "sint ` set ?scores = diff ` set names" using f by (auto simp: image_image)
  have ends: "1 < card (diff ` set names) \<Longrightarrow> {0, 100} \<subseteq> set (map sint (stretch ?scores))"
    using stretch_hits_ends [OF ok] img by simp
  have range: "set (map sint (stretch ?scores)) \<subseteq> {0..100}" using stretch.norm_range [OF ok] by auto
  have ord: "\<forall>i < length names. \<forall>j < length names. diff (names ! i) \<le> diff (names ! j) \<longrightarrow>
      map sint (stretch ?scores) ! i \<le> map sint (stretch ?scores) ! j"
    using f stretch_order [OF ok] by simp
  show ?thesis
    using f ends range ord by (intro exI [of _ ?scores]) (simp add: PodState_NormalizeScore_def Let_def)
qed

section \<open>Weighted capacities\<close>

definition weighted_capacity :: "resourceToWeightMap \<Rightarrow> ANodeInfo \<Rightarrow> Pod \<Rightarrow> int" where
  "weighted_capacity ws n pod = (\<Sum>(r, w) \<leftarrow> ws. sint (fst (calculateResourceAllocatableRequest n pod r)) * sint w)"

definition weight_sum :: "resourceToWeightMap \<Rightarrow> int" where
  "weight_sum ws = (\<Sum>(r, w) \<leftarrow> ws. sint w)"

definition mode_sign :: "string \<Rightarrow> int" where
  "mode_sign mode = (if mode = mode_Least then - 1 else if mode = mode_Most then 1 else 0)"

lemma score_capacity_sign: "score_capacity c mode = word_of_int (mode_sign mode * sint c)"
  by (simp add: score_capacity_def mode_sign_def wi_hom_syms)

lemma scorer_fold:
  "foldl (\<lambda>(nodeScore, weightSum) (resource, weight).
      (nodeScore + score_capacity (map_getd 0 al resource) mode * weight, weightSum + weight)) (a, b) ws =
   (a + word_of_int (mode_sign mode * (\<Sum>(r, w) \<leftarrow> ws. sint (map_getd 0 al r) * sint w)),
    b + word_of_int (\<Sum>(r, w) \<leftarrow> ws. sint w))"
proof (induction ws arbitrary: a b)
  case (Cons e ws)
  obtain r w where e: "e = (r, w)" by (cases e)
  have "score_capacity c mode * w = word_of_int (mode_sign mode * (sint c * sint w))" for c
    by (simp add: score_capacity_sign wi_hom_mult [symmetric])
  moreover have "b + w = b + word_of_int (sint w)" by simp
  ultimately show ?case by (simp add: e Cons.IH wi_hom_add [symmetric] distrib_left add.assoc)
qed simp

lemma value_maps:
  "map_getd 0 (fst (foldl (\<lambda>(al, rq) (resource, weight).
      let (a, q) = calculateResourceAllocatableRequest n pod resource
      in (map_set resource a al, map_set resource q rq)) (al0, rq0) ws)) r =
    (if r \<in> fst ` set ws then fst (calculateResourceAllocatableRequest n pod r) else map_getd 0 al0 r)"
proof (induction ws arbitrary: al0 rq0)
  case (Cons e ws)
  then show ?case by (cases e) (auto simp: split_beta Let_def map_getd_set)
qed simp

lemma scorer_score_exact:
  assumes "al_weights alloc \<noteq> []" and "ni_hasNode n"
    and "al_mode alloc \<in> {mode_Least, mode_Most}"
    and "0 < weight_sum (al_weights alloc)" and "weight_sum (al_weights alloc) < 2 ^ 63"
    and "0 \<le> weighted_capacity (al_weights alloc) n pod" and "weighted_capacity (al_weights alloc) n pod \<le> 2 ^ 55"
  shows "\<exists>s. scorer_score alloc pod n = Some (Inr s) \<and> \<bar>sint s\<bar> \<le> 2 ^ 55 \<and>
    sint s = mode_sign (al_mode alloc) * (weighted_capacity (al_weights alloc) n pod div weight_sum (al_weights alloc))"
proof -
  let ?ws = "al_weights alloc" and ?W = "weighted_capacity (al_weights alloc) n pod" and ?S = "weight_sum (al_weights alloc)"
  let ?al = "fst (foldl (\<lambda>(al, rq) (resource, weight).
      let (a, q) = calculateResourceAllocatableRequest n pod resource
      in (map_set resource a al, map_set resource q rq)) ([], []) ?ws)"
  let ?s = "sdiv64 (word_of_int (mode_sign (al_mode alloc) * ?W)) (word_of_int ?S)"
  have look: "map_getd 0 ?al (fst e) = fst (calculateResourceAllocatableRequest n pod (fst e))" if "e \<in> set ?ws" for e
    using that by (subst value_maps) simp
  have W: "(\<Sum>(r, w) \<leftarrow> ?ws. sint (map_getd 0 ?al r) * sint w) = ?W"
    unfolding weighted_capacity_def
  proof (intro arg_cong [where f = sum_list] map_cong refl)
    fix e assume "e \<in> set ?ws"
    from look [OF this] show "(case e of (r, w) \<Rightarrow> sint (map_getd 0 ?al r) * sint w) =
        (case e of (r, w) \<Rightarrow> sint (fst (calculateResourceAllocatableRequest n pod r)) * sint w)"
      by (cases e) (simp only: prod.case fst_conv)
  qed
  have S: "in_int64 ?S" using assms(4,5) by (simp add: in_int64_def)
  then have nz: "(word_of_int ?S :: int64) \<noteq> 0" using assms(4) by (metis less_irrefl sint_0 sint_of_int64)
  have sg: "mode_sign (al_mode alloc) = - 1 \<or> mode_sign (al_mode alloc) = 1"
    using assms(3) by (auto simp: mode_sign_def mode_Least_def mode_Most_def)
  have "?W div ?S \<le> ?W" "0 \<le> ?W div ?S" using assms(4,6) zdiv_mono2 [of ?W 1 ?S] by (simp_all add: pos_imp_zdiv_nonneg_iff)
  then have q: "0 \<le> ?W div ?S" "?W div ?S \<le> 2 ^ 55" using assms(7) by linarith+
  have "in_int64 (mode_sign (al_mode alloc) * ?W)" "in_int64 (mode_sign (al_mode alloc) * (?W div ?S))"
    using sg q assms(6,7) by (auto simp: in_int64_def)
  moreover have "go_div (mode_sign (al_mode alloc) * ?W) ?S = mode_sign (al_mode alloc) * (?W div ?S)"
    using sg assms(4,6) by (auto simp: go_div_def sgn_if)
  ultimately have "sint ?s = mode_sign (al_mode alloc) * (?W div ?S)"
    using S unfolding sdiv64_def by (simp only: sint_of_int64)
  moreover have "scorer_score alloc pod n = Some (Inr ?s)"
    using assms(1,2) nz W unfolding scorer_score_def resourceScorer_def
    by (simp add: scorer_fold Let_def weight_sum_def [symmetric])
  ultimately show ?thesis using sg q by auto
qed


lemma set_map_set: "e \<in> set (map_set k v m) \<Longrightarrow> e = (k, v) \<or> e \<in> set m"
  by (induction m) (auto split: if_splits)

text \<open>The constructor establishes: a known mode, some weight, and only positive weights.\<close>

lemma NewAllocatable_ok:
  assumes "NewAllocatable args = Inr alloc"
  shows "al_weights alloc \<noteq> [] \<and> (\<forall>(r, w) \<in> set (al_weights alloc). 0 < sint w) \<and> al_mode alloc \<in> {mode_Least, mode_Most}"
proof -
  have pos: "\<forall>(r, w) \<in> set (foldl (\<lambda>m x. map_set (rs_Name x) (rs_Weight x) m) m xs). 0 < sint w"
    if "validateResources xs = None" and "\<forall>(r, w) \<in> set m. 0 < sint w" for xs and m :: resourceToWeightMap
    using that
  proof (induction xs arbitrary: m)
    case (Cons x xs)
    from Cons.prems(1) have x: "0 < sint (rs_Weight x)" "validateResources xs = None"
      by (auto simp: sle_def split: if_splits)
    have "\<forall>(r, w) \<in> set (map_set (rs_Name x) (rs_Weight x) m). 0 < sint w"
      using x(1) Cons.prems(2) by (auto dest!: set_map_set)
    with Cons.IH [OF x(2)] show ?case by simp
  qed simp
  have ne: "foldl (\<lambda>m x. map_set (rs_Name x) (rs_Weight x) m) m xs \<noteq> []" if "m \<noteq> [] \<or> xs \<noteq> []"
    for xs :: "ResourceSpec list" and m :: resourceToWeightMap
    using that
  proof (induction xs arbitrary: m)
    case (Cons x xs)
    have "map_set (rs_Name x) (rs_Weight x) m \<noteq> []" by (cases m) auto
    with Cons.IH show ?case by simp
  qed simp
  have dflt: "\<forall>(r, w) \<in> set defaultResourcesToWeightMap. 0 < sint w" "defaultResourcesToWeightMap \<noteq> []"
    by (simp_all add: defaultResourcesToWeightMap_def)
  show ?thesis
  proof (cases args)
    case (ArgsAllocatable m rs)
    have mode: "al_mode alloc \<in> {mode_Least, mode_Most}"
      using assms by (auto simp: ArgsAllocatable NewAllocatable_def Let_def split: if_splits option.splits)
    have "al_weights alloc = (if rs = [] then defaultResourcesToWeightMap
        else foldl (\<lambda>m x. map_set (rs_Name x) (rs_Weight x) m) [] rs) \<and> (rs \<noteq> [] \<longrightarrow> validateResources rs = None)"
      using assms by (auto simp: ArgsAllocatable NewAllocatable_def Let_def split: if_splits option.splits)
    then show ?thesis using mode dflt pos [of rs "[]"] ne [of "[]" rs] by (cases "rs = []") simp_all
  qed (use assms dflt in \<open>auto simp: NewAllocatable_def\<close>)
qed

lemma weight_sum_pos:
  assumes "ws \<noteq> []" and "\<forall>(r, w) \<in> set ws. 0 < sint w"
  shows "0 < weight_sum ws"
proof -
  have nn: "0 \<le> weight_sum us" if "set us \<subseteq> set ws" for us
    using that assms(2) unfolding weight_sum_def by (intro sum_list_nonneg) fastforce
  obtain e us where ws: "ws = e # us" using assms(1) by (cases ws) auto
  then have "0 \<le> weight_sum us" using nn by auto
  then show ?thesis using assms(2) ws by (cases e) (auto simp: weight_sum_def)
qed

text \<open>
  C25. The allocatable plugin ranks nodes by their weighted capacity. For every accepted configuration
  (validated weights and mode, with defaults where they are left out), if capacities and weights stay
  below the stated bounds then no call panics or fails, the normalized scores are in the framework's
  range, and a node with a larger weighted sum of allocatable resources never gets a smaller score in
  mode \<open>Most\<close>, and never a larger one in mode \<open>Least\<close>.
\<close>

theorem Allocatable_ranking:
  assumes "NewAllocatable args = Inr alloc" and "weight_sum (al_weights alloc) < 2 ^ 63"
    and "\<And>nm. cap nm = weighted_capacity (al_weights alloc) (projr (getNode nm)) pod"
    and "\<forall>nm \<in> set names. \<exists>n. getNode nm = Inr n \<and> ni_hasNode n \<and> 0 \<le> cap nm \<and> cap nm \<le> 2 ^ 55"
  shows "\<exists>scores. map (Allocatable_Score alloc getNode pod) names = map (Some \<circ> Inr) scores \<and>
    (let out = map sint (Allocatable_NormalizeScore scores)
     in length out = length names \<and> set out \<subseteq> {0..100} \<and>
        (\<forall>i < length names. \<forall>j < length names. cap (names ! i) \<le> cap (names ! j) \<longrightarrow>
           (if al_mode alloc = mode_Most then out ! i \<le> out ! j else out ! j \<le> out ! i)))"
proof -
  let ?S = "weight_sum (al_weights alloc)" and ?sg = "mode_sign (al_mode alloc)"
  have ok: "al_weights alloc \<noteq> []" "0 < ?S" and mode: "al_mode alloc \<in> {mode_Least, mode_Most}"
    using NewAllocatable_ok [OF assms(1)] weight_sum_pos by auto
  have "\<forall>nm \<in> set names. \<exists>s. Allocatable_Score alloc getNode pod nm = Some (Inr s) \<and> \<bar>sint s\<bar> \<le> 2 ^ 55 \<and>
      sint s = ?sg * (cap nm div ?S)"
  proof
    fix nm assume "nm \<in> set names"
    with assms(4) obtain n where n: "getNode nm = Inr n" "ni_hasNode n" "0 \<le> cap nm" "cap nm \<le> 2 ^ 55" by auto
    moreover have "cap nm = weighted_capacity (al_weights alloc) n pod" using n(1) by (simp add: assms(3))
    ultimately show "\<exists>s. Allocatable_Score alloc getNode pod nm = Some (Inr s) \<and> \<bar>sint s\<bar> \<le> 2 ^ 55 \<and>
        sint s = ?sg * (cap nm div ?S)"
      using scorer_score_exact [OF ok(1) n(2) mode ok(2) assms(2), of pod] by (auto simp: Allocatable_Score_def)
  qed
  then obtain f where f: "\<forall>nm \<in> set names. Allocatable_Score alloc getNode pod nm = Some (Inr (f nm)) \<and>
      \<bar>sint (f nm)\<bar> \<le> 2 ^ 55 \<and> sint (f nm) = ?sg * (cap nm div ?S)" by metis
  let ?scores = "map f names"
  have st: "stretchable ?scores" using f unfolding stretchable_def list_all_iff by auto
  have range: "set (map sint (stretch ?scores)) \<subseteq> {0..100}" using stretch.norm_range [OF st] by auto
  have ord: "if al_mode alloc = mode_Most then sint (stretch ?scores ! i) \<le> sint (stretch ?scores ! j)
      else sint (stretch ?scores ! j) \<le> sint (stretch ?scores ! i)"
    if "i < length names" "j < length names" "cap (names ! i) \<le> cap (names ! j)" for i j
  proof -
    have "cap (names ! i) div ?S \<le> cap (names ! j) div ?S" using that(3) ok(2) by (rule zdiv_mono1)
    then show ?thesis
      using that(1,2) f mode stretch_order [OF st, of i j] stretch_order [OF st, of j i]
      by (auto simp: mode_sign_def mode_Least_def mode_Most_def)
  qed
  show ?thesis
    using f range ord by (intro exI [of _ ?scores]) (simp add: Allocatable_NormalizeScore_def Let_def)
qed


text \<open>Two nodes: a small one with a terminating pod, a large one to which a pod is nominated.\<close>

definition demo_anode :: "string \<Rightarrow> int64 \<Rightarrow> Pod list \<Rightarrow> ANodeInfo" where
  "demo_anode name cpu pods =
     \<lparr>ni_name = name, ni_pods = pods, ni_hasNode = True,
      ni_allocatable = empty_Resource\<lparr>MilliCPU := cpu, Memory := 2 ^ 30\<rparr>, ni_requested = empty_Resource,
      ni_nonZeroRequested = empty_Resource\<rparr>"

definition demo_small :: ANodeInfo where
  "demo_small = demo_anode ''small'' 2000 [demo_pod\<lparr>pod_deletionTimestamp := Some 5\<rparr>]"

definition demo_large :: ANodeInfo where
  "demo_large = demo_anode ''large'' 16000 [demo_pod]"

definition demo_nodes :: "string \<Rightarrow> string + ANodeInfo" where
  "demo_nodes nm = (if nm = ''small'' then Inr demo_small else if nm = ''large'' then Inr demo_large else Inl ''not found'')"

definition demo_fnodes :: "string \<Rightarrow> string + FNodeInfo" where
  "demo_fnodes nm = map_sum id FNodeInfo.truncate (demo_nodes nm)"

definition demo_nominated :: "string \<Rightarrow> Pod list" where
  "demo_nominated nm = (if nm = ''large'' then [demo_pod] else [])"

lemmas demo_nodes_defs = demo_nodes_def demo_small_def demo_large_def demo_anode_def demo_fnodes_def FNodeInfo.truncate_def

theorem PodState_ranking_witness:
  "\<exists>scores. map (PodState_Score demo_fnodes demo_nominated) [''small'', ''large''] = map (Some \<circ> Inr) scores \<and>
     {0, 100} \<subseteq> set (map sint (PodState_NormalizeScore scores))"
proof -
  define diff where "diff nm = int (length (filter (\<lambda>p. pod_deletionTimestamp p \<noteq> None) (ni_pods (projr (demo_fnodes nm)))))
      - int (length (demo_nominated nm))" for nm
  have "\<forall>nm \<in> set [''small'', ''large'']. \<exists>n. demo_fnodes nm = Inr n \<and> ni_hasNode n \<and> ni_name n = nm \<and>
      length (demo_nominated nm) < 2 ^ 55 \<and> length (ni_pods n) < 2 ^ 55"
    by (simp add: demo_nodes_defs demo_nominated_def)
  from PodState_ranking [OF this diff_def] obtain scores where
    s: "map (PodState_Score demo_fnodes demo_nominated) [''small'', ''large''] = map (Some \<circ> Inr) scores"
    and e: "1 < card (diff ` set [''small'', ''large'']) \<longrightarrow> {0, 100} \<subseteq> set (map sint (PodState_NormalizeScore scores))"
    unfolding Let_def by blast
  have "diff ''small'' = 1" "diff ''large'' = - 1"
    by (simp_all add: diff_def demo_nodes_defs demo_nominated_def demo_pod_def)
  then have "1 < card (diff ` set [''small'', ''large''])" by simp
  with s e show ?thesis by blast
qed

theorem Allocatable_ranking_witness:
  "\<exists>alloc scores. NewAllocatable ArgsNil = Inr alloc \<and>
     map (Allocatable_Score alloc demo_nodes demo_pod) [''small'', ''large''] = map (Some \<circ> Inr) scores \<and>
     map sint (Allocatable_NormalizeScore scores) ! 1 \<le> map sint (Allocatable_NormalizeScore scores) ! 0"
proof -
  define alloc where "alloc = \<lparr>al_mode = mode_Least, al_weights = defaultResourcesToWeightMap\<rparr>"
  define cap where "cap nm = weighted_capacity (al_weights alloc) (projr (demo_nodes nm)) demo_pod" for nm
  have n: "NewAllocatable ArgsNil = Inr alloc" by (simp add: NewAllocatable_def alloc_def)
  have w: "weight_sum (al_weights alloc) < 2 ^ 63" by (simp add: alloc_def weight_sum_def defaultResourcesToWeightMap_def)
  have caps: "cap ''small'' = 2 ^ 30 + 2000 * 2 ^ 20" "cap ''large'' = 2 ^ 30 + 16000 * 2 ^ 20"
    by (simp_all add: cap_def alloc_def weighted_capacity_def defaultResourcesToWeightMap_def demo_nodes_defs
        calculateResourceAllocatableRequest_def Let_def empty_Resource_def)
  have h: "\<forall>nm \<in> set [''small'', ''large'']. \<exists>n. demo_nodes nm = Inr n \<and> ni_hasNode n \<and> 0 \<le> cap nm \<and> cap nm \<le> 2 ^ 55"
    using caps by (simp add: demo_nodes_defs)
  from Allocatable_ranking [OF n w cap_def h] obtain scores where
    s: "map (Allocatable_Score alloc demo_nodes demo_pod) [''small'', ''large''] = map (Some \<circ> Inr) scores"
    and o: "\<forall>i < length [''small'', ''large'']. \<forall>j < length [''small'', ''large''].
      cap ([''small'', ''large''] ! i) \<le> cap ([''small'', ''large''] ! j) \<longrightarrow>
      (if al_mode alloc = mode_Most then map sint (Allocatable_NormalizeScore scores) ! i \<le> map sint (Allocatable_NormalizeScore scores) ! j
       else map sint (Allocatable_NormalizeScore scores) ! j \<le> map sint (Allocatable_NormalizeScore scores) ! i)"
    unfolding Let_def by blast
  have "al_mode alloc \<noteq> mode_Most" by (simp add: alloc_def mode_Least_def mode_Most_def)
  then have "map sint (Allocatable_NormalizeScore scores) ! 1 \<le> map sint (Allocatable_NormalizeScore scores) ! 0"
    using o [rule_format, of 0 1] caps by simp
  then show ?thesis using n s by blast
qed

end
