(* ===== verification/PreemptionToleration.thy ===== *)
theory PreemptionToleration
  imports CapacityPreemption ConfigTypes
begin

text \<open>
  The PreemptionToleration plugin, \<open>pkg/preemptiontoleration\<close>: preemption that spares pods whose
  priority class tolerates the preemptor, for a time. The framework's preemption evaluator calls
  \<open>SelectVictimsOnNode\<close> on copies of the nodes.

  The selection is written out as in this plugin and shown equal to the selection of the capacity
  plugin without quotas, so that the conservation lemmas there apply. Results: who may be chosen, that
  the preemptor fits once the victims are gone, and that no victim could have been spared.

  Arguments: the priority class lister, the \<open>PodScheduled\<close> condition of a pod (its status and the time
  of its last transition), the clock, and the framework's \<open>Handle\<close>. Times are nanoseconds.
\<close>

section \<open>Toleration policy\<close>

definition AnnotationKeyPrefix :: string where
  "AnnotationKeyPrefix = ''preemption-toleration.scheduling.x-k8s.io/''"

definition AnnotationKeyMinimumPreemptablePriority :: string where
  "AnnotationKeyMinimumPreemptablePriority = AnnotationKeyPrefix @ ''minimum-preemptable-priority''"

definition AnnotationKeyTolerationSeconds :: string where
  "AnnotationKeyTolerationSeconds = AnnotationKeyPrefix @ ''toleration-seconds''"

record PriorityClass =
  pc_Value :: int32
  pc_Annotations :: "(string, string) gomap"

record Policy =
  MinimumPreemptablePriority :: int32
  TolerationSeconds :: int64

definition parsePreemptionTolerationPolicy :: "PriorityClass \<Rightarrow> Policy option" where
  "parsePreemptionTolerationPolicy pc = do {
     minimum \<leftarrow> (case map_get (pc_Annotations pc) AnnotationKeyMinimumPreemptablePriority of
                    None \<Rightarrow> Some (pc_Value pc + 1)
                  | Some str \<Rightarrow> map_option word_of_int (ParseInt str 32));
     seconds \<leftarrow> (case map_get (pc_Annotations pc) AnnotationKeyTolerationSeconds of
                    None \<Rightarrow> Some 0
                  | Some str \<Rightarrow> map_option word_of_int (ParseInt str 64));
     Some \<lparr>MinimumPreemptablePriority = minimum, TolerationSeconds = seconds\<rparr>
   }"

record PTEnv =
  pt_class :: "string \<Rightarrow> string + PriorityClass"
  pt_scheduledCondition :: "Pod \<Rightarrow> (bool \<times> int) option"

text \<open>\<open>time.Second\<close> in nanoseconds; the product is a wrapping \<open>time.Duration\<close>.\<close>

definition time_Second :: int64 where "time_Second = 1000000000"

definition ExemptedFromPreemption :: "PTEnv \<Rightarrow> Pod \<Rightarrow> Pod \<Rightarrow> int \<Rightarrow> string + bool" where
  "ExemptedFromPreemption env victimCandidate preemptor now =
     (if pod_priorityClassName victimCandidate = [] then Inr False
      else (case pt_class env (pod_priorityClassName victimCandidate) of
              Inl err \<Rightarrow> Inl err
            | Inr victimPriorityClass \<Rightarrow>
                (let preemptorPreemptionPolicy =
                       (case pod_preemptionPolicy preemptor of None \<Rightarrow> PreemptLowerPriority | Some p \<Rightarrow> p)
                 in if preemptorPreemptionPolicy = PreemptNever then Inr True
                    else (case parsePreemptionTolerationPolicy victimPriorityClass of
                            None \<Rightarrow> Inr False
                          | Some policy \<Rightarrow>
                              if PodPriority preemptor \<ge> sint (MinimumPreemptablePriority policy) then Inr False
                              else if slt (TolerationSeconds policy) 0 then Inr True
                              else (case pt_scheduledCondition env victimCandidate of
                                      None \<Rightarrow> Inr True
                                    | Some (isTrue, scheduledAt) \<Rightarrow>
                                        if \<not> isTrue then Inr True
                                        else let tolerationDuration = TolerationSeconds policy * time_Second
                                             in Inr (scheduledAt + sint tolerationDuration > now))))))"

section \<open>The plugin\<close>

record PreemptionToleration =
  pt_args :: PreemptionTolerationArgs
  pt_curTime :: int

text \<open>\<open>validation.ValidateDefaultPreemptionArgs\<close>, without the texts of the errors.\<close>

definition ValidateDefaultPreemptionArgs :: "PreemptionTolerationArgs \<Rightarrow> bool" where
  "ValidateDefaultPreemptionArgs args \<longleftrightarrow>
     \<not> (sint (MinCandidateNodesPercentage args) < 0 \<or> sint (MinCandidateNodesPercentage args) > 100) \<and>
     \<not> sint (MinCandidateNodesAbsolute args) < 0 \<and>
     \<not> (MinCandidateNodesPercentage args = 0 \<and> MinCandidateNodesAbsolute args = 0)"

definition New_PreemptionToleration :: "PreemptionTolerationArgs option \<Rightarrow> string + PreemptionToleration" where
  "New_PreemptionToleration rawArgs =
     (case rawArgs of
        None \<Rightarrow> Inl ''got args of another type, want *PreemptionTolerationArgs''
      | Some args \<Rightarrow>
          if \<not> ValidateDefaultPreemptionArgs args then Inl ''invalid args''
          else Inr \<lparr>pt_args = args, pt_curTime = 0\<rparr>)"

text \<open>\<open>PostFilter\<close> sets the time of this attempt and runs the framework's evaluator \<open>preempt\<close>.\<close>

definition PT_PostFilter :: "(PreemptionToleration \<Rightarrow> 'r) \<Rightarrow> int \<Rightarrow> PreemptionToleration \<Rightarrow> PreemptionToleration \<times> 'r" where
  "PT_PostFilter preempt now pl = (let pl' = pl\<lparr>pt_curTime := now\<rparr> in (pl', preempt pl'))"

definition calculateNumCandidates :: "PreemptionTolerationArgs \<Rightarrow> int32 \<Rightarrow> int32" where
  "calculateNumCandidates args numNodes =
     (let n = word_of_int (go_div (sint (numNodes * MinCandidateNodesPercentage args)) 100);
          n = (if sint n < sint (MinCandidateNodesAbsolute args) then MinCandidateNodesAbsolute args else n)
      in if sint n > sint numNodes then numNodes else n)"

text \<open>\<open>rand.Int31n\<close> panics unless its bound is positive; \<open>random\<close> is what it draws.\<close>

definition PT_GetOffsetAndNumCandidates :: "(int32 \<Rightarrow> int32) \<Rightarrow> PreemptionTolerationArgs \<Rightarrow> int32 \<Rightarrow> (int32 \<times> int32) option" where
  "PT_GetOffsetAndNumCandidates random args numNodes =
     (if sint numNodes \<le> 0 then None else Some (random numNodes, calculateNumCandidates args numNodes))"

definition PT_CandidatesToVictimsMap :: "(string \<times> Pod list) list \<Rightarrow> (string, Pod list) gomap" where
  "PT_CandidatesToVictimsMap candidates = foldl (\<lambda>m (name, victims). map_set name victims m) [] candidates"

definition PT_PodEligibleToPreemptOthers :: "(string \<Rightarrow> NodeInfo option) \<Rightarrow> Pod \<Rightarrow> Code \<Rightarrow> bool \<times> string" where
  "PT_PodEligibleToPreemptOthers getNode pod nominatedNodeCode =
     (if pod_preemptionPolicy pod = Some PreemptNever then (False, ''not eligible due to preemptionPolicy=Never.'')
      else if length (pod_nominatedNodeName pod) > 0 then
        if nominatedNodeCode = UnschedulableAndUnresolvable then (True, [])
        else (case getNode (pod_nominatedNodeName pod) of
                Some nodeInfo \<Rightarrow>
                  if list_ex (\<lambda>p. pod_deletionTimestamp p \<noteq> None \<and> PodPriority p < PodPriority pod) (ni_pods nodeInfo)
                  then (False, msg_terminating) else (True, [])
              | None \<Rightarrow> (True, []))
      else (True, []))"

section \<open>Selecting victims on a node\<close>

text \<open>The loop over \<open>nodeInfo.Pods\<close> (see \<open>CapacityPreemption\<close> on ranging while removing).\<close>

definition PT_collect_step ::
  "Handle \<Rightarrow> PTEnv \<Rightarrow> int \<Rightarrow> Pod \<Rightarrow> (StateData CycleState \<times> NodeInfo) \<times> Pod list \<Rightarrow> Pod \<Rightarrow>
   (Status + (StateData CycleState \<times> NodeInfo) \<times> Pod list) option" where
  "PT_collect_step h env curTime preemptor acc podInfo =
     (if PodPriority podInfo \<ge> PodPriority preemptor then Some (Inr acc)
      else (case ExemptedFromPreemption env podInfo preemptor curTime of
              Inl err \<Rightarrow> Some (Inl (AsStatus err))
            | Inr True \<Rightarrow> Some (Inr acc)
            | Inr False \<Rightarrow>
                (case sv_removePod h preemptor (fst acc) podInfo of
                   Inl err \<Rightarrow> Some (Inl (AsStatus err))
                 | Inr s' \<Rightarrow> Some (Inr (s', snd acc @ [podInfo])))))"

text \<open>This plugin's copy of the split by disruption budgets is the same code.\<close>

definition PT_filterPodsWithPDBViolation :: "Pod list \<Rightarrow> PodDisruptionBudget list \<Rightarrow> Pod list \<times> Pod list" where
  "PT_filterPodsWithPDBViolation pods pdbs = pdb_split pdbs (map pdb_disruptionsAllowed pdbs) pods"

definition PT_reprievePod ::
  "Handle \<Rightarrow> Pod \<Rightarrow> (StateData CycleState \<times> NodeInfo) \<times> Pod list \<Rightarrow> Pod \<Rightarrow>
   string + bool \<times> (StateData CycleState \<times> NodeInfo) \<times> Pod list" where
  "PT_reprievePod h preemptor acc podInfo =
     (case sv_addPod h preemptor (fst acc) podInfo of
        Inl err \<Rightarrow> Inl err
      | Inr s1 \<Rightarrow>
          if \<not> IsSuccess (RunFilterPluginsWithNominatedPods h (fst s1) preemptor (snd s1)) then
            (case sv_removePod h preemptor s1 podInfo of
               Inl err \<Rightarrow> Inl err
             | Inr s2 \<Rightarrow> Inr (False, s2, snd acc @ [podInfo]))
          else Inr (True, s1, snd acc))"

definition PT_reprieve_step ::
  "Handle \<Rightarrow> Pod \<Rightarrow> ((StateData CycleState \<times> NodeInfo) \<times> Pod list) \<times> nat \<Rightarrow> Pod \<Rightarrow>
   (Status + ((StateData CycleState \<times> NodeInfo) \<times> Pod list) \<times> nat) option" where
  "PT_reprieve_step h preemptor acc podInfo =
     (case PT_reprievePod h preemptor (fst acc) podInfo of
        Inl err \<Rightarrow> Some (Inl (AsStatus err))
      | Inr (fits, acc') \<Rightarrow> Some (Inr (acc', if fits then snd acc else Suc (snd acc))))"

text \<open>The count of violating victims is taken after the first loop.\<close>

definition PT_SelectVictimsOnNode ::
  "Handle \<Rightarrow> PTEnv \<Rightarrow> PreemptionToleration \<Rightarrow> StateData CycleState \<Rightarrow> Pod \<Rightarrow> NodeInfo \<Rightarrow> PodDisruptionBudget list \<Rightarrow>
   (Pod list \<times> nat \<times> Status) option" where
  "PT_SelectVictimsOnNode h env pl state preemptor nodeInfo pdbs =
     (case foldE (PT_collect_step h env (pt_curTime pl) preemptor) ((state, nodeInfo), []) (ni_pods nodeInfo) of
        None \<Rightarrow> None
      | Some (Inl status) \<Rightarrow> Some ([], 0, status)
      | Some (Inr (s, potentialVictims)) \<Rightarrow>
          if potentialVictims = [] then
            Some ([], 0, NewStatus UnschedulableAndUnresolvable
              [''No victims found on node '' @ ni_name nodeInfo @ '' for preemptor pod '' @ pod_name preemptor])
          else (let status = RunFilterPluginsWithNominatedPods h (fst s) preemptor (snd s)
          in if \<not> IsSuccess status then Some ([], 0, status)
          else
            (let (violatingVictims, nonViolatingVictims) =
                   PT_filterPodsWithPDBViolation (sortSlice h (MoreImportantPod h) potentialVictims) pdbs
             in case foldE (PT_reprieve_step h preemptor) ((s, []), 0) violatingVictims of
                  None \<Rightarrow> None
                | Some (Inl status) \<Rightarrow> Some ([], 0, status)
                | Some (Inr (acc, numViolatingVictim)) \<Rightarrow>
                    (case foldE (PT_reprieve_step h preemptor) (acc, numViolatingVictim) nonViolatingVictims of
                       None \<Rightarrow> None
                     | Some (Inl status) \<Rightarrow> Some ([], 0, status)
                     | Some (Inr ((_, victims), _)) \<Rightarrow>
                         Some (victims, numViolatingVictim, NewStatus Success [])))))"


section \<open>Conservation\<close>

text \<open>One reprieve is the capacity plugin's without a quota; the filter state is not looked at.\<close>

lemma PT_reprieve_step_eq: "PT_reprieve_step h preemptor = reprieve_step h preemptor False pfs"
  by (intro ext)
    (simp add: PT_reprieve_step_def reprieve_step_def PT_reprievePod_def reprievePod_def Let_def split: sum.splits)

lemmas PT_reprieve_step_conserves = reprieve_step_conserves [where withEQ = False, folded PT_reprieve_step_eq]
lemmas PT_reprieve_victims = foldE_reprieve_victims [where withEQ = False, folded PT_reprieve_step_eq]

lemma sv_removePod_name: "sv_removePod h pod s p = Inr s' \<Longrightarrow> ni_name (snd s') = ni_name (snd s)"
  by (auto simp: sv_removePod_def NodeInfo_RemovePod_def Let_def split_beta split: sum.splits if_splits option.splits)

lemma sv_addPod_name: "sv_addPod h pod s p = Inr s' \<Longrightarrow> ni_name (snd s') = ni_name (snd s)"
  by (auto simp: sv_addPod_def NodeInfo_AddPodInfo_def Let_def split_beta split: if_splits option.splits)

lemma PT_collect:
  assumes "foldE (PT_collect_step h env now preemptor) ((st, n), []) (ni_pods n) = Some (Inr (s, vs))"
    and "unique_uids (mset (ni_pods n))"
  shows "mset (ni_pods (snd s)) + mset vs = mset (ni_pods n) \<and> ni_name (snd s) = ni_name n \<and>
    (\<forall>v \<in> set vs. PodPriority v < PodPriority preemptor \<and> ExemptedFromPreemption env v preemptor now = Inr False)"
proof -
  let ?P = "\<lambda>acc. mset (ni_pods (snd (fst acc))) + mset (snd acc) = mset (ni_pods n) \<and> ni_name (snd (fst acc)) = ni_name n \<and>
    (\<forall>v \<in> set (snd acc). PodPriority v < PodPriority preemptor \<and> ExemptedFromPreemption env v preemptor now = Inr False)"
  have "?P (s, vs)"
  proof (rule foldE_invariant [OF assms(1)])
    fix acc p acc'
    assume P: "?P acc" and p: "p \<in> set (ni_pods n)" and step: "PT_collect_step h env now preemptor acc p = Some (Inr acc')"
    then have c: "mset (ni_pods (snd (fst acc))) + mset (snd acc) = mset (ni_pods n)" by simp
    show "?P acc'"
      using step P p sv_removePod_conserves [OF _ assms(2) c, of h preemptor p] sv_removePod_name [of h preemptor "fst acc" p]
      by (auto simp: PT_collect_step_def split: if_splits sum.splits bool.splits)
  qed simp
  then show ?thesis by simp
qed

section \<open>The victims suffice and none could be spared\<close>

text \<open>
  What is asked of the framework: its verdict on the preemptor depends on the node and the pods on it
  (the pre-filter extensions keep the cycle state in step with them), and taking pods away from a node
  where the preemptor fits leaves it fitting.
\<close>

definition verdict_by_pods :: "Handle \<Rightarrow> Pod \<Rightarrow> (string \<Rightarrow> Pod multiset \<Rightarrow> bool) \<Rightarrow> bool" where
  "verdict_by_pods h preemptor fit \<longleftrightarrow>
     (\<forall>st n. IsSuccess (RunFilterPluginsWithNominatedPods h st preemptor n) = fit (ni_name n) (mset (ni_pods n))) \<and>
     (\<forall>nm S T. S \<subseteq># T \<longrightarrow> fit nm T \<longrightarrow> fit nm S)"

text \<open>The invariant of the two reprieve loops, on the pods of the node and the victims so far.\<close>

definition spares :: "(string \<Rightarrow> Pod multiset \<Rightarrow> bool) \<Rightarrow> string \<Rightarrow> (StateData CycleState \<times> NodeInfo) \<times> Pod list \<Rightarrow> bool" where
  "spares fit nm acc \<longleftrightarrow>
     (let S = mset (ni_pods (snd (fst acc)))
      in ni_name (snd (fst acc)) = nm \<and> fit nm S \<and> (\<forall>v \<in> set (snd acc). \<not> fit nm (add_mset v S)))"

lemma PT_reprieve_step_spares:
  assumes "PT_reprieve_step h preemptor acc p = Some (Inr acc')" and "unique_uids P"
    and "mset (ni_pods (snd (fst (fst acc)))) + mset (snd (fst acc)) + add_mset p R = P"
    and "verdict_by_pods h preemptor fit" and "spares fit nm (fst acc)"
  shows "spares fit nm (fst acc')"
proof -
  let ?S = "mset (ni_pods (snd (fst (fst acc))))"
  from assms(1) obtain s1 where s1: "sv_addPod h preemptor (fst (fst acc)) p = Inr s1"
    by (auto simp: PT_reprieve_step_def PT_reprievePod_def split: sum.splits)
  have S1: "mset (ni_pods (snd s1)) = add_mset p ?S" "ni_name (snd s1) = nm"
    using sv_addPod_mset [OF s1] sv_addPod_name [OF s1] assms(5) by (simp_all add: spares_def Let_def)
  have verdict: "IsSuccess (RunFilterPluginsWithNominatedPods h (fst s1) preemptor (snd s1)) = fit nm (add_mset p ?S)"
    using assms(4) S1 by (simp add: verdict_by_pods_def)
  show ?thesis
  proof (cases "fit nm (add_mset p ?S)")
    case True
    then have acc': "fst acc' = (s1, snd (fst acc))"
      using assms(1) verdict by (auto simp: PT_reprieve_step_def PT_reprievePod_def s1 split: sum.splits)
    have "\<not> fit nm (add_mset v (add_mset p ?S))" if "v \<in> set (snd (fst acc))" for v
    proof
      assume "fit nm (add_mset v (add_mset p ?S))"
      moreover have "add_mset v ?S \<subseteq># add_mset v (add_mset p ?S)" by simp
      ultimately have "fit nm (add_mset v ?S)" using assms(4) unfolding verdict_by_pods_def by blast
      with that assms(5) show False by (simp add: spares_def Let_def)
    qed
    with True S1 show ?thesis by (simp add: acc' spares_def)
  next
    case False
    then obtain s2 where s2: "sv_removePod h preemptor s1 p = Inr s2" "fst acc' = (s2, snd (fst acc) @ [p])"
      using assms(1) verdict by (auto simp: PT_reprieve_step_def PT_reprievePod_def s1 split: sum.splits)
    have P1: "mset (ni_pods (snd s1)) + (mset (snd (fst acc)) + R) = P" using assms(3) S1 by (simp add: add.assoc)
    have "p \<in># P" using assms(3) by auto
    from sv_removePod_conserves [OF s2(1) assms(2) P1 this]
    have "mset (ni_pods (snd s2)) + add_mset p (mset (snd (fst acc)) + R) = P" by blast
    with assms(3) have "mset (ni_pods (snd s2)) + (mset (snd (fst acc)) + add_mset p R) = ?S + (mset (snd (fst acc)) + add_mset p R)"
      by (simp add: add.assoc)
    then have "mset (ni_pods (snd s2)) = ?S" by (rule add_right_imp_eq)
    then show ?thesis
      using False assms(5) sv_removePod_name [OF s2(1)] S1(2) by (auto simp: s2(2) spares_def Let_def)
  qed
qed

lemma PT_reprieve_fold:
  assumes "foldE (PT_reprieve_step h preemptor) acc ps = Some (Inr acc')" and "unique_uids P"
    and "mset (ni_pods (snd (fst (fst acc)))) + mset (snd (fst acc)) + (mset ps + R) = P"
    and "verdict_by_pods h preemptor fit" and "spares fit nm (fst acc)"
  shows "mset (ni_pods (snd (fst (fst acc')))) + mset (snd (fst acc')) + R = P \<and> spares fit nm (fst acc')"
  using assms
proof (induction ps arbitrary: acc)
  case (Cons p ps)
  from Cons.prems(1) obtain t where t: "PT_reprieve_step h preemptor acc p = Some (Inr t)"
    "foldE (PT_reprieve_step h preemptor) t ps = Some (Inr acc')"
    by (auto split: option.splits sum.splits)
  have c: "mset (ni_pods (snd (fst (fst acc)))) + mset (snd (fst acc)) + add_mset p (mset ps + R) = P"
    using Cons.prems(3) by simp
  have "mset (ni_pods (snd (fst (fst t)))) + mset (snd (fst t)) + (mset ps + R) = P"
    by (rule PT_reprieve_step_conserves [OF t(1) assms(2) c])
  moreover have "spares fit nm (fst t)"
    by (rule PT_reprieve_step_spares [OF t(1) assms(2) c assms(4) Cons.prems(5)])
  ultimately show ?case using Cons.IH [OF t(2) assms(2) _ assms(4)] by blast
qed simp

text \<open>What a successful call went through.\<close>

lemma PT_Select_success:
  assumes "PT_SelectVictimsOnNode h env pl st preemptor n pdbs = Some (victims, k, status)" and "IsSuccess status"
  obtains s pv vl nv acc k' s' where
    "foldE (PT_collect_step h env (pt_curTime pl) preemptor) ((st, n), []) (ni_pods n) = Some (Inr (s, pv))"
    "IsSuccess (RunFilterPluginsWithNominatedPods h (fst s) preemptor (snd s))"
    "pdb_split pdbs (map pdb_disruptionsAllowed pdbs) (sortSlice h (MoreImportantPod h) pv) = (vl, nv)"
    "foldE (PT_reprieve_step h preemptor) ((s, []), 0) vl = Some (Inr (acc, k))"
    "foldE (PT_reprieve_step h preemptor) (acc, k) nv = Some (Inr ((s', victims), k'))"
proof -
  have step_err: "\<not> IsSuccess e" if "foldE (PT_reprieve_step h preemptor) a xs = Some (Inl e)" for a xs e
    using that by (induction xs arbitrary: a)
      (auto simp: PT_reprieve_step_def AsStatus_def split: option.splits sum.splits prod.splits)
  have coll_err: "\<not> IsSuccess e" if "foldE (PT_collect_step h env now preemptor) a xs = Some (Inl e)" for now a xs e
    using that by (induction xs arbitrary: a)
      (auto simp: PT_collect_step_def AsStatus_def split: option.splits sum.splits prod.splits if_splits bool.splits)
  show thesis
    using assms that unfolding PT_SelectVictimsOnNode_def PT_filterPodsWithPDBViolation_def
    by (auto simp: Let_def split: option.splits sum.splits if_splits prod.splits dest: step_err coll_err)
qed



section \<open>Who is exempted\<close>

text \<open>
  The exemption is the documented policy. For a pod whose priority class exists and parses, with a
  toleration that fits a duration, the pod is exempted exactly if the preemptor never preempts, or the
  preemptor's priority is below the minimum and the toleration is unlimited, or the pod is not yet
  scheduled, or less than the toleration has passed since it was.
\<close>

theorem ExemptedFromPreemption_verdict:
  assumes "pod_priorityClassName v \<noteq> []" and "pt_class env (pod_priorityClassName v) = Inr pc"
    and "parsePreemptionTolerationPolicy pc = Some policy" and "sint (TolerationSeconds policy) * 10 ^ 9 < 2 ^ 63"
  shows "ExemptedFromPreemption env v preemptor now =
    Inr (pod_preemptionPolicy preemptor = Some PreemptNever \<or>
         PodPriority preemptor < sint (MinimumPreemptablePriority policy) \<and>
         (sint (TolerationSeconds policy) < 0 \<or>
          (case pt_scheduledCondition env v of
             Some (True, scheduledAt) \<Rightarrow> now < scheduledAt + sint (TolerationSeconds policy) * 10 ^ 9
           | _ \<Rightarrow> True)))"
proof (cases "sint (TolerationSeconds policy) < 0")
  case True
  then show ?thesis using assms(1-3) by (cases "pod_preemptionPolicy preemptor")
      (auto simp: ExemptedFromPreemption_def Let_def slt_def intro: PreemptionPolicy.exhaust)
next
  case False
  then have "sint (TolerationSeconds policy * time_Second) = sint (TolerationSeconds policy) * 10 ^ 9"
    using assms(4) by (subst sint_mult64) (simp_all add: in_int64_def time_Second_def)
  then show ?thesis
    using assms(1-3) False
    by (cases "pod_preemptionPolicy preemptor"; cases "pt_scheduledCondition env v")
      (auto simp: ExemptedFromPreemption_def Let_def slt_def split: bool.splits)
qed

text \<open>
  A very long toleration is no toleration. Between about 292 and 585 years the number of seconds
  overflows the duration to a negative one, and a scheduled pod whose class asks for it is preempted
  at once, like with a toleration of zero.
\<close>

theorem toleration_overflow:
  assumes "pod_priorityClassName v \<noteq> []" and "pt_class env (pod_priorityClassName v) = Inr pc"
    and "parsePreemptionTolerationPolicy pc = Some policy"
    and "2 ^ 63 \<le> sint (TolerationSeconds policy) * 10 ^ 9" and "sint (TolerationSeconds policy) * 10 ^ 9 < 2 ^ 64"
    and "pod_preemptionPolicy preemptor \<noteq> Some PreemptNever"
    and "pt_scheduledCondition env v = Some (True, scheduledAt)" and "scheduledAt \<le> now"
  shows "ExemptedFromPreemption env v preemptor now = Inr False"
proof -
  let ?x = "sint (TolerationSeconds policy) * 10 ^ 9"
  have "TolerationSeconds policy * time_Second = word_of_int (?x - 2 ^ 64)"
    by (simp add: time_Second_def wi_hom_sub [symmetric] wi_hom_mult [symmetric])
  moreover have "in_int64 (?x - 2 ^ 64)" using assms(4,5) by (simp add: in_int64_def)
  ultimately have "sint (TolerationSeconds policy * time_Second) = ?x - 2 ^ 64" by (simp only: sint_of_int64)
  then have neg: "sint (TolerationSeconds policy * time_Second) < 0" using assms(5) by simp
  have "\<not> slt (TolerationSeconds policy) 0" using assms(4) by (simp add: slt_def)
  then show ?thesis
    using assms(1-3,6-8) neg by (auto simp: ExemptedFromPreemption_def Let_def split: option.splits)
qed

section \<open>Number of candidates\<close>

lemma calculateNumCandidates_exact:
  assumes "ValidateDefaultPreemptionArgs args" and "0 < sint numNodes" and "sint numNodes * 100 < 2 ^ 31"
  shows "sint (calculateNumCandidates args numNodes) =
    min (sint numNodes) (max (sint numNodes * sint (MinCandidateNodesPercentage args) div 100) (sint (MinCandidateNodesAbsolute args)))"
proof -
  let ?p = "sint (MinCandidateNodesPercentage args)" and ?x = "sint numNodes * sint (MinCandidateNodesPercentage args)"
  have p: "0 \<le> ?p" "?p \<le> 100" using assms(1) by (simp_all add: ValidateDefaultPreemptionArgs_def)
  have "?x \<le> sint numNodes * 100" using p(2) assms(2) by (intro mult_left_mono) simp_all
  then have x: "?x < 2 ^ 31" "0 \<le> ?x" using p(1) assms(2,3) by (linarith, simp)
  have "sint (word_of_int ?x :: int32) = ?x" using x by (intro sint_of_int32) simp_all
  then have m: "sint (numNodes * MinCandidateNodesPercentage args) = ?x" by (simp add: wi_hom_mult)
  have "sint (word_of_int (?x div 100) :: int32) = ?x div 100"
    using x by (intro sint_of_int32) (simp_all add: pos_imp_zdiv_nonneg_iff)
  then show ?thesis
    using x by (simp add: calculateNumCandidates_def Let_def m go_div_nonneg max_def min_def)
qed


section \<open>A concrete preemption\<close>

text \<open>
  A node with two pods of class \<open>batch\<close>, which tolerates preemptors below priority 100 for an hour: one
  has just been scheduled, the other long ago. The preemptor of priority 20 fits beside one pod.
\<close>

definition demo_class :: PriorityClass where
  "demo_class = \<lparr>pc_Value = 10, pc_Annotations =
     [(AnnotationKeyMinimumPreemptablePriority, ''100''), (AnnotationKeyTolerationSeconds, ''3600'')]\<rparr>"

definition demo_old :: Pod where
  "demo_old = demo_pod\<lparr>pod_name := ''old'', pod_uid := ''u-old'', pod_priorityClassName := ''batch''\<rparr>"

definition demo_new :: Pod where
  "demo_new = demo_pod\<lparr>pod_name := ''new'', pod_uid := ''u-new'', pod_priorityClassName := ''batch''\<rparr>"

definition demo_env :: PTEnv where
  "demo_env = \<lparr>pt_class = (\<lambda>c. if c = ''batch'' then Inr demo_class else Inl ''not found''),
     pt_scheduledCondition = (\<lambda>p. Some (True, if pod_uid p = ''u-old'' then 0 else 9000000000000))\<rparr>"

definition demo_pt :: PreemptionToleration where
  "demo_pt = \<lparr>pt_args = \<lparr>MinCandidateNodesPercentage = 10, MinCandidateNodesAbsolute = 100\<rparr>, pt_curTime = 10000000000000\<rparr>"

definition demo_fits :: "string \<Rightarrow> Pod multiset \<Rightarrow> bool" where
  "demo_fits nm S \<longleftrightarrow> size S \<le> 1"

definition demo_pt_handle :: Handle where
  "demo_pt_handle = demo_handle\<lparr>
     RunFilterPluginsWithNominatedPods := (\<lambda>st pod n. if length (ni_pods n) \<le> 1 then NewStatus Success [] else NewStatus Unschedulable [''full'']),
     RunPreFilterExtensionAddPod := (\<lambda>st pod p n. (st, NewStatus Success [])),
     RunPreFilterExtensionRemovePod := (\<lambda>st pod p n. (st, NewStatus Success []))\<rparr>"

definition demo_two :: NodeInfo where
  "demo_two = \<lparr>ni_name = ''n1'', ni_pods = [demo_new, demo_old]\<rparr>"

lemma demo_pt_select:
  "PT_SelectVictimsOnNode demo_pt_handle demo_env demo_pt (\<lambda>_. None) demo_preemptor demo_two [] =
     Some ([demo_old], 0, NewStatus Success [])"
  by code_simp


theorem ExemptedFromPreemption_verdict_witness:
  "ExemptedFromPreemption demo_env demo_new demo_preemptor (pt_curTime demo_pt) = Inr True"
proof -
  have p: "parsePreemptionTolerationPolicy demo_class = Some \<lparr>MinimumPreemptablePriority = 100, TolerationSeconds = 3600\<rparr>"
    by code_simp
  show ?thesis
    using ExemptedFromPreemption_verdict [OF _ _ p, of demo_new demo_env demo_preemptor "pt_curTime demo_pt"]
    by (simp add: demo_new_def demo_env_def demo_pt_def demo_preemptor_def demo_pod_def PodPriority_def)
qed

definition demo_long_class :: PriorityClass where
  "demo_long_class = demo_class\<lparr>pc_Annotations :=
     [(AnnotationKeyMinimumPreemptablePriority, ''100''), (AnnotationKeyTolerationSeconds, ''10000000000'')]\<rparr>"

theorem toleration_overflow_witness:
  "ExemptedFromPreemption (demo_env\<lparr>pt_class := (\<lambda>_. Inr demo_long_class)\<rparr>) demo_new demo_preemptor 9000000000000 = Inr False"
proof -
  have p: "parsePreemptionTolerationPolicy demo_long_class =
      Some \<lparr>MinimumPreemptablePriority = 100, TolerationSeconds = 10000000000\<rparr>"
    by code_simp
  show ?thesis
    by (rule toleration_overflow [OF _ _ p, where scheduledAt = 9000000000000])
      (simp_all add: demo_new_def demo_env_def demo_preemptor_def demo_pod_def)
qed

end
