(* ===== verification/NrtCache.thy ===== *)
theory NrtCache
  imports QueueSort UtilResource PodLedger ConfigTypes
begin

text \<open>
  \<open>pkg/noderesourcetopology/cache\<close> with \<open>resourcerequests\<close> and \<open>podprovider\<close>: what the topology plugin
  knows about the free resources of the NUMA zones of a node. Three caches implement one interface;
  \<open>OverReserve\<close> keeps the last trusted report of each node and deducts from every zone what the pods
  placed since then request, until a report carries a fingerprint that matches the pods on the node.

  Interfaces: the resources assumed for a node are a \<open>pod_ledger\<close>, and the three caches are instances of
  \<open>nrt_cache\<close>. The abstract specification of the over-reserve cache (a report, a mark and a set of pods
  per node) is refined by the maps of the code.

  The hash functions of the fingerprint (\<open>xxhash\<close>) are arguments, and so are the answers of the API server.
\<close>

section \<open>Reports\<close>

record ResourceInfo =
  ri_Name :: string
  ri_Capacity :: Quantity
  ri_Allocatable :: Quantity
  ri_Available :: Quantity

record NrtZone =
  z_Name :: string
  z_Type :: string
  z_Costs :: "(string \<times> int64) list"
  z_Resources :: "ResourceInfo list"

record NodeResourceTopology =
  nrt_name :: string
  nrt_annotations :: "(string, string) gomap option"
  nrt_TopologyPolicies :: "string list"
  nrt_Zones :: "NrtZone list"
  nrt_Attributes :: "(string \<times> string) list"

section \<open>Stores\<close>

type_synonym nrtStore = "(string, NodeResourceTopology) gomap"

definition newNrtStore :: "NodeResourceTopology list \<Rightarrow> nrtStore" where
  "newNrtStore nrts = foldl (\<lambda>data nrt. map_set (nrt_name nrt) nrt data) [] nrts"

definition nrtStore_Contains :: "nrtStore \<Rightarrow> string \<Rightarrow> bool" where
  "nrtStore_Contains nrs nodeName = (map_get nrs nodeName \<noteq> None)"

definition GetNRTCopyByNodeName :: "nrtStore \<Rightarrow> string \<Rightarrow> NodeResourceTopology option" where
  "GetNRTCopyByNodeName nrs nodeName = map_get nrs nodeName"

definition nrtStore_Update :: "nrtStore \<Rightarrow> NodeResourceTopology \<Rightarrow> nrtStore" where
  "nrtStore_Update nrs nrt = map_set (nrt_name nrt) nrt nrs"

type_synonym resourceStore = "(string, ResourceList) gomap"

definition pod_store_key :: "Pod \<Rightarrow> string" where
  "pod_store_key pod = pod_namespace pod @ ''/'' @ pod_name pod"

definition rs_AddPod :: "resourceStore \<Rightarrow> Pod \<Rightarrow> resourceStore \<times> bool" where
  "rs_AddPod rs pod =
     (let key = pod_store_key pod; ok = (map_get rs key \<noteq> None)
      in (map_set key (GetPodEffectiveRequest pod) rs, ok))"

definition rs_DeletePod :: "resourceStore \<Rightarrow> Pod \<Rightarrow> resourceStore \<times> bool" where
  "rs_DeletePod rs pod =
     (let key = pod_store_key pod; ok = (map_get rs key \<noteq> None)
      in (map_del key rs, ok))"

text \<open>One tracked request against one resource of a zone, and the loops over zones and resources.\<close>

definition deduct :: "ResourceList \<Rightarrow> ResourceInfo \<Rightarrow> ResourceInfo" where
  "deduct res zr =
     (case map_get res (ri_Name zr) of
        None \<Rightarrow> zr
      | Some qty \<Rightarrow>
          if ri_Available zr < qty then zr\<lparr>ri_Available := 0\<rparr>
          else zr\<lparr>ri_Available := ri_Available zr - qty\<rparr>)"

definition map_resources :: "(ResourceInfo \<Rightarrow> ResourceInfo) \<Rightarrow> NodeResourceTopology \<Rightarrow> NodeResourceTopology" where
  "map_resources f nrt =
     nrt\<lparr>nrt_Zones := map (\<lambda>zone. zone\<lparr>z_Resources := map f (z_Resources zone)\<rparr>) (nrt_Zones nrt)\<rparr>"

definition UpdateNRT :: "resourceStore \<Rightarrow> NodeResourceTopology \<Rightarrow> NodeResourceTopology" where
  "UpdateNRT rs nrt = foldl (\<lambda>nrt (key, res). map_resources (deduct res) nrt) nrt rs"

type_synonym counter = "(string, int64) gomap"

definition counter_Incr :: "counter \<Rightarrow> string \<Rightarrow> counter" where
  "counter_Incr cnt key = map_set key (map_getd 0 cnt key + 1) cnt"

definition counter_IsSet :: "counter \<Rightarrow> string \<Rightarrow> bool" where
  "counter_IsSet cnt key = (map_get cnt key \<noteq> None)"

definition counter_Keys :: "counter \<Rightarrow> string list" where
  "counter_Keys cnt = map fst cnt"

section \<open>Exclusive resources and foreign pods\<close>

definition IsExclusive :: "PodQOSClass \<Rightarrow> string \<Rightarrow> Quantity \<Rightarrow> bool" where
  "IsExclusive qos resource quantity =
     (if \<not> IsNativeResource resource then True
      else if qos \<noteq> PodQOSGuaranteed then False
      else if resource = ResourceCPU \<and> Quantity_Value quantity * 1000 = Quantity_MilliValue quantity \<and>
              slt 0 (Quantity_Value quantity) then True
      else if (resource = ResourceMemory \<or> IsHugePageResourceName resource) \<and> slt 0 (Quantity_Value quantity) then True
      else False)"

definition areExclusiveForAnyContainer :: "PodQOSClass \<Rightarrow> Container list \<Rightarrow> bool" where
  "areExclusiveForAnyContainer qos containers =
     list_ex (\<lambda>ctr. list_ex (\<lambda>(resource, quantity). IsExclusive qos resource quantity) (ctr_requests ctr)) containers"

definition AreExclusiveForPod :: "Pod \<Rightarrow> bool" where
  "AreExclusiveForPod pod =
     areExclusiveForAnyContainer (GetPodQOS pod) (pod_initContainers pod @ pod_containers pod)"

definition IncludeNonNative :: "Pod \<Rightarrow> bool" where
  "IncludeNonNative pod =
     list_ex (\<lambda>ctr. list_ex (\<lambda>(resource, _). \<not> IsNativeResource resource) (ctr_requests ctr))
       (pod_initContainers pod @ pod_containers pod)"

record ForeignSetup =
  schedProfileNames :: "string list"
  onlyExclusiveResources :: bool

record SchedPod = Pod +
  pod_schedulerName :: string

definition RegisterSchedulerProfileName :: "ForeignSetup \<Rightarrow> string \<Rightarrow> ForeignSetup" where
  "RegisterSchedulerProfileName fs name = fs\<lparr>schedProfileNames := List.insert name (schedProfileNames fs)\<rparr>"

definition IsForeignPod :: "ForeignSetup \<Rightarrow> SchedPod \<Rightarrow> bool" where
  "IsForeignPod fs pod =
     (if pod_nodeName pod = [] then False
      else if pod_schedulerName pod \<in> set (schedProfileNames fs) then False
      else if \<not> onlyExclusiveResources fs then True
      else AreExclusiveForPod (Pod.truncate pod))"

definition IsPodRelevantShared :: "Pod \<Rightarrow> bool" where
  "IsPodRelevantShared pod = (pod_phase pod = PodRunning)"

definition IsPodRelevantDedicated :: "Pod \<Rightarrow> bool" where
  "IsPodRelevantDedicated pod = (if pod_phase pod = PodPending then False else pod_nodeName pod \<noteq> [])"

section \<open>Fingerprints\<close>

record Hashes =
  h_pod :: "string \<Rightarrow> string \<Rightarrow> 64 word"
  h_sum :: "64 word list \<Rightarrow> string"

datatype PfpError = ErrMalformed | ErrIncompatibleVersion | ErrSignatureMismatch

definition pfp_Prefix :: string where "pfp_Prefix = ''pfp0''"
definition pfp_Version :: string where "pfp_Version = ''v001''"
definition pfp_Annotation :: string where "pfp_Annotation = ''topology.node.k8s.io/fingerprint''"
definition pfp_Attribute :: string where "pfp_Attribute = ''nodeTopologyPodsFingerprint''"
definition pfp_AttributeMethod :: string where "pfp_AttributeMethod = ''nodeTopologyPodsFingerprintMethod''"
definition MethodWithExclusiveResources :: string where
  "MethodWithExclusiveResources = ''with-exclusive-resources''"

definition pfp_Sum :: "Hashes \<Rightarrow> (string \<times> string) list \<Rightarrow> string" where
  "pfp_Sum h pods = h_sum h (sort (map (\<lambda>(ns, name). h_pod h ns name) pods))"

definition pfp_Check :: "Hashes \<Rightarrow> (string \<times> string) list \<Rightarrow> string \<Rightarrow> PfpError option" where
  "pfp_Check h pods sign =
     (if length sign < 16 then Some ErrMalformed
      else if take 4 sign \<noteq> pfp_Prefix then Some ErrMalformed
      else if take 4 (drop 4 sign) \<noteq> pfp_Version then Some ErrIncompatibleVersion
      else if pfp_Sum h pods \<noteq> drop 8 sign then Some ErrSignatureMismatch
      else None)"

definition getCacheResyncMethod :: "CacheResyncMethod option option \<Rightarrow> CacheResyncMethod" where
  "getCacheResyncMethod cfg =
     (case cfg of Some (Some m) \<Rightarrow> m | _ \<Rightarrow> CacheResyncAutodetect)"

definition podFingerprintForNodeTopology :: "NodeResourceTopology \<Rightarrow> CacheResyncMethod \<Rightarrow> string \<times> bool" where
  "podFingerprintForNodeTopology nrt method =
     (case map_of (nrt_Attributes nrt) pfp_Attribute of
        Some value \<Rightarrow>
          (value,
           if method = CacheResyncOnlyExclusiveResources then True
           else if method = CacheResyncAutodetect then
             map_of (nrt_Attributes nrt) pfp_AttributeMethod = Some MethodWithExclusiveResources
           else False)
      | None \<Rightarrow>
          (case nrt_annotations nrt of
             Some a \<Rightarrow> (map_getd [] a pfp_Annotation, False)
           | None \<Rightarrow> ([], False)))"

record podData =
  pd_Namespace :: string
  pd_Name :: string
  pd_HasExclusiveResources :: bool

definition checkPodFingerprintForNode :: "Hashes \<Rightarrow> podData list \<Rightarrow> string \<Rightarrow> bool \<Rightarrow> PfpError option" where
  "checkPodFingerprintForNode h objs pfpExpected onlyExclRes =
     pfp_Check h (map (\<lambda>obj. (pd_Namespace obj, pd_Name obj))
                    (filter (\<lambda>obj. \<not> (onlyExclRes \<and> \<not> pd_HasExclusiveResources obj)) objs)) pfpExpected"

section \<open>The over-reserve cache\<close>

record OverReserve =
  ov_nrts :: nrtStore
  assumedResources :: "(string, resourceStore) gomap"
  nodesMaybeOverreserved :: counter
  nodesWithForeignPods :: counter
  ov_resyncMethod :: CacheResyncMethod
  ov_isPodRelevant :: "Pod \<Rightarrow> bool"

text \<open>The API server: the reports by node, and the list of pods.\<close>

record NrtClient =
  nc_Get :: "string \<Rightarrow> NodeResourceTopology option"
  nc_List :: "string + NodeResourceTopology list"
  nc_pods :: "string + Pod list"

definition NewOverReserve ::
  "CacheResyncMethod option option \<Rightarrow> NrtClient option \<Rightarrow> (Pod \<Rightarrow> bool) \<Rightarrow> string + OverReserve" where
  "NewOverReserve cfg client isPodRelevant =
     (case client of
        None \<Rightarrow> Inl ''nrtcache: received nil references''
      | Some c \<Rightarrow>
          (case nc_List c of
             Inl err \<Rightarrow> Inl err
           | Inr items \<Rightarrow>
               Inr \<lparr>ov_nrts = newNrtStore items, assumedResources = [], nodesMaybeOverreserved = [],
                    nodesWithForeignPods = [], ov_resyncMethod = getCacheResyncMethod cfg,
                    ov_isPodRelevant = isPodRelevant\<rparr>))"

definition ov_GetCachedNRTCopy :: "OverReserve \<Rightarrow> string \<Rightarrow> NodeResourceTopology option \<times> bool" where
  "ov_GetCachedNRTCopy ov nodeName =
     (if counter_IsSet (nodesWithForeignPods ov) nodeName then (None, False)
      else (case GetNRTCopyByNodeName (ov_nrts ov) nodeName of
              None \<Rightarrow> (None, True)
            | Some nrt \<Rightarrow>
                (case map_get (assumedResources ov) nodeName of
                   None \<Rightarrow> (Some nrt, True)
                 | Some nodeAssumedResources \<Rightarrow> (Some (UpdateNRT nodeAssumedResources nrt), True))))"

definition ov_NodeMaybeOverReserved :: "OverReserve \<Rightarrow> string \<Rightarrow> OverReserve" where
  "ov_NodeMaybeOverReserved ov nodeName =
     ov\<lparr>nodesMaybeOverreserved := counter_Incr (nodesMaybeOverreserved ov) nodeName\<rparr>"

definition ov_NodeHasForeignPods :: "OverReserve \<Rightarrow> string \<Rightarrow> OverReserve" where
  "ov_NodeHasForeignPods ov nodeName =
     (if \<not> nrtStore_Contains (ov_nrts ov) nodeName then ov
      else ov\<lparr>nodesWithForeignPods := counter_Incr (nodesWithForeignPods ov) nodeName\<rparr>)"

definition ov_ReserveNodeResources :: "OverReserve \<Rightarrow> string \<Rightarrow> Pod \<Rightarrow> OverReserve" where
  "ov_ReserveNodeResources ov nodeName pod =
     (let nodeAssumedResources = map_getd [] (assumedResources ov) nodeName
      in ov\<lparr>assumedResources := map_set nodeName (fst (rs_AddPod nodeAssumedResources pod)) (assumedResources ov),
            nodesMaybeOverreserved := map_del nodeName (nodesMaybeOverreserved ov)\<rparr>)"

definition ov_UnreserveNodeResources :: "OverReserve \<Rightarrow> string \<Rightarrow> Pod \<Rightarrow> OverReserve" where
  "ov_UnreserveNodeResources ov nodeName pod =
     (case map_get (assumedResources ov) nodeName of
        None \<Rightarrow> ov
      | Some nodeAssumedResources \<Rightarrow>
          ov\<lparr>assumedResources := map_set nodeName (fst (rs_DeletePod nodeAssumedResources pod)) (assumedResources ov)\<rparr>)"

definition NodesMaybeOverReserved :: "OverReserve \<Rightarrow> string list" where
  "NodesMaybeOverReserved ov =
     counter_Keys (foldl counter_Incr (nodesWithForeignPods ov) (counter_Keys (nodesMaybeOverreserved ov)))"

definition flush_node :: "OverReserve \<Rightarrow> NodeResourceTopology \<Rightarrow> OverReserve" where
  "flush_node ov nrt =
     ov\<lparr>ov_nrts := nrtStore_Update (ov_nrts ov) nrt,
        assumedResources := map_del (nrt_name nrt) (assumedResources ov),
        nodesMaybeOverreserved := map_del (nrt_name nrt) (nodesMaybeOverreserved ov),
        nodesWithForeignPods := map_del (nrt_name nrt) (nodesWithForeignPods ov)\<rparr>"

definition FlushNodes :: "OverReserve \<Rightarrow> NodeResourceTopology list \<Rightarrow> OverReserve" where
  "FlushNodes ov nrts = foldl flush_node ov nrts"

definition makeNodeToPodDataMap :: "string + Pod list \<Rightarrow> (Pod \<Rightarrow> bool) \<Rightarrow> string + (string, podData list) gomap" where
  "makeNodeToPodDataMap pods isPodRelevant =
     (case pods of
        Inl err \<Rightarrow> Inl err
      | Inr pods \<Rightarrow>
          Inr (foldl (\<lambda>m pod.
             if \<not> isPodRelevant pod then m
             else map_set (pod_nodeName pod)
                    (map_getd [] m (pod_nodeName pod) @
                       [\<lparr>pd_Namespace = pod_namespace pod, pd_Name = pod_name pod,
                         pd_HasExclusiveResources = AreExclusiveForPod pod\<rparr>]) m) [] pods))"

text \<open>One iteration of the loop in \<open>Resync\<close>: the report to flush, if the node passes.\<close>

definition resync_node ::
  "Hashes \<Rightarrow> NrtClient \<Rightarrow> CacheResyncMethod \<Rightarrow> (string, podData list) gomap \<Rightarrow> string \<Rightarrow> NodeResourceTopology option" where
  "resync_node h c method nodeToObjsMap nodeName =
     (case nc_Get c nodeName of
        None \<Rightarrow> None
      | Some nrtCandidate \<Rightarrow>
          (case map_get nodeToObjsMap nodeName of
             None \<Rightarrow> None
           | Some objs \<Rightarrow>
               (let (pfpExpected, onlyExclRes) = podFingerprintForNodeTopology nrtCandidate method
                in if pfpExpected = [] then None
                   else if checkPodFingerprintForNode h objs pfpExpected onlyExclRes \<noteq> None then None
                   else Some nrtCandidate)))"

definition Resync :: "Hashes \<Rightarrow> NrtClient \<Rightarrow> OverReserve \<Rightarrow> OverReserve" where
  "Resync h c ov =
     (let nodeNames = NodesMaybeOverReserved ov
      in if length nodeNames = 0 then ov
         else (case makeNodeToPodDataMap (nc_pods c) (ov_isPodRelevant ov) of
                 Inl err \<Rightarrow> ov
               | Inr nodeToObjsMap \<Rightarrow>
                   FlushNodes ov (List.map_filter (resync_node h c (ov_resyncMethod ov) nodeToObjsMap) nodeNames)))"

section \<open>The other two caches\<close>

definition pt_GetCachedNRTCopy :: "NrtClient \<Rightarrow> string \<Rightarrow> NodeResourceTopology option \<times> bool" where
  "pt_GetCachedNRTCopy c nodeName = (nc_Get c nodeName, True)"

record DiscardReserved =
  reservationMap :: "(string, (string, bool) gomap) gomap"
  dr_client :: NrtClient

definition NewDiscardReserved :: "NrtClient \<Rightarrow> DiscardReserved" where
  "NewDiscardReserved client = \<lparr>reservationMap = [], dr_client = client\<rparr>"

definition dr_GetCachedNRTCopy :: "DiscardReserved \<Rightarrow> string \<Rightarrow> NodeResourceTopology option \<times> bool" where
  "dr_GetCachedNRTCopy dr nodeName =
     (case map_get (reservationMap dr) nodeName of
        Some t \<Rightarrow> if length t > 0 then (None, False) else (nc_Get (dr_client dr) nodeName, True)
      | None \<Rightarrow> (nc_Get (dr_client dr) nodeName, True))"

definition dr_ReserveNodeResources :: "DiscardReserved \<Rightarrow> string \<Rightarrow> Pod \<Rightarrow> DiscardReserved" where
  "dr_ReserveNodeResources dr nodeName pod =
     dr\<lparr>reservationMap := map_set nodeName (map_set (pod_uid pod) True (map_getd [] (reservationMap dr) nodeName)) (reservationMap dr)\<rparr>"

text \<open>Deleting from the nil map of an unknown node does nothing.\<close>

definition removeReservationForNode :: "DiscardReserved \<Rightarrow> string \<Rightarrow> Pod \<Rightarrow> DiscardReserved" where
  "removeReservationForNode dr nodeName pod =
     (case map_get (reservationMap dr) nodeName of
        None \<Rightarrow> dr
      | Some t \<Rightarrow> dr\<lparr>reservationMap := map_set nodeName (map_del (pod_uid pod) t) (reservationMap dr)\<rparr>)"

definition dr_UnreserveNodeResources :: "DiscardReserved \<Rightarrow> string \<Rightarrow> Pod \<Rightarrow> DiscardReserved" where
  "dr_UnreserveNodeResources dr nodeName pod = removeReservationForNode dr nodeName pod"

definition dr_PostBind :: "DiscardReserved \<Rightarrow> string \<Rightarrow> Pod \<Rightarrow> DiscardReserved" where
  "dr_PostBind dr nodeName pod = removeReservationForNode dr nodeName pod"

section \<open>What a view deducts\<close>

definition nrt_nonneg :: "NodeResourceTopology \<Rightarrow> bool" where
  "nrt_nonneg nrt \<longleftrightarrow> list_all (\<lambda>z. list_all (\<lambda>zr. 0 \<le> ri_Available zr) (z_Resources z)) (nrt_Zones nrt)"

definition rl_nonneg :: "ResourceList \<Rightarrow> bool" where
  "rl_nonneg res \<longleftrightarrow> list_all (\<lambda>(_, q). 0 \<le> q) res"

definition rs_total :: "resourceStore \<Rightarrow> string \<Rightarrow> Quantity" where
  "rs_total rs n = (\<Sum>(_, res) \<leftarrow> rs. map_getd 0 res n)"

text \<open>A zone resource with a total amount taken away, never below zero.\<close>

definition reduce :: "(string \<Rightarrow> Quantity) \<Rightarrow> ResourceInfo \<Rightarrow> ResourceInfo" where
  "reduce amounts zr = zr\<lparr>ri_Available := max 0 (ri_Available zr - amounts (ri_Name zr))\<rparr>"

lemma reduce_simps [simp]:
  "ri_Name (reduce t zr) = ri_Name zr" "ri_Available (reduce t zr) = max 0 (ri_Available zr - t (ri_Name zr))"
  by (simp_all add: reduce_def)

lemma rl_nonneg_getd: "rl_nonneg res \<Longrightarrow> 0 \<le> map_getd 0 res n"
  by (auto simp: rl_nonneg_def list_all_iff map_getd_def split: option.splits dest: map_of_SomeD)

lemma deduct_reduce:
  assumes "0 \<le> ri_Available zr" and "rl_nonneg res"
  shows "deduct res zr = reduce (map_getd 0 res) zr"
  using assms rl_nonneg_getd [OF assms(2), of "ri_Name zr"]
  by (auto simp: deduct_def reduce_def map_getd_def max_def split: option.splits)

lemma reduce_reduce:
  assumes "\<And>n. 0 \<le> t n"
  shows "reduce t (reduce u zr) = reduce (\<lambda>n. u n + t n) zr"
  using assms [of "ri_Name zr"] by (simp add: reduce_def max_def)

lemma foldl_deduct:
  assumes "0 \<le> ri_Available zr" and "list_all (\<lambda>(_, res). rl_nonneg res) rs"
  shows "foldl (\<lambda>zr (_, res). deduct res zr) zr rs = reduce (rs_total rs) zr"
  using assms
proof (induction rs arbitrary: zr)
  case Nil
  then show ?case by (simp add: reduce_def rs_total_def)
next
  case (Cons e rs)
  obtain k res where e: "e = (k, res)" by (cases e)
  have "0 \<le> rs_total rs n" for n
    using Cons.prems(2) by (auto simp: rs_total_def list_all_iff split_beta intro!: sum_list_nonneg rl_nonneg_getd)
  then show ?case
    using Cons by (simp add: e deduct_reduce reduce_reduce) (simp add: rs_total_def)
qed

lemma map_resources_comp: "map_resources f (map_resources g nrt) = map_resources (\<lambda>zr. f (g zr)) nrt"
  by (simp add: map_resources_def)

lemma map_resources_id: "map_resources (\<lambda>zr. zr) nrt = nrt"
  by (simp add: map_resources_def)

lemma map_resources_cong:
  "(\<And>z zr. z \<in> set (nrt_Zones nrt) \<Longrightarrow> zr \<in> set (z_Resources z) \<Longrightarrow> f zr = g zr) \<Longrightarrow> map_resources f nrt = map_resources g nrt"
  by (simp add: map_resources_def)

lemma UpdateNRT_map: "UpdateNRT rs nrt = map_resources (\<lambda>zr. foldl (\<lambda>zr (_, res). deduct res zr) zr rs) nrt"
  by (induction rs arbitrary: nrt) (simp_all add: UpdateNRT_def map_resources_comp map_resources_id split_beta)

lemma UpdateNRT_reduce:
  assumes "nrt_nonneg nrt" and "list_all (\<lambda>(_, res). rl_nonneg res) rs"
  shows "UpdateNRT rs nrt = map_resources (reduce (rs_total rs)) nrt"
  unfolding UpdateNRT_map using assms
  by (intro map_resources_cong foldl_deduct) (auto simp: nrt_nonneg_def list_all_iff)

section \<open>The assumed resources of a node are a ledger\<close>

text \<open>\<open>canon\<close> is the request every pod key stands for.\<close>

definition store_ok :: "(string \<Rightarrow> string \<Rightarrow> Quantity) \<Rightarrow> resourceStore \<Rightarrow> bool" where
  "store_ok canon rs \<longleftrightarrow> wf_map rs \<and> (\<forall>k res. map_of rs k = Some res \<longrightarrow> map_getd 0 res = canon k)"

definition pod_req :: "Pod \<Rightarrow> string \<Rightarrow> Quantity" where
  "pod_req pod n = map_getd 0 (GetPodEffectiveRequest pod) n"

lemma store_total:
  assumes "store_ok canon rs"
  shows "rs_total rs n = (\<Sum>k \<in> fst ` set rs. canon k n)"
proof -
  have "map_getd 0 res n = canon k n" if "(k, res) \<in> set rs" for k res using assms that by (simp add: store_ok_def wf_map_def)
  then have "rs_total rs n = (\<Sum>(k, res) \<leftarrow> rs. canon k n)"
    unfolding rs_total_def by (intro arg_cong [where f = sum_list] map_cong) auto
  also have "\<dots> = (\<Sum>k \<leftarrow> map fst rs. canon k n)" by (simp add: comp_def case_prod_beta')
  also have "\<dots> = (\<Sum>k \<in> fst ` set rs. canon k n)"
    using assms sum_list_distinct_conv_sum_set [of "map fst rs" "\<lambda>k. canon k n"] by (simp add: store_ok_def wf_map_def)
  finally show ?thesis .
qed

lemma keys_map_set: "fst ` set (map_set k v m) = insert k (fst ` set m)"
  by (induction m) auto

lemma keys_map_del: "fst ` set (map_del k m) = fst ` set m - {k}"
  by (metis delete_keys list.set_map set_removeAll)

lemma store_ok_set: "store_ok canon rs \<Longrightarrow> map_getd 0 res = canon k \<Longrightarrow> store_ok canon (map_set k res rs)"
  by (simp add: store_ok_def map_of_set)

lemma store_ok_del: "store_ok canon rs \<Longrightarrow> store_ok canon (map_del k rs)"
  by (simp add: store_ok_def map_of_del)

interpretation assumed: pod_ledger "store_ok canon" "\<lambda>rs k. map_get rs k \<noteq> None" "\<lambda>rs p. fst (rs_AddPod rs p)"
  "\<lambda>rs p. fst (rs_DeletePod rs p)" rs_total pod_store_key pod_req "\<lambda>p. pod_req p = canon (pod_store_key p)" for canon
proof
  fix rs :: resourceStore and p k d
  assume rs: "store_ok canon rs" and p: "pod_req p = canon (pod_store_key p)"
  have keys: "map_get m k \<noteq> None \<longleftrightarrow> k \<in> fst ` set m" for m :: resourceStore and k by (simp add: map_of_eq_None_iff)
  have eff: "map_getd 0 (GetPodEffectiveRequest p) = canon (pod_store_key p)" using p by (simp add: pod_req_def fun_eq_iff)
  show inv: "store_ok canon (fst (rs_AddPod rs p))" "store_ok canon (fst (rs_DeletePod rs p))"
    using rs eff by (simp_all add: rs_AddPod_def rs_DeletePod_def Let_def store_ok_set store_ok_del)
  show "map_get (fst (rs_AddPod rs p)) k \<noteq> None \<longleftrightarrow> k = pod_store_key p \<or> map_get rs k \<noteq> None"
    "map_get (fst (rs_DeletePod rs p)) k \<noteq> None \<longleftrightarrow> k \<noteq> pod_store_key p \<and> map_get rs k \<noteq> None"
    by (auto simp: rs_AddPod_def rs_DeletePod_def Let_def map_of_set map_of_del)
  show "rs_total (fst (rs_AddPod rs p)) d = rs_total rs d + (if map_get rs (pod_store_key p) \<noteq> None then 0 else pod_req p d)"
    unfolding store_total [OF inv(1)] store_total [OF rs] keys
    by (simp add: rs_AddPod_def Let_def keys_map_set p insert_absorb)
  show "rs_total (fst (rs_DeletePod rs p)) d = rs_total rs d - (if map_get rs (pod_store_key p) \<noteq> None then pod_req p d else 0)"
    unfolding store_total [OF inv(2)] store_total [OF rs] keys
    by (simp add: rs_DeletePod_def Let_def keys_map_del p sum_diff1)
qed
section \<open>The abstract cache\<close>

text \<open>Per node: the last trusted report, whether foreign pods were seen since, and the pods placed since.\<close>

record NodeSpec =
  ns_report :: "NodeResourceTopology option"
  ns_foreign :: bool
  ns_pods :: "string \<rightharpoonup> (string \<Rightarrow> Quantity)"

datatype CacheOp =
  OpReserve string Pod | OpUnreserve string Pod | OpMaybeOver string | OpForeign string | OpFlush NodeResourceTopology

fun spec_step :: "(string \<Rightarrow> NodeSpec) \<Rightarrow> CacheOp \<Rightarrow> (string \<Rightarrow> NodeSpec)" where
  "spec_step \<sigma> (OpReserve n p) = \<sigma>(n := (\<sigma> n)\<lparr>ns_pods := (ns_pods (\<sigma> n))(pod_store_key p \<mapsto> pod_req p)\<rparr>)"
| "spec_step \<sigma> (OpUnreserve n p) = \<sigma>(n := (\<sigma> n)\<lparr>ns_pods := (ns_pods (\<sigma> n))(pod_store_key p := None)\<rparr>)"
| "spec_step \<sigma> (OpMaybeOver n) = \<sigma>"
| "spec_step \<sigma> (OpForeign n) = \<sigma>(n := (\<sigma> n)\<lparr>ns_foreign := ns_foreign (\<sigma> n) \<or> ns_report (\<sigma> n) \<noteq> None\<rparr>)"
| "spec_step \<sigma> (OpFlush nrt) = \<sigma>(nrt_name nrt := \<lparr>ns_report = Some nrt, ns_foreign = False, ns_pods = Map.empty\<rparr>)"

definition spec_get :: "NodeSpec \<Rightarrow> NodeResourceTopology option \<times> bool" where
  "spec_get ns =
     (if ns_foreign ns then (None, False)
      else (map_option (map_resources (reduce (\<lambda>r. \<Sum>k \<in> dom (ns_pods ns). the (ns_pods ns k) r))) (ns_report ns), True))"

fun ov_step :: "OverReserve \<Rightarrow> CacheOp \<Rightarrow> OverReserve" where
  "ov_step ov (OpReserve n p) = ov_ReserveNodeResources ov n p"
| "ov_step ov (OpUnreserve n p) = ov_UnreserveNodeResources ov n p"
| "ov_step ov (OpMaybeOver n) = ov_NodeMaybeOverReserved ov n"
| "ov_step ov (OpForeign n) = ov_NodeHasForeignPods ov n"
| "ov_step ov (OpFlush nrt) = flush_node ov nrt"

definition ov_abs :: "OverReserve \<Rightarrow> string \<Rightarrow> NodeSpec" where
  "ov_abs ov n =
     \<lparr>ns_report = map_get (ov_nrts ov) n, ns_foreign = counter_IsSet (nodesWithForeignPods ov) n,
      ns_pods = (\<lambda>k. map_option (map_getd 0) (map_of (map_getd [] (assumedResources ov) n) k))\<rparr>"

definition ov_inv :: "OverReserve \<Rightarrow> bool" where
  "ov_inv ov \<longleftrightarrow>
     (\<forall>n nrt. map_of (ov_nrts ov) n = Some nrt \<longrightarrow> nrt_nonneg nrt) \<and>
     (\<forall>n rs. map_of (assumedResources ov) n = Some rs \<longrightarrow>
        wf_map rs \<and> (\<forall>k res. map_of rs k = Some res \<longrightarrow> rl_nonneg res))"

text \<open>Requests and reports have no negative amounts.\<close>

fun op_ok :: "CacheOp \<Rightarrow> bool" where
  "op_ok (OpReserve n p) = rl_nonneg (GetPodEffectiveRequest p)"
| "op_ok (OpFlush nrt) = nrt_nonneg nrt"
| "op_ok op = True"

lemmas ov_op_defs = ov_ReserveNodeResources_def ov_UnreserveNodeResources_def ov_NodeMaybeOverReserved_def
  ov_NodeHasForeignPods_def flush_node_def rs_AddPod_def rs_DeletePod_def nrtStore_Update_def nrtStore_Contains_def
  counter_Incr_def counter_IsSet_def Let_def

lemma pod_req_eta: "map_getd 0 (GetPodEffectiveRequest p) = pod_req p"
  by (simp add: pod_req_def fun_eq_iff)

lemma ov_abs_step: "ov_abs (ov_step ov op) = spec_step (ov_abs ov) op"
  by (cases op)
    (auto simp: ov_abs_def ov_op_defs fun_eq_iff map_of_set map_of_del map_getd_def pod_req_eta split: option.splits)

lemma ov_inv_step: "ov_inv ov \<Longrightarrow> op_ok op \<Longrightarrow> ov_inv (ov_step ov op)"
  by (cases op)
    (auto simp: ov_inv_def ov_op_defs map_of_set map_of_del map_getd_def split: option.splits if_splits)

lemma ov_abs_run: "ov_abs (foldl ov_step ov ops) = foldl spec_step (ov_abs ov) ops"
  by (induction ops arbitrary: ov) (simp_all add: ov_abs_step)

lemma ov_inv_run: "ov_inv ov \<Longrightarrow> list_all op_ok ops \<Longrightarrow> ov_inv (foldl ov_step ov ops)"
  by (induction ops arbitrary: ov) (simp_all add: ov_inv_step)

lemma ov_Get_spec:
  assumes "ov_inv ov"
  shows "ov_GetCachedNRTCopy ov n = spec_get (ov_abs ov n)"
proof -
  let ?rs = "map_getd [] (assumedResources ov) n"
  have rs: "wf_map ?rs" "\<forall>k res. map_of ?rs k = Some res \<longrightarrow> rl_nonneg res"
    using assms by (auto simp: ov_inv_def map_getd_def split: option.splits)
  have nn: "list_all (\<lambda>(_, res). rl_nonneg res) ?rs"
    using rs by (auto simp: list_all_iff wf_map_def)
  have "store_ok (\<lambda>k. map_getd 0 (the (map_of ?rs k))) ?rs" using rs(1) by (simp add: store_ok_def)
  from store_total [OF this] have tot: "rs_total ?rs = (\<lambda>r. \<Sum>k \<in> dom (map_of ?rs). map_getd 0 (the (map_of ?rs k)) r)"
    by (simp add: fun_eq_iff dom_map_of_conv_image_fst)
  have "(\<lambda>r. \<Sum>k \<in> dom (ns_pods (ov_abs ov n)). the (ns_pods (ov_abs ov n) k) r) = rs_total ?rs"
    unfolding tot by (auto simp: ov_abs_def fun_eq_iff dom_def intro!: sum.cong)
  moreover have "UpdateNRT ?rs nrt = map_resources (reduce (rs_total ?rs)) nrt" if "map_of (ov_nrts ov) n = Some nrt" for nrt
    using UpdateNRT_reduce nn assms that by (auto simp: ov_inv_def)
  moreover have "UpdateNRT [] nrt = nrt" for nrt by (simp add: UpdateNRT_def)
  ultimately show ?thesis
    by (auto simp: ov_GetCachedNRTCopy_def spec_get_def GetNRTCopyByNodeName_def map_getd_def ov_abs_def split: option.splits)
qed
section \<open>The interface of the caches\<close>

definition res_le :: "ResourceInfo \<Rightarrow> ResourceInfo \<Rightarrow> bool" where
  "res_le a b \<longleftrightarrow> ri_Name a = ri_Name b \<and> ri_Available a \<le> ri_Available b"

definition nrt_le :: "NodeResourceTopology \<Rightarrow> NodeResourceTopology \<Rightarrow> bool" where
  "nrt_le a b \<longleftrightarrow>
     nrt_name a = nrt_name b \<and>
     list_all2 (\<lambda>z z'. z_Name z = z_Name z' \<and> list_all2 res_le (z_Resources z) (z_Resources z')) (nrt_Zones a) (nrt_Zones b)"

text \<open>A view that offers at most what another offers; a stale view offers nothing.\<close>

definition view_le :: "NodeResourceTopology option \<times> bool \<Rightarrow> NodeResourceTopology option \<times> bool \<Rightarrow> bool" where
  "view_le v w \<longleftrightarrow> (snd v \<longrightarrow> snd w \<and> rel_option nrt_le (fst v) (fst w))"

lemma nrt_le_refl: "nrt_le a a"
  by (auto simp: nrt_le_def res_le_def intro!: list.rel_refl)

lemma nrt_le_trans: "nrt_le a b \<Longrightarrow> nrt_le b c \<Longrightarrow> nrt_le a c"
proof -
  have "res_le x y \<Longrightarrow> res_le y z \<Longrightarrow> res_le x z" for x y z by (auto simp: res_le_def)
  then have res: "list_all2 res_le xs ys \<Longrightarrow> list_all2 res_le ys zs \<Longrightarrow> list_all2 res_le xs zs" for xs ys zs
    using list_all2_trans [of res_le res_le res_le] by blast
  let ?Z = "\<lambda>z z'. z_Name z = z_Name z' \<and> list_all2 res_le (z_Resources z) (z_Resources z')"
  have zones: "list_all2 ?Z xs ys \<Longrightarrow> list_all2 ?Z ys zs \<Longrightarrow> list_all2 ?Z xs zs" for xs ys zs
    by (rule list_all2_trans [of ?Z ?Z ?Z]) (auto intro: res)
  assume "nrt_le a b" "nrt_le b c"
  then show ?thesis unfolding nrt_le_def using zones by fastforce
qed

lemma view_le_refl [simp]: "view_le v v"
  by (auto simp: view_le_def nrt_le_refl option.rel_refl)

lemma view_le_trans: "view_le u v \<Longrightarrow> view_le v w \<Longrightarrow> view_le u w"
  by (auto simp: view_le_def nrt_le_trans intro: option.rel_transp [unfolded transp_def, rule_format] elim!: option.rel_cases)

locale nrt_cache =
  fixes invar :: "'s \<Rightarrow> bool"
    and get :: "'s \<Rightarrow> string \<Rightarrow> NodeResourceTopology option \<times> bool"
    and reserve :: "'s \<Rightarrow> string \<Rightarrow> Pod \<Rightarrow> 's"
    and unreserve :: "'s \<Rightarrow> string \<Rightarrow> Pod \<Rightarrow> 's"
    and overreserved :: "'s \<Rightarrow> string \<Rightarrow> 's"
    and tracked :: "'s \<Rightarrow> string \<Rightarrow> 'k \<Rightarrow> bool"
    and key :: "Pod \<Rightarrow> 'k"
    and ok :: "Pod \<Rightarrow> bool"
  assumes invar_reserve: "invar s \<Longrightarrow> ok p \<Longrightarrow> invar (reserve s n p)"
    and reserve_other: "n' \<noteq> n \<Longrightarrow> get (reserve s n p) n' = get s n'"
    and unreserve_other: "n' \<noteq> n \<Longrightarrow> get (unreserve s n p) n' = get s n'"
    and overreserved_get: "get (overreserved s n) n' = get s n'"
    and reserve_shrinks: "invar s \<Longrightarrow> ok p \<Longrightarrow> \<not> tracked s n (key p) \<Longrightarrow> view_le (get (reserve s n p) n) (get s n)"
    and unreserve_undoes: "invar s \<Longrightarrow> ok p \<Longrightarrow> \<not> tracked s n (key p) \<Longrightarrow>
      get (unreserve (reserve s n p) n p) n = get s n"
    and tracked_reserve: "tracked (reserve s n p) n k \<Longrightarrow> tracked s n k \<or> k = key p"
begin

text \<open>A scheduling cycle that reserves and then fails leaves every node's view as it was.\<close>

lemma failed_cycle:
  assumes "invar s" "ok p" "\<not> tracked s n (key p)"
  shows "get (unreserve (reserve s n p) n p) n' = get s n'"
  by (cases "n' = n") (simp_all add: assms unreserve_undoes reserve_other unreserve_other)

text \<open>Placing pods never lets a node offer more.\<close>

lemma placements_shrink:
  assumes "invar s" "list_all ok ps" "distinct (map key ps)" "\<forall>p \<in> set ps. \<not> tracked s n (key p)"
  shows "view_le (get (foldl (\<lambda>s p. reserve s n p) s ps) n) (get s n)"
  using assms
proof (induction ps arbitrary: s)
  case (Cons p ps)
  have "view_le (get (foldl (\<lambda>s p. reserve s n p) (reserve s n p) ps) n) (get (reserve s n p) n)"
    using Cons.prems by (intro Cons.IH) (auto simp: invar_reserve dest!: tracked_reserve intro: rev_image_eqI)
  moreover have "view_le (get (reserve s n p) n) (get s n)" using Cons.prems by (simp add: reserve_shrinks)
  ultimately show ?case by (auto intro: view_le_trans)
qed simp

end

interpretation passthrough: nrt_cache "\<lambda>_. True" pt_GetCachedNRTCopy "\<lambda>c _ _. c" "\<lambda>c _ _. c" "\<lambda>c _. c"
  "\<lambda>_ _ _. False" pod_uid "\<lambda>_. True"
  by unfold_locales simp_all

lemma map_del_set_absent: "map_of m k = None \<Longrightarrow> map_del k (map_set k v m) = m"
  by (induction m) (auto simp: delete_simps split: if_splits)

interpretation discard: nrt_cache "\<lambda>_. True" dr_GetCachedNRTCopy dr_ReserveNodeResources dr_UnreserveNodeResources
  "\<lambda>dr _. dr" "\<lambda>dr n k. map_of (map_getd [] (reservationMap dr) n) k \<noteq> None" pod_uid "\<lambda>_. True"
proof
  fix s :: DiscardReserved and n n' p k
  let ?t = "map_getd [] (reservationMap s) n"
  show "dr_GetCachedNRTCopy (dr_ReserveNodeResources s n p) n' = dr_GetCachedNRTCopy s n'"
    "dr_GetCachedNRTCopy (dr_UnreserveNodeResources s n p) n' = dr_GetCachedNRTCopy s n'" if "n' \<noteq> n"
    using that by (simp_all add: dr_GetCachedNRTCopy_def dr_ReserveNodeResources_def dr_UnreserveNodeResources_def
        removeReservationForNode_def map_of_set split: option.splits)
  have "map_set (pod_uid p) True ?t \<noteq> []" by (cases ?t) (auto simp: split: prod.splits)
  then have "dr_GetCachedNRTCopy (dr_ReserveNodeResources s n p) n = (None, False)"
    by (simp add: dr_GetCachedNRTCopy_def dr_ReserveNodeResources_def map_of_set)
  then show "view_le (dr_GetCachedNRTCopy (dr_ReserveNodeResources s n p) n) (dr_GetCachedNRTCopy s n)"
    by (simp add: view_le_def)
  show "dr_GetCachedNRTCopy (dr_UnreserveNodeResources (dr_ReserveNodeResources s n p) n p) n = dr_GetCachedNRTCopy s n"
    if "\<not> map_of ?t (pod_uid p) \<noteq> None"
    using that map_del_set_absent [of ?t "pod_uid p" True]
    by (auto simp: dr_GetCachedNRTCopy_def dr_ReserveNodeResources_def dr_UnreserveNodeResources_def
        removeReservationForNode_def map_of_set map_getd_def split: option.splits)
  show "map_of ?t k \<noteq> None \<or> k = pod_uid p"
    if "map_of (map_getd [] (reservationMap (dr_ReserveNodeResources s n p)) n) k \<noteq> None"
    using that by (auto simp: dr_ReserveNodeResources_def map_getd_set map_of_set)
qed simp_all
lemma reduce_mono: "(\<And>n. t n \<le> u n) \<Longrightarrow> res_le (reduce u zr) (reduce t zr)"
  by (simp add: res_le_def max_def) (smt (verit))

lemma map_resources_le:
  assumes "\<And>zr. res_le (f zr) (g zr)"
  shows "nrt_le (map_resources f nrt) (map_resources g nrt)"
  by (auto simp: nrt_le_def map_resources_def list.rel_map assms intro!: list.rel_refl)

lemma finite_ov_pods: "finite (dom (ns_pods (ov_abs ov n)))"
proof -
  have "dom (ns_pods (ov_abs ov n)) = dom (map_of (map_getd [] (assumedResources ov) n))"
    by (auto simp: ov_abs_def)
  then show ?thesis by (simp add: finite_dom_map_of)
qed

lemma spec_get_shrinks:
  assumes "finite (dom (ns_pods ns))" "ns_pods ns k = None" "\<And>r. 0 \<le> q r"
  shows "view_le (spec_get (ns\<lparr>ns_pods := (ns_pods ns)(k \<mapsto> q)\<rparr>)) (spec_get ns)"
proof -
  have "(\<Sum>x \<in> insert k (dom (ns_pods ns)). the (((ns_pods ns)(k \<mapsto> q)) x) r) =
      q r + (\<Sum>x \<in> dom (ns_pods ns). the (ns_pods ns x) r)" for r
    using assms(1,2) by (subst sum.insert) (auto simp: domIff intro!: sum.cong)
  then have "nrt_le (map_resources (reduce (\<lambda>r. \<Sum>x \<in> insert k (dom (ns_pods ns)). the (((ns_pods ns)(k \<mapsto> q)) x) r)) nrt)
      (map_resources (reduce (\<lambda>r. \<Sum>x \<in> dom (ns_pods ns). the (ns_pods ns x) r)) nrt)" for nrt
    using assms(3) by (intro map_resources_le reduce_mono) simp
  then show ?thesis by (cases "ns_report ns") (simp_all add: view_le_def spec_get_def)
qed

interpretation overreserve: nrt_cache ov_inv ov_GetCachedNRTCopy ov_ReserveNodeResources ov_UnreserveNodeResources
  ov_NodeMaybeOverReserved "\<lambda>ov n k. ns_pods (ov_abs ov n) k \<noteq> None" pod_store_key "\<lambda>p. rl_nonneg (GetPodEffectiveRequest p)"
proof
  fix s :: OverReserve and n n' p k
  note abs = ov_abs_step [of s "OpReserve n p", simplified] ov_abs_step [of s "OpUnreserve n p", simplified]
    ov_abs_step [of "ov_ReserveNodeResources s n p" "OpUnreserve n p", simplified]
  show inv: "ov_inv s \<Longrightarrow> rl_nonneg (GetPodEffectiveRequest p) \<Longrightarrow> ov_inv (ov_ReserveNodeResources s n p)"
    using ov_inv_step [of s "OpReserve n p"] by simp
  show "ov_GetCachedNRTCopy (ov_ReserveNodeResources s n p) n' = ov_GetCachedNRTCopy s n'"
    "ov_GetCachedNRTCopy (ov_UnreserveNodeResources s n p) n' = ov_GetCachedNRTCopy s n'" if "n' \<noteq> n"
    using that by (auto simp: ov_GetCachedNRTCopy_def ov_op_defs map_of_set split: option.splits)
  show "ov_GetCachedNRTCopy (ov_NodeMaybeOverReserved s n) n' = ov_GetCachedNRTCopy s n'"
    by (auto simp: ov_GetCachedNRTCopy_def ov_NodeMaybeOverReserved_def split: option.splits)
  show "ns_pods (ov_abs (ov_ReserveNodeResources s n p) n) k \<noteq> None \<Longrightarrow> ns_pods (ov_abs s n) k \<noteq> None \<or> k = pod_store_key p"
    by (auto simp: abs split: if_splits)
  assume i: "ov_inv s" and nn: "rl_nonneg (GetPodEffectiveRequest p)" and "\<not> ns_pods (ov_abs s n) (pod_store_key p) \<noteq> None"
  then have free: "ns_pods (ov_abs s n) (pod_store_key p) = None" by simp
  show "view_le (ov_GetCachedNRTCopy (ov_ReserveNodeResources s n p) n) (ov_GetCachedNRTCopy s n)"
    using spec_get_shrinks [OF finite_ov_pods free, of "pod_req p"] rl_nonneg_getd [OF nn]
    by (simp add: ov_Get_spec i inv nn abs pod_req_def)
  have "ov_inv (ov_UnreserveNodeResources (ov_ReserveNodeResources s n p) n p)"
    using ov_inv_step [OF inv [OF i nn], of "OpUnreserve n p"] by simp
  moreover have "(ns_pods (ov_abs s n))(pod_store_key p := None) = ns_pods (ov_abs s n)" using free by (simp add: fun_eq_iff)
  ultimately show "ov_GetCachedNRTCopy (ov_UnreserveNodeResources (ov_ReserveNodeResources s n p) n p) n = ov_GetCachedNRTCopy s n"
    by (simp add: ov_Get_spec i abs)
qed
section \<open>What the plugin sees\<close>

definition spec_init :: "NodeResourceTopology list \<Rightarrow> string \<Rightarrow> NodeSpec" where
  "spec_init items n =
     \<lparr>ns_report = map_of (map (\<lambda>nrt. (nrt_name nrt, nrt)) (rev items)) n, ns_foreign = False, ns_pods = Map.empty\<rparr>"

lemma map_of_newNrtStore: "map_of (newNrtStore items) n = map_of (map (\<lambda>nrt. (nrt_name nrt, nrt)) (rev items)) n"
proof -
  have "map_of (foldl (\<lambda>data nrt. map_set (nrt_name nrt) nrt data) m items) n =
      (case map_of (map (\<lambda>nrt. (nrt_name nrt, nrt)) (rev items)) n of None \<Rightarrow> map_of m n | Some v \<Rightarrow> Some v)" for m
    by (induction items arbitrary: m) (auto simp: map_of_set map_add_def split: option.splits)
  from this [of "[]"] show ?thesis by (simp add: newNrtStore_def split: option.splits)
qed

lemma NewOverReserve_start:
  assumes "NewOverReserve cfg (Some c) rel = Inr ov" "nc_List c = Inr items" "list_all nrt_nonneg items"
  shows "ov_inv ov" "ov_abs ov = spec_init items"
proof -
  from assms have ov: "ov_nrts ov = newNrtStore items" "assumedResources ov = []" "nodesWithForeignPods ov = []"
    by (auto simp: NewOverReserve_def)
  have "nrt_nonneg nrt" if "map_of (newNrtStore items) n = Some nrt" for n nrt
    using that assms(3) by (auto simp: map_of_newNrtStore list_all_iff dest!: map_of_SomeD)
  then show "ov_inv ov" by (simp add: ov_inv_def ov)
  show "ov_abs ov = spec_init items"
    by (simp add: fun_eq_iff ov_abs_def spec_init_def ov map_of_newNrtStore counter_IsSet_def)
qed

text \<open>
  C6. The over-reserve cache refines its specification. After any sequence of reservations, releases,
  discards, foreign pods and flushes, a node is stale exactly when foreign pods were seen since its
  last flush; otherwise every zone of its last report is shown with, for each resource, the amount
  reported minus the requests of all pods reserved on the node since that report and not released
  again, and never less than zero. Placing further pods never lets a node offer more, and a
  reservation that is released again leaves the view of every node as it was.
\<close>

theorem OverReserve_refines:
  assumes "NewOverReserve cfg (Some c) rel = Inr ov" and "nc_List c = Inr items" and "list_all nrt_nonneg items"
    and "list_all op_ok ops"
  shows "ov_abs (foldl ov_step ov ops) = foldl spec_step (spec_init items) ops \<and>
    ov_GetCachedNRTCopy (foldl ov_step ov ops) n = spec_get (foldl spec_step (spec_init items) ops n) \<and>
    (\<forall>m pod. rl_nonneg (GetPodEffectiveRequest pod) \<longrightarrow>
       ns_pods (foldl spec_step (spec_init items) ops m) (pod_store_key pod) = None \<longrightarrow>
       (let st = foldl ov_step ov ops; st' = ov_ReserveNodeResources st m pod
        in view_le (ov_GetCachedNRTCopy st' m) (ov_GetCachedNRTCopy st m) \<and>
           ov_GetCachedNRTCopy (ov_UnreserveNodeResources st' m pod) n = ov_GetCachedNRTCopy st n))"
proof -
  note start = NewOverReserve_start [OF assms(1-3)]
  have i: "ov_inv (foldl ov_step ov ops)" using start(1) assms(4) by (rule ov_inv_run)
  show ?thesis
    using i start(2) overreserve.failed_cycle [OF i] overreserve.reserve_shrinks [OF i]
    by (auto simp: ov_abs_run ov_Get_spec Let_def)
qed

definition demo_report :: "Quantity \<Rightarrow> NodeResourceTopology" where
  "demo_report avail = \<lparr>nrt_name = ''n1'', nrt_annotations = None, nrt_TopologyPolicies = [],
     nrt_Zones = [\<lparr>z_Name = ''node-0'', z_Type = ''Node'', z_Costs = [],
       z_Resources = [\<lparr>ri_Name = ResourceCPU, ri_Capacity = 8 * 10 ^ 9, ri_Allocatable = 8 * 10 ^ 9, ri_Available = avail\<rparr>]\<rparr>],
     nrt_Attributes = []\<rparr>"

definition demo_nrtc :: NrtClient where
  "demo_nrtc = \<lparr>nc_Get = (\<lambda>_. None), nc_List = Inr [demo_report (8 * 10 ^ 9)], nc_pods = Inr []\<rparr>"

theorem OverReserve_refines_witness:
  "\<exists>ov. NewOverReserve None (Some demo_nrtc) IsPodRelevantShared = Inr ov \<and>
    ov_GetCachedNRTCopy (ov_ReserveNodeResources ov ''n1'' demo_pod) ''n1'' = (Some (demo_report (6 * 10 ^ 9)), True)"
proof -
  let ?i = "[demo_report (8 * 10 ^ 9)]" and ?ops = "[OpReserve ''n1'' demo_pod]"
  obtain ov where ov: "NewOverReserve None (Some demo_nrtc) IsPodRelevantShared = Inr ov"
    by (simp add: NewOverReserve_def demo_nrtc_def)
  have "nc_List demo_nrtc = Inr ?i" "list_all nrt_nonneg ?i" "list_all op_ok ?ops"
    by (simp add: demo_nrtc_def, simp add: nrt_nonneg_def demo_report_def, code_simp)
  from OverReserve_refines [OF ov this, of "''n1''"]
  have "ov_GetCachedNRTCopy (ov_ReserveNodeResources ov ''n1'' demo_pod) ''n1'' =
      (Some (map_resources (reduce (pod_req demo_pod)) (demo_report (8 * 10 ^ 9))), True)"
    by (simp add: spec_get_def spec_init_def demo_report_def)
  moreover have "map_resources (reduce (pod_req demo_pod)) (demo_report (8 * 10 ^ 9)) = demo_report (6 * 10 ^ 9)"
    by code_simp
  ultimately show ?thesis using ov by simp
qed
section \<open>Resynchronisation\<close>

lemma pfp_Check_iff: "pfp_Check h pods sign = None \<longleftrightarrow> sign = pfp_Prefix @ pfp_Version @ pfp_Sum h pods \<and> 8 \<le> length (pfp_Sum h pods)"
proof
  assume "pfp_Check h pods sign = None"
  then have c: "16 \<le> length sign" "take 4 sign = pfp_Prefix" "take 4 (drop 4 sign) = pfp_Version" "pfp_Sum h pods = drop 8 sign"
    by (auto simp: pfp_Check_def split: if_splits)
  have "sign = take 4 sign @ take 4 (drop 4 sign) @ drop 8 sign"
    by (metis append_take_drop_id drop_drop numeral_Bit0 numeral_plus_numeral)
  with c show "sign = pfp_Prefix @ pfp_Version @ pfp_Sum h pods \<and> 8 \<le> length (pfp_Sum h pods)" by simp
next
  assume "sign = pfp_Prefix @ pfp_Version @ pfp_Sum h pods \<and> 8 \<le> length (pfp_Sum h pods)"
  then show "pfp_Check h pods sign = None"
    by (simp add: pfp_Check_def pfp_Prefix_def pfp_Version_def)
qed

definition pods_on :: "(Pod \<Rightarrow> bool) \<Rightarrow> Pod list \<Rightarrow> string \<Rightarrow> Pod list" where
  "pods_on rel pods n = filter (\<lambda>p. rel p \<and> pod_nodeName p = n) pods"

definition data_of :: "Pod \<Rightarrow> podData" where
  "data_of pod = \<lparr>pd_Namespace = pod_namespace pod, pd_Name = pod_name pod, pd_HasExclusiveResources = AreExclusiveForPod pod\<rparr>"

lemma makeNodeToPodDataMap_spec:
  "\<exists>m. makeNodeToPodDataMap (Inr pods) rel = Inr m \<and>
     (\<forall>n. map_of m n = (if pods_on rel pods n = [] then None else Some (map data_of (pods_on rel pods n))))"
proof -
  let ?f = "\<lambda>m pod. if \<not> rel pod then m else map_set (pod_nodeName pod) (map_getd [] m (pod_nodeName pod) @ [data_of pod]) m"
  have "map_of (foldl ?f m pods) n =
      (if pods_on rel pods n = [] then map_of m n else Some (map_getd [] m n @ map data_of (pods_on rel pods n)))" for m n
  proof (induction pods arbitrary: m)
    case (Cons p pods)
    show ?case unfolding foldl_Cons Cons.IH by (simp add: pods_on_def map_of_set map_getd_set)
  qed (simp add: pods_on_def)
  moreover have "makeNodeToPodDataMap (Inr pods) rel = Inr (foldl ?f [] pods)"
    unfolding makeNodeToPodDataMap_def data_of_def by simp
  ultimately show ?thesis by (intro exI [of _ "foldl ?f [] pods"]) simp
qed

text \<open>
  A fresh report can be trusted: it carries the signature of the relevant pods bound to the node (or
  of those with exclusive resources, as the method says), and there is at least one such pod.
\<close>

definition report_trusted :: "Hashes \<Rightarrow> CacheResyncMethod \<Rightarrow> Pod list \<Rightarrow> NodeResourceTopology \<Rightarrow> bool" where
  "report_trusted h method ps nrt \<longleftrightarrow>
     (case podFingerprintForNodeTopology nrt method of (sign, onlyExclRes) \<Rightarrow>
        let signed = map (\<lambda>p. (pod_namespace p, pod_name p)) (filter (\<lambda>p. onlyExclRes \<longrightarrow> AreExclusiveForPod p) ps)
        in ps \<noteq> [] \<and> sign = pfp_Prefix @ pfp_Version @ pfp_Sum h signed \<and> 8 \<le> length (pfp_Sum h signed))"

lemma resync_node_iff:
  assumes "\<forall>n. map_of m n = (if pods_on rel pods n = [] then None else Some (map data_of (pods_on rel pods n)))"
  shows "resync_node h c method m n = Some nrt \<longleftrightarrow> nc_Get c n = Some nrt \<and> report_trusted h method (pods_on rel pods n) nrt"
proof -
  have "checkPodFingerprintForNode h (map data_of ps) sign excl = None \<longleftrightarrow>
      sign = pfp_Prefix @ pfp_Version @ pfp_Sum h (map (\<lambda>p. (pod_namespace p, pod_name p)) (filter (\<lambda>p. excl \<longrightarrow> AreExclusiveForPod p) ps)) \<and>
      8 \<le> length (pfp_Sum h (map (\<lambda>p. (pod_namespace p, pod_name p)) (filter (\<lambda>p. excl \<longrightarrow> AreExclusiveForPod p) ps)))" for ps sign excl
    unfolding checkPodFingerprintForNode_def pfp_Check_iff by (simp add: data_of_def filter_map comp_def)
  then show ?thesis
    using assms by (auto simp: resync_node_def report_trusted_def Let_def pfp_Prefix_def split: option.splits prod.splits if_splits)
qed

lemma keys_foldl_Incr: "fst ` set (foldl counter_Incr cnt ks) = fst ` set cnt \<union> set ks"
  by (induction ks arbitrary: cnt) (auto simp: counter_Incr_def keys_map_set)

lemma dirty_nodes:
  "n \<in> set (NodesMaybeOverReserved ov) \<longleftrightarrow>
     counter_IsSet (nodesWithForeignPods ov) n \<or> counter_IsSet (nodesMaybeOverreserved ov) n"
  by (simp add: NodesMaybeOverReserved_def counter_Keys_def keys_foldl_Incr counter_IsSet_def map_of_eq_None_iff)

lemma foldl_flush:
  assumes "\<forall>x \<in> set nrts. nrt_name x = n \<longrightarrow> x = nrt"
  shows "ov_abs (FlushNodes ov nrts) n =
    (if n \<in> nrt_name ` set nrts then \<lparr>ns_report = Some nrt, ns_foreign = False, ns_pods = Map.empty\<rparr> else ov_abs ov n)"
  using assms
proof (induction nrts arbitrary: ov)
  case (Cons x nrts)
  have "ov_abs (FlushNodes ov (x # nrts)) n = ov_abs (FlushNodes (flush_node ov x) nrts) n" by (simp add: FlushNodes_def)
  moreover have "ov_abs (flush_node ov x) n =
      (if nrt_name x = n then \<lparr>ns_report = Some x, ns_foreign = False, ns_pods = Map.empty\<rparr> else ov_abs ov n)"
    using ov_abs_step [of ov "OpFlush x"] by simp
  ultimately show ?case using Cons by auto
qed (simp add: FlushNodes_def)

text \<open>
  C18. Resynchronisation replaces what the cache believes about a node exactly for the dirty nodes
  (foreign pods seen, or discarded by the filter) whose fresh report carries the signature of the pods
  that run there: such a node gets the report, loses its stale mark and its assumed pods. Every other
  node keeps its state; in particular a dirty node on which no relevant pod runs stays dirty.
\<close>

theorem Resync_replaces_trusted:
  assumes "nc_pods c = Inr pods" and "\<forall>m nrt. nc_Get c m = Some nrt \<longrightarrow> nrt_name nrt = m"
  shows "ov_abs (Resync h c ov) n =
    (if (counter_IsSet (nodesWithForeignPods ov) n \<or> counter_IsSet (nodesMaybeOverreserved ov) n) \<and>
        (\<exists>nrt. nc_Get c n = Some nrt \<and> report_trusted h (ov_resyncMethod ov) (pods_on (ov_isPodRelevant ov) pods n) nrt)
     then \<lparr>ns_report = nc_Get c n, ns_foreign = False, ns_pods = Map.empty\<rparr> else ov_abs ov n)"
proof -
  obtain m where m: "makeNodeToPodDataMap (Inr pods) (ov_isPodRelevant ov) = Inr m"
    "\<forall>n. map_of m n = (if pods_on (ov_isPodRelevant ov) pods n = [] then None else Some (map data_of (pods_on (ov_isPodRelevant ov) pods n)))"
    using makeNodeToPodDataMap_spec by blast
  note node = resync_node_iff [OF m(2), of h c "ov_resyncMethod ov"]
  let ?nrts = "List.map_filter (resync_node h c (ov_resyncMethod ov) m) (NodesMaybeOverReserved ov)"
  have r: "ov_abs (Resync h c ov) n = ov_abs (FlushNodes ov ?nrts) n"
    using assms(1) m(1) by (auto simp: Resync_def Let_def FlushNodes_def List.map_filter_simps)
  have mem: "x \<in> set ?nrts \<longleftrightarrow> (\<exists>k \<in> set (NodesMaybeOverReserved ov). resync_node h c (ov_resyncMethod ov) m k = Some x)" for x
    by (force simp: List.map_filter_def)
  have uniq: "\<forall>x \<in> set ?nrts. nrt_name x = n \<longrightarrow> x = the (nc_Get c n)"
    using assms(2) by (auto simp: mem node)
  have "n \<in> nrt_name ` set ?nrts \<longleftrightarrow> n \<in> set (NodesMaybeOverReserved ov) \<and>
      (\<exists>nrt. nc_Get c n = Some nrt \<and> report_trusted h (ov_resyncMethod ov) (pods_on (ov_isPodRelevant ov) pods n) nrt)"
    using assms(2) by (force simp: image_iff mem node)
  then show ?thesis unfolding r foldl_flush [OF uniq] dirty_nodes by auto
qed
definition demo_hashes :: Hashes where
  "demo_hashes = \<lparr>h_pod = (\<lambda>_ _. 0), h_sum = (\<lambda>hs. replicate (8 + length hs) (CHR ''0''))\<rparr>"

definition demo_signed :: NodeResourceTopology where
  "demo_signed = (demo_report (7 * 10 ^ 9))\<lparr>nrt_Attributes := [(pfp_Attribute, ''pfp0v001000000000'')]\<rparr>"

definition demo_stale :: OverReserve where
  "demo_stale = \<lparr>ov_nrts = [(''n1'', demo_report (8 * 10 ^ 9))], assumedResources = [], nodesMaybeOverreserved = [],
     nodesWithForeignPods = [(''n1'', 1)], ov_resyncMethod = CacheResyncAutodetect, ov_isPodRelevant = IsPodRelevantShared\<rparr>"

theorem Resync_replaces_trusted_witness:
  "ns_report (ov_abs (Resync demo_hashes (demo_nrtc\<lparr>nc_Get := (\<lambda>m. if m = ''n1'' then Some demo_signed else None), nc_pods := Inr [demo_pod]\<rparr>)
     demo_stale) ''n1'') = Some demo_signed"
proof -
  let ?c = "demo_nrtc\<lparr>nc_Get := (\<lambda>m. if m = ''n1'' then Some demo_signed else None), nc_pods := Inr [demo_pod]\<rparr>"
  have c: "nc_pods ?c = Inr [demo_pod]" "\<forall>m nrt. nc_Get ?c m = Some nrt \<longrightarrow> nrt_name nrt = m" "nc_Get ?c ''n1'' = Some demo_signed"
    by (simp_all add: demo_signed_def demo_report_def)
  have "report_trusted demo_hashes (ov_resyncMethod demo_stale) (pods_on (ov_isPodRelevant demo_stale) [demo_pod] ''n1'') demo_signed"
    "counter_IsSet (nodesWithForeignPods demo_stale) ''n1''" by code_simp+
  with Resync_replaces_trusted [OF c(1,2), of demo_hashes demo_stale "''n1''"] c(3) show ?thesis by simp
qed

end
