(* ===== verification/NrtFilter.thy ===== *)
theory NrtFilter
  imports NrtCache FrameworkNode
begin

unbundle bit_operations_syntax

text \<open>
  \<open>pkg/noderesourcetopology\<close>: configuration from a report, the list of NUMA nodes, the filter for the
  single-numa-node policy at pod and container scope, and the reserve extension points. Masks of NUMA
  nodes are 64-bit words as in \<open>kubelet/cm/topologymanager/bitmask\<close>. The cache is one of the three
  implementations of \<open>NrtCache\<close>.

  Results: which NUMA node the availability check picks and when it fails, independently of the order
  in which the requested resources are visited; a pod the container-scope filter admits has a
  placement of its containers that overcommits no NUMA node.
\<close>

section \<open>Configuration\<close>

definition ContainerTopologyManagerScope :: string where "ContainerTopologyManagerScope = ''container''"
definition PodTopologyManagerScope :: string where "PodTopologyManagerScope = ''pod''"
definition NoneTopologyManagerPolicy :: string where "NoneTopologyManagerPolicy = ''none''"
definition BestEffortTopologyManagerPolicy :: string where "BestEffortTopologyManagerPolicy = ''best-effort''"
definition RestrictedTopologyManagerPolicy :: string where "RestrictedTopologyManagerPolicy = ''restricted''"
definition SingleNumaNodeTopologyManagerPolicy :: string where "SingleNumaNodeTopologyManagerPolicy = ''single-numa-node''"

lemmas scope_policy_defs = ContainerTopologyManagerScope_def PodTopologyManagerScope_def NoneTopologyManagerPolicy_def
  BestEffortTopologyManagerPolicy_def RestrictedTopologyManagerPolicy_def SingleNumaNodeTopologyManagerPolicy_def

definition AttributeScope :: string where "AttributeScope = ''topologyManagerScope''"
definition AttributePolicy :: string where "AttributePolicy = ''topologyManagerPolicy''"

definition IsValidScope :: "string \<Rightarrow> bool" where
  "IsValidScope scope = (scope = ContainerTopologyManagerScope \<or> scope = PodTopologyManagerScope)"

definition IsValidPolicy :: "string \<Rightarrow> bool" where
  "IsValidPolicy policy =
     (policy = NoneTopologyManagerPolicy \<or> policy = BestEffortTopologyManagerPolicy \<or>
      policy = RestrictedTopologyManagerPolicy \<or> policy = SingleNumaNodeTopologyManagerPolicy)"

record TopologyManagerConfig =
  tmc_Scope :: string
  tmc_Policy :: string

definition makeTopologyManagerConfigDefaults :: TopologyManagerConfig where
  "makeTopologyManagerConfigDefaults =
     \<lparr>tmc_Scope = ContainerTopologyManagerScope, tmc_Policy = NoneTopologyManagerPolicy\<rparr>"

definition updateTopologyManagerConfigFromAttributes ::
  "TopologyManagerConfig \<Rightarrow> (string \<times> string) list \<Rightarrow> TopologyManagerConfig" where
  "updateTopologyManagerConfigFromAttributes conf attrs =
     foldl (\<lambda>conf (name, value).
        if name = AttributeScope \<and> IsValidScope value then conf\<lparr>tmc_Scope := value\<rparr>
        else if name = AttributePolicy \<and> IsValidPolicy value then conf\<lparr>tmc_Policy := value\<rparr>
        else conf) conf attrs"

definition updateTopologyManagerConfigFromTopologyPolicies ::
  "TopologyManagerConfig \<Rightarrow> string list \<Rightarrow> TopologyManagerConfig" where
  "updateTopologyManagerConfigFromTopologyPolicies conf topologyPolicies =
     (case topologyPolicies of
        [] \<Rightarrow> conf
      | policyName # _ \<Rightarrow>
          if policyName = ''SingleNUMANodePodLevel'' then
            conf\<lparr>tmc_Policy := SingleNumaNodeTopologyManagerPolicy, tmc_Scope := PodTopologyManagerScope\<rparr>
          else if policyName = ''SingleNUMANodeContainerLevel'' then
            conf\<lparr>tmc_Policy := SingleNumaNodeTopologyManagerPolicy, tmc_Scope := ContainerTopologyManagerScope\<rparr>
          else if policyName = ''BestEffortPodLevel'' then
            conf\<lparr>tmc_Policy := BestEffortTopologyManagerPolicy, tmc_Scope := PodTopologyManagerScope\<rparr>
          else if policyName = ''BestEffortContainerLevel'' then
            conf\<lparr>tmc_Policy := BestEffortTopologyManagerPolicy, tmc_Scope := ContainerTopologyManagerScope\<rparr>
          else if policyName = ''RestrictedPodLevel'' then
            conf\<lparr>tmc_Policy := RestrictedTopologyManagerPolicy, tmc_Scope := PodTopologyManagerScope\<rparr>
          else if policyName = ''RestrictedContainerLevel'' then
            conf\<lparr>tmc_Policy := RestrictedTopologyManagerPolicy, tmc_Scope := ContainerTopologyManagerScope\<rparr>
          else conf)"

definition topologyManagerConfigFromNodeResourceTopology :: "NodeResourceTopology \<Rightarrow> TopologyManagerConfig" where
  "topologyManagerConfigFromNodeResourceTopology nodeTopology =
     updateTopologyManagerConfigFromAttributes
       (updateTopologyManagerConfigFromTopologyPolicies makeTopologyManagerConfigDefaults (nrt_TopologyPolicies nodeTopology))
       (nrt_Attributes nodeTopology)"

section \<open>NUMA nodes\<close>

definition maxNUMAId :: nat where "maxNUMAId = 64"
definition highestNUMAID :: nat where "highestNUMAID = 8"

record NUMANode =
  numa_NUMAID :: nat
  numa_Resources :: ResourceList
  numa_Costs :: "(nat, int64) gomap"

definition Atoi :: "string \<Rightarrow> int option" where
  "Atoi s = ParseInt s 64"

definition getID :: "string \<Rightarrow> nat option" where
  "getID name =
     (case str_split (CHR ''-'') name of
        [a, b] \<Rightarrow>
          if a \<noteq> ''node'' then None
          else (case Atoi b of
                  None \<Rightarrow> None
                | Some numaID \<Rightarrow> if numaID > int maxNUMAId - 1 \<or> numaID < 0 then None else Some (nat numaID))
      | _ \<Rightarrow> None)"

definition extractCosts :: "(string \<times> int64) list \<Rightarrow> (nat, int64) gomap" where
  "extractCosts costs =
     foldl (\<lambda>m (name, value). case getID name of None \<Rightarrow> m | Some numaID \<Rightarrow> map_set numaID value m) [] costs"

definition extractResources :: "NrtZone \<Rightarrow> ResourceList" where
  "extractResources zone = foldl (\<lambda>res resInfo. map_set (ri_Name resInfo) (ri_Available resInfo) res) [] (z_Resources zone)"

definition collect_zone :: "nat list \<times> NUMANode list \<Rightarrow> nat \<times> NrtZone \<Rightarrow> nat list \<times> NUMANode list" where
  "collect_zone acc iz =
     (case acc of (numaIDToZoneIDx, nodes) \<Rightarrow> case iz of (i, zone) \<Rightarrow>
        if z_Type zone \<noteq> ''Node'' then acc
        else (case getID (z_Name zone) of
                None \<Rightarrow> acc
              | Some numaID \<Rightarrow>
                  (numaIDToZoneIDx[numaID := i],
                   nodes @ [\<lparr>numa_NUMAID = numaID, numa_Resources = extractResources zone, numa_Costs = []\<rparr>])))"

definition createNUMANodeList :: "NrtZone list \<Rightarrow> NUMANode list" where
  "createNUMANodeList zones =
     (let (numaIDToZoneIDx, nodes) = foldl collect_zone (replicate maxNUMAId 0, []) (enumerate 0 zones)
      in map (\<lambda>node. node\<lparr>numa_Costs := extractCosts (z_Costs (zones ! (numaIDToZoneIDx ! numa_NUMAID node)))\<rparr>) nodes)"

definition onlyNonNUMAResources :: "NUMANode list \<Rightarrow> ResourceList \<Rightarrow> bool" where
  "onlyNonNUMAResources numaNodes resources =
     (\<not> list_ex (\<lambda>(name, _). list_ex (\<lambda>node. map_get (numa_Resources node) name \<noteq> None) numaNodes) resources)"

section \<open>Masks\<close>

type_synonym bitMask = "64 word"

definition bm_Add :: "bitMask \<Rightarrow> nat \<Rightarrow> bitMask" where
  "bm_Add s i = (if i \<ge> 64 then s else s OR push_bit i 1)"

definition bm_Fill :: bitMask where
  "bm_Fill = NOT 0"

definition bm_GetBits :: "bitMask \<Rightarrow> nat list" where
  "bm_GetBits s = filter (\<lambda>i. s AND push_bit i 1 \<noteq> 0) [0..<64]"

section \<open>The filter\<close>

definition isResourceSetSuitable :: "PodQOSClass \<Rightarrow> string \<Rightarrow> Quantity \<Rightarrow> Quantity \<Rightarrow> bool" where
  "isResourceSetSuitable qos resource quantity numaQuantity =
     (if qos \<noteq> PodQOSGuaranteed \<and> (resource = ResourceMemory \<or> IsHugePageResourceName resource \<or> resource = ResourceCPU)
      then True
      else numaQuantity \<ge> quantity)"

text \<open>The inner loop: the mask of NUMA nodes that can serve one resource, and whether any node has it.\<close>

definition resource_mask :: "PodQOSClass \<Rightarrow> NUMANode list \<Rightarrow> string \<Rightarrow> Quantity \<Rightarrow> bool \<times> bitMask" where
  "resource_mask qos numaNodes resource quantity =
     foldl (\<lambda>(hasNUMAAffinity, resourceBitmask) numaNode.
        case map_get (numa_Resources numaNode) resource of
          None \<Rightarrow> (hasNUMAAffinity, resourceBitmask)
        | Some numaQuantity \<Rightarrow>
            if \<not> isResourceSetSuitable qos resource quantity numaQuantity then (True, resourceBitmask)
            else (True, bm_Add resourceBitmask (numa_NUMAID numaNode))) (False, 0) numaNodes"

text \<open>The loop over the requested resources; \<^const>\<open>None\<close> is the early verdict.\<close>

fun align_loop :: "PodQOSClass \<Rightarrow> NUMANode list \<Rightarrow> ResourceList \<Rightarrow> ResourceList \<Rightarrow> bitMask \<Rightarrow> bitMask option" where
  "align_loop qos numaNodes nodeResources [] bitmask = Some bitmask"
| "align_loop qos numaNodes nodeResources ((resource, quantity) # rest) bitmask =
     (if quantity = 0 then align_loop qos numaNodes nodeResources rest bitmask
      else if map_get nodeResources resource = None then None
      else (case resource_mask qos numaNodes resource quantity of
              (hasNUMAAffinity, resourceBitmask) \<Rightarrow>
                if \<not> hasNUMAAffinity \<and> (\<not> IsNativeResource resource \<or> resource = ResourceEphemeralStorage)
                then align_loop qos numaNodes nodeResources rest bitmask
                else (let bitmask = bitmask AND resourceBitmask
                      in if bitmask = 0 then None else align_loop qos numaNodes nodeResources rest bitmask)))"

definition resourcesAvailableInAnyNUMANodes ::
  "NUMANode list \<Rightarrow> ResourceList \<Rightarrow> PodQOSClass \<Rightarrow> Resource \<Rightarrow> nat \<times> bool" where
  "resourcesAvailableInAnyNUMANodes numaNodes resources qos allocatable =
     (case align_loop qos numaNodes (ResourceList_of allocatable) resources bm_Fill of
        None \<Rightarrow> (highestNUMAID, False)
      | Some bitmask \<Rightarrow> (bm_GetBits bitmask ! 0, bitmask \<noteq> 0))"

definition subtract_request :: "ResourceList \<Rightarrow> ResourceList \<Rightarrow> ResourceList" where
  "subtract_request nRes requests =
     foldl (\<lambda>nRes (resName, quan). map_set resName (map_getd 0 nRes resName - quan) nRes) nRes requests"

definition subtractFromNUMA :: "NUMANode list \<Rightarrow> nat \<Rightarrow> Container \<Rightarrow> NUMANode list" where
  "subtractFromNUMA nodes numaID container =
     map (\<lambda>node. if numa_NUMAID node \<noteq> numaID then node
                  else node\<lparr>numa_Resources := subtract_request (numa_Resources node) (ctr_requests container)\<rparr>) nodes"

fun align_containers :: "PodQOSClass \<Rightarrow> Resource \<Rightarrow> NUMANode list \<Rightarrow> Container list \<Rightarrow> bool" where
  "align_containers qos allocatable nodes [] = True"
| "align_containers qos allocatable nodes (container # rest) =
     (case resourcesAvailableInAnyNUMANodes nodes (ctr_requests container) qos allocatable of
        (numaID, match) \<Rightarrow>
          if \<not> match then False
          else align_containers qos allocatable (subtractFromNUMA nodes numaID container) rest)"

text \<open>A nil status is success.\<close>

definition singleNUMAContainerLevelHandler :: "Pod \<Rightarrow> NrtZone list \<Rightarrow> Resource \<Rightarrow> Status option" where
  "singleNUMAContainerLevelHandler pod zones allocatable =
     (let nodes = createNUMANodeList zones; qos = GetPodQOS pod
      in if list_ex (\<lambda>c. \<not> snd (resourcesAvailableInAnyNUMANodes nodes (ctr_requests c) qos allocatable)) (pod_initContainers pod)
         then Some (NewStatus Unschedulable [''cannot align init container''])
         else if \<not> align_containers qos allocatable nodes (pod_containers pod)
         then Some (NewStatus Unschedulable [''cannot align container''])
         else None)"

definition singleNUMAPodLevelHandler :: "Pod \<Rightarrow> NrtZone list \<Rightarrow> Resource \<Rightarrow> Status option" where
  "singleNUMAPodLevelHandler pod zones allocatable =
     (let resources = GetPodEffectiveRequest pod
      in if \<not> snd (resourcesAvailableInAnyNUMANodes (createNUMANodeList zones) resources (GetPodQOS pod) allocatable)
         then Some (NewStatus Unschedulable [''cannot align pod''])
         else None)"

definition filterHandlerFromTopologyManagerConfig ::
  "TopologyManagerConfig \<Rightarrow> (Pod \<Rightarrow> NrtZone list \<Rightarrow> Resource \<Rightarrow> Status option) option" where
  "filterHandlerFromTopologyManagerConfig conf =
     (if tmc_Policy conf \<noteq> SingleNumaNodeTopologyManagerPolicy then None
      else if tmc_Scope conf = PodTopologyManagerScope then Some singleNUMAPodLevelHandler
      else if tmc_Scope conf = ContainerTopologyManagerScope then Some singleNUMAContainerLevelHandler
      else None)"

text \<open>The cache behind the interface, and its dispatch.\<close>

datatype NrtCacheImpl = Passthrough NrtClient | Discard DiscardReserved | Over OverReserve

fun cache_Get :: "NrtCacheImpl \<Rightarrow> string \<Rightarrow> NodeResourceTopology option \<times> bool" where
  "cache_Get (Passthrough c) n = pt_GetCachedNRTCopy c n"
| "cache_Get (Discard d) n = dr_GetCachedNRTCopy d n"
| "cache_Get (Over ov) n = ov_GetCachedNRTCopy ov n"

fun cache_MaybeOverReserved :: "NrtCacheImpl \<Rightarrow> string \<Rightarrow> NrtCacheImpl" where
  "cache_MaybeOverReserved (Over ov) n = Over (ov_NodeMaybeOverReserved ov n)"
| "cache_MaybeOverReserved c n = c"

fun cache_Reserve :: "NrtCacheImpl \<Rightarrow> string \<Rightarrow> Pod \<Rightarrow> NrtCacheImpl" where
  "cache_Reserve (Passthrough c) n p = Passthrough c"
| "cache_Reserve (Discard d) n p = Discard (dr_ReserveNodeResources d n p)"
| "cache_Reserve (Over ov) n p = Over (ov_ReserveNodeResources ov n p)"

fun cache_Unreserve :: "NrtCacheImpl \<Rightarrow> string \<Rightarrow> Pod \<Rightarrow> NrtCacheImpl" where
  "cache_Unreserve (Passthrough c) n p = Passthrough c"
| "cache_Unreserve (Discard d) n p = Discard (dr_UnreserveNodeResources d n p)"
| "cache_Unreserve (Over ov) n p = Over (ov_UnreserveNodeResources ov n p)"

fun cache_PostBind :: "NrtCacheImpl \<Rightarrow> string \<Rightarrow> Pod \<Rightarrow> NrtCacheImpl" where
  "cache_PostBind (Discard d) n p = Discard (dr_PostBind d n p)"
| "cache_PostBind c n p = c"

definition TM_Filter :: "NrtCacheImpl \<Rightarrow> Pod \<Rightarrow> FNodeInfo \<Rightarrow> Status option \<times> NrtCacheImpl" where
  "TM_Filter cache pod nodeInfo =
     (if \<not> ni_hasNode nodeInfo then (Some (NewStatus Error [''node not found'']), cache)
      else if GetPodQOS pod = PodQOSBestEffort \<and> \<not> IncludeNonNative pod then (None, cache)
      else (case cache_Get cache (ni_name nodeInfo) of
              (nodeTopology, ok) \<Rightarrow>
                if \<not> ok then (Some (NewStatus Unschedulable [''invalid node topology data'']), cache)
                else (case nodeTopology of
                        None \<Rightarrow> (None, cache)
                      | Some nrt \<Rightarrow>
                          (case filterHandlerFromTopologyManagerConfig (topologyManagerConfigFromNodeResourceTopology nrt) of
                             None \<Rightarrow> (None, cache)
                           | Some handler \<Rightarrow>
                               (let status = handler pod (nrt_Zones nrt) (ni_allocatable nodeInfo)
                                in (status, if status \<noteq> None then cache_MaybeOverReserved cache (ni_name nodeInfo) else cache))))))"

definition TM_Reserve :: "NrtCacheImpl \<Rightarrow> Pod \<Rightarrow> string \<Rightarrow> NrtCacheImpl \<times> Status" where
  "TM_Reserve cache pod nodeName = (cache_Reserve cache nodeName pod, NewStatus Success [[]])"

definition TM_Unreserve :: "NrtCacheImpl \<Rightarrow> Pod \<Rightarrow> string \<Rightarrow> NrtCacheImpl" where
  "TM_Unreserve cache pod nodeName = cache_Unreserve cache nodeName pod"

definition TM_PostBind :: "NrtCacheImpl \<Rightarrow> Pod \<Rightarrow> string \<Rightarrow> NrtCacheImpl" where
  "TM_PostBind cache pod nodeName = cache_PostBind cache nodeName pod"

section \<open>Choice of the cache and foreign pods\<close>

definition getForeignPodsDetectMode :: "NodeResourceTopologyCache option \<Rightarrow> ForeignPodsDetectMode" where
  "getForeignPodsDetectMode cfg =
     (case Option.bind cfg nrc_ForeignPodsDetect of Some m \<Rightarrow> m | None \<Rightarrow> ForeignPodsDetectAll)"

definition wantsDedicatedInformer :: "NodeResourceTopologyCache option \<Rightarrow> bool" where
  "wantsDedicatedInformer cacheConf = (Option.bind cacheConf nrc_InformerMode = Some CacheInformerDedicated)"

text \<open>The cache that the arguments ask for; \<open>Inl\<close> is the error of its construction.\<close>

definition initNodeTopologyInformer :: "NodeResourceTopologyMatchArgs \<Rightarrow> NrtClient \<Rightarrow> string + NrtCacheImpl" where
  "initNodeTopologyInformer tcfg client =
     (if tma_DiscardReservedNodes tcfg then Inr (Discard (NewDiscardReserved client))
      else if sle (tma_CacheResyncPeriodSeconds tcfg) 0 then Inr (Passthrough client)
      else (case NewOverReserve (map_option nrc_ResyncMethod (tma_Cache tcfg)) (Some client)
                   (if wantsDedicatedInformer (tma_Cache tcfg) then IsPodRelevantDedicated else IsPodRelevantShared) of
              Inl err \<Rightarrow> Inl err
            | Inr ov \<Rightarrow> Inr (Over ov)))"

text \<open>\<open>profile\<close> is absent when the handle does not know its profile.\<close>

definition initNodeTopologyForeignPodsDetection ::
  "NodeResourceTopologyCache option \<Rightarrow> string option \<Rightarrow> ForeignSetup \<Rightarrow> ForeignSetup \<times> bool" where
  "initNodeTopologyForeignPodsDetection cfg profile fs =
     (let mode = getForeignPodsDetectMode cfg
      in if mode = ForeignPodsDetectNone then (fs, False)
         else (case profile of
                 None \<Rightarrow> (fs, False)
               | Some profileName \<Rightarrow>
                   (RegisterSchedulerProfileName (fs\<lparr>onlyExclusiveResources := (mode = ForeignPodsDetectOnlyExclusiveResources)\<rparr>) profileName, True)))"

text \<open>The informer's handler for every pod event.\<close>

definition foreignCache :: "ForeignSetup \<Rightarrow> OverReserve \<Rightarrow> SchedPod \<Rightarrow> OverReserve" where
  "foreignCache fs ov pod = (if \<not> IsForeignPod fs pod then ov else ov_NodeHasForeignPods ov (pod_nodeName pod))"

section \<open>Which NUMA nodes can serve a request\<close>

lemma bm_GetBits_bit: "bm_GetBits s = filter (bit s) [0..<64]"
  unfolding bm_GetBits_def bit_iff_and_push_bit_not_eq_0 [symmetric] ..

lemma bit_bm_Add: "k < 64 \<Longrightarrow> bit (bm_Add s i) k \<longleftrightarrow> bit s k \<or> k = i"
  by (auto simp: bm_Add_def bit_simps bit_1_iff)

lemma bit_bm_Fill: "k < 64 \<Longrightarrow> bit bm_Fill k"
  by (simp add: bm_Fill_def bit_simps)

lemma mask_nonzero_iff: "(s :: bitMask) \<noteq> 0 \<longleftrightarrow> (\<exists>k < 64. bit s k)"
proof
  assume "s \<noteq> 0"
  then obtain k where "bit s k" using bit_word_eqI [of s 0] by auto
  then show "\<exists>k < 64. bit s k" using bit_imp_le_length [of s k] by auto
qed auto

definition can_serve :: "PodQOSClass \<Rightarrow> NUMANode \<Rightarrow> string \<Rightarrow> Quantity \<Rightarrow> bool" where
  "can_serve qos node r q = (case map_of (numa_Resources node) r of None \<Rightarrow> False | Some nq \<Rightarrow> isResourceSetSuitable qos r q nq)"

definition has_affinity :: "NUMANode list \<Rightarrow> string \<Rightarrow> bool" where
  "has_affinity nodes r = list_ex (\<lambda>node. map_of (numa_Resources node) r \<noteq> None) nodes"

text \<open>NUMA node \<open>k\<close> does not stand in the way of the request of \<open>q\<close> units of \<open>r\<close>.\<close>

definition serves :: "PodQOSClass \<Rightarrow> NUMANode list \<Rightarrow> nat \<Rightarrow> string \<times> Quantity \<Rightarrow> bool" where
  "serves qos nodes k rq =
     (case rq of (r, q) \<Rightarrow>
        q = 0 \<or>
        \<not> has_affinity nodes r \<and> (\<not> IsNativeResource r \<or> r = ResourceEphemeralStorage) \<or>
        list_ex (\<lambda>node. numa_NUMAID node = k \<and> can_serve qos node r q) nodes)"

lemma resource_mask_spec:
  "fst (resource_mask qos nodes r q) = has_affinity nodes r"
  "k < 64 \<Longrightarrow> bit (snd (resource_mask qos nodes r q)) k \<longleftrightarrow> list_ex (\<lambda>node. numa_NUMAID node = k \<and> can_serve qos node r q) nodes"
proof -
  let ?f = "\<lambda>(aff, m) node. case map_get (numa_Resources node) r of None \<Rightarrow> (aff, m)
        | Some nq \<Rightarrow> if \<not> isResourceSetSuitable qos r q nq then (True, m) else (True, bm_Add m (numa_NUMAID node))"
  have a: "fst (foldl ?f (aff, m) nodes) = (aff \<or> has_affinity nodes r)" for aff m
    by (induction nodes arbitrary: aff m) (auto simp: has_affinity_def split: option.splits)
  have b: "bit (snd (foldl ?f (aff, m) nodes)) k \<longleftrightarrow>
      bit m k \<or> list_ex (\<lambda>node. numa_NUMAID node = k \<and> can_serve qos node r q) nodes" if "k < 64" for aff m
    using that
    by (induction nodes arbitrary: aff m) (auto simp: can_serve_def bit_bm_Add split: option.splits)
  from a [of False 0] show "fst (resource_mask qos nodes r q) = has_affinity nodes r" by (simp add: resource_mask_def)
  from b [of False 0] show "k < 64 \<Longrightarrow> bit (snd (resource_mask qos nodes r q)) k \<longleftrightarrow>
      list_ex (\<lambda>node. numa_NUMAID node = k \<and> can_serve qos node r q) nodes" by (simp add: resource_mask_def)
qed

definition servers :: "PodQOSClass \<Rightarrow> NUMANode list \<Rightarrow> ResourceList \<Rightarrow> nat set" where
  "servers qos nodes res = {k. k < 64 \<and> list_all (serves qos nodes k) res}"

definition on_node :: "ResourceList \<Rightarrow> ResourceList \<Rightarrow> bool" where
  "on_node nodeResources res = list_all (\<lambda>(r, q). q = 0 \<or> map_of nodeResources r \<noteq> None) res"

lemma on_node_simps [simp]:
  "on_node nr []" "on_node nr ((r, q) # rest) \<longleftrightarrow> (q = 0 \<or> map_of nr r \<noteq> None) \<and> on_node nr rest"
  by (simp_all add: on_node_def)

lemma align_loop_spec:
  assumes "m0 \<noteq> 0"
  shows "case align_loop qos nodes nr res m0 of
      Some m \<Rightarrow> on_node nr res \<and> m \<noteq> 0 \<and> (\<forall>k < 64. bit m k \<longleftrightarrow> bit m0 k \<and> list_all (serves qos nodes k) res)
    | None \<Rightarrow> \<not> on_node nr res \<or> (\<forall>k < 64. \<not> (bit m0 k \<and> list_all (serves qos nodes k) res))"
  using assms
proof (induction qos nodes nr res m0 rule: align_loop.induct)
  case (1 qos nodes nr m0)
  then show ?case by simp
next
  case (2 qos nodes nr r q rest m0)
  let ?m = "snd (resource_mask qos nodes r q)" and ?a = "fst (resource_mask qos nodes r q)"
  have e: "(?a, ?m) = resource_mask qos nodes r q" by simp
  consider "q = 0" | "q \<noteq> 0" "map_of nr r = None"
    | "q \<noteq> 0" "map_of nr r \<noteq> None" "\<not> ?a \<and> (\<not> IsNativeResource r \<or> r = ResourceEphemeralStorage)"
    | "q \<noteq> 0" "map_of nr r \<noteq> None" "\<not> (\<not> ?a \<and> (\<not> IsNativeResource r \<or> r = ResourceEphemeralStorage))"
    by blast
  then show ?case
  proof cases
    case 1
    then have "serves qos nodes k (r, q)" for k by (simp add: serves_def)
    with 1 "2.IH"(1) [OF 1 "2.prems"] show ?thesis by (simp split: option.splits)
  next
    case 2
    then show ?thesis by simp
  next
    case 3
    then have "serves qos nodes k (r, q)" for k by (simp add: serves_def resource_mask_spec(1))
    with 3 "2.IH"(2) [OF 3(1,2) e 3(3) "2.prems"] show ?thesis by (simp add: split_beta split: option.splits)
  next
    case 4
    then have s: "k < 64 \<Longrightarrow> serves qos nodes k (r, q) \<longleftrightarrow> bit ?m k" for k
      using resource_mask_spec [where qos = qos and nodes = nodes and r = r and q = q] by (auto simp: serves_def)
    show ?thesis
    proof (cases "m0 AND ?m = 0")
      case True
      then have "k < 64 \<Longrightarrow> \<not> (bit m0 k \<and> bit ?m k)" for k by (metis bit_and_iff bit_0_eq bot_apply bot_bool_def)
      then show ?thesis using 4 True s by (auto simp: split_beta)
    next
      case False
      with "2.IH"(3) [OF 4(1,2) e 4(3) refl False] False 4 show ?thesis
        by (auto simp: split_beta Let_def s bit_simps split: option.splits)
    qed
  qed
qed

lemma numa_verdict:
  "resourcesAvailableInAnyNUMANodes nodes l qos allocatable =
     (if on_node (ResourceList_of allocatable) l \<and> servers qos nodes l \<noteq> {}
      then (Min (servers qos nodes l), True) else (8, False))"
proof (cases "align_loop qos nodes (ResourceList_of allocatable) l bm_Fill")
  case None
  have "bm_Fill \<noteq> 0" using bit_bm_Fill [of 0] by auto
  from align_loop_spec [OF this, where qos = qos and nodes = nodes and nr = "ResourceList_of allocatable" and res = l] None have "\<not> (on_node (ResourceList_of allocatable) l \<and> servers qos nodes l \<noteq> {})"
    by (auto simp: servers_def bit_bm_Fill)
  with None show ?thesis by (simp add: resourcesAvailableInAnyNUMANodes_def highestNUMAID_def)
next
  case (Some m)
  have "bm_Fill \<noteq> 0" using bit_bm_Fill [of 0] by auto
  from align_loop_spec [OF this, where qos = qos and nodes = nodes and nr = "ResourceList_of allocatable" and res = l] Some
  have m: "on_node (ResourceList_of allocatable) l" "m \<noteq> 0" "{k. k < 64 \<and> bit m k} = servers qos nodes l"
    by (auto simp: servers_def bit_bm_Fill)
  have "filter (bit m) [0..<64] = sorted_list_of_set (servers qos nodes l)"
    unfolding m(3) [symmetric] by (rule sorted_distinct_set_unique) (auto intro: sorted_wrt_filter [OF sorted_upt])
  moreover have "servers qos nodes l \<noteq> {}" using m(2) mask_nonzero_iff [of m] by (auto simp: m(3) [symmetric])
  moreover have "finite (servers qos nodes l)" by (simp add: servers_def)
  ultimately show ?thesis
    using Some m by (simp add: resourcesAvailableInAnyNUMANodes_def bm_GetBits_bit sorted_list_of_set_nonempty)
qed

text \<open>
  C17. The NUMA availability check, for any order in which the requested resources are visited: it
  succeeds exactly when every requested resource (zero quantities aside) exists on the node and some
  NUMA node serves all of them at once, where a resource without NUMA affinity is served everywhere
  if it is non-native or ephemeral storage; it then names the lowest such NUMA node, the one the
  kubelet picks. On failure it returns 8.
\<close>

theorem numa_alignment_verdict:
  "resourcesAvailableInAnyNUMANodes nodes res qos allocatable =
     (if on_node (ResourceList_of allocatable) res \<and> servers qos nodes res \<noteq> {}
      then (Min (servers qos nodes res), True) else (8, False)) \<and>
   (\<forall>res'. mset res' = mset res \<longrightarrow>
      resourcesAvailableInAnyNUMANodes nodes res' qos allocatable = resourcesAvailableInAnyNUMANodes nodes res qos allocatable)"
proof (intro conjI allI impI)
  show "resourcesAvailableInAnyNUMANodes nodes res qos allocatable =
     (if on_node (ResourceList_of allocatable) res \<and> servers qos nodes res \<noteq> {}
      then (Min (servers qos nodes res), True) else (8, False))"
    by (rule numa_verdict)
  fix res' assume "mset res' = mset res"
  then have "set res' = set res" by (rule mset_eq_setD)
  then show "resourcesAvailableInAnyNUMANodes nodes res' qos allocatable = resourcesAvailableInAnyNUMANodes nodes res qos allocatable"
    unfolding numa_verdict by (simp add: on_node_def servers_def list_all_iff)
qed

definition demo_numa :: "Quantity \<Rightarrow> Quantity \<Rightarrow> NrtZone list" where
  "demo_numa a b = map (\<lambda>(name, avail). \<lparr>z_Name = name, z_Type = ''Node'', z_Costs = [],
     z_Resources = [\<lparr>ri_Name = ResourceCPU, ri_Capacity = 8, ri_Allocatable = 8, ri_Available = avail\<rparr>]\<rparr>) [(''node-0'', a), (''node-1'', b)]"

definition demo_alloc :: Resource where
  "demo_alloc = \<lparr>MilliCPU = 8000, Memory = 0, EphemeralStorage = 100, AllowedPodNumber = 10, ScalarResources = [(''a.b/dev'', 5)]\<rparr>"

theorem numa_alignment_verdict_witness:
  "resourcesAvailableInAnyNUMANodes (createNUMANodeList (demo_numa 1 4)) [(''a.b/dev'', 1), (ResourceCPU, 3)] PodQOSGuaranteed demo_alloc = (1, True) \<and>
   resourcesAvailableInAnyNUMANodes (createNUMANodeList (demo_numa 1 4)) [(ResourceCPU, 3), (''a.b/dev'', 1)] PodQOSGuaranteed demo_alloc = (1, True)"
proof -
  have "resourcesAvailableInAnyNUMANodes (createNUMANodeList (demo_numa 1 4)) [(''a.b/dev'', 1), (ResourceCPU, 3)] PodQOSGuaranteed demo_alloc = (1, True)"
    by code_simp
  moreover have "mset [(ResourceCPU, 3 :: Quantity), (''a.b/dev'', 1)] = mset [(''a.b/dev'', 1), (ResourceCPU, 3)]" by simp
  note numa_alignment_verdict [THEN conjunct2, rule_format, OF this]
  ultimately show ?thesis by simp
qed

section \<open>No NUMA node is overcommitted\<close>

text \<open>Resources whose amount is compared: all for a guaranteed pod, otherwise not CPU, memory and huge pages.\<close>

definition compared :: "PodQOSClass \<Rightarrow> string \<Rightarrow> bool" where
  "compared qos r \<longleftrightarrow> qos = PodQOSGuaranteed \<or> \<not> (r = ResourceMemory \<or> IsHugePageResourceName r \<or> r = ResourceCPU)"

definition wf_requests :: "Container list \<Rightarrow> bool" where
  "wf_requests cs \<longleftrightarrow> list_all (\<lambda>c. wf_map (ctr_requests c) \<and> rl_nonneg (ctr_requests c)) cs"

text \<open>What the containers placed on NUMA node \<open>k\<close> request of \<open>r\<close>.\<close>

definition placed_on :: "nat \<Rightarrow> string \<Rightarrow> nat list \<Rightarrow> Container list \<Rightarrow> Quantity" where
  "placed_on k r ids cs = (\<Sum>(i, c) \<leftarrow> zip ids cs. if i = k then map_getd 0 (ctr_requests c) r else 0)"

lemma map_of_subtract_request:
  assumes "wf_map requests"
  shows "map_of (subtract_request nRes requests) r =
    (case map_of requests r of None \<Rightarrow> map_of nRes r | Some q \<Rightarrow> Some (map_getd 0 nRes r - q))"
  using assms unfolding subtract_request_def
proof (induction requests arbitrary: nRes)
  case (Cons e es)
  obtain n q where e: "e = (n, q)" by (cases e)
  from Cons.prems have es: "wf_map es" "map_of es n = None"
    by (auto dest: wf_map_ConsD simp: e map_of_absent)
  show ?case using es by (auto simp: e Cons.IH map_of_set map_getd_set split: option.splits)
qed simp

lemma can_serve_compared:
  "compared qos r \<Longrightarrow> can_serve qos node r q \<longleftrightarrow> (\<exists>a. map_of (numa_Resources node) r = Some a \<and> q \<le> a)"
  by (auto simp: can_serve_def isResourceSetSuitable_def compared_def split: option.splits)

lemma chosen_node_fits:
  assumes "resourcesAvailableInAnyNUMANodes nodes (ctr_requests c) qos alloc = (k, True)"
    and "distinct (map numa_NUMAID nodes)" and "node \<in> set nodes" and "numa_NUMAID node = k" and "compared qos r"
    and "map_of (numa_Resources node) r = Some a" and "map_of (ctr_requests c) r = Some q" and "q \<noteq> 0"
  shows "q \<le> a"
proof -
  have "k = Min (servers qos nodes (ctr_requests c))" "servers qos nodes (ctr_requests c) \<noteq> {}"
    "finite (servers qos nodes (ctr_requests c))"
    using numa_verdict [of nodes "ctr_requests c" qos alloc] assms(1) by (auto simp: servers_def split: if_splits)
  then have "k \<in> servers qos nodes (ctr_requests c)" using Min_in by blast
  then have "serves qos nodes k (r, q)" using assms(7) by (auto simp: servers_def list_all_iff dest: map_of_SomeD)
  moreover have "has_affinity nodes r" using assms(3,6) by (auto simp: has_affinity_def list_ex_iff)
  ultimately obtain node' where n': "node' \<in> set nodes" "numa_NUMAID node' = k" "can_serve qos node' r q"
    using assms(8) by (auto simp: serves_def list_ex_iff)
  moreover have "node' = node" using assms(2-4) n' by (metis distinct_map inj_onD)
  ultimately show ?thesis using assms(5,6) can_serve_compared by force
qed

lemma align_containers_placement:
  assumes "align_containers qos alloc nodes cs" and "distinct (map numa_NUMAID nodes)" and "wf_requests cs"
  shows "\<exists>ids. length ids = length cs \<and>
    (\<forall>node \<in> set nodes. \<forall>r a. compared qos r \<longrightarrow> map_of (numa_Resources node) r = Some a \<longrightarrow> 0 \<le> a \<longrightarrow>
       placed_on (numa_NUMAID node) r ids cs \<le> a)"
  using assms
proof (induction qos alloc nodes cs rule: align_containers.induct)
  case (1 qos alloc nodes)
  then show ?case by (simp add: placed_on_def)
next
  case (2 qos alloc nodes c cs)
  obtain k where k: "resourcesAvailableInAnyNUMANodes nodes (ctr_requests c) qos alloc = (k, True)"
    using "2.prems"(1) by (auto split: prod.splits if_splits)
  let ?nodes = "subtractFromNUMA nodes k c"
  have wfc: "wf_map (ctr_requests c)" "rl_nonneg (ctr_requests c)" "wf_requests cs"
    using "2.prems"(3) by (simp_all add: wf_requests_def)
  have "map numa_NUMAID ?nodes = map numa_NUMAID nodes" by (simp add: subtractFromNUMA_def)
  then obtain ids where ids: "length ids = length cs"
    "\<forall>node \<in> set ?nodes. \<forall>r a. compared qos r \<longrightarrow> map_of (numa_Resources node) r = Some a \<longrightarrow> 0 \<le> a \<longrightarrow>
       placed_on (numa_NUMAID node) r ids cs \<le> a"
    using "2.IH" [OF k [symmetric]] "2.prems" k wfc(3) by auto
  have "placed_on (numa_NUMAID node) r (k # ids) (c # cs) \<le> a"
    if n: "node \<in> set nodes" and r: "compared qos r" and a: "map_of (numa_Resources node) r = Some a" "0 \<le> a" for node r a
  proof (cases "numa_NUMAID node = k")
    case False
    then have "node \<in> set ?nodes" using n by (force simp: subtractFromNUMA_def)
    with ids(2) r a False show ?thesis by (simp add: placed_on_def)
  next
    case True
    let ?q = "map_getd 0 (ctr_requests c) r"
    let ?node = "node\<lparr>numa_Resources := subtract_request (numa_Resources node) (ctr_requests c)\<rparr>"
    have in_nodes: "?node \<in> set ?nodes" using n True by (force simp: subtractFromNUMA_def)
    have left: "map_of (numa_Resources ?node) r = Some (a - ?q)"
      using a by (auto simp: map_of_subtract_request [OF wfc(1)] map_getd_def split: option.splits)
    have "?q \<le> a"
      using chosen_node_fits [OF k "2.prems"(2) n True r a(1)] a(2) by (auto simp: map_getd_def split: option.splits)
    with ids(2) in_nodes left r have "placed_on (numa_NUMAID ?node) r ids cs \<le> a - ?q" by auto
    then show ?thesis using True by (simp add: placed_on_def)
  qed
  with ids(1) show ?case by (intro exI [of _ "k # ids"]) auto
qed

definition single_numa_container :: "NodeResourceTopology \<Rightarrow> bool" where
  "single_numa_container nrt \<longleftrightarrow>
     topologyManagerConfigFromNodeResourceTopology nrt =
       \<lparr>tmc_Scope = ContainerTopologyManagerScope, tmc_Policy = SingleNumaNodeTopologyManagerPolicy\<rparr>"

lemma TM_Filter_placement:
  assumes "TM_Filter cache pod ni = (None, cache')" and "cache_Get cache (ni_name ni) = (Some nrt, True)"
    and "single_numa_container nrt" and "GetPodQOS pod \<noteq> PodQOSBestEffort \<or> IncludeNonNative pod"
    and "distinct (map numa_NUMAID (createNUMANodeList (nrt_Zones nrt)))" and "wf_requests (pod_containers pod)"
  shows "\<exists>ids. length ids = length (pod_containers pod) \<and>
    (\<forall>node \<in> set (createNUMANodeList (nrt_Zones nrt)). \<forall>r a. compared (GetPodQOS pod) r \<longrightarrow>
       map_of (numa_Resources node) r = Some a \<longrightarrow> 0 \<le> a \<longrightarrow> placed_on (numa_NUMAID node) r ids (pod_containers pod) \<le> a)"
proof -
  have "singleNUMAContainerLevelHandler pod (nrt_Zones nrt) (ni_allocatable ni) = None"
    using assms(1-4)
    by (auto simp: TM_Filter_def filterHandlerFromTopologyManagerConfig_def single_numa_container_def Let_def scope_policy_defs
        split: if_splits)
  then have "align_containers (GetPodQOS pod) (ni_allocatable ni) (createNUMANodeList (nrt_Zones nrt)) (pod_containers pod)"
    by (auto simp: singleNUMAContainerLevelHandler_def Let_def split: if_splits)
  from align_containers_placement [OF this assms(5,6)] show ?thesis .
qed

section \<open>Filter and cache together\<close>

text \<open>The NUMA nodes of a report from which amounts are deducted.\<close>

definition reduce_rl :: "(string \<Rightarrow> Quantity) \<Rightarrow> ResourceList \<Rightarrow> ResourceList" where
  "reduce_rl t rl = map (\<lambda>(k, v). (k, max 0 (v - t k))) rl"

abbreviation reduce_zone :: "(string \<Rightarrow> Quantity) \<Rightarrow> NrtZone \<Rightarrow> NrtZone" where
  "reduce_zone t z \<equiv> z\<lparr>z_Resources := map (reduce t) (z_Resources z)\<rparr>"

abbreviation reduce_numa :: "(string \<Rightarrow> Quantity) \<Rightarrow> NUMANode \<Rightarrow> NUMANode" where
  "reduce_numa t node \<equiv> node\<lparr>numa_Resources := reduce_rl t (numa_Resources node)\<rparr>"

lemma reduce_rl_set: "reduce_rl t (map_set k v m) = map_set k (max 0 (v - t k)) (reduce_rl t m)"
  by (induction m) (auto simp: reduce_rl_def)

lemma map_of_reduce_rl: "map_of (reduce_rl t m) k = map_option (\<lambda>v. max 0 (v - t k)) (map_of m k)"
  by (induction m) (auto simp: reduce_rl_def)

lemma extractResources_reduce: "extractResources (reduce_zone t z) = reduce_rl t (extractResources z)"
proof -
  have "foldl (\<lambda>res ri. map_set (ri_Name ri) (ri_Available ri) res) (reduce_rl t m) (map (reduce t) ris) =
      reduce_rl t (foldl (\<lambda>res ri. map_set (ri_Name ri) (ri_Available ri) res) m ris)" for m ris
    by (induction ris arbitrary: m) (simp_all flip: reduce_rl_set)
  from this [of "[]"] show ?thesis by (simp add: extractResources_def reduce_rl_def)
qed

lemma collect_zone_reduce:
  "collect_zone (idx, map (reduce_numa t) nodes) (i, reduce_zone t z) =
     map_prod id (map (reduce_numa t)) (collect_zone (idx, nodes) (i, z))"
  by (auto simp: collect_zone_def extractResources_reduce split: option.splits)

lemma foldl_collect_reduce:
  "foldl collect_zone (idx, map (reduce_numa t) nodes) (enumerate n (map (reduce_zone t) zones)) =
     map_prod id (map (reduce_numa t)) (foldl collect_zone (idx, nodes) (enumerate n zones))"
proof (induction zones arbitrary: idx nodes n)
  case (Cons z zones)
  obtain idx' nodes' where c: "collect_zone (idx, nodes) (n, z) = (idx', nodes')" by fastforce
  then have "collect_zone (idx, map (reduce_numa t) nodes) (n, reduce_zone t z) = (idx', map (reduce_numa t) nodes')"
    by (simp only: collect_zone_reduce map_prod_simp id_apply)
  with c Cons.IH [of idx' nodes' "Suc n"] show ?case by simp
qed simp

lemma collect_idx_bound:
  "(\<forall>i \<in> set idx. i < N) \<Longrightarrow> n + length zones \<le> N \<Longrightarrow>
   \<forall>i \<in> set (fst (foldl collect_zone (idx, nodes) (enumerate n zones))). i < N"
proof (induction zones arbitrary: idx nodes n)
  case (Cons z zones)
  obtain idx' nodes' where c: "collect_zone (idx, nodes) (n, z) = (idx', nodes')" by fastforce
  then have "\<forall>i \<in> set idx'. i < N"
    using Cons.prems by (auto simp: collect_zone_def split: if_splits option.splits dest!: set_update_subset_insert [THEN subsetD])
  with c Cons.IH [of idx' "Suc n" nodes'] Cons.prems show ?case by simp
qed simp

lemma collect_ids: "length idx = 64 \<Longrightarrow> (\<forall>node \<in> set nodes. numa_NUMAID node < 64) \<Longrightarrow>
  length (fst (foldl collect_zone (idx, nodes) (enumerate n zones))) = 64 \<and>
  (\<forall>node \<in> set (snd (foldl collect_zone (idx, nodes) (enumerate n zones))). numa_NUMAID node < 64)"
proof (induction zones arbitrary: idx nodes n)
  case (Cons z zones)
  obtain idx' nodes' where c: "collect_zone (idx, nodes) (n, z) = (idx', nodes')" by fastforce
  have id: "getID s = Some i \<Longrightarrow> i < 64" for s i
    by (auto simp: getID_def maxNUMAId_def split: list.splits option.splits if_splits)
  from c have "length idx' = 64" "\<forall>node \<in> set nodes'. numa_NUMAID node < 64"
    using Cons.prems id by (auto simp: collect_zone_def split: if_splits option.splits)
  with c Cons.IH [of idx' nodes' "Suc n"] show ?case by simp
qed simp

lemma createNUMANodeList_reduce:
  "createNUMANodeList (map (reduce_zone t) zones) = map (reduce_numa t) (createNUMANodeList zones)"
proof (cases zones)
  case Nil
  then show ?thesis by (simp add: createNUMANodeList_def)
next
  case (Cons z0 zs)
  let ?p = "foldl collect_zone (replicate maxNUMAId 0, []) (enumerate 0 zones)"
  have e: "foldl collect_zone (replicate maxNUMAId 0, []) (enumerate 0 (map (reduce_zone t) zones)) =
      map_prod id (map (reduce_numa t)) ?p"
    using foldl_collect_reduce [of "replicate maxNUMAId 0" t "[]" 0 zones] by simp
  have b: "\<forall>i \<in> set (fst ?p). i < length zones" using Cons by (intro collect_idx_bound) simp_all
  have l: "length (fst ?p) = 64" "\<forall>node \<in> set (snd ?p). numa_NUMAID node < 64"
    using collect_ids [of "replicate maxNUMAId 0" "[]" 0 zones] by (simp_all add: maxNUMAId_def)
  show ?thesis
    unfolding createNUMANodeList_def e using b l by (auto simp: split_beta)
qed

section \<open>A resource without NUMA affinity requested twice\<close>

text \<open>
  The container filter rejects pods it should admit: when two consecutive app containers each
  request some of a resource that no NUMA node reports (a device or ephemeral storage that is only
  accounted at node level), the subtraction for the first one enters a negative amount of that
  resource into the chosen NUMA node, and the second one then fits nowhere, whatever the node has.
\<close>

theorem second_non_numa_request_rejected:
  assumes "resourcesAvailableInAnyNUMANodes nodes (ctr_requests c1) qos alloc = (k, True)" and "k \<in> numa_NUMAID ` set nodes"
    and "\<not> has_affinity nodes r" and "compared qos r" and "wf_map (ctr_requests c1)"
    and "map_of (ctr_requests c1) r = Some q1" and "0 < q1" and "map_of (ctr_requests c2) r = Some q2" and "0 < q2"
  shows "\<not> align_containers qos alloc nodes (c1 # c2 # cs)"
proof -
  let ?nodes = "subtractFromNUMA nodes k c1"
  have none: "map_of (numa_Resources node) r = None" if "node \<in> set nodes" for node
    using assms(3) that by (auto simp: has_affinity_def list_ex_iff)
  have res: "map_of (numa_Resources node) r = (if numa_NUMAID node = k then Some (- q1) else None)" if "node \<in> set ?nodes" for node
    using that none assms(5,6) by (auto simp: subtractFromNUMA_def map_of_subtract_request map_getd_def)
  have "map numa_NUMAID ?nodes = map numa_NUMAID nodes" by (simp add: subtractFromNUMA_def)
  then have "k \<in> numa_NUMAID ` set ?nodes" using assms(2) by (metis list.set_map)
  then obtain node where "node \<in> set ?nodes" "numa_NUMAID node = k" by auto
  with res have "has_affinity ?nodes r" by (auto simp: has_affinity_def list_ex_iff)
  moreover have "\<not> can_serve qos node r q2" if "node \<in> set ?nodes" for node
    using res [OF that] assms(4,7,9) by (simp add: can_serve_compared)
  ultimately have "\<not> serves qos ?nodes i (r, q2)" for i using assms(9) by (auto simp: serves_def list_ex_iff)
  then have "servers qos ?nodes (ctr_requests c2) = {}"
    using assms(8) by (auto simp: servers_def list_all_iff dest!: map_of_SomeD)
  then have "\<not> snd (resourcesAvailableInAnyNUMANodes ?nodes (ctr_requests c2) qos alloc)" by (simp add: numa_verdict)
  with assms(1) show ?thesis by (simp add: split_beta)
qed

definition demo_dev_container :: Container where
  "demo_dev_container = \<lparr>ctr_requests = [(ResourceCPU, 1), (''a.b/dev'', 1)], ctr_limits = []\<rparr>"

theorem second_non_numa_request_rejected_witness:
  "\<not> align_containers PodQOSBurstable demo_alloc (createNUMANodeList (demo_numa 4 4)) [demo_dev_container, demo_dev_container]"
proof (rule second_non_numa_request_rejected)
  let ?n = "createNUMANodeList (demo_numa 4 4)"
  show "resourcesAvailableInAnyNUMANodes ?n (ctr_requests demo_dev_container) PodQOSBurstable demo_alloc = (0, True)"
    "0 \<in> numa_NUMAID ` set ?n" "\<not> has_affinity ?n ''a.b/dev''" "compared PodQOSBurstable ''a.b/dev''"
    "wf_map (ctr_requests demo_dev_container)" "map_of (ctr_requests demo_dev_container) ''a.b/dev'' = Some 1"
    "map_of (ctr_requests demo_dev_container) ''a.b/dev'' = Some 1"
    by code_simp+
qed simp_all

end
