(* ===== verification/NrtScore.thy ===== *)
theory NrtScore
  imports NrtFilter ScoreNorm GoFloat
begin

text \<open>
  Scoring in \<open>pkg/noderesourcetopology\<close> (\<open>score.go\<close>, \<open>least_numa.go\<close>, the three allocation strategies and
  \<open>subtractFromNUMAs\<close> of \<open>plugin.go\<close>): the strategies per NUMA node, and the number of NUMA nodes
  a pod needs. \<^const>\<open>None\<close> is a panic (an index out of range or a division by zero).

  Results: the search for NUMA nodes finds a combination of least size that serves the request; a pod
  that needs fewer NUMA nodes on one machine than on another scores higher there, within the
  framework's range up to eight NUMA nodes; the allocation strategies stay within the range.

  \<open>stat.Variance\<close> of gonum is an argument. \<open>stat.Mean\<close> is written out; its sum is of integers far below
  \<open>2\<^sup>5\<^sup>3\<close> here and so exact in every order.
\<close>

section \<open>Allocation strategies\<close>

definition defaultWeight :: int64 where "defaultWeight = 1"

definition rw_weight :: "(string, int64) gomap \<Rightarrow> string \<Rightarrow> int64" where
  "rw_weight rw r =
     (case map_get rw r of
        None \<Rightarrow> defaultWeight
      | Some w \<Rightarrow> if slt w 1 then defaultWeight else w)"

definition leastAllocatedScore :: "Quantity \<Rightarrow> Quantity \<Rightarrow> int64" where
  "leastAllocatedScore requested numaCapacity =
     (if numaCapacity = 0 then 0
      else if requested > numaCapacity then 0
      else (let numaValue = Quantity_Value numaCapacity; requestedValue = Quantity_Value requested
            in sdiv64 ((numaValue - requestedValue) * MaxNodeScore) (Quantity_Value numaCapacity)))"

definition mostAllocatedScore :: "Quantity \<Rightarrow> Quantity \<Rightarrow> int64" where
  "mostAllocatedScore requested numaCapacity =
     (if numaCapacity = 0 then 0
      else if requested > numaCapacity then 0
      else sdiv64 (Quantity_Value requested * MaxNodeScore) (Quantity_Value numaCapacity))"

text \<open>The loop that both strategies share; the division panics on an empty request.\<close>

definition allocated_strategy ::
  "(Quantity \<Rightarrow> Quantity \<Rightarrow> int64) \<Rightarrow> ResourceList \<Rightarrow> ResourceList \<Rightarrow> (string, int64) gomap \<Rightarrow> int64 option" where
  "allocated_strategy score requested allocatable weights =
     (let (numaNodeScore, weightSum) =
            foldl (\<lambda>(numaNodeScore, weightSum) (resourceName, _).
                     let resourceScore = score (map_getd 0 requested resourceName) (map_getd 0 allocatable resourceName);
                         weight = rw_weight weights resourceName
                     in (numaNodeScore + resourceScore * weight, weightSum + weight)) (0, 0) requested
      in if weightSum = 0 then None else Some (sdiv64 numaNodeScore weightSum))"

definition leastAllocatedScoreStrategy :: "ResourceList \<Rightarrow> ResourceList \<Rightarrow> (string, int64) gomap \<Rightarrow> int64 option" where
  "leastAllocatedScoreStrategy = allocated_strategy leastAllocatedScore"

definition mostAllocatedScoreStrategy :: "ResourceList \<Rightarrow> ResourceList \<Rightarrow> (string, int64) gomap \<Rightarrow> int64 option" where
  "mostAllocatedScoreStrategy = allocated_strategy mostAllocatedScore"

definition fractionOfCapacity :: "Quantity \<Rightarrow> Quantity \<Rightarrow> gofloat" where
  "fractionOfCapacity requested capacity =
     (if Quantity_Value capacity = 0 then Fin 1
      else f_div binary64 (f_of_int binary64 (sint (Quantity_Value requested))) (f_of_int binary64 (sint (Quantity_Value capacity))))"

definition balancedAllocationScoreStrategy ::
  "(gofloat list \<Rightarrow> gofloat) \<Rightarrow> ResourceList \<Rightarrow> ResourceList \<Rightarrow> (string, int64) gomap \<Rightarrow> int64 option" where
  "balancedAllocationScoreStrategy variance requested allocatable weights =
     (let resourceFractions = map (\<lambda>(resourceName, _). fractionOfCapacity (map_getd 0 requested resourceName)
            (map_getd 0 allocatable resourceName)) requested
      in if list_ex (\<lambda>resourceFraction. f_lt (Fin 1) resourceFraction) resourceFractions then Some 0
         else Some (f_to_int64 (f_mul binary64 (f_sub binary64 (Fin 1) (variance resourceFractions))
                (f_of_int binary64 (sint MaxNodeScore)))))"

section \<open>Scores over NUMA nodes\<close>

type_synonym scoreStrategyFn = "ResourceList \<Rightarrow> ResourceList \<Rightarrow> (string, int64) gomap \<Rightarrow> int64 option"

definition getScoringStrategyFunction :: "(gofloat list \<Rightarrow> gofloat) \<Rightarrow> ScoringStrategyType \<Rightarrow> string + scoreStrategyFn option" where
  "getScoringStrategyFunction variance strategy =
     (case strategy of
        MostAllocated \<Rightarrow> Inr (Some mostAllocatedScoreStrategy)
      | LeastAllocated \<Rightarrow> Inr (Some leastAllocatedScoreStrategy)
      | BalancedAllocation \<Rightarrow> Inr (Some (balancedAllocationScoreStrategy variance))
      | LeastNUMANodes \<Rightarrow> Inr None
      | OtherStrategy _ \<Rightarrow> Inl ''illegal scoring strategy found'')"

text \<open>The score of each NUMA node is also stored at the index of its ID, which panics out of range.\<close>

definition scoreForEachNUMANode ::
  "ResourceList \<Rightarrow> NUMANode list \<Rightarrow> scoreStrategyFn \<Rightarrow> (string, int64) gomap \<Rightarrow> int64 option" where
  "scoreForEachNUMANode requested numaList score weights =
     foldM (\<lambda>minScore numa.
        case score requested (numa_Resources numa) weights of
          None \<Rightarrow> None
        | Some numaScore \<Rightarrow>
            if \<not> numa_NUMAID numa < length numaList then None
            else Some (if minScore = 0 \<or> (numaScore \<noteq> 0 \<and> slt numaScore minScore) then numaScore else minScore)) 0 numaList"

definition podScopeScore :: "Pod \<Rightarrow> NrtZone list \<Rightarrow> scoreStrategyFn \<Rightarrow> (string, int64) gomap \<Rightarrow> int64 option" where
  "podScopeScore pod zones scorerFn weights =
     scoreForEachNUMANode (GetPodEffectiveRequest pod) (createNUMANodeList zones) scorerFn weights"

definition stat_Mean :: "gofloat list \<Rightarrow> gofloat" where
  "stat_Mean xs = f_div binary64 (foldl (f_add binary64) (Fin 0) xs) (f_of_int binary64 (int (length xs)))"

definition containerScopeScore :: "Pod \<Rightarrow> NrtZone list \<Rightarrow> scoreStrategyFn \<Rightarrow> (string, int64) gomap \<Rightarrow> int64 option" where
  "containerScopeScore pod zones scorerFn weights =
     (let containers = pod_initContainers pod @ pod_containers pod; allocatablePerNUMA = createNUMANodeList zones
      in map_option (\<lambda>contScore. f_to_int64 (stat_Mean contScore))
           (foldM (\<lambda>contScore container.
              map_option (\<lambda>s. contScore @ [f_of_int binary64 (sint s)])
                (scoreForEachNUMANode (ctr_requests container) allocatablePerNUMA scorerFn weights)) [] containers))"

section \<open>How many NUMA nodes a request needs\<close>

definition maxDistanceValue :: int64 where "maxDistanceValue = 255"

text \<open>\<open>combin.Combinations\<close>: the index lists of a size, in lexicographic order.\<close>

fun combs :: "'a list \<Rightarrow> nat \<Rightarrow> 'a list list" where
  "combs xs 0 = [[]]"
| "combs [] (Suc k) = []"
| "combs (x # xs) (Suc k) = map ((#) x) (combs xs k) @ combs xs (Suc k)"

definition nodesAvgDistance :: "NUMANode list \<Rightarrow> nat list \<Rightarrow> gofloat" where
  "nodesAvgDistance numaNodes nodes =
     (if length nodes = 0 then f_of_int binary32 (sint maxDistanceValue)
      else (let accu = foldl (\<lambda>accu node1. foldl (\<lambda>accu node2.
                    accu + (case map_get (numa_Costs (numaNodes ! node1)) (numa_NUMAID (numaNodes ! node2)) of
                              None \<Rightarrow> maxDistanceValue
                            | Some cost \<Rightarrow> cost)) accu nodes) 0 nodes
            in f_div binary32 (f_of_int binary32 (sint accu)) (f_of_int binary32 (int (length nodes * length nodes)))))"

definition minAvgDistanceInCombinations :: "NUMANode list \<Rightarrow> nat list list \<Rightarrow> gofloat" where
  "minAvgDistanceInCombinations numaNodes numaNodesCombination =
     foldl (\<lambda>minDistance combination.
        let avgDistance = nodesAvgDistance numaNodes combination
        in if f_lt avgDistance minDistance then avgDistance else minDistance)
       (f_of_int binary32 (sint maxDistanceValue)) numaNodesCombination"

definition combine_entry :: "ResourceList \<Rightarrow> string \<times> Quantity \<Rightarrow> ResourceList" where
  "combine_entry resources e =
     (case e of (resource, quantity) \<Rightarrow>
        case map_get resources resource of
          Some value \<Rightarrow> map_set resource (value + quantity) resources
        | None \<Rightarrow> map_set resource quantity resources)"

definition combineResources :: "NUMANode list \<Rightarrow> nat list \<Rightarrow> ResourceList" where
  "combineResources numaNodes combination =
     foldl (\<lambda>resources nodeIndex. foldl combine_entry resources (numa_Resources (numaNodes ! nodeIndex))) [] combination"

definition checkResourcesFit :: "PodQOSClass \<Rightarrow> ResourceList \<Rightarrow> ResourceList \<Rightarrow> bool" where
  "checkResourcesFit qos resources combinationResources =
     list_all (\<lambda>(resource, quantity). quantity = 0 \<or>
        isResourceSetSuitable qos resource quantity (map_getd 0 combinationResources resource)) resources"

definition isValidCombineResources :: "NUMANode list \<Rightarrow> ResourceList \<Rightarrow> nat list \<Rightarrow> bool" where
  "isValidCombineResources numaNodes resources combination =
     list_all (\<lambda>nodeIndex. list_all (\<lambda>(resourceName, _).
        map_get (numa_Resources (numaNodes ! nodeIndex)) resourceName \<noteq> None) resources) combination"

text \<open>The loop of \<open>findSuitableCombination\<close>; the result is nil until a combination fits.\<close>

fun suitable_loop ::
  "PodQOSClass \<Rightarrow> NUMANode list \<Rightarrow> ResourceList \<Rightarrow> gofloat \<Rightarrow> nat list option \<times> gofloat \<Rightarrow> nat list list \<Rightarrow> nat list option \<times> bool" where
  "suitable_loop qos numaNodes resources minAvgDistance (best, minDistance) [] = (best, False)"
| "suitable_loop qos numaNodes resources minAvgDistance (best, minDistance) (combination # rest) =
     (if \<not> isValidCombineResources numaNodes resources combination \<or>
         \<not> checkResourcesFit qos resources (combineResources numaNodes combination)
      then suitable_loop qos numaNodes resources minAvgDistance (best, minDistance) rest
      else (let distance = nodesAvgDistance numaNodes combination
            in if f_eq distance minAvgDistance then (Some combination, True)
               else suitable_loop qos numaNodes resources minAvgDistance
                      (if f_lt distance minDistance then (Some combination, distance) else (best, minDistance)) rest))"

definition findSuitableCombination ::
  "PodQOSClass \<Rightarrow> NUMANode list \<Rightarrow> ResourceList \<Rightarrow> nat list list \<Rightarrow> nat list option \<times> bool" where
  "findSuitableCombination qos numaNodes resources numaNodesCombination =
     suitable_loop qos numaNodes resources (minAvgDistanceInCombinations numaNodes numaNodesCombination)
       (None, f_of_int binary32 256) numaNodesCombination"

fun required_loop :: "PodQOSClass \<Rightarrow> NUMANode list \<Rightarrow> ResourceList \<Rightarrow> nat list \<Rightarrow> (bitMask \<times> bool) option" where
  "required_loop qos numaNodes resources [] = None"
| "required_loop qos numaNodes resources (bitmaskLen # rest) =
     (case findSuitableCombination qos numaNodes resources (combs [0..<length numaNodes] bitmaskLen) of
        (Some suitableCombination, isMinDistance) \<Rightarrow>
          Some (foldl (\<lambda>bm nodeIdx. bm_Add bm (numa_NUMAID (numaNodes ! nodeIdx))) 0 suitableCombination, isMinDistance)
      | (None, _) \<Rightarrow> required_loop qos numaNodes resources rest)"

definition numaNodesRequired :: "PodQOSClass \<Rightarrow> NUMANode list \<Rightarrow> ResourceList \<Rightarrow> (bitMask \<times> bool) option" where
  "numaNodesRequired qos numaNodes resources = required_loop qos numaNodes resources [1..<Suc (length numaNodes)]"

section \<open>The least-NUMA score\<close>

definition bm_Count :: "bitMask \<Rightarrow> nat" where
  "bm_Count s = length (bm_GetBits s)"

definition normalizeScore :: "nat \<Rightarrow> bool \<Rightarrow> int64" where
  "normalizeScore numaNodesCount isMinAvgDistance =
     (let numaNodeScore = sdiv64 MaxNodeScore (of_nat highestNUMAID);
          score = MaxNodeScore - of_nat numaNodesCount * numaNodeScore
      in if isMinAvgDistance then score + sdiv64 numaNodeScore 2 else score)"

text \<open>\<open>subtractFromNUMAs\<close>: the given nodes are indices into the list.\<close>

fun subtract_over :: "string \<Rightarrow> Quantity \<Rightarrow> NUMANode list \<Rightarrow> nat list \<Rightarrow> NUMANode list option" where
  "subtract_over resName quantity numaNodes [] = Some numaNodes"
| "subtract_over resName quantity numaNodes (node # nodes) =
     (if quantity = 0 then Some numaNodes
      else if \<not> node < length numaNodes then None
      else (let nRes = numa_Resources (numaNodes ! node);
                put = (\<lambda>v. numaNodes[node := (numaNodes ! node)\<lparr>numa_Resources := map_set resName v nRes\<rparr>])
            in case map_get nRes resName of
                 None \<Rightarrow> subtract_over resName quantity numaNodes nodes
               | Some available \<Rightarrow>
                   if quantity = available then subtract_over resName (quantity - available) (put 0) nodes
                   else if quantity > available then subtract_over resName (quantity - available) (put 0) nodes
                   else subtract_over resName 0 (put (available - quantity)) nodes))"

definition subtractFromNUMAs :: "ResourceList \<Rightarrow> NUMANode list \<Rightarrow> nat list \<Rightarrow> NUMANode list option" where
  "subtractFromNUMAs resources numaNodes nodes =
     foldM (\<lambda>numaNodes (resName, quantity). subtract_over resName quantity numaNodes nodes) numaNodes resources"

text \<open>The loop over the containers; \<open>Inl\<close> is the early return of the minimal score.\<close>

fun least_numa_loop ::
  "PodQOSClass \<Rightarrow> NUMANode list \<Rightarrow> nat \<Rightarrow> bool \<Rightarrow> Container list \<Rightarrow> (int64 + nat \<times> bool) option" where
  "least_numa_loop qos nodes maxCount allMin [] = Some (Inr (maxCount, allMin))"
| "least_numa_loop qos nodes maxCount allMin (container # rest) =
     (if onlyNonNUMAResources nodes (ctr_requests container) then least_numa_loop qos nodes maxCount allMin rest
      else (case numaNodesRequired qos nodes (ctr_requests container) of
              None \<Rightarrow> Some (Inl MinNodeScore)
            | Some (numaNodes, isMinAvgDistance) \<Rightarrow>
                (let allMin' = (if \<not> isMinAvgDistance then False else allMin);
                     maxCount' = (if bm_Count numaNodes > maxCount then bm_Count numaNodes else maxCount)
                 in case subtractFromNUMAs (ctr_requests container) nodes (bm_GetBits numaNodes) of
                      None \<Rightarrow> None
                    | Some nodes' \<Rightarrow> least_numa_loop qos nodes' maxCount' allMin' rest)))"

definition leastNUMAContainerScopeScore :: "Pod \<Rightarrow> NrtZone list \<Rightarrow> int64 option" where
  "leastNUMAContainerScopeScore pod zones =
     (case least_numa_loop (GetPodQOS pod) (createNUMANodeList zones) 0 True (pod_initContainers pod @ pod_containers pod) of
        None \<Rightarrow> None
      | Some (Inl score) \<Rightarrow> Some score
      | Some (Inr (maxNUMANodesCount, allContainersMinAvgDistance)) \<Rightarrow>
          Some (if maxNUMANodesCount = 0 then MaxNodeScore else normalizeScore maxNUMANodesCount allContainersMinAvgDistance))"

definition leastNUMAPodScopeScore :: "Pod \<Rightarrow> NrtZone list \<Rightarrow> int64" where
  "leastNUMAPodScopeScore pod zones =
     (let nodes = createNUMANodeList zones; qos = GetPodQOS pod; resources = GetPodEffectiveRequest pod
      in if onlyNonNUMAResources nodes resources then MaxNodeScore
         else (case numaNodesRequired qos nodes resources of
                 None \<Rightarrow> MinNodeScore
               | Some (numaNodes, isMinAvgDistance) \<Rightarrow> normalizeScore (bm_Count numaNodes) isMinAvgDistance))"

record TopologyMatch =
  tm_weights :: "(string, int64) gomap"
  tm_cache :: NrtCacheImpl
  tm_strategyFunc :: "scoreStrategyFn option"
  tm_strategyType :: ScoringStrategyType

definition validateScoringStrategyType :: "ScoringStrategyType \<Rightarrow> bool" where
  "validateScoringStrategyType s = (case s of OtherStrategy _ \<Rightarrow> False | _ \<Rightarrow> True)"

definition New_TopologyMatch ::
  "(gofloat list \<Rightarrow> gofloat) \<Rightarrow> NodeResourceTopologyMatchArgs option \<Rightarrow> NrtClient \<Rightarrow> string + TopologyMatch" where
  "New_TopologyMatch variance args client =
     (case args of
        None \<Rightarrow> Inl ''want args to be of type NodeResourceTopologyMatchArgs''
      | Some tcfg \<Rightarrow>
          if \<not> validateScoringStrategyType (sst_Type (tma_ScoringStrategy tcfg)) then Inl ''invalid ScoringStrategyType''
          else (case initNodeTopologyInformer tcfg client of
                  Inl err \<Rightarrow> Inl err
                | Inr nrtCache \<Rightarrow>
                    (case getScoringStrategyFunction variance (sst_Type (tma_ScoringStrategy tcfg)) of
                       Inl err \<Rightarrow> Inl err
                     | Inr strategy \<Rightarrow>
                         Inr \<lparr>tm_weights = foldl (\<lambda>m resource. map_set (rs_Name resource) (rs_Weight resource) m) []
                                 (sst_Resources (tma_ScoringStrategy tcfg)),
                              tm_cache = nrtCache, tm_strategyFunc = strategy,
                              tm_strategyType = sst_Type (tma_ScoringStrategy tcfg)\<rparr>)))"

text \<open>A missing strategy function is a nil call, a panic; the constructor leaves it out only for \<open>LeastNUMANodes\<close>.\<close>

definition scoringHandlerFromTopologyManagerConfig ::
  "TopologyMatch \<Rightarrow> TopologyManagerConfig \<Rightarrow> (Pod \<Rightarrow> NrtZone list \<Rightarrow> int64 option) option" where
  "scoringHandlerFromTopologyManagerConfig tm conf =
     (if tm_strategyType tm = LeastNUMANodes then
        if tmc_Scope conf = PodTopologyManagerScope then Some (\<lambda>pod zones. Some (leastNUMAPodScopeScore pod zones))
        else if tmc_Scope conf = ContainerTopologyManagerScope then Some leastNUMAContainerScopeScore
        else None
      else if tmc_Policy conf \<noteq> SingleNumaNodeTopologyManagerPolicy then None
      else (let scorer = (case tm_strategyFunc tm of Some f \<Rightarrow> f | None \<Rightarrow> (\<lambda>_ _ _. None))
            in if tmc_Scope conf = PodTopologyManagerScope then Some (\<lambda>pod zones. podScopeScore pod zones scorer (tm_weights tm))
               else if tmc_Scope conf = ContainerTopologyManagerScope
               then Some (\<lambda>pod zones. containerScopeScore pod zones scorer (tm_weights tm))
               else None))"

definition TM_Score :: "TopologyMatch \<Rightarrow> Pod \<Rightarrow> string \<Rightarrow> int64 option" where
  "TM_Score tm pod nodeName =
     (if GetPodQOS pod \<noteq> PodQOSGuaranteed then Some MaxNodeScore
      else (case cache_Get (tm_cache tm) nodeName of
              (nodeTopology, ok) \<Rightarrow>
                if \<not> ok then Some 0
                else (case nodeTopology of
                        None \<Rightarrow> Some 0
                      | Some nrt \<Rightarrow>
                          (case scoringHandlerFromTopologyManagerConfig tm (topologyManagerConfigFromNodeResourceTopology nrt) of
                             None \<Rightarrow> Some 0
                           | Some handler \<Rightarrow> handler pod (nrt_Zones nrt)))))"


section \<open>Combinations\<close>

lemma set_combs: "set (combs xs k) = {ys. subseq ys xs \<and> length ys = k}"
proof (induction xs k rule: combs.induct)
  case (3 x xs k)
  have "{ys. subseq ys (x # xs) \<and> length ys = Suc k} =
      (#) x ` {ys. subseq ys xs \<and> length ys = k} \<union> {ys. subseq ys xs \<and> length ys = Suc k}"
    by (auto simp: subseq_Cons2_iff image_iff length_Suc_conv elim: subseq_Cons' split: if_splits)
  then show ?case using 3 by simp
qed auto

section \<open>What a combination of NUMA nodes offers\<close>

text \<open>
  The specification: every node of the combination reports every requested resource, and together they
  have as much of each resource whose amount is compared.
\<close>

definition combo_serves :: "PodQOSClass \<Rightarrow> NUMANode list \<Rightarrow> ResourceList \<Rightarrow> nat list \<Rightarrow> bool" where
  "combo_serves qos nodes req combination \<longleftrightarrow>
     (\<forall>i \<in> set combination. \<forall>(r, q) \<in> set req. map_of (numa_Resources (nodes ! i)) r \<noteq> None) \<and>
     (\<forall>(r, q) \<in> set req. q \<noteq> 0 \<and> compared qos r \<longrightarrow> q \<le> (\<Sum>i \<leftarrow> combination. map_getd 0 (numa_Resources (nodes ! i)) r))"

lemma map_getd_combine_entry: "map_getd 0 (combine_entry m (r, q)) r' = map_getd 0 m r' + (if r' = r then q else 0)"
  by (auto simp: combine_entry_def map_getd_def map_of_set split: option.splits)

lemma map_getd_combine_list:
  "wf_map es \<Longrightarrow> map_getd 0 (foldl combine_entry m es) r = map_getd 0 m r + map_getd 0 es r"
proof (induction es arbitrary: m)
  case (Cons e es)
  obtain k v where e: "e = (k, v)" by (cases e)
  have "wf_map es" "k \<notin> fst ` set es" using wf_map_ConsD [OF Cons.prems] by (simp_all add: e)
  then show ?case using Cons.IH by (simp add: e map_getd_combine_entry map_getd_Cons) (simp add: map_getd_def map_of_absent)
qed simp

lemma map_getd_combineResources:
  assumes "\<forall>i \<in> set c. wf_map (numa_Resources (nodes ! i))"
  shows "map_getd 0 (combineResources nodes c) r = (\<Sum>i \<leftarrow> c. map_getd 0 (numa_Resources (nodes ! i)) r)"
proof -
  have "map_getd 0 (foldl (\<lambda>m i. foldl combine_entry m (numa_Resources (nodes ! i))) m c) r =
      map_getd 0 m r + (\<Sum>i \<leftarrow> c. map_getd 0 (numa_Resources (nodes ! i)) r)" for m
    using assms by (induction c arbitrary: m) (simp_all add: map_getd_combine_list)
  then show ?thesis by (simp add: combineResources_def)
qed

lemma suitable_iff: "isResourceSetSuitable qos r q a \<longleftrightarrow> (compared qos r \<longrightarrow> q \<le> a)"
  by (auto simp: isResourceSetSuitable_def compared_def)

lemma fits_iff:
  assumes "\<forall>i \<in> set c. wf_map (numa_Resources (nodes ! i))"
  shows "isValidCombineResources nodes req c \<and> checkResourcesFit qos req (combineResources nodes c) \<longleftrightarrow> combo_serves qos nodes req c"
  unfolding isValidCombineResources_def checkResourcesFit_def combo_serves_def list_all_iff
  by (auto simp: suitable_iff map_getd_combineResources [OF assms])

section \<open>Distances\<close>

text \<open>A usable list: distinct IDs below 64 and at most 64 of them, well-formed resources, distances of the ACPI range.\<close>

definition numa_ok :: "NUMANode list \<Rightarrow> bool" where
  "numa_ok nodes \<longleftrightarrow> distinct (map numa_NUMAID nodes) \<and>
     list_all (\<lambda>node. numa_NUMAID node < 64 \<and> wf_map (numa_Resources node) \<and>
       list_all (\<lambda>(i, c). 0 \<le> sint c \<and> sint c \<le> 255) (numa_Costs node)) nodes"

lemma numa_ok_length: "numa_ok nodes \<Longrightarrow> length nodes \<le> 64"
proof -
  assume ok: "numa_ok nodes"
  then have "set (map numa_NUMAID nodes) \<subseteq> {0..<64}" by (auto simp: numa_ok_def list_all_iff)
  then have "card (set (map numa_NUMAID nodes)) \<le> 64" by (metis card_atLeastLessThan card_mono diff_zero finite_atLeastLessThan)
  moreover have "card (set (map numa_NUMAID nodes)) = length (map numa_NUMAID nodes)"
    using ok by (intro distinct_card) (simp add: numa_ok_def)
  ultimately show ?thesis by simp
qed

definition cost_of :: "NUMANode list \<Rightarrow> nat \<Rightarrow> nat \<Rightarrow> int" where
  "cost_of nodes i j = sint (case map_get (numa_Costs (nodes ! i)) (numa_NUMAID (nodes ! j)) of
     None \<Rightarrow> maxDistanceValue | Some c \<Rightarrow> c)"

lemma cost_of_range: "numa_ok nodes \<Longrightarrow> i < length nodes \<Longrightarrow> 0 \<le> cost_of nodes i j \<and> cost_of nodes i j \<le> 255"
  by (auto simp: cost_of_def numa_ok_def list_all_iff maxDistanceValue_def split: option.splits dest!: map_of_SomeD nth_mem)

lemma sum_list_bounds:
  fixes f :: "'a \<Rightarrow> int"
  assumes "\<forall>x \<in> set xs. 0 \<le> f x \<and> f x \<le> b"
  shows "0 \<le> sum_list (map f xs) \<and> sum_list (map f xs) \<le> b * int (length xs)"
  using assms by (induction xs) (auto simp: algebra_simps)

lemma distance_sum:
  "foldl (\<lambda>accu node1. foldl (\<lambda>accu node2.
      accu + (case map_get (numa_Costs (nodes ! node1)) (numa_NUMAID (nodes ! node2)) of
                None \<Rightarrow> maxDistanceValue | Some cost \<Rightarrow> cost)) accu c') (a :: int64) c =
   a + word_of_int (\<Sum>i \<leftarrow> c. \<Sum>j \<leftarrow> c'. cost_of nodes i j)"
proof -
  have inner: "foldl (\<lambda>accu node2.
      accu + (case map_get (numa_Costs (nodes ! i)) (numa_NUMAID (nodes ! node2)) of
                None \<Rightarrow> maxDistanceValue | Some cost \<Rightarrow> cost)) (a :: int64) js = a + word_of_int (\<Sum>j \<leftarrow> js. cost_of nodes i j)" for a i js
    by (induction js arbitrary: a) (simp_all add: cost_of_def wi_hom_add [symmetric] add.assoc)
  show ?thesis by (induction c arbitrary: a) (simp_all add: inner wi_hom_add [symmetric] add.assoc)
qed

lemma fl32_of_int: "\<bar>m\<bar> < 2 ^ 24 \<Longrightarrow> f_of_int binary32 m = Fin (of_int m)"
proof -
  assume m: "\<bar>m\<bar> < 2 ^ 24"
  have "\<bar>of_int m :: rat\<bar> < 2 powi 128"
  proof -
    have "\<bar>of_int m :: rat\<bar> = of_int \<bar>m\<bar>" by simp
    also have "\<dots> < of_int (2 ^ 24)" using m by (simp only: of_int_less_iff)
    also have "\<dots> < 2 powi 128" by (simp add: power_int_def)
    finally show ?thesis .
  qed
  then show ?thesis
    using round_to_int32_exact [OF m] by (simp add: f_of_int_def fl_Fin binary32_def [THEN arg_cong, of ff_emax, simplified])
qed

lemma nodesAvgDistance_range:
  assumes "numa_ok nodes" and "subseq c [0..<length nodes]"
  shows "\<exists>d. nodesAvgDistance nodes c = Fin d \<and> 0 \<le> d \<and> d \<le> 255"
proof (cases "c = []")
  case True
  then show ?thesis by (simp add: nodesAvgDistance_def maxDistanceValue_def fl32_of_int)
next
  case False
  let ?n = "int (length c)" and ?s = "\<Sum>i \<leftarrow> c. \<Sum>j \<leftarrow> c. cost_of nodes i j"
  have i: "i < length nodes" if "i \<in> set c" for i
    using list_emb_set [OF assms(2) that] by auto
  have n: "0 < ?n" "?n \<le> 64"
    using False numa_ok_length [OF assms(1)] list_emb_length [OF assms(2)] by simp_all
  have "\<forall>i \<in> set c. 0 \<le> (\<Sum>j \<leftarrow> c. cost_of nodes i j) \<and> (\<Sum>j \<leftarrow> c. cost_of nodes i j) \<le> 255 * ?n"
    using sum_list_bounds [of c] cost_of_range [OF assms(1) i] by blast
  from sum_list_bounds [OF this] have s: "0 \<le> ?s" "?s \<le> 255 * ?n * ?n" by simp_all
  have nn: "?n * ?n \<le> 64 * 64" "0 < ?n * ?n" using n mult_mono [of ?n 64 ?n 64] by simp_all
  then have small: "?s \<le> 255 * 4096" using s(2) by (simp add: mult.assoc)
  have sint: "sint (word_of_int ?s :: int64) = ?s" using s(1) small by (intro sint_of_int64) (simp add: in_int64_def)
  have q: "nodesAvgDistance nodes c = fl binary32 (of_int ?s / of_int (?n * ?n))"
    using False nn small s(1)
    by (simp add: nodesAvgDistance_def distance_sum sint Let_def fl32_of_int)
  have "(of_int ?s :: rat) / of_int (?n * ?n) \<le> 255"
    using s(2) nn(2) by (simp only: divide_le_eq of_int_0_less_iff) (simp add: mult.assoc flip: of_int_mult of_int_le_iff)
  moreover have "0 \<le> (of_int ?s :: rat) / of_int (?n * ?n)" using s(1) by simp
  ultimately show ?thesis
    using fl_between [of 0 "of_int ?s / of_int (?n * ?n)" 255 binary32] round_to_int32_exact [of 255] q
    by (auto simp: binary32_def power_int_def)
qed


text \<open>\<open>minAvgDistanceInCombinations\<close> is a lower bound of the distances of the combinations.\<close>

lemma minAvgDistance_le:
  assumes "numa_ok nodes" and "\<forall>c \<in> set cs. subseq c [0..<length nodes]"
  shows "\<exists>m. minAvgDistanceInCombinations nodes cs = Fin m \<and> (\<forall>c \<in> set cs. f_le (Fin m) (nodesAvgDistance nodes c))"
proof -
  let ?f = "\<lambda>m c. let avg = nodesAvgDistance nodes c in if f_lt avg m then avg else m"
  have "\<exists>m. foldl ?f (Fin m0) cs = Fin m \<and> m \<le> m0 \<and> (\<forall>c \<in> set cs. f_le (Fin m) (nodesAvgDistance nodes c))" for m0
    using assms(2)
  proof (induction cs arbitrary: m0)
    case (Cons c cs)
    then obtain d where d: "nodesAvgDistance nodes c = Fin d" using nodesAvgDistance_range [OF assms(1), of c] by auto
    let ?m1 = "min d m0"
    have "?f (Fin m0) c = Fin ?m1" by (auto simp: d Let_def f_lt_def f_eq_def min_def)
    then show ?case using Cons.IH [of ?m1] Cons.prems d by fastforce
  qed simp
  from this [of 255] show ?thesis by (auto simp: minAvgDistanceInCombinations_def maxDistanceValue_def fl32_of_int)
qed

section \<open>The search finds a smallest combination\<close>

abbreviation fits :: "PodQOSClass \<Rightarrow> NUMANode list \<Rightarrow> ResourceList \<Rightarrow> nat list \<Rightarrow> bool" where
  "fits qos nodes req c \<equiv> isValidCombineResources nodes req c \<and> checkResourcesFit qos req (combineResources nodes c)"

lemma suitable_loop_Some:
  "suitable_loop qos nodes req m (best, md) cs = (Some c, b) \<Longrightarrow>
   (best = Some c \<and> \<not> b \<or> c \<in> set cs \<and> fits qos nodes req c) \<and> (b \<longrightarrow> f_eq (nodesAvgDistance nodes c) m)"
proof (induction cs arbitrary: best md)
  case (Cons c' cs)
  then show ?case
    by (cases "fits qos nodes req c'") (fastforce simp: Let_def split: if_splits)+
qed simp

lemma suitable_loop_None:
  assumes "suitable_loop qos nodes req m (best, md) cs = (None, b)" and "best = None \<longrightarrow> md = Fin 256"
    and "\<forall>c \<in> set cs. \<exists>d. nodesAvgDistance nodes c = Fin d \<and> 0 \<le> d \<and> d \<le> 255"
  shows "best = None \<and> (\<forall>c \<in> set cs. \<not> fits qos nodes req c)"
  using assms
proof (induction cs arbitrary: best md)
  case (Cons c cs)
  show ?case
  proof (cases "fits qos nodes req c")
    case False
    then have "suitable_loop qos nodes req m (best, md) cs = (None, b)" using Cons.prems(1) by auto
    from Cons.IH [OF this Cons.prems(2)] show ?thesis using False Cons.prems(3) by simp
  next
    case True
    let ?d = "nodesAvgDistance nodes c" and ?next = "if f_lt (nodesAvgDistance nodes c) md then (Some c, nodesAvgDistance nodes c) else (best, md)"
    have r: "suitable_loop qos nodes req m ?next cs = (None, b)"
      using Cons.prems(1) True by (auto simp: Let_def split: if_splits)
    obtain d where d: "?d = Fin d" "d \<le> 255" using Cons.prems(3) by auto
    show ?thesis
    proof (cases "f_lt ?d md")
      case True
      then show ?thesis using Cons.IH [of "Some c" ?d] r Cons.prems(3) by simp
    next
      case no: False
      then have "best \<noteq> None" using Cons.prems(2) d by (auto simp: f_lt_def f_eq_def)
      moreover have "best = None" using Cons.IH [of best md] r no Cons.prems(2,3) by simp
      ultimately show ?thesis by simp
    qed
  qed
qed simp

lemma numa_ok_wf: "numa_ok nodes \<Longrightarrow> subseq c [0..<length nodes] \<Longrightarrow> \<forall>i \<in> set c. wf_map (numa_Resources (nodes ! i))"
  by (auto simp: numa_ok_def list_all_iff elim!: list_emb_set)

lemma findSuitable_spec:
  assumes "numa_ok nodes" and "findSuitableCombination qos nodes req (combs [0..<length nodes] k) = (r, b)"
  shows "(case r of
      None \<Rightarrow> \<forall>c. subseq c [0..<length nodes] \<and> length c = k \<longrightarrow> \<not> combo_serves qos nodes req c
    | Some c \<Rightarrow> subseq c [0..<length nodes] \<and> length c = k \<and> combo_serves qos nodes req c \<and>
        (b \<longrightarrow> (\<forall>c'. subseq c' [0..<length nodes] \<and> length c' = k \<longrightarrow> f_le (nodesAvgDistance nodes c) (nodesAvgDistance nodes c'))))"
proof -
  let ?cs = "combs [0..<length nodes] k"
  have sub: "\<forall>c \<in> set ?cs. subseq c [0..<length nodes] \<and> length c = k" by (simp add: set_combs)
  have ft: "fits qos nodes req c \<longleftrightarrow> combo_serves qos nodes req c" if "subseq c [0..<length nodes]" for c
    using fits_iff [OF numa_ok_wf [OF assms(1) that]] .
  obtain m where m: "minAvgDistanceInCombinations nodes ?cs = Fin m" "\<forall>c \<in> set ?cs. f_le (Fin m) (nodesAvgDistance nodes c)"
    using minAvgDistance_le [OF assms(1), of ?cs] sub by blast
  have run: "suitable_loop qos nodes req (Fin m) (None, Fin 256) ?cs = (r, b)"
    using assms(2) by (simp add: findSuitableCombination_def m(1) fl32_of_int)
  show ?thesis
  proof (cases r)
    case None
    have "\<forall>c \<in> set ?cs. \<not> fits qos nodes req c"
      using suitable_loop_None [OF run [unfolded None]] nodesAvgDistance_range [OF assms(1)] sub by auto
    then show ?thesis using ft None by (auto simp: set_combs)
  next
    case (Some c)
    from suitable_loop_Some [OF run [unfolded Some]] have c: "c \<in> set ?cs" "fits qos nodes req c"
      "b \<longrightarrow> f_eq (nodesAvgDistance nodes c) (Fin m)" by auto
    then have "subseq c [0..<length nodes]" "length c = k" "combo_serves qos nodes req c" using ft sub by auto
    moreover have "b \<longrightarrow> nodesAvgDistance nodes c = Fin m" using c(3) by (simp add: f_eq_def)
    ultimately show ?thesis using m(2) Some by (auto simp: set_combs)
  qed
qed

text \<open>The specification of the search: the least number of NUMA nodes that serve a request.\<close>

definition needs :: "PodQOSClass \<Rightarrow> NUMANode list \<Rightarrow> ResourceList \<Rightarrow> nat \<Rightarrow> bool" where
  "needs qos nodes req k \<longleftrightarrow>
     (\<exists>c. subseq c [0..<length nodes] \<and> length c = k \<and> 0 < k \<and> combo_serves qos nodes req c) \<and>
     (\<forall>c. subseq c [0..<length nodes] \<and> c \<noteq> [] \<and> combo_serves qos nodes req c \<longrightarrow> k \<le> length c)"

definition mask_of :: "NUMANode list \<Rightarrow> nat list \<Rightarrow> bitMask" where
  "mask_of nodes c = foldl (\<lambda>bm nodeIdx. bm_Add bm (numa_NUMAID (nodes ! nodeIdx))) 0 c"

lemma bit_mask_of: "i < 64 \<Longrightarrow> bit (mask_of nodes c) i \<longleftrightarrow> (\<exists>j \<in> set c. numa_NUMAID (nodes ! j) = i)"
proof -
  assume i: "i < 64"
  have "bit (foldl (\<lambda>bm j. bm_Add bm (numa_NUMAID (nodes ! j))) m c) i \<longleftrightarrow> bit m i \<or> (\<exists>j \<in> set c. numa_NUMAID (nodes ! j) = i)" for m
    using i by (induction c arbitrary: m) (auto simp: bit_bm_Add)
  then show ?thesis by (simp add: mask_of_def)
qed

lemma bits_mask_of:
  assumes "numa_ok nodes" and "subseq c [0..<length nodes]"
  shows "set (bm_GetBits (mask_of nodes c)) = (\<lambda>j. numa_NUMAID (nodes ! j)) ` set c" and "bm_Count (mask_of nodes c) = length c"
proof -
  have j: "j < length nodes" if "j \<in> set c" for j using list_emb_set [OF assms(2) that] by auto
  then have "\<forall>j \<in> set c. numa_NUMAID (nodes ! j) < 64" using assms(1) by (auto simp: numa_ok_def list_all_iff)
  then show s: "set (bm_GetBits (mask_of nodes c)) = (\<lambda>j. numa_NUMAID (nodes ! j)) ` set c"
    by (auto simp: bm_GetBits_bit bit_mask_of)
  have "distinct c" using assms(2) by (metis distinct_upt subseq_conv_nths distinct_nthsI)
  moreover have "inj_on (\<lambda>j. numa_NUMAID (nodes ! j)) (set c)"
    using assms(1) j by (auto simp: inj_on_def numa_ok_def distinct_conv_nth)
  ultimately have "card (set (bm_GetBits (mask_of nodes c))) = length c" by (simp add: s card_image distinct_card)
  moreover have "distinct (bm_GetBits (mask_of nodes c))" by (simp add: bm_GetBits_def)
  ultimately show "bm_Count (mask_of nodes c) = length c" by (simp add: bm_Count_def distinct_card)
qed

lemma required_loop_spec:
  assumes "numa_ok nodes" and "0 < k" and "k \<le> Suc (length nodes)"
    and "\<forall>c. subseq c [0..<length nodes] \<and> c \<noteq> [] \<and> combo_serves qos nodes req c \<longrightarrow> k \<le> length c"
  shows "case required_loop qos nodes req [k..<Suc (length nodes)] of
      None \<Rightarrow> \<forall>c. subseq c [0..<length nodes] \<and> c \<noteq> [] \<longrightarrow> \<not> combo_serves qos nodes req c
    | Some (bm, b) \<Rightarrow> \<exists>c. bm = mask_of nodes c \<and> subseq c [0..<length nodes] \<and> combo_serves qos nodes req c \<and> needs qos nodes req (length c) \<and>
        (b \<longrightarrow> (\<forall>c'. subseq c' [0..<length nodes] \<and> length c' = length c \<longrightarrow> f_le (nodesAvgDistance nodes c) (nodesAvgDistance nodes c')))"
  using assms(2-4)
proof (induction "Suc (length nodes) - k" arbitrary: k)
  case 0
  then have "k = Suc (length nodes)" by simp
  moreover have "length c \<le> length nodes" if "subseq c [0..<length nodes]" for c using list_emb_length [OF that] by simp
  ultimately show ?case using 0(4) by fastforce
next
  case (Suc d)
  then have lt: "k < Suc (length nodes)" by simp
  obtain r b where f: "findSuitableCombination qos nodes req (combs [0..<length nodes] k) = (r, b)" by (metis surj_pair)
  note spec = findSuitable_spec [OF assms(1) f]
  have unf: "required_loop qos nodes req [k..<Suc (length nodes)] =
      (case r of Some c \<Rightarrow> Some (mask_of nodes c, b) | None \<Rightarrow> required_loop qos nodes req [Suc k..<Suc (length nodes)])"
    using lt f by (simp add: upt_conv_Cons mask_of_def del: upt_Suc split: option.split)
  show ?case
  proof (cases r)
    case (Some c)
    then have c: "subseq c [0..<length nodes]" "length c = k" "combo_serves qos nodes req c"
      "b \<longrightarrow> (\<forall>c'. subseq c' [0..<length nodes] \<and> length c' = k \<longrightarrow> f_le (nodesAvgDistance nodes c) (nodesAvgDistance nodes c'))"
      using spec by simp_all
    then have "needs qos nodes req (length c)" using Suc.prems(1,3) unfolding needs_def by blast
    then show ?thesis unfolding unf Some using c by (auto intro!: exI [of _ c])
  next
    case None
    then have "\<forall>c. subseq c [0..<length nodes] \<and> c \<noteq> [] \<and> combo_serves qos nodes req c \<longrightarrow> Suc k \<le> length c"
      using spec Suc.prems(3) by (fastforce simp: le_eq_less_or_eq Suc_le_eq)
    then show ?thesis unfolding unf None using Suc.hyps(1) [of "Suc k"] Suc.hyps(2) lt by simp
  qed
qed


lemma numaNodesRequired_cases:
  assumes "numa_ok nodes"
  obtains (none) "numaNodesRequired qos nodes req = None"
      "\<forall>c. subseq c [0..<length nodes] \<and> c \<noteq> [] \<longrightarrow> \<not> combo_serves qos nodes req c"
  | (some) c b where "numaNodesRequired qos nodes req = Some (mask_of nodes c, b)"
      "subseq c [0..<length nodes]" "combo_serves qos nodes req c" "needs qos nodes req (length c)"
      "b \<longrightarrow> (\<forall>c'. subseq c' [0..<length nodes] \<and> length c' = length c \<longrightarrow> f_le (nodesAvgDistance nodes c) (nodesAvgDistance nodes c'))"
proof -
  have "\<forall>c. subseq c [0..<length nodes] \<and> c \<noteq> [] \<and> combo_serves qos nodes req c \<longrightarrow> 1 \<le> length c"
    by (simp add: Suc_le_eq)
  from required_loop_spec [OF assms _ _ this] show thesis
    unfolding numaNodesRequired_def [symmetric] using none some
    by (cases "numaNodesRequired qos nodes req") auto
qed

text \<open>
  C19. The search for NUMA nodes is exact. On a list with distinct IDs and distances in the ACPI range it
  fails only if no combination of NUMA nodes can serve the request; otherwise the mask it returns
  names a combination that serves the request, no smaller combination does, and when the second result
  is true no combination of that size has a smaller average distance.
\<close>

theorem numaNodesRequired_least:
  assumes "numa_ok nodes"
  shows "case numaNodesRequired qos nodes req of
      None \<Rightarrow> \<forall>c. subseq c [0..<length nodes] \<and> c \<noteq> [] \<longrightarrow> \<not> combo_serves qos nodes req c
    | Some (bm, b) \<Rightarrow> \<exists>c. subseq c [0..<length nodes] \<and> combo_serves qos nodes req c \<and> needs qos nodes req (length c) \<and>
        set (bm_GetBits bm) = (\<lambda>j. numa_NUMAID (nodes ! j)) ` set c \<and> bm_Count bm = length c \<and>
        (b \<longrightarrow> (\<forall>c'. subseq c' [0..<length nodes] \<and> length c' = length c \<longrightarrow> f_le (nodesAvgDistance nodes c) (nodesAvgDistance nodes c')))"
  using assms
proof (cases rule: numaNodesRequired_cases [of nodes qos req])
  case none
  then show ?thesis by simp
next
  case (some c b)
  then show ?thesis using bits_mask_of [OF assms some(2)] by (auto intro!: exI [of _ c])
qed

section \<open>Fewer NUMA nodes score higher\<close>

lemma normalizeScore_exact:
  assumes "k \<le> 64"
  shows "sint (normalizeScore k b) = 100 - 12 * int k + (if b then 6 else 0)"
proof -
  have d: "sdiv64 MaxNodeScore (of_nat highestNUMAID) = 12" "sdiv64 12 2 = 6"
    by (simp_all add: sdiv64_def MaxNodeScore_def highestNUMAID_def go_div_def)
  have w: "MaxNodeScore - of_nat k * 12 = word_of_int (100 - 12 * int k)"
    by (simp add: MaxNodeScore_def wi_hom_sub [symmetric] wi_hom_mult [symmetric])
  have "normalizeScore k b = word_of_int (100 - 12 * int k + (if b then 6 else 0))"
    unfolding normalizeScore_def Let_def d w by (simp add: wi_hom_add [symmetric])
  moreover have "in_int64 (100 - 12 * int k + (if b then 6 else 0))" using assms by (simp add: in_int64_def)
  ultimately show ?thesis by (simp only: sint_of_int64)
qed

text \<open>With nine NUMA nodes or more the score is negative, which the framework rejects as an error.\<close>

lemma normalizeScore_negative: "9 \<le> k \<Longrightarrow> k \<le> 64 \<Longrightarrow> sint (normalizeScore k b) < 0 \<and> apply_weight w [normalizeScore k b] = None"
  by (simp add: normalizeScore_exact apply_weight_def slt_def MinNodeScore_def)

lemma needs_unique: "needs qos nodes req k \<Longrightarrow> needs qos nodes req k' \<Longrightarrow> k = k'"
  unfolding needs_def by (metis le_antisym length_greater_0_conv)

lemma needs_length: "needs qos nodes req k \<Longrightarrow> 0 < k \<and> k \<le> length nodes"
  unfolding needs_def using list_emb_length by fastforce

lemma leastNUMAPod_exact:
  assumes "numa_ok (createNUMANodeList zones)" and "\<not> onlyNonNUMAResources (createNUMANodeList zones) (GetPodEffectiveRequest pod)"
    and "needs (GetPodQOS pod) (createNUMANodeList zones) (GetPodEffectiveRequest pod) k"
  shows "\<exists>b. sint (leastNUMAPodScopeScore pod zones) = 100 - 12 * int k + (if b then 6 else 0)"
  using assms(1)
proof (cases rule: numaNodesRequired_cases [of _ "GetPodQOS pod" "GetPodEffectiveRequest pod"])
  case none
  then show ?thesis using assms(3) unfolding needs_def by (metis less_irrefl list.size(3))
next
  case (some c b)
  have "length c = k" using needs_unique some(4) assms(3) by blast
  moreover have "k \<le> 64" using needs_length [OF assms(3)] numa_ok_length [OF assms(1)] by simp
  ultimately show ?thesis
    using some(1) bits_mask_of(2) [OF assms(1) some(2)] assms(2) by (auto simp: leastNUMAPodScopeScore_def normalizeScore_exact)
qed

text \<open>
  C20. The least-NUMA strategy at pod scope prefers nodes on which the pod spans fewer NUMA nodes. For two
  machines with at most eight NUMA nodes each, if the pod needs fewer NUMA nodes on the first than on
  the second, the first scores strictly higher, whatever the distances, and both scores are in the
  framework's range.
\<close>

theorem leastNUMA_prefers_fewer:
  assumes "numa_ok (createNUMANodeList zones)" and "numa_ok (createNUMANodeList zones')"
    and "length (createNUMANodeList zones) \<le> 8" and "length (createNUMANodeList zones') \<le> 8"
    and "\<not> onlyNonNUMAResources (createNUMANodeList zones) (GetPodEffectiveRequest pod)"
    and "\<not> onlyNonNUMAResources (createNUMANodeList zones') (GetPodEffectiveRequest pod)"
    and "needs (GetPodQOS pod) (createNUMANodeList zones) (GetPodEffectiveRequest pod) k"
    and "needs (GetPodQOS pod) (createNUMANodeList zones') (GetPodEffectiveRequest pod) k'" and "k < k'"
  shows "sint (leastNUMAPodScopeScore pod zones') < sint (leastNUMAPodScopeScore pod zones) \<and>
    0 \<le> sint (leastNUMAPodScopeScore pod zones') \<and> sint (leastNUMAPodScopeScore pod zones) \<le> 100"
proof -
  from leastNUMAPod_exact [OF assms(1,5,7)] leastNUMAPod_exact [OF assms(2,6,8)]
  obtain b b' where "sint (leastNUMAPodScopeScore pod zones) = 100 - 12 * int k + (if b then 6 else 0)"
    "sint (leastNUMAPodScopeScore pod zones') = 100 - 12 * int k' + (if b' then 6 else 0)" by blast
  moreover have "0 < k" "k' \<le> 8" using needs_length [OF assms(7)] needs_length [OF assms(8)] assms(4) by simp_all
  ultimately show ?thesis using assms(9) by auto
qed

section \<open>NUMA IDs with gaps\<close>

text \<open>
  Scoring crashes on a report whose NUMA IDs have gaps. If some NUMA node has an ID that is not below
  the number of NUMA nodes reported (for instance only \<open>node-1\<close> is reported), then scoring a guaranteed
  pod on that node under the single-numa-node policy at pod scope panics, for every allocation
  strategy, every weight and every pod.
\<close>

theorem sparse_numa_ids_panic:
  assumes "GetPodQOS pod = PodQOSGuaranteed" and "cache_Get (tm_cache tm) nodeName = (Some nrt, True)"
    and "tm_strategyType tm \<noteq> LeastNUMANodes"
    and "topologyManagerConfigFromNodeResourceTopology nrt =
      \<lparr>tmc_Scope = PodTopologyManagerScope, tmc_Policy = SingleNumaNodeTopologyManagerPolicy\<rparr>"
    and "node \<in> set (createNUMANodeList (nrt_Zones nrt))"
    and "length (createNUMANodeList (nrt_Zones nrt)) \<le> numa_NUMAID node"
  shows "TM_Score tm pod nodeName = None"
proof -
  have "scoreForEachNUMANode req (createNUMANodeList (nrt_Zones nrt)) score ws = None" for req score ws
    unfolding scoreForEachNUMANode_def
    by (rule foldM_None [OF assms(5)]) (use assms(6) in \<open>simp split: option.split\<close>)
  then show ?thesis
    using assms(1-4) by (simp add: TM_Score_def scoringHandlerFromTopologyManagerConfig_def podScopeScore_def Let_def)
qed


section \<open>Range of the allocation strategies\<close>

lemma Value_nonneg_mono:
  assumes "0 \<le> q" and "q \<le> a" and "a \<le> 2 ^ 55 * 10 ^ 9"
  shows "0 \<le> sint (Quantity_Value q) \<and> sint (Quantity_Value q) \<le> sint (Quantity_Value a) \<and> sint (Quantity_Value a) \<le> 2 ^ 55"
proof -
  have v: "sint (Quantity_Value x) = (x + 999999999) div 1000000000" if "0 \<le> x" "x \<le> 2 ^ 55 * 10 ^ 9" for x
  proof -
    have r: "round_away x 1000000000 = (x + 999999999) div 1000000000" using that(1) by (cases "x = 0") (simp_all add: round_away_def)
    have "(x + 999999999) div 1000000000 \<le> (2 ^ 55 * 10 ^ 9 + 999999999) div 1000000000" using that(2) by (intro zdiv_mono1) simp_all
    then have "in_int64 (round_away x 1000000000)" unfolding r in_int64_def using that(1) by (simp add: pos_imp_zdiv_nonneg_iff)
    then show ?thesis by (simp add: Quantity_Value_def sint_of_int64 r)
  qed
  have "(a + 999999999) div 1000000000 \<le> (2 ^ 55 * 10 ^ 9 + 999999999) div 1000000000" using assms(3) by (intro zdiv_mono1) simp_all
  moreover have "(q + 999999999) div 1000000000 \<le> (a + 999999999) div 1000000000" using assms(2) by (intro zdiv_mono1) simp_all
  ultimately show ?thesis using v [of q] v [of a] assms by (simp add: pos_imp_zdiv_nonneg_iff)
qed

lemma percent_range:
  fixes x v :: int
  assumes "0 \<le> x" and "x \<le> v" and "0 < v"
  shows "0 \<le> x * 100 div v \<and> x * 100 div v \<le> 100"
proof -
  have "x * 100 div v \<le> v * 100 div v" using assms by (intro zdiv_mono1) simp_all
  then show ?thesis using assms by (simp add: pos_imp_zdiv_nonneg_iff)
qed

lemma sdiv64_percent:
  assumes "0 \<le> sint x" and "sint x \<le> sint v" and "0 < sint v" and "sint v \<le> 2 ^ 55"
  shows "0 \<le> sint (sdiv64 (x * MaxNodeScore) v) \<and> sint (sdiv64 (x * MaxNodeScore) v) \<le> 100"
proof -
  have m: "sint (x * MaxNodeScore) = sint x * 100"
    using assms by (subst sint_mult64) (simp_all add: MaxNodeScore_def in_int64_def)
  note r = percent_range [OF assms(1-3)]
  then have "in_int64 (sint x * 100 div sint v)" by (simp add: in_int64_def)
  then show ?thesis using r assms by (simp add: sdiv64_def m go_div_nonneg sint_of_int64)
qed

text \<open>A quantity below \<open>2\<^sup>5\<^sup>5\<close> units.\<close>

definition moderate_quantity :: "Quantity \<Rightarrow> bool" where
  "moderate_quantity q \<longleftrightarrow> 0 \<le> q \<and> q \<le> 2 ^ 55 * 10 ^ 9"

lemma resource_scores_range:
  assumes "moderate_quantity q" and "moderate_quantity a"
  shows "0 \<le> sint (leastAllocatedScore q a) \<and> sint (leastAllocatedScore q a) \<le> 100"
    and "0 \<le> sint (mostAllocatedScore q a) \<and> sint (mostAllocatedScore q a) \<le> 100"
proof -
  have pos: "0 < sint (Quantity_Value a)" if "a \<noteq> 0" "q \<le> a"
  proof -
    have a: "1 \<le> a" using that assms by (simp add: moderate_quantity_def)
    have "sint (Quantity_Value 1) = 1" by (simp add: Quantity_Value_def round_away_def)
    then show ?thesis using Value_nonneg_mono [of 1 a] a assms(2) by (simp add: moderate_quantity_def)
  qed
  show "0 \<le> sint (mostAllocatedScore q a) \<and> sint (mostAllocatedScore q a) \<le> 100"
    using sdiv64_percent [of "Quantity_Value q" "Quantity_Value a"] pos Value_nonneg_mono [of q a] assms
    by (auto simp: mostAllocatedScore_def moderate_quantity_def)
  have "sint (Quantity_Value a - Quantity_Value q) = sint (Quantity_Value a) - sint (Quantity_Value q)" if "q \<le> a"
    using Value_nonneg_mono [of q a] that assms by (intro sint_diff64) (simp add: in_int64_def moderate_quantity_def)
  then show "0 \<le> sint (leastAllocatedScore q a) \<and> sint (leastAllocatedScore q a) \<le> 100"
    using sdiv64_percent [of "Quantity_Value a - Quantity_Value q" "Quantity_Value a"] pos Value_nonneg_mono [of q a] assms
    by (auto simp: leastAllocatedScore_def moderate_quantity_def Let_def)
qed

lemma rw_weight_pos: "0 < sint (rw_weight ws r)"
  by (auto simp: rw_weight_def defaultWeight_def slt_def split: option.splits)

lemma strategy_fold:
  "foldl (\<lambda>(s, w) (r, _). let x = sc r; y = rw_weight ws r in (s + x * y, w + y)) (a, b) req =
   (a + word_of_int (\<Sum>(r, _) \<leftarrow> req. sint (sc r) * sint (rw_weight ws r)),
    b + word_of_int (\<Sum>(r, _) \<leftarrow> req. sint (rw_weight ws r)) :: int64)"
  by (induction req arbitrary: a b) (auto simp: Let_def wi_hom_add [symmetric] wi_hom_mult [symmetric] add.assoc)

lemma weighted_mean_range:
  fixes f g :: "'a \<Rightarrow> int"
  assumes "xs \<noteq> []" and "\<forall>x \<in> set xs. 0 \<le> f x \<and> f x \<le> 100 \<and> 0 < g x"
  shows "0 \<le> (\<Sum>x \<leftarrow> xs. f x * g x) \<and> (\<Sum>x \<leftarrow> xs. f x * g x) \<le> 100 * (\<Sum>x \<leftarrow> xs. g x) \<and> 0 < (\<Sum>x \<leftarrow> xs. g x)"
  using assms
proof (induction xs rule: list_nonempty_induct)
  case (single x)
  then show ?case by (simp add: mult_right_mono)
next
  case (cons x xs)
  then have x: "f x * g x \<le> 100 * g x" "0 \<le> f x * g x" "0 < g x" by (simp_all add: mult_right_mono)
  from cons have s: "0 \<le> (\<Sum>x \<leftarrow> xs. f x * g x)" "(\<Sum>x \<leftarrow> xs. f x * g x) \<le> 100 * (\<Sum>x \<leftarrow> xs. g x)" "0 < (\<Sum>x \<leftarrow> xs. g x)"
    by simp_all
  show ?case using add_mono [OF x(1) s(2)] x(2,3) s(1,3) by (simp add: distrib_left)
qed

text \<open>Which of the two strategies, by the score of one resource.\<close>

lemma allocated_strategy_range:
  assumes "req \<noteq> []" and "(\<Sum>(r, q) \<leftarrow> req. sint (rw_weight ws r)) \<le> 2 ^ 55"
    and "\<forall>(r, q) \<in> set req. 0 \<le> sint (score (map_getd 0 req r) (map_getd 0 al r)) \<and> sint (score (map_getd 0 req r) (map_getd 0 al r)) \<le> 100"
  shows "\<exists>s. allocated_strategy score req al ws = Some s \<and> 0 \<le> sint s \<and> sint s \<le> 100"
proof -
  let ?sc = "\<lambda>r. score (map_getd 0 req r) (map_getd 0 al r)"
  let ?N = "\<Sum>(r, q) \<leftarrow> req. sint (?sc r) * sint (rw_weight ws r)" and ?W = "\<Sum>(r, q) \<leftarrow> req. sint (rw_weight ws r)"
  have N: "0 \<le> ?N" "?N \<le> 100 * ?W" "0 < ?W"
    using weighted_mean_range [OF assms(1), of "\<lambda>(r, q). sint (?sc r)" "\<lambda>(r, q). sint (rw_weight ws r)"] assms(3) rw_weight_pos
    by (auto simp: case_prod_beta')
  have i: "in_int64 ?N" "in_int64 ?W" using N assms(2) by (simp_all add: in_int64_def)
  have "?N div ?W \<le> 100 * ?W div ?W" using N by (intro zdiv_mono1) simp_all
  then have q: "0 \<le> ?N div ?W" "?N div ?W \<le> 100" using N by (simp_all add: pos_imp_zdiv_nonneg_iff)
  let ?s = "sdiv64 (word_of_int ?N) (word_of_int ?W)"
  have "(word_of_int ?W :: int64) \<noteq> 0" using i(2) N(3) by (metis less_irrefl sint_0 sint_of_int64)
  then have "allocated_strategy score req al ws = Some ?s"
    unfolding allocated_strategy_def strategy_fold by simp
  moreover have "sint ?s = ?N div ?W" using i N q by (simp add: sdiv64_def sint_of_int64 go_div_nonneg in_int64_def)
  ultimately show ?thesis using q by auto
qed


text \<open>The running minimum over the NUMA nodes ignores zero scores.\<close>

lemma least_nonzero_fold:
  fixes xs :: "int64 list"
  defines "f \<equiv> \<lambda>m x. if m = 0 \<or> (x \<noteq> 0 \<and> slt x m) then x else m"
  shows "(foldl f m0 xs = 0 \<longleftrightarrow> (\<forall>x \<in> set (m0 # xs). x = 0)) \<and> foldl f m0 xs \<in> set (m0 # xs) \<and>
    (\<forall>x \<in> set (m0 # xs). x \<noteq> 0 \<longrightarrow> sint (foldl f m0 xs) \<le> sint x)"
proof (induction xs arbitrary: m0)
  case (Cons x xs)
  let ?m = "f m0 x"
  have "foldl f m0 (x # xs) = foldl f ?m xs" by simp
  moreover have "(?m = 0 \<longleftrightarrow> m0 = 0 \<and> x = 0) \<and> ?m \<in> {m0, x} \<and> (m0 \<noteq> 0 \<longrightarrow> ?m \<noteq> 0 \<and> sint ?m \<le> sint m0) \<and>
      (x \<noteq> 0 \<longrightarrow> ?m \<noteq> 0 \<and> sint ?m \<le> sint x)"
    by (auto simp: f_def slt_def)
  ultimately show ?case using Cons.IH [of ?m] by (smt (verit) insert_iff list.simps(15) singletonD)
qed simp

lemma scoreForEach_least:
  assumes "\<forall>numa \<in> set nodes. numa_NUMAID numa < length nodes \<and> score req (numa_Resources numa) ws = Some (g numa)"
  shows "\<exists>s. scoreForEachNUMANode req nodes score ws = Some s \<and> (s = 0 \<longleftrightarrow> (\<forall>numa \<in> set nodes. g numa = 0)) \<and>
    (s \<noteq> 0 \<longrightarrow> s \<in> g ` set nodes) \<and> (\<forall>numa \<in> set nodes. g numa \<noteq> 0 \<longrightarrow> sint s \<le> sint (g numa))"
proof -
  let ?f = "\<lambda>m x. if m = 0 \<or> (x \<noteq> 0 \<and> slt x m) then x else (m :: int64)"
  have "scoreForEachNUMANode req nodes score ws = Some (foldl (\<lambda>m numa. ?f m (g numa)) 0 nodes)"
    unfolding scoreForEachNUMANode_def using assms by (intro foldM_Some_foldl) simp
  also have "foldl (\<lambda>m numa. ?f m (g numa)) 0 nodes = foldl ?f 0 (map g nodes)" by (simp add: foldl_map)
  finally show ?thesis using least_nonzero_fold [of 0 "map g nodes"] by auto
qed

text \<open>
  The least-allocated and most-allocated scores at pod scope are percentages. If the NUMA IDs have no
  gaps, quantities and weights are moderate and the pod requests something, scoring neither panics nor
  leaves the framework's range, and the score is the least non-zero score among the NUMA nodes
  (zero only if every NUMA node scores zero).
\<close>

theorem allocation_score_range:
  assumes "strategy = leastAllocatedScoreStrategy \<or> strategy = mostAllocatedScoreStrategy"
    and "GetPodEffectiveRequest pod \<noteq> []" and "\<forall>r. moderate_quantity (map_getd 0 (GetPodEffectiveRequest pod) r)"
    and "(\<Sum>(r, q) \<leftarrow> GetPodEffectiveRequest pod. sint (rw_weight ws r)) \<le> 2 ^ 55"
    and "\<forall>numa \<in> set (createNUMANodeList zones). numa_NUMAID numa < length (createNUMANodeList zones) \<and>
      (\<forall>r. moderate_quantity (map_getd 0 (numa_Resources numa) r))"
  shows "\<exists>s. podScopeScore pod zones strategy ws = Some s \<and> 0 \<le> sint s \<and> sint s \<le> 100 \<and>
    (\<forall>numa \<in> set (createNUMANodeList zones). \<forall>x. strategy (GetPodEffectiveRequest pod) (numa_Resources numa) ws = Some x \<and> x \<noteq> 0 \<longrightarrow>
       s \<noteq> 0 \<and> sint s \<le> sint x)"
proof -
  let ?req = "GetPodEffectiveRequest pod" and ?nodes = "createNUMANodeList zones"
  have "\<exists>x. strategy ?req (numa_Resources numa) ws = Some x \<and> 0 \<le> sint x \<and> sint x \<le> 100" if "numa \<in> set ?nodes" for numa
  proof -
    have m: "\<forall>r. moderate_quantity (map_getd 0 (numa_Resources numa) r)" using assms(5) that by blast
    show ?thesis
      using assms(1) allocated_strategy_range [OF assms(2,4), of leastAllocatedScore "numa_Resources numa"]
        allocated_strategy_range [OF assms(2,4), of mostAllocatedScore "numa_Resources numa"] resource_scores_range assms(3) m
      by (auto simp: leastAllocatedScoreStrategy_def mostAllocatedScoreStrategy_def)
  qed
  then obtain g where g: "\<forall>numa \<in> set ?nodes. strategy ?req (numa_Resources numa) ws = Some (g numa) \<and> 0 \<le> sint (g numa) \<and> sint (g numa) \<le> 100"
    by metis
  with assms(5) have "\<forall>numa \<in> set ?nodes. numa_NUMAID numa < length ?nodes \<and> strategy ?req (numa_Resources numa) ws = Some (g numa)"
    by blast
  from scoreForEach_least [of ?nodes strategy ?req ws g, OF this] obtain s where
    s: "scoreForEachNUMANode ?req ?nodes strategy ws = Some s" "s = 0 \<longleftrightarrow> (\<forall>numa \<in> set ?nodes. g numa = 0)"
    "s \<noteq> 0 \<longrightarrow> s \<in> g ` set ?nodes" "\<forall>numa \<in> set ?nodes. g numa \<noteq> 0 \<longrightarrow> sint s \<le> sint (g numa)" by blast
  have "0 \<le> sint s \<and> sint s \<le> 100" using s(3) g by (cases "s = 0") auto
  then show ?thesis using s g by (intro exI [of _ s]) (auto simp: podScopeScore_def)
qed


section \<open>Concrete reports\<close>

definition demo_zone :: "string \<Rightarrow> Quantity \<Rightarrow> NrtZone" where
  "demo_zone name cpu = \<lparr>z_Name = name, z_Type = ''Node'', z_Costs = [(''node-0'', 10), (''node-1'', 20)],
     z_Resources = [\<lparr>ri_Name = ResourceCPU, ri_Capacity = cpu, ri_Allocatable = cpu, ri_Available = cpu\<rparr>,
       \<lparr>ri_Name = ResourceMemory, ri_Capacity = 10 ^ 12, ri_Allocatable = 10 ^ 12, ri_Available = 10 ^ 12\<rparr>]\<rparr>"

definition demo_big :: "NrtZone list" where
  "demo_big = [demo_zone ''node-0'' (4 * 10 ^ 9), demo_zone ''node-1'' (4 * 10 ^ 9)]"

definition demo_tight :: "NrtZone list" where
  "demo_tight = [demo_zone ''node-0'' (2 * 10 ^ 9), demo_zone ''node-1'' (2 * 10 ^ 9)]"

definition demo_gpod :: Pod where
  "demo_gpod = (let l = [(ResourceCPU, 3 * 10 ^ 9), (ResourceMemory, 10 ^ 9)]
     in demo_pod\<lparr>pod_containers := [\<lparr>ctr_requests = l, ctr_limits = l\<rparr>]\<rparr>)"

lemma demo_numa_ok: "numa_ok (createNUMANodeList demo_big)" "numa_ok (createNUMANodeList demo_tight)"
  by code_simp+

theorem numaNodesRequired_least_witness:
  "\<exists>c bm b. numaNodesRequired PodQOSGuaranteed (createNUMANodeList demo_tight) (GetPodEffectiveRequest demo_gpod) = Some (bm, b) \<and>
     bm_Count bm = length c \<and> combo_serves PodQOSGuaranteed (createNUMANodeList demo_tight) (GetPodEffectiveRequest demo_gpod) c"
proof -
  have "numaNodesRequired PodQOSGuaranteed (createNUMANodeList demo_tight) (GetPodEffectiveRequest demo_gpod) \<noteq> None" by code_simp
  then show ?thesis
    using numaNodesRequired_least [OF demo_numa_ok(2), of PodQOSGuaranteed "GetPodEffectiveRequest demo_gpod"] by auto
qed

text \<open>An executable form of the specification.\<close>

lemma needs_by_size:
  "needs qos nodes req k \<longleftrightarrow> 0 < k \<and> list_ex (combo_serves qos nodes req) (combs [0..<length nodes] k) \<and>
     list_all (\<lambda>j. list_all (\<lambda>c. \<not> combo_serves qos nodes req c) (combs [0..<length nodes] j)) [1..<k]"
proof -
  have "(\<forall>c. subseq c [0..<length nodes] \<and> c \<noteq> [] \<and> combo_serves qos nodes req c \<longrightarrow> k \<le> length c) \<longleftrightarrow>
      (\<forall>j \<in> {1..<k}. \<forall>c. subseq c [0..<length nodes] \<and> length c = j \<longrightarrow> \<not> combo_serves qos nodes req c)"
    by (auto simp: Suc_le_eq not_le)
  then show ?thesis by (auto simp: needs_def list_ex_iff list_all_iff set_combs)
qed

lemma demo_needs:
  "needs (GetPodQOS demo_gpod) (createNUMANodeList demo_big) (GetPodEffectiveRequest demo_gpod) 1"
  "needs (GetPodQOS demo_gpod) (createNUMANodeList demo_tight) (GetPodEffectiveRequest demo_gpod) 2"
  unfolding needs_by_size by code_simp+

theorem leastNUMA_prefers_fewer_witness:
  "sint (leastNUMAPodScopeScore demo_gpod demo_tight) < sint (leastNUMAPodScopeScore demo_gpod demo_big)"
proof -
  have "length (createNUMANodeList demo_big) \<le> 8" "length (createNUMANodeList demo_tight) \<le> 8"
    "\<not> onlyNonNUMAResources (createNUMANodeList demo_big) (GetPodEffectiveRequest demo_gpod)"
    "\<not> onlyNonNUMAResources (createNUMANodeList demo_tight) (GetPodEffectiveRequest demo_gpod)"
    by code_simp+
  from leastNUMA_prefers_fewer [OF demo_numa_ok this demo_needs] show ?thesis by simp
qed

definition demo_sparse :: NodeResourceTopology where
  "demo_sparse = \<lparr>nrt_name = ''n1'', nrt_annotations = None, nrt_TopologyPolicies = [''SingleNUMANodePodLevel''],
     nrt_Zones = [demo_zone ''node-1'' (4 * 10 ^ 9)], nrt_Attributes = []\<rparr>"

definition demo_tm :: TopologyMatch where
  "demo_tm = \<lparr>tm_weights = [], tm_cache = Passthrough \<lparr>nc_Get = (\<lambda>_. Some demo_sparse), nc_List = Inr [demo_sparse], nc_pods = Inr []\<rparr>,
     tm_strategyFunc = Some leastAllocatedScoreStrategy, tm_strategyType = LeastAllocated\<rparr>"

theorem sparse_numa_ids_panic_witness: "TM_Score demo_tm demo_gpod ''n1'' = None"
proof -
  have "GetPodQOS demo_gpod = PodQOSGuaranteed" "tm_strategyType demo_tm \<noteq> LeastNUMANodes"
    "cache_Get (tm_cache demo_tm) ''n1'' = (Some demo_sparse, True)"
    "topologyManagerConfigFromNodeResourceTopology demo_sparse =
      \<lparr>tmc_Scope = PodTopologyManagerScope, tmc_Policy = SingleNumaNodeTopologyManagerPolicy\<rparr>"
    "hd (createNUMANodeList (nrt_Zones demo_sparse)) \<in> set (createNUMANodeList (nrt_Zones demo_sparse))"
    "length (createNUMANodeList (nrt_Zones demo_sparse)) \<le> numa_NUMAID (hd (createNUMANodeList (nrt_Zones demo_sparse)))"
    by code_simp+
  from sparse_numa_ids_panic [OF this(1,3,2,4-6)] show ?thesis .
qed

lemma moderate_list: "list_all (\<lambda>(r, q). moderate_quantity q) m \<Longrightarrow> moderate_quantity (map_getd 0 m r)"
  by (auto simp: map_getd_def list_all_iff moderate_quantity_def split: option.splits dest!: map_of_SomeD)

theorem allocation_score_range_witness:
  "\<exists>s. podScopeScore demo_gpod demo_big leastAllocatedScoreStrategy [] = Some s \<and> 0 \<le> sint s \<and> sint s \<le> 100"
proof -
  have "GetPodEffectiveRequest demo_gpod \<noteq> []" "list_all (\<lambda>(r, q). moderate_quantity q) (GetPodEffectiveRequest demo_gpod)"
    "(\<Sum>(r, q) \<leftarrow> GetPodEffectiveRequest demo_gpod. sint (rw_weight [] r)) \<le> 2 ^ 55"
    "list_all (\<lambda>numa. numa_NUMAID numa < length (createNUMANodeList demo_big) \<and>
      list_all (\<lambda>(r, q). moderate_quantity q) (numa_Resources numa)) (createNUMANodeList demo_big)"
    by code_simp+
  then show ?thesis
    using allocation_score_range [of leastAllocatedScoreStrategy demo_gpod "[]" demo_big] moderate_list
    by (fastforce simp: list_all_iff)
qed

end
