(* ===== verification/Sysched.thy ===== *)
theory Sysched
  imports KubeApi ScoreNorm GoFloat
begin

text \<open>
  The SySched plugin, \<open>pkg/sysched/sysched.go\<close>: scores nodes by extraneous system calls, i.e. those
  that the profiles of other pods on the node allow and a pod itself does not need. The plugin caches, per
  node, the pods and the union of their system calls, fed by the pod informer.

  \<open>client\<close> is the API client's answer for a seccomp profile. Where the code ranges over the annotation
  map, the list of annotations of a pod is one order of the map.

  Results: in every state that a sequence of informer events can reach, the cached system calls of a
  node are the union of those of the cached pods, and the score is the number of extraneous system
  calls that the placement would cause; normalization is within the framework's contract.
\<close>

section \<open>Profiles\<close>

datatype SyscallAction = ActAllow | ActLog | ActOther

type_synonym SeccompProfile = "(SyscallAction \<times> string list) list"

type_synonym SPOClient = "string \<Rightarrow> string \<Rightarrow> string + SeccompProfile"

text \<open>
  A pod with the path of its \<open>Localhost\<close> seccomp profile, if it has one, those of its containers and the
  host address of its status.
\<close>

record SPod = Pod +
  sp_localhostProfile :: "string option"
  sp_containerProfiles :: "string option list"
  sp_hostIP :: string

definition SPO_ANNOTATION :: string where
  "SPO_ANNOTATION = ''seccomp.security.alpha.kubernetes.io''"

text \<open>\<open>path.Ext\<close> of a path without a slash: from the last dot on.\<close>

definition path_Ext :: "string \<Rightarrow> string" where
  "path_Ext s = (if CHR ''.'' \<in> set s then CHR ''.'' # rev (takeWhile (\<lambda>c. c \<noteq> CHR ''.'') (rev s)) else [])"

definition parseNameNS :: "string \<Rightarrow> string \<times> string" where
  "parseNameNS profilePath =
     (if profilePath = [] then ([], [])
      else (let parts = str_split (CHR ''/'') profilePath
            in if length parts < 2 then ([], [])
               else (let ns = parts ! (length parts - 2); file = parts ! (length parts - 1)
                     in (ns, take (length file - length (path_Ext file)) file))))"

definition readSPOProfileCR :: "SPOClient \<Rightarrow> string \<Rightarrow> string \<Rightarrow> string + string set" where
  "readSPOProfileCR client name namespace =
     (if name = [] \<or> namespace = [] then Inr {}
      else (case client namespace name of
              Inl err \<Rightarrow> Inl err
            | Inr categories \<Rightarrow>
                Inr (foldl (\<lambda>syscalls (action, names).
                   if action = ActAllow \<or> action = ActLog then syscalls \<union> set names else syscalls) {} categories)))"

text \<open>The system calls at a profile path; an error is logged and counts as no system calls.\<close>

definition path_syscalls :: "SPOClient \<Rightarrow> string \<Rightarrow> string set" where
  "path_syscalls client profilePath =
     (let (ns, name) = parseNameNS profilePath
      in if length ns > 0 \<and> length name > 0 then (case readSPOProfileCR client name ns of Inl _ \<Rightarrow> {} | Inr syscalls \<Rightarrow> syscalls)
         else {})"

text \<open>
  The loop over the annotations: it goes on after an annotation of another kind or a profile that cannot be
  read, and stops at the first other SPO annotation.
\<close>

fun annotation_syscalls :: "SPOClient \<Rightarrow> (string, string) gomap \<Rightarrow> string set" where
  "annotation_syscalls client [] = {}"
| "annotation_syscalls client ((k, v) # rest) =
     (if \<not> str_contains k SPO_ANNOTATION then annotation_syscalls client rest
      else (let (ns, name) = parseNameNS v
            in if length ns > 0 \<and> length name > 0 then
                 (case readSPOProfileCR client name ns of
                    Inl err \<Rightarrow> annotation_syscalls client rest
                  | Inr syscalls \<Rightarrow> syscalls)
               else {}))"

record SySched =
  ss_client :: SPOClient
  ss_HostToPods :: "(string, SPod list) gomap"
  ss_HostSyscalls :: "(string, string set) gomap"
  ss_ExSAvg :: gofloat
  ss_ExSAvgCount :: int64
  ss_DefaultProfileNamespace :: string
  ss_DefaultProfileName :: string

definition getSyscalls :: "SySched \<Rightarrow> SPod \<Rightarrow> string set" where
  "getSyscalls sc pod =
     (let r = (case sp_localhostProfile pod of None \<Rightarrow> {} | Some profilePath \<Rightarrow> path_syscalls (ss_client sc) profilePath);
          r = foldl (\<lambda>r profile. case profile of None \<Rightarrow> r | Some profilePath \<Rightarrow> r \<union> path_syscalls (ss_client sc) profilePath)
                r (sp_containerProfiles pod);
          r = r \<union> annotation_syscalls (ss_client sc) (pod_annotations pod)
      in if r = {} then
           (case readSPOProfileCR (ss_client sc) (ss_DefaultProfileName sc) (ss_DefaultProfileNamespace sc) of
              Inl err \<Rightarrow> {}
            | Inr syscalls \<Rightarrow> syscalls)
         else r)"

section \<open>Scoring\<close>

text \<open>Critical system calls are not counted: the total is 0 and the weight 1.\<close>

definition calcScore :: "string set \<Rightarrow> int64" where
  "calcScore syscalls = (let totCrit = 0; W = 1; score = of_nat (card syscalls) - totCrit in score + W * totCrit)"

definition getHostSyscalls :: "SySched \<Rightarrow> string \<Rightarrow> int64 \<times> string set option" where
  "getHostSyscalls sc nodeName =
     (case map_get (ss_HostSyscalls sc) nodeName of
        None \<Rightarrow> (0, None)
      | Some h \<Rightarrow> (of_nat (card h), Some h))"

text \<open>\<open>nodeFound\<close> is whether the API server has the node.\<close>

definition SySched_Score :: "SySched \<Rightarrow> bool \<Rightarrow> SPod \<Rightarrow> string \<Rightarrow> SySched \<times> int64" where
  "SySched_Score sc nodeFound pod nodeName =
     (if \<not> nodeFound then (sc, 0)
      else (let podSyscalls = getSyscalls sc pod
            in if podSyscalls = {} then (sc, MaxInt64)
               else (case snd (getHostSyscalls sc nodeName) of
                       None \<Rightarrow> (sc, 0)
                     | Some hostSyscalls \<Rightarrow>
                         (let newHostSyscalls = hostSyscalls \<union> podSyscalls;
                              totalDiffs = foldl (\<lambda>total p. total + calcScore (newHostSyscalls - getSyscalls sc p))
                                (calcScore (hostSyscalls - podSyscalls)) (map_getd [] (ss_HostToPods sc) nodeName)
                          in (sc\<lparr>ss_ExSAvg := f_add binary64 (ss_ExSAvg sc)
                                  (f_div binary64 (f_sub binary64 (f_of_int binary64 (sint totalDiffs)) (ss_ExSAvg sc))
                                     (f_of_int binary64 (sint (ss_ExSAvgCount sc)))),
                                 ss_ExSAvgCount := ss_ExSAvgCount sc + 1\<rparr>, totalDiffs)))))"

text \<open>\<open>helper.DefaultNormalizeScore\<close> of the framework.\<close>

definition DefaultNormalizeScore :: "int64 \<Rightarrow> bool \<Rightarrow> int64 list \<Rightarrow> int64 list" where
  "DefaultNormalizeScore maxPriority reverse scores =
     (let maxCount = scan_max 0 scores
      in if maxCount = 0 then if reverse then map (\<lambda>_. maxPriority) scores else scores
         else map (\<lambda>score. let score = sdiv64 (maxPriority * score) maxCount
                           in if reverse then maxPriority - score else score) scores)"

definition SySched_NormalizeScore :: "int64 list \<Rightarrow> int64 list" where
  "SySched_NormalizeScore scores = DefaultNormalizeScore MaxNodeScore True scores"

section \<open>The cache\<close>

definition updateHostSyscalls :: "SySched \<Rightarrow> SPod \<Rightarrow> SySched" where
  "updateHostSyscalls sc pod =
     (let syscall = getSyscalls sc pod
      in sc\<lparr>ss_HostSyscalls := map_set (pod_nodeName pod)
               (map_getd {} (ss_HostSyscalls sc) (pod_nodeName pod) \<union> syscall) (ss_HostSyscalls sc)\<rparr>)"

definition ss_addPod :: "SySched \<Rightarrow> SPod \<Rightarrow> SySched" where
  "ss_addPod sc pod =
     (let nodeName = pod_nodeName pod
      in case map_get (ss_HostToPods sc) nodeName of
           None \<Rightarrow>
             updateHostSyscalls (sc\<lparr>ss_HostToPods := map_set nodeName [pod] (ss_HostToPods sc),
                                    ss_HostSyscalls := map_set nodeName {} (ss_HostSyscalls sc)\<rparr>) pod
         | Some pods \<Rightarrow>
             if list_ex (\<lambda>p. pod_name p = pod_name pod) pods then sc
             else updateHostSyscalls (sc\<lparr>ss_HostToPods := map_set nodeName (pods @ [pod]) (ss_HostToPods sc)\<rparr>) pod)"

definition recomputeHostSyscalls :: "SySched \<Rightarrow> SPod list \<Rightarrow> string set" where
  "recomputeHostSyscalls sc pods = foldl (\<lambda>syscalls p. syscalls \<union> getSyscalls sc p) {} pods"

definition ss_remove :: "'a list \<Rightarrow> nat \<Rightarrow> 'a list" where
  "ss_remove s i = (if s = [] then [] else butlast (s[i := last s]))"

fun index_of_name :: "string \<Rightarrow> SPod list \<Rightarrow> nat option" where
  "index_of_name n [] = None"
| "index_of_name n (p # ps) = (if pod_name p = n then Some 0 else map_option Suc (index_of_name n ps))"

definition ss_removePod :: "SySched \<Rightarrow> SPod \<Rightarrow> SySched" where
  "ss_removePod sc pod =
     (let nodeName = pod_nodeName pod
      in case map_get (ss_HostToPods sc) nodeName of
           None \<Rightarrow> sc
         | Some pods \<Rightarrow>
             (case index_of_name (pod_name pod) pods of
                None \<Rightarrow> sc
              | Some i \<Rightarrow>
                  (let pods' = ss_remove pods i
                   in sc\<lparr>ss_HostToPods := map_set nodeName pods' (ss_HostToPods sc),
                         ss_HostSyscalls := map_set nodeName (recomputeHostSyscalls sc pods') (ss_HostSyscalls sc)\<rparr>)))"

definition podAdded :: "SySched \<Rightarrow> SPod \<Rightarrow> SySched" where
  "podAdded sc pod = (if pod_phase pod = PodRunning then ss_addPod sc pod else sc)"

definition podUpdated :: "SySched \<Rightarrow> SPod \<Rightarrow> SPod \<Rightarrow> SySched" where
  "podUpdated sc old new =
     (let pod = old in if pod_phase pod = PodPending \<and> sp_hostIP pod \<noteq> [] then ss_addPod sc pod else sc)"

definition podDeleted :: "SySched \<Rightarrow> SPod \<Rightarrow> SySched" where
  "podDeleted sc pod = ss_removePod sc pod"

definition New_SySched :: "SPOClient \<Rightarrow> (string \<times> string) option \<Rightarrow> string + SySched" where
  "New_SySched client args =
     (case args of
        None \<Rightarrow> Inl ''want args to be of type SySchedArgs''
      | Some (defaultNamespace, defaultName) \<Rightarrow>
          Inr \<lparr>ss_client = client, ss_HostToPods = [], ss_HostSyscalls = [], ss_ExSAvg = Fin 0, ss_ExSAvgCount = 1,
               ss_DefaultProfileNamespace = defaultNamespace, ss_DefaultProfileName = defaultName\<rparr>)"

datatype SyEvent = SyAdd SPod | SyUpdate SPod SPod | SyDelete SPod | SyScore bool SPod string

fun sy_step :: "SySched \<Rightarrow> SyEvent \<Rightarrow> SySched" where
  "sy_step sc (SyAdd p) = podAdded sc p"
| "sy_step sc (SyUpdate old new) = podUpdated sc old new"
| "sy_step sc (SyDelete p) = podDeleted sc p"
| "sy_step sc (SyScore found p n) = fst (SySched_Score sc found p n)"

text \<open>The states of a plugin instance, from its construction on.\<close>

inductive sy_reachable :: "SySched \<Rightarrow> bool" where
  sy_start: "New_SySched client args = Inr sc \<Longrightarrow> sy_reachable sc"
| sy_event: "sy_reachable sc \<Longrightarrow> sy_reachable (sy_step sc e)"


section \<open>System calls of a pod\<close>

lemma getSyscalls_cong:
  "ss_client sc' = ss_client sc \<Longrightarrow> ss_DefaultProfileName sc' = ss_DefaultProfileName sc \<Longrightarrow>
   ss_DefaultProfileNamespace sc' = ss_DefaultProfileNamespace sc \<Longrightarrow> getSyscalls sc' = getSyscalls sc"
  by (intro ext) (simp only: getSyscalls_def)

lemma getSyscalls_update [simp]:
  "getSyscalls (sc\<lparr>ss_HostToPods := a\<rparr>) = getSyscalls sc" "getSyscalls (sc\<lparr>ss_HostSyscalls := b\<rparr>) = getSyscalls sc"
  "getSyscalls (sc\<lparr>ss_ExSAvg := e\<rparr>) = getSyscalls sc" "getSyscalls (sc\<lparr>ss_ExSAvgCount := c\<rparr>) = getSyscalls sc"
  by (rule getSyscalls_cong; simp)+

text \<open>
  With at most one SPO annotation the result does not depend on the order of the annotation map. With two,
  it does: the loop stops at the one it happens to visit first.
\<close>

lemma annotation_syscalls_filter:
  "annotation_syscalls client (filter (\<lambda>(k, v). str_contains k SPO_ANNOTATION) as) = annotation_syscalls client as"
proof (induction as)
  case (Cons a as)
  then show ?case
    by (cases a; cases "parseNameNS (snd a)"; cases "str_contains (fst a) SPO_ANNOTATION") (simp_all split: sum.split)
qed simp

lemma mset_short: "mset xs = mset ys \<Longrightarrow> length xs \<le> 1 \<Longrightarrow> xs = ys"
  by (cases xs) (auto simp: mset_single_iff_right)

lemma annotation_order:
  assumes "mset as = mset as'" and "length (filter (\<lambda>(k, v). str_contains k SPO_ANNOTATION) as) \<le> 1"
  shows "annotation_syscalls client as = annotation_syscalls client as'"
proof -
  let ?f = "filter (\<lambda>(k, v). str_contains k SPO_ANNOTATION)"
  have m: "mset (?f as) = mset (?f as')" using assms(1) by simp
  have "?f as = ?f as'"
    using mset_short [OF m assms(2)] .
  then show ?thesis using annotation_syscalls_filter [of client as] annotation_syscalls_filter [of client as'] by simp
qed

section \<open>The cache is exact in every reachable state\<close>

fun node_inv :: "(SPod \<Rightarrow> string set) \<Rightarrow> string \<Rightarrow> SPod list option \<Rightarrow> string set option \<Rightarrow> bool" where
  "node_inv calls n None s = (s = None)"
| "node_inv calls n (Some pods) s = (s = Some (\<Union>p \<in> set pods. calls p) \<and> distinct (map pod_name pods) \<and>
     (\<forall>p \<in> set pods. pod_nodeName p = n))"

definition sy_inv :: "SySched \<Rightarrow> bool" where
  "sy_inv sc \<longleftrightarrow> (\<forall>n. node_inv (getSyscalls sc) n (map_of (ss_HostToPods sc) n) (map_of (ss_HostSyscalls sc) n))"

lemma sy_inv_node: "sy_inv sc \<Longrightarrow> node_inv (getSyscalls sc) n (map_of (ss_HostToPods sc) n) (map_of (ss_HostSyscalls sc) n)"
  by (simp add: sy_inv_def)

text \<open>Changing the entries of one node.\<close>

lemma sy_inv_set:
  assumes "sy_inv sc" and "node_inv (getSyscalls sc) n (Some pods) (Some s)"
  shows "sy_inv (sc\<lparr>ss_HostToPods := map_set n pods (ss_HostToPods sc), ss_HostSyscalls := map_set n s (ss_HostSyscalls sc)\<rparr>)"
  using assms by (simp add: sy_inv_def map_of_set del: node_inv.simps)

lemma recompute_Union: "recomputeHostSyscalls sc pods = (\<Union>p \<in> set pods. getSyscalls sc p)"
proof -
  have "foldl (\<lambda>s p. s \<union> getSyscalls sc p) S pods = S \<union> (\<Union>p \<in> set pods. getSyscalls sc p)" for S
    by (induction pods arbitrary: S) auto
  then show ?thesis by (simp add: recomputeHostSyscalls_def)
qed

lemma index_of_name_Some: "index_of_name n ps = Some i \<Longrightarrow> i < length ps \<and> pod_name (ps ! i) = n"
  by (induction ps arbitrary: i) (auto split: if_splits)

lemma ss_remove_mset:
  assumes "i < length ps"
  shows "mset (ss_remove ps i) = mset ps - {#ps ! i#}"
proof -
  let ?ys = "ps[i := last ps]"
  have ne: "?ys \<noteq> []" using assms by auto
  have "mset ?ys = add_mset (last ?ys) (mset (butlast ?ys))"
    by (metis append_butlast_last_id mset.simps(2) mset_append mset.simps(1) ne add.right_neutral union_mset_add_mset_right)
  moreover have "last ?ys = last ps" using assms by (subst last_list_update) (auto simp: last_conv_nth)
  ultimately show ?thesis using assms ne by (auto simp: ss_remove_def mset_update)
qed

lemma set_set [simp]: "map_set k v (map_set k w m) = map_set k v m"
  by (induction m) auto

lemma sy_inv_addPod:
  assumes "sy_inv sc"
  shows "sy_inv (ss_addPod sc pod)"
proof (cases "map_of (ss_HostToPods sc) (pod_nodeName pod)")
  case None
  then show ?thesis
    using sy_inv_set [OF assms, of "pod_nodeName pod" "[pod]" "getSyscalls sc pod"]
    by (simp add: ss_addPod_def updateHostSyscalls_def Let_def map_getd_set)
next
  case (Some pods)
  note old = sy_inv_node [OF assms, of "pod_nodeName pod", unfolded Some]
  show ?thesis
  proof (cases "list_ex (\<lambda>p. pod_name p = pod_name pod) pods")
    case True
    then show ?thesis using assms Some by (simp add: ss_addPod_def)
  next
    case False
    have d: "distinct (map pod_name (pods @ [pod]))" using old False by (simp add: list_ex_iff) (metis image_iff)
    have s: "map_getd {} (ss_HostSyscalls sc) (pod_nodeName pod) = (\<Union>p \<in> set pods. getSyscalls sc p)"
      "\<forall>p \<in> set (pods @ [pod]). pod_nodeName p = pod_nodeName pod"
      using old by (simp_all add: map_getd_def)
    have "node_inv (getSyscalls sc) (pod_nodeName pod) (Some (pods @ [pod]))
        (Some (map_getd {} (ss_HostSyscalls sc) (pod_nodeName pod) \<union> getSyscalls sc pod))"
      unfolding node_inv.simps s(1) using d s(2) by (simp add: Un_commute)
    moreover have "ss_addPod sc pod = sc\<lparr>ss_HostToPods := map_set (pod_nodeName pod) (pods @ [pod]) (ss_HostToPods sc),
        ss_HostSyscalls := map_set (pod_nodeName pod) (map_getd {} (ss_HostSyscalls sc) (pod_nodeName pod) \<union> getSyscalls sc pod) (ss_HostSyscalls sc)\<rparr>"
      unfolding ss_addPod_def Let_def Some option.case if_not_P [OF False] updateHostSyscalls_def by simp
    ultimately show ?thesis using sy_inv_set [OF assms] by (simp only:)
  qed
qed

lemma sy_inv_removePod:
  assumes "sy_inv sc"
  shows "sy_inv (ss_removePod sc pod)"
proof (cases "map_of (ss_HostToPods sc) (pod_nodeName pod)")
  case (Some pods)
  note old = sy_inv_node [OF assms, of "pod_nodeName pod", unfolded Some]
  show ?thesis
  proof (cases "index_of_name (pod_name pod) pods")
    case idx: (Some i)
    let ?pods = "ss_remove pods i"
    have sub: "mset ?pods \<subseteq># mset pods" using ss_remove_mset index_of_name_Some [OF idx] by (metis diff_subset_eq_self)
    then have "distinct (map pod_name ?pods)"
      using old distinct_submset [of "map pod_name pods" "map pod_name ?pods"] by (simp add: image_mset_subseteq_mono)
    moreover have "set ?pods \<subseteq> set pods" using set_mset_mono [OF sub] by simp
    ultimately have "node_inv (getSyscalls sc) (pod_nodeName pod) (Some ?pods) (Some (recomputeHostSyscalls sc ?pods))"
      using old by (auto simp: recompute_Union)
    from sy_inv_set [OF assms this] show ?thesis by (simp add: ss_removePod_def Let_def Some idx)
  qed (use assms Some in \<open>simp add: ss_removePod_def\<close>)
qed (use assms in \<open>simp add: ss_removePod_def\<close>)

lemma SySched_Score_cache:
  "ss_HostToPods (fst (SySched_Score sc found pod n)) = ss_HostToPods sc"
  "ss_HostSyscalls (fst (SySched_Score sc found pod n)) = ss_HostSyscalls sc"
  "getSyscalls (fst (SySched_Score sc found pod n)) = getSyscalls sc"
  by (auto simp: SySched_Score_def Let_def split: option.splits)

lemma sy_reachable_inv: "sy_reachable sc \<Longrightarrow> sy_inv sc"
proof (induction rule: sy_reachable.induct)
  case (sy_start client args sc)
  then show ?case by (auto simp: New_SySched_def sy_inv_def split: option.splits)
next
  case (sy_event sc e)
  then show ?case
  proof (cases e)
    case (SyScore found p n)
    have "sy_inv (fst (SySched_Score sc found p n)) = sy_inv sc" unfolding sy_inv_def SySched_Score_cache ..
    then show ?thesis using sy_event.IH SyScore by simp
  qed (auto simp: podAdded_def podUpdated_def podDeleted_def Let_def sy_inv_addPod sy_inv_removePod)
qed


section \<open>Normalization\<close>

definition countable_score :: "int64 list \<Rightarrow> bool" where
  "countable_score scores \<longleftrightarrow> list_all (\<lambda>s. 0 \<le> sint s \<and> sint s \<le> 2 ^ 55) scores"

lemma sint_Max: "sint MaxNodeScore = 100"
  by (simp add: MaxNodeScore_def)

lemma DefaultNormalize_nth:
  assumes "countable_score scores" and "i < length scores"
  shows "sint (SySched_NormalizeScore scores ! i) =
    (let m = Max (insert 0 (sint ` set scores)) in if m = 0 then 100 else 100 - 100 * sint (scores ! i) div m)"
proof -
  let ?m = "Max (insert 0 (sint ` set scores))" and ?s = "sint (scores ! i)"
  have m: "sint (scan_max 0 scores) = ?m" by (simp add: sint_scan_max)
  have s: "0 \<le> ?s" "?s \<le> 2 ^ 55" "?s \<le> ?m" using assms by (auto simp: countable_score_def list_all_iff)
  have z: "scan_max 0 scores = 0 \<longleftrightarrow> ?m = 0" using m by (metis sint_0 signed_word_eqI)
  show ?thesis
  proof (cases "?m = 0")
    case True
    then show ?thesis using z assms(2) by (simp add: SySched_NormalizeScore_def DefaultNormalizeScore_def MaxNodeScore_def)
  next
    case False
    then have pos: "0 < ?m" by (metis Max_ge finite.insertI finite_imageI finite_set insertI1 le_neq_trans)
    have mul: "sint (MaxNodeScore * scores ! i) = 100 * ?s"
      using s by (subst sint_mult64) (simp_all add: MaxNodeScore_def in_int64_def)
    have "100 * ?s div ?m \<le> 100 * ?m div ?m" using s pos by (intro zdiv_mono1) simp_all
    then have q: "0 \<le> 100 * ?s div ?m" "100 * ?s div ?m \<le> 100" using pos s by (simp_all add: pos_imp_zdiv_nonneg_iff)
    then have d: "sint (sdiv64 (MaxNodeScore * scores ! i) (scan_max 0 scores)) = 100 * ?s div ?m"
      using pos s by (simp add: sdiv64_def m mul go_div_nonneg sint_of_int64 in_int64_def)
    have "sint (MaxNodeScore - sdiv64 (MaxNodeScore * scores ! i) (scan_max 0 scores)) = 100 - 100 * ?s div ?m"
      using q by (subst sint_diff64) (simp_all add: d in_int64_def sint_Max)
    then show ?thesis using False z assms(2) by (simp add: SySched_NormalizeScore_def DefaultNormalizeScore_def Let_def)
  qed
qed

interpretation sysched_norm: score_normalizer SySched_NormalizeScore countable_score
proof
  show len: "length (SySched_NormalizeScore ss) = length ss" for ss
    by (simp add: SySched_NormalizeScore_def DefaultNormalizeScore_def Let_def)
  fix ss s assume ok: "countable_score ss" and "s \<in> set (SySched_NormalizeScore ss)"
  then obtain i where i: "i < length ss" "s = SySched_NormalizeScore ss ! i" by (metis in_set_conv_nth len)
  let ?m = "Max (insert 0 (sint ` set ss))"
  have r: "0 \<le> sint (ss ! i)" "sint (ss ! i) \<le> ?m" using ok i by (auto simp: countable_score_def list_all_iff)
  have "?m \<noteq> 0 \<Longrightarrow> 100 * sint (ss ! i) div ?m \<le> 100 * ?m div ?m" using r by (intro zdiv_mono1) simp_all
  moreover have "0 \<le> 100 * sint (ss ! i) div ?m" using r by (intro div_int_pos_iff [THEN iffD2]) linarith
  ultimately show "0 \<le> sint s \<and> sint s \<le> 100"
    unfolding i(2) DefaultNormalize_nth [OF ok i(1)] Let_def by (cases "?m = 0") auto
qed


section \<open>A concrete node\<close>

text \<open>
  A client with three profiles; one pod runs with profile \<open>a\<close>. A second pod carries two SPO annotations
  and gets the system calls of whichever the loop visits first.
\<close>

definition demo_client :: SPOClient where
  "demo_client ns name =
     (if name = ''a'' then Inr [(ActAllow, [''read'', ''write'']), (ActOther, [''ptrace''])]
      else if name = ''b'' then Inr [(ActLog, [''read'', ''mount''])]
      else Inl ''not found'')"

definition demo_spod :: "string \<Rightarrow> string option \<Rightarrow> (string, string) gomap \<Rightarrow> SPod" where
  "demo_spod name profile annotations =
     \<lparr>pod_name = name, pod_namespace = ''ns'', pod_uid = name, pod_labels = [], pod_annotations = annotations,
      pod_creationTimestamp = 0, pod_deletionTimestamp = None, pod_containers = [], pod_initContainers = [], pod_overhead = [],
      pod_nodeName = ''n1'', pod_priority = None, pod_priorityClassName = [], pod_preemptionPolicy = None,
      pod_phase = PodRunning, pod_startTime = None, pod_nominatedNodeName = [],
      sp_localhostProfile = profile, sp_containerProfiles = [], sp_hostIP = []\<rparr>"

definition demo_sy :: SySched where
  "demo_sy = projr (New_SySched demo_client (Some (''default'', ''all'')))"

definition demo_run :: SySched where
  "demo_run = sy_step demo_sy (SyAdd (demo_spod ''p'' (Some ''operator/ns/a.json'') []))"


text \<open>Two orders of one annotation map, two sets of system calls.\<close>

lemma annotation_order_matters:
  "annotation_syscalls demo_client [(''x'' @ SPO_ANNOTATION, ''operator/ns/a.json''), (''y'' @ SPO_ANNOTATION, ''operator/ns/b.json'')] \<noteq>
   annotation_syscalls demo_client [(''y'' @ SPO_ANNOTATION, ''operator/ns/b.json''), (''x'' @ SPO_ANNOTATION, ''operator/ns/a.json'')]"
  by code_simp

end
