(* ===== verification/ConfigPlugins.thy ===== *)
theory ConfigPlugins
  imports ConfigV1beta3 TrimaranRisk NodeResources PreemptionToleration NrtScore Coscheduling Sysched
begin

text \<open>
  From a configuration file to a plugin: an object of version v1 (by \<open>v1beta3_migration\<close> it could be of
  v1beta3) is loaded and handed to the plugin's constructor. The theorems say which configurations the
  constructors accept and what the defaults guarantee to the scores.
\<close>

section \<open>Which configurations are accepted\<close>

text \<open>The metric provider that is left after defaulting has to be known, unless a load watcher is named.\<close>

definition provider_ok :: "TrimaranSpec_v \<Rightarrow> bool" where
  "provider_ok t \<longleftrightarrow>
     (case vts_WatcherAddress t of None \<Rightarrow> vmp_Type (vts_MetricProvider t) = [] | Some w \<Rightarrow> w \<noteq> []) \<or>
     vmp_Type (vts_MetricProvider t) \<in> {KubernetesMetricsServer, Prometheus, SignalFx}"

lemma checkSpecs_loaded:
  "checkSpecs (Convert_v1_TrimaranSpec_To_config_TrimaranSpec (SetDefaultTrimaranSpec t)) = None \<longleftrightarrow> provider_ok t"
  by (auto simp: checkSpecs_def provider_ok_def Convert_defs SetDefaultTrimaranSpec_def Let_def DefaultMetricProviderType_def
      deref_def config_names split: option.splits)

lemma NewCollector_accepts: "\<not> isl (NewCollector spec answer) \<longleftrightarrow> checkSpecs spec = None"
  by (simp add: NewCollector_def split: option.splits)

lemma validateResources_ok: "validateResources rs = None \<longleftrightarrow> list_all (\<lambda>r. 0 < sint (rs_Weight r)) rs"
  by (induction rs) (auto simp: sle_def)

definition accepted_v1 :: "(string \<Rightarrow> gofloat option) \<Rightarrow> PluginArgs_v \<Rightarrow> bool" where
  "accepted_v1 ParseFloat obj =
     (case obj of
        VCoscheduling a \<Rightarrow> (case vcs_PodGroupBackoffSeconds a of None \<Rightarrow> True | Some b \<Rightarrow> 0 \<le> sint b)
      | VNodeResourcesAllocatable a \<Rightarrow>
          nra_Mode a \<in> {[], mode_Least, mode_Most} \<and> list_all (\<lambda>r. 0 < sint (rs_Weight r)) (nra_Resources a)
      | VTargetLoadPacking a \<Rightarrow>
          provider_ok (vtl_TrimaranSpec a) \<and>
          ParseFloat (case vtl_DefaultRequestsMultiplier a of None \<Rightarrow> ''1.5'' | Some m \<Rightarrow> m) \<noteq> None
      | VLoadVariationRiskBalancing a \<Rightarrow> provider_ok (vlv_TrimaranSpec a)
      | VLowRiskOverCommitment a \<Rightarrow> provider_ok (vlr_TrimaranSpec a)
      | VPreemptionToleration a \<Rightarrow>
          (case vpt_MinCandidateNodesPercentage a of None \<Rightarrow> True | Some p \<Rightarrow> 0 \<le> sint p \<and> sint p \<le> 100) \<and>
          (case vpt_MinCandidateNodesAbsolute a of None \<Rightarrow> True | Some n \<Rightarrow> 0 \<le> sint n) \<and>
          \<not> (vpt_MinCandidateNodesPercentage a = Some 0 \<and> vpt_MinCandidateNodesAbsolute a = Some 0)
      | VNodeResourceTopologyMatch a \<Rightarrow>
          (case vtm_ScoringStrategy a of None \<Rightarrow> True | Some s \<Rightarrow> (\<forall>n. sst_Type s \<noteq> OtherStrategy n))
      | _ \<Rightarrow> True)"

text \<open>The constructors, on the arguments of their plugin.\<close>

record PluginWorld =
  pw_ParseFloat :: "string \<Rightarrow> gofloat option"
  pw_answer :: "string + WatcherMetrics"
  pw_variance :: "gofloat list \<Rightarrow> gofloat"
  pw_nrt :: NrtClient
  pw_spo :: SPOClient

definition constructor_accepts :: "PluginWorld \<Rightarrow> PluginArgs \<Rightarrow> bool" where
  "constructor_accepts w args =
     (case args of
        ICoscheduling a \<Rightarrow> \<not> isl (New_Coscheduling (csa_PermitWaitingTimeSeconds a) (csa_PodGroupBackoffSeconds a))
      | INodeResourcesAllocatable a \<Rightarrow> \<not> isl (NewAllocatable (ArgsAllocatable (nra_Mode a) (nra_Resources a)))
      | ITargetLoadPacking a \<Rightarrow> \<not> isl (New_TargetLoadPacking (pw_ParseFloat w) (Some a) (pw_answer w))
      | ILoadVariationRiskBalancing a \<Rightarrow> \<not> isl (New_LoadVariationRiskBalancing (Some a) (pw_answer w))
      | ILowRiskOverCommitment a \<Rightarrow> \<not> isl (New_LowRiskOverCommitment (Some a) (pw_answer w))
      | IPreemptionToleration a \<Rightarrow> \<not> isl (New_PreemptionToleration (Some a))
      | INodeResourceTopologyMatch a \<Rightarrow> \<not> isl (New_TopologyMatch (pw_variance w) (Some a) (pw_nrt w))
      | ISySched a \<Rightarrow> \<not> isl (New_SySched (pw_spo w) (Some (sya_DefaultProfileNamespace a, sya_DefaultProfileName a)))
      | _ \<Rightarrow> True)"

lemma accepts_allocatable:
  "\<not> isl (NewAllocatable (ArgsAllocatable mode rs)) \<longleftrightarrow>
     mode \<in> {[], mode_Least, mode_Most} \<and> list_all (\<lambda>r. 0 < sint (rs_Weight r)) rs"
  using validateResources_ok [of rs] by (auto simp: NewAllocatable_def Let_def split: option.splits)

lemma accepts_topology:
  "nc_List client = Inr items \<Longrightarrow>
   \<not> isl (New_TopologyMatch variance (Some a) client) \<longleftrightarrow> (\<forall>n. sst_Type (tma_ScoringStrategy a) \<noteq> OtherStrategy n)"
  by (auto simp: New_TopologyMatch_def validateScoringStrategyType_def initNodeTopologyInformer_def NewOverReserve_def
      getScoringStrategyFunction_def split: ScoringStrategyType.splits)

lemma accepts_tlp:
  fixes a :: TargetLoadPackingArgs_v
  defines "i \<equiv> Convert_v1_TargetLoadPackingArgs_To_config_TargetLoadPackingArgs (SetDefaults_TargetLoadPackingArgs a)"
  shows "\<not> isl (New_TargetLoadPacking ParseFloat (Some i) answer) \<longleftrightarrow>
    provider_ok (vtl_TrimaranSpec a) \<and> ParseFloat (case vtl_DefaultRequestsMultiplier a of None \<Rightarrow> ''1.5'' | Some m \<Rightarrow> m) \<noteq> None"
proof -
  have s: "tlp_TrimaranSpec i = Convert_v1_TrimaranSpec_To_config_TrimaranSpec (SetDefaultTrimaranSpec (vtl_TrimaranSpec a))"
    "tlp_DefaultRequestsMultiplier i = (case vtl_DefaultRequestsMultiplier a of None \<Rightarrow> ''1.5'' | Some m \<Rightarrow> m)"
    by (simp_all add: i_def Convert_v1_TargetLoadPackingArgs_To_config_TargetLoadPackingArgs_def SetDefaults_TargetLoadPackingArgs_def
        Let_def DefaultRequestsMultiplier_def split: option.splits)
  have "\<not> isl (New_TargetLoadPacking ParseFloat (Some i) answer) \<longleftrightarrow>
      \<not> isl (NewCollector (tlp_TrimaranSpec i) answer) \<and> ParseFloat (tlp_DefaultRequestsMultiplier i) \<noteq> None"
    by (auto simp: New_TargetLoadPacking_def split: sum.splits option.splits)
  then show ?thesis by (simp add: NewCollector_accepts s checkSpecs_loaded)
qed

lemma accepts_lvrb:
  "\<not> isl (New_LoadVariationRiskBalancing (Some (Convert_v1_LoadVariationRiskBalancingArgs_To_config_LoadVariationRiskBalancingArgs
      (SetDefaults_LoadVariationRiskBalancingArgs a))) answer) \<longleftrightarrow> provider_ok (vlv_TrimaranSpec a)"
  (is "\<not> isl (New_LoadVariationRiskBalancing (Some ?i) answer) \<longleftrightarrow> _")
proof -
  have "lvr_TrimaranSpec ?i = Convert_v1_TrimaranSpec_To_config_TrimaranSpec (SetDefaultTrimaranSpec (vlv_TrimaranSpec a))"
    by (simp add: Convert_v1_LoadVariationRiskBalancingArgs_To_config_LoadVariationRiskBalancingArgs_def
        SetDefaults_LoadVariationRiskBalancingArgs_def Let_def)
  moreover have "\<not> isl (New_LoadVariationRiskBalancing (Some i) answer) \<longleftrightarrow> \<not> isl (NewCollector (lvr_TrimaranSpec i) answer)" for i
    by (simp add: New_LoadVariationRiskBalancing_def split: sum.splits)
  ultimately show ?thesis by (simp add: NewCollector_accepts checkSpecs_loaded)
qed

lemma accepts_lroc:
  "\<not> isl (New_LowRiskOverCommitment (Some (Convert_v1_LowRiskOverCommitmentArgs_To_config_LowRiskOverCommitmentArgs
      (SetDefaults_LowRiskOverCommitmentArgs a))) answer) \<longleftrightarrow> provider_ok (vlr_TrimaranSpec a)"
  (is "\<not> isl (New_LowRiskOverCommitment (Some ?i) answer) \<longleftrightarrow> _")
proof -
  have "lro_TrimaranSpec ?i = Convert_v1_TrimaranSpec_To_config_TrimaranSpec (SetDefaultTrimaranSpec (vlr_TrimaranSpec a))"
    by (simp add: Convert_v1_LowRiskOverCommitmentArgs_To_config_LowRiskOverCommitmentArgs_def
        SetDefaults_LowRiskOverCommitmentArgs_def Let_def)
  moreover have "\<not> isl (New_LowRiskOverCommitment (Some i) answer) \<longleftrightarrow> \<not> isl (NewCollector (lro_TrimaranSpec i) answer)" for i
    by (simp add: New_LowRiskOverCommitment_def split: sum.splits)
  ultimately show ?thesis by (simp add: NewCollector_accepts checkSpecs_loaded)
qed

lemmas verdict_defs = load_v1_def accepted_v1_def constructor_accepts_def Let_def


definition demo_world :: PluginWorld where
  "demo_world = \<lparr>pw_ParseFloat = (\<lambda>s. if s = ''1.5'' then Some (Fin (3 / 2)) else None), pw_answer = Inl ''no answer'',
     pw_variance = (\<lambda>_. Fin 0), pw_nrt = \<lparr>nc_Get = (\<lambda>_. None), nc_List = Inr [], nc_pods = Inr []\<rparr>, pw_spo = demo_client\<rparr>"

definition demo_bare :: TargetLoadPackingArgs_v where
  "demo_bare = \<lparr>vtl_TrimaranSpec = \<lparr>vts_MetricProvider = \<lparr>vmp_Type = [], vmp_Address = None, vmp_Token = None, vmp_InsecureSkipVerify = None\<rparr>,
     vts_WatcherAddress = None\<rparr>, vtl_DefaultRequests = None, vtl_DefaultRequestsMultiplier = None, vtl_TargetUtilization = None\<rparr>"


section \<open>What the defaults give the scores\<close>

lemma packing_over_target:
  assumes "sint target = t" "100 < t" "t \<le> 2 ^ 52"
  shows "sint (packing_score target (Fin 0)) = t"
proof -
  have t: "f_of_int binary64 t = Fin (of_int t)" using f64_of_int [of t] assms(2,3) by simp
  have "\<bar>100 - t\<bar> \<le> 2 ^ 52" using assms(2,3) by simp
  from fl64_of_int [OF this] have d: "f_sub binary64 (Fin 100) (Fin (of_int t)) = Fin (of_int (100 - t))" by (simp add: f_sub_def)
  have z: "fl binary64 0 = Fin 0" using fl64_of_int [of 0] by simp
  have p: "(0 :: rat) < of_int t" using assms(2) by simp
  have "packing_score target (Fin 0) = f_to_int64 (Fin (of_int t))"
    using fl64_of_int [of t] assms p by (simp add: packing_score_def Let_def t d z f_lt_def f_eq_def)
  then show ?thesis using assms(2,3) by (simp add: rat_trunc_def in_int64_def sint_of_int64)
qed

lemma loaded_target:
  assumes "load_v1 (VTargetLoadPacking a) = Some (ITargetLoadPacking i)"
    and "New_TargetLoadPacking ParseFloat (Some i) answer = Inr (cfg, collected)"
  shows "1 \<le> sint (hostTargetUtilizationPercent cfg)"
proof -
  have i: "i = Convert_v1_TargetLoadPackingArgs_To_config_TargetLoadPackingArgs (SetDefaults_TargetLoadPackingArgs a)"
    using assms(1) by (simp add: load_v1_def)
  have "complete_args (VTargetLoadPacking (SetDefaults_TargetLoadPackingArgs a))"
    using v1.defaults_complete [of "VTargetLoadPacking a"] by simp
  then have "0 < sint (tlp_TargetUtilization i)"
    by (auto simp: i Convert_v1_TargetLoadPackingArgs_To_config_TargetLoadPackingArgs_def split: option.splits)
  moreover have "hostTargetUtilizationPercent cfg = tlp_TargetUtilization i"
    using assms(2) by (auto simp: New_TargetLoadPacking_def split: sum.splits option.splits)
  ultimately show ?thesis by simp
qed



end
