(* ===== verification/PodGroupController.thy ===== *)
theory PodGroupController
  imports PodGroups QueueSort
begin

text \<open>
  \<open>pkg/controllers/podgroup_controller.go\<close>: the controller that keeps the status of a pod group. The
  API server is an argument of \<open>PG_Reconcile\<close> (what a get, a list and the two patches answer); the
  result holds the status that was written, the warning event and the error. A panic is \<^const>\<open>None\<close>.

  The theory gives the controller as a state machine over the stored group, an invariant that ties
  the recorded phase to the recorded counts in every reachable state, and convergence: while the pods
  do not change, three reconciliations reach a status that further ones keep.
\<close>

section \<open>Objects\<close>

text \<open>\<open>PodGroupPhase\<close> is a string; the empty one and the declared constants have names.\<close>

datatype PodGroupPhase =
  PhaseUnset | PodGroupPending | PodGroupRunning | PodGroupScheduling | PodGroupUnknown
| PodGroupFinished | PodGroupFailed | PhaseOther string

record PodGroupObj = PodGroup +
  pgs_Phase :: PodGroupPhase
  pgs_OccupiedBy :: string
  pgs_Running :: int32
  pgs_Succeeded :: int32
  pgs_Failed :: int32
  pgs_ScheduleStartTime :: int

record OwnedPod = Pod +
  pod_ownerReferences :: "string list"

datatype 'a GetResult = NotFound | GetError string | Found 'a

record PGClient =
  pc_Get :: "string \<Rightarrow> string \<Rightarrow> PodGroupObj GetResult"
  pc_List :: "string + OwnedPod list"
  pc_StatusPatch :: "string option"
  pc_Patch :: "string option"

record PGOutcome =
  po_written :: "PodGroupObj option"
  po_timeoutEvent :: bool
  po_err :: "string option"

section \<open>Operations\<close>

text \<open>\<open>Time.Sub\<close> saturates at the bounds of \<open>Duration\<close>.\<close>

definition time_Sub :: "int \<Rightarrow> int \<Rightarrow> int" where
  "time_Sub t u = max (- (2 ^ 63)) (min (2 ^ 63 - 1) (t - u))"

definition hours48 :: int where
  "hours48 = 48 * 3600 * 1000000000"

definition stat_step :: "int32 \<times> int32 \<times> int32 \<Rightarrow> OwnedPod \<Rightarrow> int32 \<times> int32 \<times> int32" where
  "stat_step acc pod =
     (case acc of (running, succeeded, failed) \<Rightarrow>
        (case pod_phase pod of
           PodRunning \<Rightarrow> (running + 1, succeeded, failed)
         | PodSucceeded \<Rightarrow> (running, succeeded + 1, failed)
         | PodFailed \<Rightarrow> (running, succeeded, failed + 1)
         | _ \<Rightarrow> (running, succeeded, failed)))"

definition getCurrentPodStats :: "OwnedPod list \<Rightarrow> int32 \<times> int32 \<times> int32" where
  "getCurrentPodStats pods = (if length pods = 0 then (0, 0, 0) else foldl stat_step (0, 0, 0) pods)"

definition fillOccupiedObj :: "PodGroupObj \<Rightarrow> OwnedPod \<Rightarrow> PodGroupObj" where
  "fillOccupiedObj pg pod =
     (if length (pod_ownerReferences pod) = 0 then pg
      else (let refs = map (\<lambda>name. pod_namespace pod @ ''/'' @ name) (pod_ownerReferences pod)
            in if length refs \<noteq> 0 then pg\<lparr>pgs_OccupiedBy := str_join '','' (sort refs)\<rparr> else pg))"

text \<open>The switch over the current phase: the status to write.\<close>

definition next_status :: "PodGroupObj \<Rightarrow> OwnedPod list \<Rightarrow> PodGroupObj option" where
  "next_status pg pods =
     (case pgs_Phase pg of
        PhaseUnset \<Rightarrow> Some (pg\<lparr>pgs_Phase := PodGroupPending\<rparr>)
      | PodGroupPending \<Rightarrow>
          if int (length pods) \<ge> sint (pg_MinMember pg) then
            (case pods of
               [] \<Rightarrow> None
             | pod # _ \<Rightarrow> Some (fillOccupiedObj (pg\<lparr>pgs_Phase := PodGroupScheduling\<rparr>) pod))
          else Some pg
      | _ \<Rightarrow>
          (let (running, succeeded, failed) = getCurrentPodStats pods;
               pgc = pg\<lparr>pgs_Running := running, pgs_Succeeded := succeeded, pgs_Failed := failed\<rparr>;
               minMember = sint (pg_MinMember pg)
           in if int (length pods) < minMember then Some (pgc\<lparr>pgs_Phase := PodGroupPending\<rparr>)
              else
                (let pgc = (if sint (succeeded + running) < minMember then pgc\<lparr>pgs_Phase := PodGroupScheduling\<rparr> else pgc);
                     pgc = (if sint (succeeded + running) \<ge> minMember then pgc\<lparr>pgs_Phase := PodGroupRunning\<rparr> else pgc);
                     pgc = (if failed \<noteq> 0 \<and> sint (failed + running + succeeded) \<ge> minMember
                            then pgc\<lparr>pgs_Phase := PodGroupFailed\<rparr> else pgc);
                     pgc = (if sint succeeded \<ge> minMember then pgc\<lparr>pgs_Phase := PodGroupFinished\<rparr> else pgc)
                 in Some pgc)))"

definition patchPodGroup :: "PGClient \<Rightarrow> PodGroupObj \<Rightarrow> PGOutcome" where
  "patchPodGroup c new =
     (case pc_StatusPatch c of
        Some err \<Rightarrow> \<lparr>po_written = None, po_timeoutEvent = False, po_err = Some err\<rparr>
      | None \<Rightarrow> \<lparr>po_written = Some new, po_timeoutEvent = False, po_err = pc_Patch c\<rparr>)"

definition nothing_written :: "string option \<Rightarrow> PGOutcome" where
  "nothing_written err = \<lparr>po_written = None, po_timeoutEvent = False, po_err = err\<rparr>"

text \<open>The pods of a group are those carrying its name in their label, in every namespace.\<close>

definition group_pods :: "PodGroupObj \<Rightarrow> OwnedPod list \<Rightarrow> OwnedPod list" where
  "group_pods pg pods = filter (\<lambda>p. map_get (pod_labels p) PodGroupLabel = Some (pg_name pg)) pods"

definition scheduled_late :: "PodGroupObj \<Rightarrow> bool" where
  "scheduled_late pg \<longleftrightarrow> time_Sub (pgs_ScheduleStartTime pg) (pg_creationTimestamp pg) > hours48"

definition PG_Reconcile :: "PGClient \<Rightarrow> string \<Rightarrow> string \<Rightarrow> PGOutcome option" where
  "PG_Reconcile c namespace name =
     (case pc_Get c namespace name of
        NotFound \<Rightarrow> Some (nothing_written None)
      | GetError err \<Rightarrow> Some (nothing_written (Some err))
      | Found pg \<Rightarrow>
          if pgs_Phase pg = PodGroupFinished \<or> pgs_Phase pg = PodGroupFailed then Some (nothing_written None)
          else if (pgs_Phase pg = PodGroupScheduling \<or> pgs_Phase pg = PodGroupPending) \<and> pgs_Running pg = 0 \<and>
                  scheduled_late pg
          then Some ((nothing_written None)\<lparr>po_timeoutEvent := True\<rparr>)
          else (case pc_List c of
                  Inl err \<Rightarrow> Some (nothing_written (Some err))
                | Inr allPods \<Rightarrow>
                    (case next_status pg (group_pods pg allPods) of
                       None \<Rightarrow> None
                     | Some pgCopy \<Rightarrow> Some (patchPodGroup c pgCopy))))"

definition podToPodGroup :: "Pod option \<Rightarrow> (string \<times> string) list" where
  "podToPodGroup obj =
     (case obj of
        None \<Rightarrow> []
      | Some pod \<Rightarrow>
          (let pgName = GetPodGroupLabel pod
           in if length pgName = 0 then [] else [(pod_namespace pod, pgName)]))"

section \<open>Counting pods\<close>

definition n_phase :: "PodPhase \<Rightarrow> OwnedPod list \<Rightarrow> int" where
  "n_phase ph pods = int (length (filter (\<lambda>p. pod_phase p = ph) pods))"

lemma n_phase_Nil [simp]: "n_phase ph [] = 0"
  by (simp add: n_phase_def)

lemma n_phase_nonneg [simp]: "0 \<le> n_phase ph pods"
  by (simp add: n_phase_def)

lemma n_phase_sum_le: "n_phase PodRunning pods + n_phase PodSucceeded pods + n_phase PodFailed pods \<le> int (length pods)"
  by (induction pods) (auto simp: n_phase_def)

lemma foldl_stat_step:
  "foldl stat_step (a, b, c) pods =
     (a + of_int (n_phase PodRunning pods), b + of_int (n_phase PodSucceeded pods), c + of_int (n_phase PodFailed pods))"
proof (induction pods arbitrary: a b c)
  case (Cons p pods)
  then show ?case by (cases "pod_phase p") (simp_all add: stat_step_def n_phase_def algebra_simps)
qed simp

lemma getCurrentPodStats_counts:
  "getCurrentPodStats pods =
     (of_int (n_phase PodRunning pods), of_int (n_phase PodSucceeded pods), of_int (n_phase PodFailed pods))"
  by (simp add: getCurrentPodStats_def foldl_stat_step)

text \<open>The phase the counts of a list of pods call for.\<close>

definition target_phase :: "int \<Rightarrow> OwnedPod list \<Rightarrow> PodGroupPhase" where
  "target_phase m pods =
     (let r = n_phase PodRunning pods; s = n_phase PodSucceeded pods; f = n_phase PodFailed pods
      in if int (length pods) < m then PodGroupPending
         else if m \<le> s then PodGroupFinished
         else if f \<noteq> 0 \<and> m \<le> f + r + s then PodGroupFailed
         else if m \<le> s + r then PodGroupRunning
         else PodGroupScheduling)"

text \<open>The group with the counts of its pods and the phase they call for.\<close>

definition settle :: "OwnedPod list \<Rightarrow> PodGroupObj \<Rightarrow> PodGroupObj" where
  "settle pods pg =
     pg\<lparr>pgs_Running := of_int (n_phase PodRunning pods), pgs_Succeeded := of_int (n_phase PodSucceeded pods),
        pgs_Failed := of_int (n_phase PodFailed pods), pgs_Phase := target_phase (sint (pg_MinMember pg)) pods\<rparr>"

lemma sint_count32:
  assumes "0 \<le> x" "x \<le> int (length pods)" "length pods < 2 ^ 31"
  shows "sint (of_int x :: int32) = x"
  using assms by (intro sint_of_int32) auto

lemma next_status_counted:
  assumes "pgs_Phase pg \<notin> {PhaseUnset, PodGroupPending}" and "length pods < 2 ^ 31"
  shows "next_status pg pods =
    Some (settle pods pg)"
proof -
  let ?r = "n_phase PodRunning pods" and ?s = "n_phase PodSucceeded pods" and ?f = "n_phase PodFailed pods"
  have nn: "0 \<le> ?r" "0 \<le> ?s" "0 \<le> ?f" by simp_all
  note sum = n_phase_sum_le [of pods]
  note c = sint_count32 [OF _ _ assms(2)]
  have s: "sint (of_int ?s :: int32) = ?s" by (rule c) (use nn sum in linarith)+
  have "sint (of_int (?s + ?r) :: int32) = ?s + ?r" by (rule c) (use nn sum in linarith)+
  then have sr: "sint (of_int ?s + of_int ?r :: int32) = ?s + ?r" by simp
  have "sint (of_int (?f + ?r + ?s) :: int32) = ?f + ?r + ?s" by (rule c) (use nn sum in linarith)+
  then have frs: "sint (of_int ?f + of_int ?r + of_int ?s :: int32) = ?f + ?r + ?s" by simp
  have "sint (of_int ?f :: int32) = ?f" by (rule c) (use nn sum in linarith)+
  then have f: "(of_int ?f :: int32) = 0 \<longleftrightarrow> ?f = 0" by (metis of_int_0 sint_0)
  show ?thesis
    using assms(1) unfolding next_status_def getCurrentPodStats_counts
    by (cases "pgs_Phase pg") (simp_all add: Let_def s sr frs f target_phase_def settle_def)
qed
section \<open>The controller as a state machine\<close>

text \<open>
  The state is the stored group. It is created with an empty status; afterwards only reconciliations
  write its status, each seeing some list of pods. A reconciliation that fails or that has nothing to
  do leaves it as it is.
\<close>

inductive pg_reachable :: "PodGroupObj \<Rightarrow> bool" where
  created: "pgs_Phase pg = PhaseUnset \<Longrightarrow> pgs_Running pg = 0 \<Longrightarrow> pgs_Succeeded pg = 0 \<Longrightarrow> pgs_Failed pg = 0 \<Longrightarrow>
    0 < sint (pg_MinMember pg) \<Longrightarrow> pg_reachable pg"
| reconciled: "pg_reachable pg \<Longrightarrow> pc_Get c ns name = Found pg \<Longrightarrow>
    pc_List c = Inr pods \<Longrightarrow> length pods < 2 ^ 31 \<Longrightarrow>
    PG_Reconcile c ns name = Some out \<Longrightarrow> po_written out = Some pg' \<Longrightarrow> pg_reachable pg'"

definition status_consistent :: "PodGroupObj \<Rightarrow> bool" where
  "status_consistent pg \<longleftrightarrow>
     (let m = sint (pg_MinMember pg); r = sint (pgs_Running pg); s = sint (pgs_Succeeded pg); f = sint (pgs_Failed pg)
      in 0 < m \<and> 0 \<le> r \<and> 0 \<le> s \<and> 0 \<le> f \<and>
         (case pgs_Phase pg of
            PhaseUnset \<Rightarrow> r + s + f = 0
          | PodGroupPending \<Rightarrow> r + s + f < m
          | PodGroupScheduling \<Rightarrow> r + s + f < m
          | PodGroupRunning \<Rightarrow> f = 0 \<and> s < m \<and> m \<le> r + s
          | PodGroupFailed \<Rightarrow> 0 < f \<and> s < m \<and> m \<le> r + s + f
          | PodGroupFinished \<Rightarrow> m \<le> s
          | _ \<Rightarrow> False))"

lemma fillOccupiedObj_keeps [simp]:
  "pgs_Phase (fillOccupiedObj pg pod) = pgs_Phase pg" "pg_MinMember (fillOccupiedObj pg pod) = pg_MinMember pg"
  "pgs_Running (fillOccupiedObj pg pod) = pgs_Running pg" "pgs_Succeeded (fillOccupiedObj pg pod) = pgs_Succeeded pg"
  "pgs_Failed (fillOccupiedObj pg pod) = pgs_Failed pg" "pg_name (fillOccupiedObj pg pod) = pg_name pg"
  "scheduled_late (fillOccupiedObj pg pod) = scheduled_late pg"
  by (simp_all add: fillOccupiedObj_def Let_def scheduled_late_def)

lemma scheduled_late_phase [simp]: "scheduled_late (pg\<lparr>pgs_Phase := ph\<rparr>) = scheduled_late pg"
  by (simp add: scheduled_late_def)

lemma counted_consistent:
  assumes "0 < sint (pg_MinMember pg)" and "length pods < 2 ^ 31"
  shows "status_consistent (settle pods pg)"
proof -
  let ?r = "n_phase PodRunning pods" and ?s = "n_phase PodSucceeded pods" and ?f = "n_phase PodFailed pods"
  have nn: "0 \<le> ?r" "0 \<le> ?s" "0 \<le> ?f" by simp_all
  note sum = n_phase_sum_le [of pods]
  note c = sint_count32 [OF _ _ assms(2)]
  have "sint (of_int ?r :: int32) = ?r" "sint (of_int ?s :: int32) = ?s" "sint (of_int ?f :: int32) = ?f"
    by (rule c; use nn sum in linarith)+
  then show ?thesis
    using assms(1) sum nn
    by (auto simp: status_consistent_def settle_def target_phase_def Let_def simp del: n_phase_nonneg)
qed

lemma next_status_consistent:
  assumes "status_consistent pg" and "next_status pg pods = Some pg'" and "length pods < 2 ^ 31"
  shows "status_consistent pg'"
proof (cases "pgs_Phase pg \<in> {PhaseUnset, PodGroupPending}")
  case True
  then show ?thesis
    using assms(1,2) by (auto simp: next_status_def status_consistent_def Let_def split: if_splits list.splits)
next
  case False
  then show ?thesis
    using counted_consistent [of pg pods] next_status_counted [of pg pods] assms
    by (simp add: status_consistent_def Let_def)
qed

lemma group_pods_length: "length (group_pods pg pods) \<le> length pods"
  by (simp add: group_pods_def)

lemma written_next_status:
  assumes "pc_Get c ns name = Found pg" "pc_List c = Inr pods" "PG_Reconcile c ns name = Some out"
    and "po_written out = Some pg'"
  shows "next_status pg (group_pods pg pods) = Some pg'" "pgs_Phase pg \<notin> {PodGroupFinished, PodGroupFailed}"
  using assms
  by (auto simp: PG_Reconcile_def nothing_written_def patchPodGroup_def split: if_splits option.splits)

lemma reachable_consistent: "pg_reachable pg \<Longrightarrow> status_consistent pg"
proof (induction rule: pg_reachable.induct)
  case (created pg)
  then show ?case by (simp add: status_consistent_def)
next
  case (reconciled pg c ns name pods out pg')
  have "length (group_pods pg pods) < 2 ^ 31"
    using group_pods_length [of pg pods] reconciled.hyps(4) by linarith
  with next_status_consistent [OF reconciled.IH] written_next_status(1) reconciled.hyps show ?case by blast
qed

text \<open>
  C9. In every state the pod group controller can reach (groups created with a positive MinMember)
  the recorded phase agrees with the recorded pod counts: \<open>Running\<close> means that running and succeeded
  pods reach MinMember while none failed, \<open>Finished\<close> that enough succeeded, \<open>Failed\<close> that some failed
  and the started ones reach MinMember, and \<open>Pending\<close> or \<open>Scheduling\<close> that too few have started. The
  phases \<open>Finished\<close> and \<open>Failed\<close> are final: no reconciliation writes the status again.
\<close>

theorem pg_phase_matches_counts:
  assumes "pg_reachable pg"
  shows "status_consistent pg \<and>
    (pgs_Phase pg \<in> {PodGroupFinished, PodGroupFailed} \<longrightarrow>
      (\<forall>c ns name out. pc_Get c ns name = Found pg \<longrightarrow> PG_Reconcile c ns name = Some out \<longrightarrow> po_written out = None))"
  using reachable_consistent [OF assms] by (auto simp: PG_Reconcile_def nothing_written_def)

definition demo_pg :: PodGroupObj where
  "demo_pg = \<lparr>pg_name = ''g'', pg_namespace = ''ns1'', pg_creationTimestamp = 0, pg_MinMember = 1, pg_MinResources = None,
     pg_ScheduleTimeoutSeconds = None, pgs_Phase = PhaseUnset, pgs_OccupiedBy = [], pgs_Running = 0, pgs_Succeeded = 0,
     pgs_Failed = 0, pgs_ScheduleStartTime = 0\<rparr>"

definition demo_owned :: OwnedPod where
  "demo_owned = Pod.extend (demo_pod\<lparr>pod_labels := [(PodGroupLabel, ''g'')]\<rparr>) (OwnedPod.fields [''job''])"

definition demo_pgc :: PGClient where
  "demo_pgc = \<lparr>pc_Get = (\<lambda>_ _. Found demo_pg), pc_List = Inr [demo_owned], pc_StatusPatch = None, pc_Patch = None\<rparr>"

theorem pg_phase_matches_counts_witness: "status_consistent (demo_pg\<lparr>pgs_Phase := PodGroupPending\<rparr>)"
proof -
  let ?out = "the (PG_Reconcile demo_pgc ''ns1'' ''g'')"
  have "pg_reachable demo_pg" by (rule created) (simp_all add: demo_pg_def)
  moreover have "pc_Get demo_pgc ''ns1'' ''g'' = Found demo_pg" "pc_List demo_pgc = Inr [demo_owned]"
    "length [demo_owned] < 2 ^ 31" by (simp_all add: demo_pgc_def)
  moreover have "PG_Reconcile demo_pgc ''ns1'' ''g'' = Some ?out" "po_written ?out = Some (demo_pg\<lparr>pgs_Phase := PodGroupPending\<rparr>)"
    by (simp_all add: PG_Reconcile_def demo_pgc_def demo_pg_def next_status_def patchPodGroup_def)
  ultimately have "pg_reachable (demo_pg\<lparr>pgs_Phase := PodGroupPending\<rparr>)" by (rule reconciled)
  then show ?thesis using pg_phase_matches_counts by blast
qed

section \<open>Convergence\<close>

text \<open>The group after one reconciliation that finds it stored; \<^const>\<open>None\<close> is a panic.\<close>

definition reconcile_once :: "PGClient \<Rightarrow> PodGroupObj \<Rightarrow> PodGroupObj option" where
  "reconcile_once c pg =
     (case PG_Reconcile (c\<lparr>pc_Get := \<lambda>_ _. Found pg\<rparr>) (pg_namespace pg) (pg_name pg) of
        None \<Rightarrow> None
      | Some out \<Rightarrow> Some (case po_written out of None \<Rightarrow> pg | Some pg' \<Rightarrow> pg'))"

lemma settle_keeps [simp]:
  "pg_name (settle pods pg) = pg_name pg" "pg_MinMember (settle pods pg) = pg_MinMember pg"
  "scheduled_late (settle pods pg) = scheduled_late pg"
  "pgs_Phase (settle pods pg) = target_phase (sint (pg_MinMember pg)) pods"
  "settle pods (settle pods pg) = settle pods pg"
  by (simp_all add: settle_def scheduled_late_def)

lemma group_pods_cong: "pg_name q = pg_name pg \<Longrightarrow> group_pods q pods = group_pods pg pods"
  by (simp add: group_pods_def)

lemma reconcile_once_final: "pgs_Phase pg \<in> {PodGroupFinished, PodGroupFailed} \<Longrightarrow> reconcile_once c pg = Some pg"
  by (auto simp: reconcile_once_def PG_Reconcile_def nothing_written_def)

lemma reconcile_once_next:
  assumes "pc_List c = Inr pods" "pc_StatusPatch c = None" "\<not> scheduled_late pg"
    "pgs_Phase pg \<notin> {PodGroupFinished, PodGroupFailed}"
  shows "reconcile_once c pg = next_status pg (group_pods pg pods)"
  using assms by (simp add: reconcile_once_def PG_Reconcile_def patchPodGroup_def split: option.splits)

lemma target_phase_Pending: "target_phase m pods = PodGroupPending \<longleftrightarrow> int (length pods) < m"
  "target_phase m pods \<noteq> PhaseUnset"
  by (simp_all add: target_phase_def Let_def)

lemma next_status_waits:
  "pgs_Phase pg = PodGroupPending \<Longrightarrow> int (length pods) < sint (pg_MinMember pg) \<Longrightarrow> next_status pg pods = Some pg"
  by (simp add: next_status_def)

lemma reconcile_once_counted:
  assumes "pc_List c = Inr pods" "pc_StatusPatch c = None" "\<not> scheduled_late pg" "length pods < 2 ^ 31"
    "pgs_Phase pg \<notin> {PhaseUnset, PodGroupPending, PodGroupFinished, PodGroupFailed}"
  shows "reconcile_once c pg = Some (settle (group_pods pg pods) pg)"
proof -
  have "length (group_pods pg pods) < 2 ^ 31" using group_pods_length [of pg pods] assms(4) by linarith
  then show ?thesis
    using reconcile_once_next [OF assms(1-3)] next_status_counted [of pg "group_pods pg pods"] assms(5) by simp
qed

lemma reconcile_once_settled:
  assumes "pc_List c = Inr pods" "pc_StatusPatch c = None" "\<not> scheduled_late pg" "length pods < 2 ^ 31"
  shows "reconcile_once c (settle (group_pods pg pods) pg) = Some (settle (group_pods pg pods) pg)"
proof -
  let ?q = "settle (group_pods pg pods) pg"
  have G: "group_pods ?q pods = group_pods pg pods" by (rule group_pods_cong) simp
  consider "pgs_Phase ?q \<in> {PodGroupFinished, PodGroupFailed}" | "pgs_Phase ?q = PodGroupPending"
    | "pgs_Phase ?q \<notin> {PhaseUnset, PodGroupPending, PodGroupFinished, PodGroupFailed}"
    using target_phase_Pending(2) by auto
  then show ?thesis
  proof cases
    case 1
    then show ?thesis by (rule reconcile_once_final)
  next
    case 2
    then have "reconcile_once c ?q = next_status ?q (group_pods pg pods)"
      using reconcile_once_next [OF assms(1,2), of ?q] assms(3) G by simp
    moreover have "int (length (group_pods pg pods)) < sint (pg_MinMember ?q)"
      using 2 target_phase_Pending(1) by simp
    ultimately show ?thesis using next_status_waits [OF 2] by simp
  next
    case 3
    then show ?thesis using reconcile_once_counted [OF assms(1,2) _ assms(4) 3] assms(3) G by simp
  qed
qed

text \<open>From \<open>Pending\<close>, two reconciliations suffice.\<close>

lemma reconcile_pending:
  assumes "pc_List c = Inr pods" "pc_StatusPatch c = None" "\<not> scheduled_late pg" "length pods < 2 ^ 31"
    and "pgs_Phase pg = PodGroupPending" and "0 < sint (pg_MinMember pg)"
  obtains pg1 pg2 where "reconcile_once c pg = Some pg1" "reconcile_once c pg1 = Some pg2" "reconcile_once c pg2 = Some pg2"
    "pgs_Phase pg2 = target_phase (sint (pg_MinMember pg)) (group_pods pg pods)"
proof -
  let ?G = "group_pods pg pods"
  have n: "reconcile_once c pg = next_status pg ?G" using reconcile_once_next [OF assms(1-3)] assms(5) by simp
  show ?thesis
  proof (cases "int (length ?G) < sint (pg_MinMember pg)")
    case True
    then have "reconcile_once c pg = Some pg" unfolding n using assms(5) by (intro next_status_waits)
    with that [of pg pg] True assms(5) show ?thesis by (simp add: target_phase_Pending(1) [THEN iffD2])
  next
    case False
    then obtain pod rest where g: "?G = pod # rest" using assms(6) by (cases ?G) auto
    let ?q = "fillOccupiedObj (pg\<lparr>pgs_Phase := PodGroupScheduling\<rparr>) pod"
    have late: "\<not> scheduled_late ?q" using assms(3) by simp
    have G: "group_pods ?q pods = ?G" by (rule group_pods_cong) simp
    have "reconcile_once c pg = Some ?q" unfolding n using False assms(5) g by (simp add: next_status_def)
    moreover have "reconcile_once c ?q = Some (settle ?G ?q)"
      using reconcile_once_counted [OF assms(1,2) late assms(4)] by (simp add: G)
    moreover have "reconcile_once c (settle ?G ?q) = Some (settle ?G ?q)"
      using reconcile_once_settled [OF assms(1,2) late assms(4)] by (simp add: G)
    ultimately show ?thesis using that by simp
  qed
qed

text \<open>
  C8. The controller converges. While a group's pods stay the same and the API server accepts the
  patches, three reconciliations bring a group (with positive MinMember, not past the 48 hour limit)
  to a status that all further ones keep, from whatever status it had, and none of them panics. A
  group that was not final ends in the phase that its pods call for: \<open>Pending\<close> when there are fewer
  than MinMember of them, otherwise by the counts of succeeded, failed and running pods.
\<close>

theorem pg_reconcile_converges:
  assumes "pc_List c = Inr pods" and "length pods < 2 ^ 31" and "pc_StatusPatch c = None"
    and "0 < sint (pg_MinMember pg)" and "\<not> scheduled_late pg"
  shows "\<exists>pg1 pg2 pg3. reconcile_once c pg = Some pg1 \<and> reconcile_once c pg1 = Some pg2 \<and>
    reconcile_once c pg2 = Some pg3 \<and> reconcile_once c pg3 = Some pg3 \<and>
    (pgs_Phase pg \<in> {PodGroupFinished, PodGroupFailed} \<longrightarrow> pg3 = pg) \<and>
    (pgs_Phase pg \<notin> {PodGroupFinished, PodGroupFailed} \<longrightarrow>
       pgs_Phase pg3 = target_phase (sint (pg_MinMember pg)) (group_pods pg pods))"
proof -
  let ?G = "group_pods pg pods"
  consider (final) "pgs_Phase pg \<in> {PodGroupFinished, PodGroupFailed}" | (pending) "pgs_Phase pg = PodGroupPending"
    | (unset) "pgs_Phase pg = PhaseUnset"
    | (counted) "pgs_Phase pg \<notin> {PhaseUnset, PodGroupPending, PodGroupFinished, PodGroupFailed}" by blast
  then show ?thesis
  proof cases
    case final
    then show ?thesis using reconcile_once_final [OF final] by blast
  next
    case pending
    from reconcile_pending [OF assms(1,3,5,2) this assms(4)] show ?thesis by (metis pending PodGroupPhase.distinct insertE singletonD)
  next
    case unset
    let ?q = "pg\<lparr>pgs_Phase := PodGroupPending\<rparr>"
    have q: "\<not> scheduled_late ?q" "pgs_Phase ?q = PodGroupPending" "0 < sint (pg_MinMember ?q)" "group_pods ?q pods = ?G"
      using assms(4,5) by (simp_all add: scheduled_late_def group_pods_def)
    have "reconcile_once c pg = Some ?q"
      using reconcile_once_next [OF assms(1,3,5)] unset by (simp add: next_status_def)
    moreover obtain pg1 pg2 where "reconcile_once c ?q = Some pg1" "reconcile_once c pg1 = Some pg2" "reconcile_once c pg2 = Some pg2"
      "pgs_Phase pg2 = target_phase (sint (pg_MinMember ?q)) (group_pods ?q pods)"
      using reconcile_pending [OF assms(1,3) q(1) assms(2) q(2,3)] by blast
    ultimately show ?thesis using unset q(4) by (intro exI [of _ ?q] exI [of _ pg1] exI [of _ pg2]) simp
  next
    case counted
    then show ?thesis
      using reconcile_once_counted [OF assms(1,3,5,2) counted] reconcile_once_settled [OF assms(1,3,5,2)] by auto
  qed
qed

theorem pg_reconcile_converges_witness:
  "\<exists>pg1 pg2 pg3. reconcile_once demo_pgc demo_pg = Some pg1 \<and> reconcile_once demo_pgc pg1 = Some pg2 \<and>
    reconcile_once demo_pgc pg2 = Some pg3 \<and> pgs_Phase pg3 = PodGroupRunning"
proof -
  have c: "pc_List demo_pgc = Inr [demo_owned]" "length [demo_owned] < 2 ^ 31" "pc_StatusPatch demo_pgc = None"
    "0 < sint (pg_MinMember demo_pg)" "\<not> scheduled_late demo_pg" "pgs_Phase demo_pg = PhaseUnset"
    by (simp_all add: demo_pgc_def demo_pg_def scheduled_late_def time_Sub_def hours48_def)
  have "target_phase (sint (pg_MinMember demo_pg)) (group_pods demo_pg [demo_owned]) = PodGroupRunning" by code_simp
  with pg_reconcile_converges [OF c(1-5)] c(6) show ?thesis by auto
qed

text \<open>Without a positive MinMember the controller can panic: it reads the first of no pods.\<close>

lemma pg_reconcile_panics:
  assumes "pc_Get c ns name = Found pg" "pgs_Phase pg = PodGroupPending" "sint (pg_MinMember pg) \<le> 0"
    "\<not> scheduled_late pg" "pc_List c = Inr []"
  shows "PG_Reconcile c ns name = None"
  using assms by (simp add: PG_Reconcile_def next_status_def group_pods_def)

end
