(* ===== verification/ElasticQuotaController.thy ===== *)
theory ElasticQuotaController
  imports CapacityScheduling
begin

text \<open>
  \<open>pkg/controllers/elasticquota_controller.go\<close>: the controller that publishes the use of a namespace
  in the status of its elastic quota, with the list arithmetic it takes from
  \<open>k8s.io/apiserver/pkg/quota/v1\<close>. The API server is an argument of \<open>EQC_Reconcile\<close>.

  The theory shows what the published use is, that a reconciliation repeated on the same pods writes
  nothing, and how the controller's request of a pod relates to the one the scheduler plugin charges.
\<close>

section \<open>Resource list arithmetic\<close>

definition add_missing :: "ResourceList \<Rightarrow> string \<times> Quantity \<Rightarrow> ResourceList" where
  "add_missing result e = (case e of (key, value) \<Rightarrow> if map_get result key = None then map_set key value result else result)"

definition quota_Max :: "ResourceList \<Rightarrow> ResourceList \<Rightarrow> ResourceList" where
  "quota_Max a b =
     foldl add_missing
       (map (\<lambda>(key, value). (key, case map_get b key of
                                    Some other \<Rightarrow> if value \<le> other then other else value
                                  | None \<Rightarrow> value)) a) b"

definition quota_Add :: "ResourceList \<Rightarrow> ResourceList \<Rightarrow> ResourceList" where
  "quota_Add a b =
     foldl add_missing
       (map (\<lambda>(key, value). (key, case map_get b key of Some other \<Rightarrow> value + other | None \<Rightarrow> value)) a) b"

text \<open>\<open>Semantic.DeepEqual\<close> on two resource lists: nil and empty are alike, quantities compare by value.\<close>

definition rl_DeepEqual :: "ResourceList \<Rightarrow> ResourceList \<Rightarrow> bool" where
  "rl_DeepEqual a b \<longleftrightarrow> length a = length b \<and> list_all (\<lambda>(key, value). map_get b key = Some value) a"

section \<open>The controller\<close>

record ElasticQuotaObj = ElasticQuota +
  eqs_Used :: ResourceList

datatype EQListResult = ListNotFound | ListError string | Items "ElasticQuotaObj list"

record EQClient =
  ec_ListQuotas :: "string \<Rightarrow> EQListResult"
  ec_ListPods :: "string + Pod list"
  ec_StatusPatch :: "string option"

record EQOutcome =
  eo_written :: "ElasticQuotaObj option"
  eo_synced :: bool
  eo_err :: "string option"

definition newZeroUsed :: "ElasticQuotaObj \<Rightarrow> ResourceList" where
  "newZeroUsed eq =
     (let minResources = map fst (case eqo_min eq of None \<Rightarrow> [] | Some l \<Rightarrow> l);
          maxResources = map fst (case eqo_max eq of None \<Rightarrow> [] | Some l \<Rightarrow> l);
          res = foldl (\<lambda>res v. map_set v (NewQuantity 0) res) [] minResources
      in foldl (\<lambda>res v. map_set v (NewQuantity 0) res) res maxResources)"

text \<open>
  The overhead is added to a copy that is thrown away: \<open>quota.Add\<close> returns its result, the code
  ignores it.
\<close>

definition EQC_computePodResourceRequest :: "Pod \<Rightarrow> ResourceList" where
  "EQC_computePodResourceRequest pod =
     (let result = foldl (\<lambda>r c. quota_Add r (ctr_requests c)) [] (pod_containers pod);
          initRes = foldl (\<lambda>r c. quota_Max r (ctr_requests c)) [] (pod_initContainers pod);
          discarded = quota_Add result (pod_overhead pod)
      in quota_Max result initRes)"

definition computeElasticQuotaUsed :: "EQClient \<Rightarrow> string \<Rightarrow> ElasticQuotaObj \<Rightarrow> string + ResourceList" where
  "computeElasticQuotaUsed c namespace eq =
     (case ec_ListPods c of
        Inl err \<Rightarrow> Inl err
      | Inr pods \<Rightarrow>
          Inr (foldl (\<lambda>used p. if pod_phase p = PodRunning then quota_Add used (EQC_computePodResourceRequest p) else used)
                 (newZeroUsed eq) (filter (\<lambda>p. pod_namespace p = namespace) pods)))"

definition eq_nothing :: "string option \<Rightarrow> EQOutcome" where
  "eq_nothing err = \<lparr>eo_written = None, eo_synced = False, eo_err = err\<rparr>"

definition EQC_Reconcile :: "EQClient \<Rightarrow> string \<Rightarrow> EQOutcome" where
  "EQC_Reconcile c namespace =
     (case ec_ListQuotas c namespace of
        ListNotFound \<Rightarrow> eq_nothing None
      | ListError err \<Rightarrow> eq_nothing (Some err)
      | Items [] \<Rightarrow> eq_nothing None
      | Items (eq # _) \<Rightarrow>
          (case computeElasticQuotaUsed c namespace eq of
             Inl err \<Rightarrow> eq_nothing (Some err)
           | Inr used \<Rightarrow>
               if rl_DeepEqual used (eqs_Used eq) then eq_nothing None
               else (case ec_StatusPatch c of
                       Some err \<Rightarrow> eq_nothing (Some err)
                     | None \<Rightarrow> \<lparr>eo_written = Some (eq\<lparr>eqs_Used := used\<rparr>), eo_synced = True, eo_err = None\<rparr>)))"

section \<open>What the list operations compute\<close>

lemma map_of_foldl_add_missing:
  "map_of (foldl add_missing m es) n = (case map_of m n of None \<Rightarrow> map_of es n | Some v \<Rightarrow> Some v)"
proof (induction es arbitrary: m)
  case (Cons e es)
  have "map_of (add_missing m e) n = (case map_of m n of None \<Rightarrow> map_of [e] n | Some v \<Rightarrow> Some v)"
    by (cases e) (auto simp: add_missing_def map_of_set split: option.splits)
  then show ?case using Cons.IH by (cases e) (auto split: option.splits)
qed (simp split: option.splits)

lemma wf_foldl_add_missing: "wf_map m \<Longrightarrow> wf_map (foldl add_missing m es)"
  by (induction es arbitrary: m) (auto simp: add_missing_def)

lemma map_of_mapped: "map_of (map (\<lambda>(k, v). (k, f k v)) m) n = map_option (f n) (map_of m n)"
  by (induction m) auto

lemma map_of_quota_Add: "map_of (quota_Add a b) n = opt_merge (+) (map_of a n) (map_of b n)"
  by (auto simp: quota_Add_def map_of_foldl_add_missing map_of_mapped split: option.splits)

lemma map_of_quota_Max: "map_of (quota_Max a b) n = opt_merge max (map_of a n) (map_of b n)"
  by (auto simp: quota_Max_def map_of_foldl_add_missing map_of_mapped max_def split: option.splits)

lemma wf_quota_Add: "wf_map a \<Longrightarrow> wf_map (quota_Add a b)"
  by (simp add: quota_Add_def wf_foldl_add_missing)

lemma map_of_foldl_quota:
  assumes "\<And>a b n. map_of (op a b) n = opt_merge f (map_of a n) (map_of b n)"
  shows "map_of (foldl (\<lambda>r c. op r (ctr_requests c)) m cs) n =
    foldl (opt_merge f) (map_of m n) (map (\<lambda>c. map_of (ctr_requests c) n) cs)"
  by (induction cs arbitrary: m) (simp_all add: assms)

lemma EQC_request_effective:
  "wf_Pod pod \<Longrightarrow> map_of (EQC_computePodResourceRequest pod) n = map_of (GetPodEffectiveRequest pod) n"
  by (simp add: map_of_GetPodEffectiveRequest EQC_computePodResourceRequest_def map_of_quota_Max
      map_of_foldl_quota [OF map_of_quota_Add] map_of_foldl_quota [OF map_of_quota_Max])

text \<open>Membership by lookup and equal size means equal maps, for Go maps.\<close>

lemma rl_DeepEqual_refl: "wf_map a \<Longrightarrow> rl_DeepEqual a a"
  by (auto simp: rl_DeepEqual_def list_all_iff wf_map_def)

lemma rl_DeepEqual_map_of:
  assumes "rl_DeepEqual a b" "wf_map a" "wf_map b"
  shows "map_of a = map_of b"
proof -
  have le: "map_of a \<subseteq>\<^sub>m map_of b"
    using assms(1,2) by (fastforce simp: map_le_def rl_DeepEqual_def list_all_iff wf_map_def)
  have "card (dom (map_of l)) = length l" if "wf_map l" for l :: ResourceList
    using that distinct_card [of "map fst l"] by (simp add: wf_map_def dom_map_of_conv_image_fst)
  then have "card (dom (map_of a)) = card (dom (map_of b))" using assms by (simp add: rl_DeepEqual_def)
  with le have "dom (map_of a) = dom (map_of b)"
    by (simp add: card_subset_eq map_le_implies_dom_le finite_dom_map_of)
  with le show ?thesis by (metis map_le_antisym map_le_def)
qed

section \<open>The published use\<close>

lemma map_of_foldl_zero:
  "map_of (foldl (\<lambda>res v. map_set v q res) m ks) n = (if n \<in> set ks then Some q else map_of m n)"
  by (induction ks arbitrary: m) (auto simp: map_of_set)

lemma wf_newZeroUsed: "wf_map (newZeroUsed eq)"
proof -
  have "wf_map m \<Longrightarrow> wf_map (foldl (\<lambda>res v. map_set v q res) m ks)" for m and q :: Quantity and ks :: "string list"
    by (induction ks arbitrary: m) simp_all
  then show ?thesis by (simp add: newZeroUsed_def Let_def)
qed

lemma getd_newZeroUsed: "map_getd 0 (newZeroUsed eq) n = 0"
  by (simp add: newZeroUsed_def Let_def map_getd_def map_of_foldl_zero NewQuantity_def)

lemma getd_quota_Add: "map_getd 0 (quota_Add a b) n = map_getd 0 a n + map_getd 0 b n"
  by (auto simp: map_getd_def map_of_quota_Add split: option.splits)

text \<open>The use of a namespace: the effective requests of its running pods.\<close>

definition running_use :: "string \<Rightarrow> Pod list \<Rightarrow> string \<Rightarrow> Quantity" where
  "running_use namespace pods n =
     (\<Sum>p \<leftarrow> filter (\<lambda>p. pod_namespace p = namespace \<and> pod_phase p = PodRunning) pods. map_getd 0 (GetPodEffectiveRequest p) n)"

lemma getd_used_loop:
  assumes "list_all wf_Pod pods"
  shows "map_getd 0 (foldl (\<lambda>used p. if pod_phase p = PodRunning then quota_Add used (EQC_computePodResourceRequest p) else used)
      m (filter (\<lambda>p. pod_namespace p = namespace) pods)) n = map_getd 0 m n + running_use namespace pods n"
  using assms
proof (induction pods arbitrary: m)
  case (Cons p pods)
  have "map_getd 0 (EQC_computePodResourceRequest p) n = map_getd 0 (GetPodEffectiveRequest p) n"
    using Cons.prems EQC_request_effective by (simp add: map_getd_def)
  then show ?case using Cons by (simp add: running_use_def getd_quota_Add)
qed (simp add: running_use_def)

lemma wf_used_loop:
  "wf_map m \<Longrightarrow> wf_map (foldl (\<lambda>used p. if pod_phase p = PodRunning then quota_Add used (EQC_computePodResourceRequest p) else used) m ps)"
  by (induction ps arbitrary: m) (simp_all add: wf_quota_Add)

lemma computeElasticQuotaUsed_use:
  assumes "ec_ListPods c = Inr pods" "list_all wf_Pod pods" "computeElasticQuotaUsed c namespace eq = Inr used"
  shows "map_getd 0 used n = running_use namespace pods n" "wf_map used"
  using assms wf_used_loop [OF wf_newZeroUsed] by (auto simp: computeElasticQuotaUsed_def getd_used_loop getd_newZeroUsed)

text \<open>
  A successful reconciliation leaves in the status of the namespace's (first) quota, for every
  resource, exactly the sum over the running pods of the namespace of their effective requests, and
  repeating it on the same pods writes nothing: the controller does not keep patching its own result.
\<close>

theorem EQC_publishes_running_use:
  assumes "ec_ListQuotas c namespace = Items (eq # rest)" and "ec_ListPods c = Inr pods" and "ec_StatusPatch c = None"
    and "list_all wf_Pod pods" and "wf_map (eqs_Used eq)"
  shows "let out = EQC_Reconcile c namespace;
             stored = (case eo_written out of Some eq' \<Rightarrow> eq' | None \<Rightarrow> eq)
         in eo_err out = None \<and> (\<forall>n. map_getd 0 (eqs_Used stored) n = running_use namespace pods n) \<and>
            eqo_min stored = eqo_min eq \<and> eqo_max stored = eqo_max eq \<and>
            EQC_Reconcile (c\<lparr>ec_ListQuotas := (\<lambda>_. Items (stored # rest))\<rparr>) namespace = eq_nothing None"
proof -
  obtain used where u: "computeElasticQuotaUsed c namespace eq = Inr used"
    using assms(2) by (simp add: computeElasticQuotaUsed_def)
  note use = computeElasticQuotaUsed_use [OF assms(2,4) u]
  have again: "computeElasticQuotaUsed (c\<lparr>ec_ListQuotas := q\<rparr>) namespace (eq\<lparr>eqs_Used := v\<rparr>) = Inr used" for q v
  proof -
    have "newZeroUsed (eq\<lparr>eqs_Used := v\<rparr>) = newZeroUsed eq" by (simp add: newZeroUsed_def)
    then show ?thesis using u assms(2) by (simp add: computeElasticQuotaUsed_def)
  qed
  show ?thesis
  proof (cases "rl_DeepEqual used (eqs_Used eq)")
    case True
    then have "map_of used = map_of (eqs_Used eq)" using rl_DeepEqual_map_of use(2) assms(5) by blast
    then have "map_getd 0 (eqs_Used eq) n = running_use namespace pods n" for n
      using use(1) [of n] by (simp add: map_getd_def)
    then show ?thesis using True u again [of _ "eqs_Used eq"] assms(1) by (simp add: EQC_Reconcile_def eq_nothing_def)
  next
    case False
    then show ?thesis
      using u use again [of _ used] assms(1,3) rl_DeepEqual_refl [OF use(2)] by (simp add: EQC_Reconcile_def eq_nothing_def)
  qed
qed

definition demo_eqc :: EQClient where
  "demo_eqc = \<lparr>ec_ListQuotas = (\<lambda>_. Items [\<lparr>eqo_namespace = ''ns1'', eqo_min = Some [(ResourceCPU, 10 ^ 9)], eqo_max = None, eqs_Used = []\<rparr>]),
     ec_ListPods = Inr [demo_pod], ec_StatusPatch = None\<rparr>"

theorem EQC_publishes_running_use_witness:
  "\<exists>eq'. eo_written (EQC_Reconcile demo_eqc ''ns1'') = Some eq' \<and> map_getd 0 (eqs_Used eq') ResourceCPU = 2 * 10 ^ 9"
proof -
  let ?eq = "\<lparr>eqo_namespace = ''ns1'', eqo_min = Some [(ResourceCPU, 10 ^ 9)], eqo_max = None, eqs_Used = []\<rparr>"
  have c: "ec_ListQuotas demo_eqc ''ns1'' = Items [?eq]" "ec_ListPods demo_eqc = Inr [demo_pod]" "ec_StatusPatch demo_eqc = None"
    "list_all wf_Pod [demo_pod]" "wf_map (eqs_Used ?eq)"
    by (simp_all add: demo_eqc_def demo_wf_Pod)
  have "running_use ''ns1'' [demo_pod] ResourceCPU = 2 * 10 ^ 9" "\<not> (2 * 10 ^ 9 = (0 :: int))" by code_simp+
  with EQC_publishes_running_use [OF c] show ?thesis
    by (auto simp: Let_def split: option.splits)
qed

end
