(* ===== verification/Neilats.thy ===== *)
theory Neilats
  imports FrameworkNode ConfigTypes ScoreNorm
begin

text \<open>
  The Neilats scheduler plugin, \<open>pkg/neilats_refactor_go\<close>: latency-aware filtering against an SLA
  and scoring by load balance, network stability and predicted latency.

  The record \<open>NeilatsIO\<close> holds what the plugin obtains from outside: the float parser, the replies of
  Prometheus, the lines of the latency files read over SSH, and the replies of the scoring service.
  Float arithmetic is binary64 rounding after every operation (\<open>GoFloat\<close>), as on amd64. A request list that
  is nil and one that is empty are the same here; objects from the API server never carry an empty
  non-nil list. \<^const>\<open>None\<close> is a panic.
\<close>

abbreviation (input) "add64 \<equiv> f_add binary64"
abbreviation (input) "sub64 \<equiv> f_sub binary64"
abbreviation (input) "mul64 \<equiv> f_mul binary64"
abbreviation (input) "div64 \<equiv> f_div binary64"
abbreviation (input) "of_int64f \<equiv> f_of_int binary64"

section \<open>Configuration\<close>

text \<open>
  \<open>New\<close>: \<open>args\<close> is \<^const>\<open>None\<close> for nil; \<open>defaultConfig\<close> is the literal of the source, which names a
  concrete cluster. \<open>initTool\<close> and \<open>startTest\<close> are the errors of the two remote set-up calls.
\<close>

definition New_Neilats ::
  "NeilatsArgs \<Rightarrow> (NeilatsArgs \<Rightarrow> string option) \<Rightarrow> (NeilatsArgs \<Rightarrow> string option) \<Rightarrow> NeilatsArgs option \<Rightarrow>
   string + NeilatsArgs" where
  "New_Neilats defaultConfig initTool startTest neilatsArgs =
     (case neilatsArgs of
        None \<Rightarrow> Inr defaultConfig
      | Some args \<Rightarrow>
          (let c = (if PrometheusAddress args \<noteq> [] then defaultConfig\<lparr>PrometheusAddress := PrometheusAddress args\<rparr> else defaultConfig);
               c = (if length (NetworkDevice args) > 0 then c\<lparr>NetworkDevice := NetworkDevice args\<rparr> else c);
               c = (if length (StorageDevice args) > 0 then c\<lparr>StorageDevice := StorageDevice args\<rparr> else c);
               c = c\<lparr>EnableSLA := EnableSLA args\<rparr>;
               sla =
                 (if EnableSLA args then
                    (if length (KubeNodeAddressAndSecret args) = 0
                     then Inl ''when EnableSLA is True, KubeNodeAddressAndSecret must have content''
                     else (let c = c\<lparr>KubeNodeAddressAndSecret := KubeNodeAddressAndSecret args\<rparr>
                           in case initTool c of
                                Some err \<Rightarrow> Inl err
                              | None \<Rightarrow> (case startTest c of Some err \<Rightarrow> Inl err | None \<Rightarrow> Inr c)))
                  else Inr c)
           in case sla of
                Inl err \<Rightarrow> Inl err
              | Inr c \<Rightarrow> Inr (if LstmAdfModuleAddress args \<noteq> []
                              then c\<lparr>LstmAdfModuleAddress := LstmAdfModuleAddress args\<rparr> else c)))"

section \<open>The outside world\<close>

text \<open>A value of the array \<open>Value []interface{}\<close> of a Prometheus sample.\<close>

datatype PromValue = PVString string | PVOther

datatype ScoreRequest = ADFRequest "gofloat list" | FutureRequest "gofloat list" gofloat

record NeilatsIO =
  io_ParseFloat :: "string \<Rightarrow> gofloat \<times> string option"
  io_queryPrometheus :: "string \<Rightarrow> string \<Rightarrow> string + PromValue list list"
  io_remoteLines :: "string \<Rightarrow> string \<Rightarrow> string \<Rightarrow> string \<Rightarrow> string + string list"
  io_NewRequest :: "string \<Rightarrow> string option"
  io_Do :: "string \<Rightarrow> ScoreRequest \<Rightarrow> string + string"
  io_Unmarshal :: "string \<Rightarrow> string + gofloat"

section \<open>Prometheus queries\<close>

text \<open>The shape every getter shares: the second entry of the first sample, parsed, its parse error dropped.\<close>

definition prom_value :: "NeilatsIO \<Rightarrow> PromValue list list \<Rightarrow> gofloat option" where
  "prom_value io res =
     (case res of
        (_ # PVString s # _) # _ \<Rightarrow> Some (fst (io_ParseFloat io s))
      | _ \<Rightarrow> None)"

definition prom_query :: "NeilatsIO \<Rightarrow> string \<Rightarrow> string \<Rightarrow> string \<Rightarrow> (string + gofloat) option" where
  "prom_query io prometheusAddress promQL emptyMsg =
     (case io_queryPrometheus io prometheusAddress promQL of
        Inl err \<Rightarrow> Some (Inl err)
      | Inr res \<Rightarrow>
          if length res = 0 then Some (Inl emptyMsg)
          else map_option Inr (prom_value io res))"

definition sq :: "string \<Rightarrow> string" where
  "sq s = [CHR 0x27] @ s @ [CHR 0x27]"

definition GetNodeCpuIdleRate :: "NeilatsIO \<Rightarrow> string \<Rightarrow> string \<Rightarrow> (string + gofloat) option" where
  "GetNodeCpuIdleRate io prometheusAddress nodeName =
     prom_query io prometheusAddress
       (''sum(increase(node_cpu_seconds_total{mode='' @ sq ''idle'' @ '',instance='' @ sq nodeName @
        ''}[1m]))/sum(increase(node_cpu_seconds_total{instance='' @ sq nodeName @ ''}[1m]))'')
       ''get node cpu idle rate response data length is 0!''"

definition GetNodeMemoryAvailableRate :: "NeilatsIO \<Rightarrow> string \<Rightarrow> string \<Rightarrow> (string + gofloat) option" where
  "GetNodeMemoryAvailableRate io prometheusAddress nodeName =
     prom_query io prometheusAddress
       (''node_memory_MemAvailable_bytes{instance='' @ sq nodeName @
        ''}/node_memory_MemTotal_bytes{instance='' @ sq nodeName @ ''}'')
       ''get node memory available rate response data length is 0!''"

definition totalNetworkTraffic :: rat where
  "totalNetworkTraffic = 1000000"

definition GetNodeNetworkAvailableRate :: "NeilatsIO \<Rightarrow> string \<Rightarrow> string \<Rightarrow> string \<Rightarrow> (string + gofloat) option" where
  "GetNodeNetworkAvailableRate io prometheusAddress nodeName networkDevice =
     (let q = (\<lambda>dir. ''rate(node_network_'' @ dir @ ''_bytes_total{instance='' @ sq nodeName @
                 '',device='' @ sq networkDevice @ ''}[1m])'')
      in case io_queryPrometheus io prometheusAddress (q ''receive'') of
           Inl err \<Rightarrow> Some (Inl err)
         | Inr receive \<Rightarrow>
             if length receive = 0 then Some (Inl ''get network receive available rate response data length is 0!'')
             else (case io_queryPrometheus io prometheusAddress (q ''transmit'') of
                     Inl err \<Rightarrow> Some (Inl err)
                   | Inr transmit \<Rightarrow>
                       if length transmit = 0 then Some (Inl ''get node network transmit rate response data length is 0!'')
                       else do {
                         receiveBytes \<leftarrow> prom_value io receive;
                         transmitBytes \<leftarrow> prom_value io transmit;
                         Some (Inr (mul64 (div64 (sub64 (sub64 (Fin (totalNetworkTraffic * 2)) receiveBytes) transmitBytes)
                                      (Fin totalNetworkTraffic)) (Fin 2)))
                       }))"

definition GetNodeDiskAvailableRate :: "NeilatsIO \<Rightarrow> string \<Rightarrow> string \<Rightarrow> string \<Rightarrow> (string + gofloat) option" where
  "GetNodeDiskAvailableRate io prometheusAddress nodeName storageDevice =
     prom_query io prometheusAddress
       (''((node_filesystem_free_bytes{fstype!='' @ sq [] @ '',device='' @ sq storageDevice @ '',instance='' @ sq nodeName @
        ''} / node_filesystem_size_bytes{fstype!='' @ sq [] @ '',device='' @ sq storageDevice @ '',instance='' @
        sq nodeName @ ''})) * 100'')
       ''get node disk avaliable rate response data length is 0!''"

definition GetNodeTotalCpu :: "NeilatsIO \<Rightarrow> string \<Rightarrow> string \<Rightarrow> (string + gofloat) option" where
  "GetNodeTotalCpu io prometheusAddress nodeName =
     map_option (map_sum id (\<lambda>totalCpu. mul64 totalCpu (Fin 1000)))
       (prom_query io prometheusAddress
         (''count(node_cpu_seconds_total{mode='' @ sq ''user'' @ '',instance='' @ sq nodeName @ ''})'')
         ''get node total cpu response data length is 0!'')"

definition GetNodeTotalMemory :: "NeilatsIO \<Rightarrow> string \<Rightarrow> string \<Rightarrow> (string + gofloat) option" where
  "GetNodeTotalMemory io prometheusAddress nodeName =
     map_option (map_sum id (\<lambda>totalMemory. div64 totalMemory (Fin (1024 * 1024))))
       (prom_query io prometheusAddress
         (''node_memory_MemTotal_bytes{instance='' @ sq nodeName @ ''}'')
         ''get node total memory response data length is 0!'')"

definition GetNodeTotalNetwork :: gofloat where
  "GetNodeTotalNetwork = Fin 1000000"

definition GetNodeTotalDisk :: "NeilatsIO \<Rightarrow> string \<Rightarrow> string \<Rightarrow> string \<Rightarrow> (string + gofloat) option" where
  "GetNodeTotalDisk io prometheusAddress nodeName storageDevice =
     map_option (map_sum id (\<lambda>totalDisk. div64 totalDisk (Fin (1024 * 1024))))
       (prom_query io prometheusAddress
         (''node_filesystem_size_bytes{fstype!='' @ sq [] @ '',device='' @ sq storageDevice @ '',instance='' @
          sq nodeName @ ''}'')
         ''get node total disk response data length is 0!'')"

section \<open>Latency files\<close>

text \<open>The scanner loop: append each line, drop the oldest once there are more than \<open>n\<close>.\<close>

definition keep_last :: "nat \<Rightarrow> string list \<Rightarrow> string list" where
  "keep_last n ls = foldl (\<lambda>lines l. let lines' = lines @ [l] in if length lines' > n then tl lines' else lines') [] ls"

definition CutPrefix :: "string \<Rightarrow> string \<Rightarrow> string" where
  "CutPrefix s pre = (if prefix pre s then drop (length pre) s else s)"

fun parse_latencies :: "NeilatsIO \<Rightarrow> string list \<Rightarrow> (string + gofloat list) option" where
  "parse_latencies io [] = Some (Inr [])"
| "parse_latencies io (line # lines) =
     (let splitedLine = str_split (CHR '' '') line
      in if length splitedLine < 2 then None
         else (case io_ParseFloat io (CutPrefix (splitedLine ! (length splitedLine - 2)) ''('') of
                 (latencyData, Some err) \<Rightarrow> Some (Inl err)
               | (latencyData, None) \<Rightarrow>
                   (case parse_latencies io lines of
                      None \<Rightarrow> None
                    | Some (Inl err) \<Rightarrow> Some (Inl err)
                    | Some (Inr ds) \<Rightarrow> Some (Inr (latencyData # ds)))))"

definition getLastLinesLatencyFromSSH ::
  "NeilatsIO \<Rightarrow> string \<Rightarrow> string \<Rightarrow> string \<Rightarrow> string \<Rightarrow> nat \<Rightarrow> (string + gofloat list) option" where
  "getLastLinesLatencyFromSSH io nodeFromName nodeFromAddress nodeFromSecret nodeToAddress lastNLines =
     (case io_remoteLines io nodeFromName nodeFromAddress nodeFromSecret
             (''/root/ws/network-latency-test/latency_results_'' @ nodeToAddress @ ''.txt'') of
        Inl err \<Rightarrow> Some (Inl err)
      | Inr ls \<Rightarrow> parse_latencies io (keep_last lastNLines ls))"

text \<open>The error of the read is logged only; the mean of no lines is \<open>0 / 0\<close>.\<close>

definition getMeanOfLatencyFromSSH ::
  "NeilatsIO \<Rightarrow> string \<Rightarrow> string \<Rightarrow> string \<Rightarrow> string \<Rightarrow> (string + gofloat) option" where
  "getMeanOfLatencyFromSSH io nodeFromName nodeFromAddress nodeFromSecret nodeToAddress =
     (case getLastLinesLatencyFromSSH io nodeFromName nodeFromAddress nodeFromSecret nodeToAddress 30 of
        None \<Rightarrow> None
      | Some r \<Rightarrow>
          (let lastNLatency = (case r of Inl err \<Rightarrow> [] | Inr ds \<Rightarrow> ds);
               latencySum = foldl add64 (Fin 0) lastNLatency
           in Some (Inr (div64 latencySum (of_int64f (int (length lastNLatency)))))))"

text \<open>
  The round-trip matrix. Each of the two nested \<open>range\<close> loops visits the map in an order of its own,
  and the inner one in a new order every time: a \<open>sched\<close> lists the outer order, each node with the
  order of its inner loop. An entry that is not written reads as 0.
\<close>

type_synonym rtt_matrix = "(string \<times> string, gofloat) gomap"

type_synonym rtt_sched = "(string \<times> string list) list"

definition rtt_at :: "rtt_matrix \<Rightarrow> string \<Rightarrow> string \<Rightarrow> gofloat" where
  "rtt_at m a b = map_getd (Fin 0) m (a, b)"

definition rtt_step ::
  "NeilatsIO \<Rightarrow> (string, UserAddressSecretMap) gomap \<Rightarrow> rtt_matrix \<Rightarrow> string \<times> string \<Rightarrow> (string + rtt_matrix) option" where
  "rtt_step io nodes m e =
     (case e of (fromNode, toNode) \<Rightarrow>
        if fromNode = toNode then Some (Inr (map_set (fromNode, toNode) (Fin 0) m))
        else (case (map_get nodes fromNode, map_get nodes toNode) of
                (Some fromUAS, Some toUAS) \<Rightarrow>
                  (case getMeanOfLatencyFromSSH io fromNode (NodeAddress fromUAS) (NodeSecret fromUAS) (NodeAddress toUAS) of
                     None \<Rightarrow> None
                   | Some (Inl err) \<Rightarrow> Some (Inl err)
                   | Some (Inr v) \<Rightarrow>
                       if f_le (Fin 99) v then Some (Inr (map_set (fromNode, toNode) (rtt_at m toNode fromNode) m))
                       else Some (Inr (map_set (fromNode, toNode) v m)))
              | _ \<Rightarrow> Some (Inr m)))"

fun rtt_loop ::
  "NeilatsIO \<Rightarrow> (string, UserAddressSecretMap) gomap \<Rightarrow> rtt_matrix \<Rightarrow> (string \<times> string) list \<Rightarrow> (string + rtt_matrix) option" where
  "rtt_loop io nodes m [] = Some (Inr m)"
| "rtt_loop io nodes m (e # es) =
     (case rtt_step io nodes m e of
        None \<Rightarrow> None
      | Some (Inl err) \<Rightarrow> Some (Inl err)
      | Some (Inr m') \<Rightarrow> rtt_loop io nodes m' es)"

definition sched_pairs :: "rtt_sched \<Rightarrow> (string \<times> string) list" where
  "sched_pairs sched = concat (map (\<lambda>(fromNode, tos). map (\<lambda>toNode. (fromNode, toNode)) tos) sched)"

definition BuildRttWithOutFileOnRemote ::
  "NeilatsIO \<Rightarrow> (string, UserAddressSecretMap) gomap \<Rightarrow> rtt_sched \<Rightarrow> (string + rtt_matrix) option" where
  "BuildRttWithOutFileOnRemote io nodes sched = rtt_loop io nodes [] (sched_pairs sched)"

section \<open>Filtering\<close>

definition Neilats_PreFilter :: "NeilatsIO \<Rightarrow> NeilatsArgs \<Rightarrow> Pod \<Rightarrow> Code" where
  "Neilats_PreFilter io cfg p =
     (if EnableSLA cfg then
        (case (map_get (pod_labels p) ''nei_node'', map_get (pod_labels p) ''sla'') of
           (None, None) \<Rightarrow> Success
         | (Some neiNodeValue, Some slaConstraintValue) \<Rightarrow>
             if map_get (KubeNodeAddressAndSecret cfg) neiNodeValue = None then Unschedulable
             else if snd (io_ParseFloat io slaConstraintValue) \<noteq> None then Unschedulable
             else Success
         | _ \<Rightarrow> Unschedulable)
      else Success)"

definition Neilats_Filter :: "NeilatsIO \<Rightarrow> NeilatsArgs \<Rightarrow> rtt_sched \<Rightarrow> Pod \<Rightarrow> string \<Rightarrow> Code option" where
  "Neilats_Filter io cfg sched pod nodeName =
     (case (map_get (pod_labels pod) ''nei_node'', map_get (pod_labels pod) ''sla'') of
        (Some neiNodeValue, Some slaConstraintValue) \<Rightarrow>
          if EnableSLA cfg then
            (case io_ParseFloat io slaConstraintValue of
               (_, Some err) \<Rightarrow> Some UnschedulableAndUnresolvable
             | (sla, None) \<Rightarrow>
                 if neiNodeValue = nodeName then Some UnschedulableAndUnresolvable
                 else (case BuildRttWithOutFileOnRemote io (KubeNodeAddressAndSecret cfg) sched of
                         None \<Rightarrow> None
                       | Some (Inl err) \<Rightarrow> Some UnschedulableAndUnresolvable
                       | Some (Inr rttMatrix) \<Rightarrow>
                           if f_le (rtt_at rttMatrix nodeName neiNodeValue) sla then Some Success
                           else Some Unschedulable))
          else Some Success
      | _ \<Rightarrow> Some Success)"

section \<open>Scoring\<close>

text \<open>
  The sums of the containers' requests as floats, in the order of the containers; nothing is counted
  when the first container has no requests.
\<close>

definition pod_cpu_request :: "Pod \<Rightarrow> gofloat option" where
  "pod_cpu_request p =
     (case pod_containers p of
        [] \<Rightarrow> None
      | c0 # _ \<Rightarrow>
          Some (if ctr_requests c0 = [] then Fin 0
                else foldl (\<lambda>acc c. add64 acc (of_int64f (sint (Quantity_MilliValue (map_getd 0 (ctr_requests c) ResourceCPU)))))
                       (Fin 0) (pod_containers p)))"

definition pod_mem_request :: "Pod \<Rightarrow> gofloat option" where
  "pod_mem_request p =
     (case pod_containers p of
        [] \<Rightarrow> None
      | c0 # _ \<Rightarrow>
          Some (if ctr_requests c0 = [] then Fin 0
                else foldl (\<lambda>acc c. add64 acc (div64 (div64
                         (of_int64f (sint (Quantity_Value (map_getd 0 (ctr_requests c) ResourceMemory)))) (Fin 1024)) (Fin 1024)))
                       (Fin 0) (pod_containers p)))"

definition label_float :: "NeilatsIO \<Rightarrow> Pod \<Rightarrow> string \<Rightarrow> gofloat" where
  "label_float io p l =
     (case map_get (pod_labels p) l of Some v \<Rightarrow> fst (io_ParseFloat io v) | None \<Rightarrow> Fin 0)"

text \<open>The use rate of a resource once the pod runs on the node.\<close>

definition use_rate :: "gofloat \<Rightarrow> gofloat \<Rightarrow> gofloat \<Rightarrow> gofloat" where
  "use_rate availableRate capacity request =
     (let used = mul64 (sub64 (Fin 1) availableRate) capacity
      in div64 (add64 used request) capacity)"

definition lb_score :: "gofloat \<Rightarrow> gofloat \<Rightarrow> gofloat \<Rightarrow> gofloat \<Rightarrow> gofloat" where
  "lb_score cpu mem net disk =
     (let avgScore = div64 (add64 (add64 (add64 cpu mem) net) disk) (Fin 4);
          sqd = (\<lambda>r. mul64 (sub64 r avgScore) (sub64 r avgScore));
          variance = add64 (add64 (add64 (sqd cpu) (sqd mem)) (sqd net)) (sqd disk)
      in sub64 (Fin 100) (mul64 (Fin 100) variance))"

text \<open>Continue with the value of a query that neither panicked nor failed.\<close>

definition query_then ::
  "(string + gofloat) option \<Rightarrow> (gofloat \<Rightarrow> (string + gofloat) option) \<Rightarrow> (string + gofloat) option" where
  "query_then q f =
     (case q of None \<Rightarrow> None | Some (Inl err) \<Rightarrow> Some (Inl err) | Some (Inr v) \<Rightarrow> f v)"

definition LBScore :: "NeilatsIO \<Rightarrow> NeilatsArgs \<Rightarrow> Pod \<Rightarrow> string \<Rightarrow> (string + gofloat) option" where
  "LBScore io cfg p nodeName =
     (let addr = PrometheusAddress cfg;
          netDev = map_getd [] (NetworkDevice cfg) nodeName;
          storDev = map_getd [] (StorageDevice cfg) nodeName
      in case pod_cpu_request p of None \<Rightarrow> None | Some podCpuRequest \<Rightarrow>
         query_then (GetNodeTotalCpu io addr nodeName) (\<lambda>cpuCap.
         query_then (GetNodeCpuIdleRate io addr nodeName) (\<lambda>cpuIdle.
         case pod_mem_request p of None \<Rightarrow> None | Some podMemRequest \<Rightarrow>
         query_then (GetNodeTotalMemory io addr nodeName) (\<lambda>memCap.
         query_then (GetNodeMemoryAvailableRate io addr nodeName) (\<lambda>memAvail.
         query_then (GetNodeNetworkAvailableRate io addr nodeName netDev) (\<lambda>netAvail.
         query_then (GetNodeTotalDisk io addr nodeName storDev) (\<lambda>diskCap.
         query_then (GetNodeDiskAvailableRate io addr nodeName storDev) (\<lambda>diskAvail.
           Some (Inr (lb_score (use_rate cpuIdle cpuCap podCpuRequest)
                               (use_rate memAvail memCap podMemRequest)
                               (use_rate netAvail GetNodeTotalNetwork (label_float io p ''network-request''))
                               (use_rate diskAvail diskCap (label_float io p ''disk-request''))))))))))))"

text \<open>\<open>json.Marshal\<close> refuses a NaN or an infinity.\<close>

fun is_Fin :: "gofloat \<Rightarrow> bool" where
  "is_Fin (Fin x) = True"
| "is_Fin _ = False"

fun marshals :: "ScoreRequest \<Rightarrow> bool" where
  "marshals (ADFRequest ds) = list_all is_Fin ds"
| "marshals (FutureRequest ds sla) = (list_all is_Fin ds \<and> is_Fin sla)"

text \<open>
  \<open>io_Do\<close> is the exchange of the request for the body that could be read (a failing read is logged and
  what was read so far is used); \<open>io_Unmarshal\<close> takes the field \<open>score\<close> out of it.
\<close>

definition sendHTTPRequest :: "NeilatsIO \<Rightarrow> NeilatsArgs \<Rightarrow> ScoreRequest \<Rightarrow> string \<Rightarrow> string + gofloat" where
  "sendHTTPRequest io cfg reqBodyData serverAddress =
     (let url = LstmAdfModuleAddress cfg @ serverAddress
      in case io_NewRequest io url of
           Some err \<Rightarrow> Inl err
         | None \<Rightarrow>
             (case io_Do io url reqBodyData of
                Inl err \<Rightarrow> Inl err
              | Inr body \<Rightarrow>
                  (case io_Unmarshal io body of
                     Inl err \<Rightarrow> Inl err
                   | Inr score \<Rightarrow> Inr score)))"

definition no_UAS :: UserAddressSecretMap where
  "no_UAS = \<lparr>NodeAddress = [], NodeSecret = []\<rparr>"

definition link_score ::
  "NeilatsIO \<Rightarrow> NeilatsArgs \<Rightarrow> (gofloat list \<Rightarrow> ScoreRequest) \<Rightarrow> string \<Rightarrow> string \<Rightarrow> string \<Rightarrow> (string + gofloat) option" where
  "link_score io cfg mkReq path nodeFrom nodeTo =
     (let fromUAS = map_getd no_UAS (KubeNodeAddressAndSecret cfg) nodeFrom;
          toUAS = map_getd no_UAS (KubeNodeAddressAndSecret cfg) nodeTo
      in case getLastLinesLatencyFromSSH io nodeFrom (NodeAddress fromUAS) (NodeSecret fromUAS) (NodeAddress toUAS) 30 of
           None \<Rightarrow> None
         | Some (Inl err) \<Rightarrow> Some (Inl err)
         | Some (Inr lastNLatency) \<Rightarrow>
             (let reqBody = mkReq lastNLatency
              in if \<not> marshals reqBody then Some (Inl ''json: unsupported value'')
                 else Some (sendHTTPRequest io cfg reqBody path)))"

definition ADFScore :: "NeilatsIO \<Rightarrow> NeilatsArgs \<Rightarrow> string \<Rightarrow> string \<Rightarrow> (string + gofloat) option" where
  "ADFScore io cfg nodeFrom nodeTo = link_score io cfg ADFRequest ''/adf_score'' nodeFrom nodeTo"

definition FutureScore :: "NeilatsIO \<Rightarrow> NeilatsArgs \<Rightarrow> string \<Rightarrow> string \<Rightarrow> gofloat \<Rightarrow> (string + gofloat) option" where
  "FutureScore io cfg nodeFrom nodeTo slaTime =
     link_score io cfg (\<lambda>ds. FutureRequest ds slaTime) (''/predict/'' @ nodeFrom @ ''2'' @ nodeTo) nodeFrom nodeTo"

record ScoreMaps =
  LBScoreMap :: "(string, gofloat) gomap"
  ADFScoreMap :: "(string, gofloat) gomap"
  FutureScoreMap :: "(string, gofloat) gomap"

definition MaxFloat64 :: gofloat where
  "MaxFloat64 = Fin ((2 ^ 53 - 1) * 2 ^ 971)"

text \<open>An error of a score is logged and the score counts as 0.\<close>

fun or_zero :: "(string + gofloat) option \<Rightarrow> gofloat option" where
  "or_zero None = None"
| "or_zero (Some (Inl err)) = Some (Fin 0)"
| "or_zero (Some (Inr v)) = Some v"

text \<open>One of the three raw score maps with its running minimum and maximum.\<close>

definition collect_scores :: "(string \<Rightarrow> gofloat option) \<Rightarrow> string list \<Rightarrow> ((string, gofloat) gomap \<times> gofloat \<times> gofloat) option" where
  "collect_scores score nodes =
     foldM (\<lambda>(m, mn, mx) node. map_option (\<lambda>v. (map_set node v m, f_min mn v, f_max mx v)) (score node))
       ([], MaxFloat64, of_int64f (- (2 ^ 63))) nodes"

definition normalize1 :: "gofloat \<Rightarrow> gofloat \<Rightarrow> gofloat \<Rightarrow> gofloat" where
  "normalize1 mn mx v =
     (if f_eq mx mn then Fin 100
      else mul64 (add64 (div64 (sub64 v mn) (sub64 mx mn)) (Fin 1)) (Fin 100))"

definition normalize_scores ::
  "string list \<Rightarrow> (string, gofloat) gomap \<times> gofloat \<times> gofloat \<Rightarrow> (string, gofloat) gomap" where
  "normalize_scores nodes r =
     (case r of (m, mn, mx) \<Rightarrow>
        foldl (\<lambda>m node. map_set node (normalize1 mn mx (map_getd (Fin 0) m node)) m) m nodes)"

text \<open>
  The three kinds of score do not read each other's maps, so the loop over the nodes is split into
  one pass per kind.
\<close>

definition PreScore :: "NeilatsIO \<Rightarrow> NeilatsArgs \<Rightarrow> Pod \<Rightarrow> string list \<Rightarrow> ScoreMaps option" where
  "PreScore io cfg pod nodes =
     do {
       lb \<leftarrow> collect_scores (\<lambda>node. or_zero (LBScore io cfg pod node)) nodes;
       let lbMap = normalize_scores nodes lb;
       (case (map_get (pod_labels pod) ''nei_node'', map_get (pod_labels pod) ''sla'') of
          (Some neiNodeValue, Some slaConstraintValue) \<Rightarrow>
            if EnableSLA cfg then do {
              let sla = fst (io_ParseFloat io slaConstraintValue);
              adf \<leftarrow> collect_scores (\<lambda>node. or_zero (ADFScore io cfg neiNodeValue node)) nodes;
              future \<leftarrow> collect_scores (\<lambda>node. or_zero (FutureScore io cfg neiNodeValue node sla)) nodes;
              Some \<lparr>LBScoreMap = lbMap, ADFScoreMap = normalize_scores nodes adf,
                    FutureScoreMap = normalize_scores nodes future\<rparr>
            } else Some \<lparr>LBScoreMap = lbMap, ADFScoreMap = [], FutureScoreMap = []\<rparr>
        | _ \<Rightarrow> Some \<lparr>LBScoreMap = lbMap, ADFScoreMap = [], FutureScoreMap = []\<rparr>)
     }"

text \<open>\<open>cbrt\<close> is \<open>math.Cbrt\<close>.\<close>

definition Neilats_Score :: "(gofloat \<Rightarrow> gofloat) \<Rightarrow> NeilatsArgs \<Rightarrow> ScoreMaps \<Rightarrow> Pod \<Rightarrow> string \<Rightarrow> int64" where
  "Neilats_Score cbrt cfg maps p nodeName =
     (if EnableSLA cfg \<and> map_get (pod_labels p) ''nei_node'' \<noteq> None \<and> map_get (pod_labels p) ''sla'' \<noteq> None then
        f_to_int64 (cbrt (mul64 (mul64 (map_getd (Fin 0) (LBScoreMap maps) nodeName)
                                       (map_getd (Fin 0) (ADFScoreMap maps) nodeName))
                                (map_getd (Fin 0) (FutureScoreMap maps) nodeName)))
      else f_to_int64 (map_getd (Fin 0) (LBScoreMap maps) nodeName))"

definition Neilats_NormalizeScore :: "int64 list \<Rightarrow> int64 list" where
  "Neilats_NormalizeScore scores =
     (let maxScore = scan_max (- MaxInt64) scores; minScore = scan_min MaxInt64 scores;
          oldRange = maxScore - minScore; newRange = MaxNodeScore - MinNodeScore
      in map (\<lambda>s. if oldRange = 0 then MinNodeScore
                  else sdiv64 (s - minScore) oldRange * newRange + MinNodeScore) scores)"

section \<open>The window over the latency file\<close>

lemma keep_last_eq: "keep_last n ls = drop (length ls - n) ls"
proof (induction ls rule: rev_induct)
  case Nil
  then show ?case by (simp add: keep_last_def)
next
  case (snoc l ls)
  have "keep_last n (ls @ [l]) =
    (let lines' = keep_last n ls @ [l] in if length lines' > n then tl lines' else lines')"
    by (simp add: keep_last_def)
  also have "\<dots> = (let lines' = drop (length ls - n) (ls @ [l]) in if length lines' > n then tl lines' else lines')"
    by (simp add: snoc)
  also have "\<dots> = drop (length (ls @ [l]) - n) (ls @ [l])"
    by (cases "length ls < n") (simp_all add: Let_def Suc_diff_le not_less drop_Suc tl_drop del: drop_append)
  finally show ?case .
qed

section \<open>The final normalization\<close>

lemma NormalizeScore_nth:
  assumes "\<forall>s \<in> set scores. moderate s" and "i < length scores"
  shows "sint (Neilats_NormalizeScore scores ! i) =
    (if sint (scores ! i) = Max (sint ` set scores) \<and> Min (sint ` set scores) < Max (sint ` set scores)
     then 100 else 0)"
proof -
  let ?s = "sint (scores ! i)" and ?mx = "Max (sint ` set scores)" and ?mn = "Min (sint ` set scores)"
  have ne: "scores \<noteq> []" using assms(2) by auto
  have "sint (- MaxInt64) \<le> - (2 ^ 62)" "2 ^ 62 \<le> sint MaxInt64" by (simp_all add: MaxInt64_def)
  note ex = scan_extrema [OF ne assms(1) this]
  have mem: "?s \<in> sint ` set scores" using assms(2) by simp
  then have b: "?mn \<le> ?s" "?s \<le> ?mx" by simp_all
  have "?mn \<in> sint ` set scores" "?mx \<in> sint ` set scores" using ne by simp_all
  then have m: "\<bar>?mn\<bar> < 2 ^ 62" "\<bar>?mx\<bar> < 2 ^ 62" using assms(1) by (auto simp: moderate_def)
  have r: "sint (scan_max (- MaxInt64) scores - scan_min MaxInt64 scores) = ?mx - ?mn"
    using m b ex by (subst sint_diff64) (simp_all add: in_int64_def)
  have d: "sint (scores ! i - scan_min MaxInt64 scores) = ?s - ?mn"
    using m b ex by (subst sint_diff64) (simp_all add: in_int64_def)
  show ?thesis
  proof (cases "?mn = ?mx")
    case True
    then have "scan_max (- MaxInt64) scores - scan_min MaxInt64 scores = 0" using r by (metis diff_self sint_0 signed_word_eqI)
    then show ?thesis using assms(2) True by (simp add: Neilats_NormalizeScore_def Let_def MinNodeScore_def)
  next
    case False
    then have pos: "0 < ?mx - ?mn" using b by linarith
    then have "scan_max (- MaxInt64) scores - scan_min MaxInt64 scores \<noteq> 0" using r by force
    moreover have "go_div (?s - ?mn) (?mx - ?mn) = (if ?s = ?mx then 1 else 0)"
      using pos b by (auto simp: go_div_nonneg)
    ultimately show ?thesis
      using assms(2) pos by (auto simp: Neilats_NormalizeScore_def Let_def MinNodeScore_def MaxNodeScore_def sdiv64_def r d)
  qed
qed

interpretation neilats_norm: score_normalizer Neilats_NormalizeScore "list_all moderate"
proof
  show "length (Neilats_NormalizeScore ss) = length ss" for ss
    by (simp add: Neilats_NormalizeScore_def Let_def)
  show "0 \<le> sint s \<and> sint s \<le> 100" if "list_all moderate ss" "s \<in> set (Neilats_NormalizeScore ss)" for ss s
  proof -
    from that(2) obtain i where "i < length (Neilats_NormalizeScore ss)" "s = Neilats_NormalizeScore ss ! i"
      by (auto simp: in_set_conv_nth)
    then show ?thesis using NormalizeScore_nth [of ss i] that(1)
      by (simp add: list_all_iff Neilats_NormalizeScore_def Let_def)
  qed
qed

text \<open>
  The final normalization does not map scores linearly to 0..100 as its comment says: integer
  division comes before the multiplication, so a node gets 100 if it has the highest raw score of at
  least two different ones and 0 otherwise.
\<close>

theorem NormalizeScore_all_or_nothing:
  assumes "\<forall>s \<in> set scores. moderate s" and "i < length scores"
  shows "sint (Neilats_NormalizeScore scores ! i) =
    (if sint (scores ! i) = Max (sint ` set scores) \<and> Min (sint ` set scores) < Max (sint ` set scores)
     then 100 else 0)"
  using assms by (rule NormalizeScore_nth)

theorem NormalizeScore_all_or_nothing_witness:
  "Neilats_NormalizeScore [10, 99, 100] = [0, 0, 100] \<and> sint (Neilats_NormalizeScore [10, 99, 100] ! 1) = 0"
proof -
  have "\<forall>s \<in> set [10, 99, 100 :: int64]. moderate s" by (simp add: moderate_def)
  from NormalizeScore_all_or_nothing [OF this, of 1]
  show ?thesis by simp code_simp
qed

section \<open>The round-trip matrix and the SLA filter\<close>

text \<open>The mean latency of the link from \<open>a\<close> to \<open>b\<close> as the matrix construction reads it.\<close>

definition measured :: "NeilatsIO \<Rightarrow> (string, UserAddressSecretMap) gomap \<Rightarrow> string \<Rightarrow> string \<Rightarrow> gofloat \<Rightarrow> bool" where
  "measured io nodes a b v \<longleftrightarrow>
     (\<exists>ua ub. map_of nodes a = Some ua \<and> map_of nodes b = Some ub \<and>
        getMeanOfLatencyFromSSH io a (NodeAddress ua) (NodeSecret ua) (NodeAddress ub) = Some (Inr v))"

definition visited_before :: "(string \<times> string) list \<Rightarrow> string \<times> string \<Rightarrow> string \<times> string \<Rightarrow> bool" where
  "visited_before es e f \<longleftrightarrow> e \<in> set (takeWhile (\<lambda>x. x \<noteq> f) es)"

definition effective_rtt :: "(string \<times> string) list \<Rightarrow> string \<Rightarrow> string \<Rightarrow> gofloat \<Rightarrow> gofloat \<Rightarrow> gofloat" where
  "effective_rtt es a b vab vba =
     (if \<not> f_le (Fin 99) vab then vab
      else if visited_before es (b, a) (a, b) \<and> \<not> f_le (Fin 99) vba then vba
      else Fin 0)"

lemma rtt_step_other:
  "rtt_step io nodes m e = Some (Inr m') \<Longrightarrow> (a, b) \<noteq> e \<Longrightarrow> rtt_at m' a b = rtt_at m a b"
  by (auto simp: rtt_step_def rtt_at_def map_getd_set split: prod.splits if_splits option.splits sum.splits)

lemma rtt_step_at:
  assumes "rtt_step io nodes m (a, b) = Some (Inr m')" and "a \<noteq> b" and "measured io nodes a b v"
  shows "rtt_at m' a b = (if f_le (Fin 99) v then rtt_at m b a else v)"
  using assms by (auto simp: rtt_step_def rtt_at_def map_getd_set measured_def split: if_splits)

lemma rtt_loop_other:
  "rtt_loop io nodes m es = Some (Inr m') \<Longrightarrow> (a, b) \<notin> set es \<Longrightarrow> rtt_at m' a b = rtt_at m a b"
proof (induction es arbitrary: m)
  case (Cons e es)
  then obtain m1 where m1: "rtt_step io nodes m e = Some (Inr m1)" "rtt_loop io nodes m1 es = Some (Inr m')"
    by (auto split: option.splits sum.splits)
  with Cons rtt_step_other [OF m1(1), of a b] show ?case by auto
qed simp

lemma rtt_loop_append:
  assumes "rtt_loop io nodes m (xs @ e # ys) = Some (Inr m')"
  obtains m1 m2 where "rtt_loop io nodes m xs = Some (Inr m1)" "rtt_step io nodes m1 e = Some (Inr m2)"
    "rtt_loop io nodes m2 ys = Some (Inr m')"
  using assms
proof (induction xs arbitrary: m thesis)
  case Nil
  then show ?case by (auto split: option.splits sum.splits)
next
  case (Cons x xs)
  from Cons.prems(2) obtain m0 where "rtt_step io nodes m x = Some (Inr m0)"
    "rtt_loop io nodes m0 (xs @ e # ys) = Some (Inr m')"
    by (auto split: option.splits sum.splits)
  with Cons.IH [of m0] Cons.prems(1) show ?case by auto
qed

lemma rtt_loop_first:
  assumes "rtt_loop io nodes m (xs @ (a, b) # ys) = Some (Inr m')" and "a \<noteq> b" and "measured io nodes a b v"
    and "(a, b) \<notin> set ys" and "(b, a) \<notin> set xs"
  shows "rtt_at m' a b = (if f_le (Fin 99) v then rtt_at m b a else v)"
proof -
  from rtt_loop_append [OF assms(1)] obtain m1 m2 where m: "rtt_loop io nodes m xs = Some (Inr m1)"
    "rtt_step io nodes m1 (a, b) = Some (Inr m2)" "rtt_loop io nodes m2 ys = Some (Inr m')" .
  have "rtt_at m' a b = rtt_at m2 a b" using rtt_loop_other [OF m(3) assms(4)] .
  also have "\<dots> = (if f_le (Fin 99) v then rtt_at m1 b a else v)"
    using rtt_step_at [OF m(2) assms(2,3)] .
  also have "rtt_at m1 b a = rtt_at m b a" using rtt_loop_other [OF m(1) assms(5)] .
  finally show ?thesis .
qed

lemma rtt_entry:
  assumes "rtt_loop io nodes [] es = Some (Inr m)" and "distinct es" and "(a, b) \<in> set es" and "a \<noteq> b"
    and ab: "measured io nodes a b vab" and ba: "measured io nodes b a vba"
  shows "rtt_at m a b = effective_rtt es a b vab vba"
proof -
  from assms(3) obtain xs ys where es: "es = xs @ (a, b) # ys" and x: "(a, b) \<notin> set xs"
    by (metis split_list_first)
  have y: "(a, b) \<notin> set ys" using assms(2) es by simp
  have tw: "takeWhile (\<lambda>e. e \<noteq> (a, b)) es = xs" unfolding es by (subst takeWhile_append2) (use x in auto)
  show ?thesis
  proof (cases "(b, a) \<in> set xs")
    case False
    then show ?thesis
      using rtt_loop_first [OF assms(1) [unfolded es] assms(4) ab y False]
      by (simp add: effective_rtt_def visited_before_def tw rtt_at_def)
  next
    case True
    then obtain x1 x2 where xs: "xs = x1 @ (b, a) # x2" by (metis split_list)
    from rtt_loop_append [OF assms(1) [unfolded es]] obtain m1 m2 where
      m: "rtt_loop io nodes [] xs = Some (Inr m1)" "rtt_step io nodes m1 (a, b) = Some (Inr m2)"
      "rtt_loop io nodes m2 ys = Some (Inr m)" .
    have "rtt_at m1 b a = (if f_le (Fin 99) vba then Fin 0 else vba)"
      using rtt_loop_first [OF m(1) [unfolded xs] _ ba] assms(2,4) x xs es by (auto simp: rtt_at_def)
    then show ?thesis
      using rtt_step_at [OF m(2) assms(4) ab] rtt_loop_other [OF m(3) y] True
      by (simp add: effective_rtt_def visited_before_def tw)
  qed
qed

text \<open>
  C21. The SLA filter, for a pod with an SLA whose neighbour \<open>b\<close> and the node \<open>a\<close> are configured: the
  node passes exactly when the effective round trip is at most the SLA. The effective round trip is
  the mean measured from \<open>a\<close> to \<open>b\<close> as long as it is not 99 or more; otherwise the mean of the
  opposite direction if that link happened to be visited earlier and is not 99 or more, and 0
  otherwise. Hence a link that measures 99 or more in both directions passes every non-negative SLA.
\<close>

theorem Filter_sla_verdict:
  assumes "EnableSLA cfg" and "map_of (pod_labels pod) ''nei_node'' = Some b"
    and "map_of (pod_labels pod) ''sla'' = Some s" and "io_ParseFloat io s = (sla, None)"
    and "a \<noteq> b" and "distinct (sched_pairs sched)" and "(a, b) \<in> set (sched_pairs sched)"
    and "measured io (KubeNodeAddressAndSecret cfg) a b vab" and "measured io (KubeNodeAddressAndSecret cfg) b a vba"
    and "Neilats_Filter io cfg sched pod a = Some code"
  shows "(code = Success \<longleftrightarrow> f_le (effective_rtt (sched_pairs sched) a b vab vba) sla) \<and>
    (code = Success \<or> code = Unschedulable) \<and>
    (f_le (Fin 99) vab \<and> f_le (Fin 99) vba \<and> f_le (Fin 0) sla \<longrightarrow> code = Success)"
proof -
  have "rtt_step io nodes m e \<noteq> Some (Inl err)" for nodes m e err
    by (auto simp: rtt_step_def getMeanOfLatencyFromSSH_def Let_def
        split: prod.splits option.splits sum.splits if_splits)
  then have "rtt_loop io nodes m es \<noteq> Some (Inl err)" for nodes m es err
    by (induction es arbitrary: m) (auto split: option.splits sum.splits)
  with assms(1-5,10) obtain m where m: "rtt_loop io (KubeNodeAddressAndSecret cfg) [] (sched_pairs sched) = Some (Inr m)"
    "code = (if f_le (rtt_at m a b) sla then Success else Unschedulable)"
    by (auto simp: Neilats_Filter_def BuildRttWithOutFileOnRemote_def split: option.splits sum.splits if_splits)
  from rtt_entry [OF m(1) assms(6,7,5,8,9)] m(2) show ?thesis
    by (auto simp: effective_rtt_def)
qed

definition demo_io :: NeilatsIO where
  "demo_io = \<lparr>io_ParseFloat = (\<lambda>s. if s = ''120'' then (Fin 120, None) else if s = ''5'' then (Fin 5, None)
       else (Fin 0, Some ''invalid syntax'')),
     io_queryPrometheus = (\<lambda>_ _. Inl ''down''), io_remoteLines = (\<lambda>_ _ _ _. Inr [''t, a (120 ms)'']),
     io_NewRequest = (\<lambda>_. None), io_Do = (\<lambda>_ _. Inl ''down''), io_Unmarshal = (\<lambda>_. Inl ''empty'')\<rparr>"

definition demo_cfg :: NeilatsArgs where
  "demo_cfg = \<lparr>PrometheusAddress = [], NetworkDevice = [], StorageDevice = [], EnableSLA = True,
     KubeNodeAddressAndSecret = [(''a'', \<lparr>NodeAddress = ''1'', NodeSecret = []\<rparr>), (''b'', \<lparr>NodeAddress = ''2'', NodeSecret = []\<rparr>)],
     LstmAdfModuleAddress = []\<rparr>"

definition demo_sla_pod :: Pod where
  "demo_sla_pod = demo_pod\<lparr>pod_labels := [(''nei_node'', ''b''), (''sla'', ''5'')]\<rparr>"

definition demo_sched :: rtt_sched where
  "demo_sched = [(''a'', [''a'', ''b'']), (''b'', [''b'', ''a''])]"

lemma demo_mean: "getMeanOfLatencyFromSSH demo_io x y z w = Some (Inr (Fin 120))"
proof -
  have parse: "parse_latencies demo_io (keep_last 30 [''t, a (120 ms)'']) = Some (Inr [Fin 120])"
    by (simp add: keep_last_eq demo_io_def CutPrefix_def Let_def)
  have lines: "io_remoteLines demo_io x y z p = Inr [''t, a (120 ms)'']" for p by (simp add: demo_io_def)
  show ?thesis
    using fl64_of_int [of 120] fl64_of_int [of 1]
    by (simp add: getMeanOfLatencyFromSSH_def getLastLinesLatencyFromSSH_def f_of_int_def parse lines)
qed

lemma demo_measured:
  "measured demo_io (KubeNodeAddressAndSecret demo_cfg) ''a'' ''b'' (Fin 120)"
  "measured demo_io (KubeNodeAddressAndSecret demo_cfg) ''b'' ''a'' (Fin 120)"
  by (simp_all add: measured_def demo_cfg_def demo_mean)

theorem Filter_sla_verdict_witness:
  "\<exists>code. Neilats_Filter demo_io demo_cfg demo_sched demo_sla_pod ''a'' = Some code \<and> code = Success"
proof -
  have e: "distinct (sched_pairs demo_sched)" "(''a'', ''b'') \<in> set (sched_pairs demo_sched)"
    "EnableSLA demo_cfg" "map_of (pod_labels demo_sla_pod) ''nei_node'' = Some ''b''"
    "map_of (pod_labels demo_sla_pod) ''sla'' = Some ''5''" "io_ParseFloat demo_io ''5'' = (Fin 5, None)"
    "''a'' \<noteq> (''b'' :: string)"
    by (simp_all add: sched_pairs_def demo_sched_def demo_cfg_def demo_sla_pod_def demo_io_def)
  have "rtt_step demo_io nodes m e \<noteq> None" for nodes m e
    by (auto simp: rtt_step_def demo_mean split: prod.splits option.splits)
  then have "rtt_loop demo_io nodes m es \<noteq> None" for nodes m es
    by (induction es arbitrary: m) (auto split: option.splits sum.splits)
  then have "Neilats_Filter demo_io demo_cfg demo_sched demo_sla_pod ''a'' \<noteq> None"
    using e by (auto simp: Neilats_Filter_def BuildRttWithOutFileOnRemote_def split: option.splits sum.splits)
  then obtain code where "Neilats_Filter demo_io demo_cfg demo_sched demo_sla_pod ''a'' = Some code" by blast
  with Filter_sla_verdict [OF e(3-7,1,2) demo_measured this] show ?thesis by simp
qed

section \<open>Bounds of the normalized scores\<close>

text \<open>A finite double is a multiple of the smallest unit; the bound keeps differences finite.\<close>

definition unit64 :: rat where
  "unit64 = 2 powi (- 1074)"

definition score_ok :: "gofloat \<Rightarrow> bool" where
  "score_ok v \<longleftrightarrow> (\<exists>x k. v = Fin x \<and> x = of_int k * unit64 \<and> \<bar>x\<bar> \<le> 2 ^ 62)"

lemma round64_unit: "round_to binary64 unit64 = unit64"
  unfolding unit64_def by (rule round64_pow2) simp

lemma unit64_pos: "0 < unit64"
  unfolding unit64_def by (rule zero_less_power_int) simp

lemma normalize1_bounds:
  assumes "score_ok (Fin mn)" "score_ok (Fin mx)" "score_ok (Fin v)" and "mn \<le> v" "v \<le> mx"
  shows "\<exists>r. normalize1 (Fin mn) (Fin mx) (Fin v) = Fin r \<and> 100 \<le> r \<and> r \<le> 200"
proof (cases "mx = mn")
  case True
  then show ?thesis by (simp add: normalize1_def f_eq_def)
next
  case False
  let ?R = "round_to binary64"
  have ints: "?R 0 = 0" "?R 1 = 1" "?R 2 = 2" "?R 100 = 100" "?R 200 = 200"
    using round_to_int64_exact [of 1] round_to_int64_exact [of 2] round_to_int64_exact [of 100]
      round_to_int64_exact [of 200] by simp_all
  have p64: "?R (2 ^ 64) = 2 ^ 64" using round64_pow2 [of 64] by simp
  have prec: "1 \<le> ff_prec binary64" by (simp add: binary64_def)
  have b: "\<bar>mn\<bar> \<le> 2 ^ 62" "\<bar>mx\<bar> \<le> 2 ^ 62" "\<bar>v\<bar> \<le> 2 ^ 62"
    using assms(1-3) by (auto simp: score_ok_def)
  have d1: "fl binary64 (v - mn) = Fin (?R (v - mn)) \<and> 0 \<le> ?R (v - mn)"
    using fl64_between [of 0 "v - mn" "2 ^ 64"] assms(4) b ints p64 by simp
  have d2: "fl binary64 (mx - mn) = Fin (?R (mx - mn))"
    using fl64_between [of 0 "mx - mn" "2 ^ 64"] assms(4,5) b ints p64 by simp
  have le: "?R (v - mn) \<le> ?R (mx - mn)" using assms(5) prec by (simp add: round_to_mono)
  obtain k l where kl: "mx = of_int k * unit64" "mn = of_int l * unit64"
    using assms(1,2) by (auto simp: score_ok_def)
  have "of_int l * unit64 < of_int k * unit64" using False assms(4,5) kl by linarith
  then have "l < k" using unit64_pos by simp
  then have "1 * unit64 \<le> of_int (k - l) * unit64" using unit64_pos by (intro mult_right_mono) simp_all
  then have "unit64 \<le> mx - mn" by (simp add: kl algebra_simps)
  from round_to_mono [OF this prec] have pos: "0 < ?R (mx - mn)" using unit64_pos round64_unit by linarith
  let ?q = "?R (v - mn) / ?R (mx - mn)"
  have q: "0 \<le> ?q" "?q \<le> 1" using d1 le pos by (simp_all add: divide_le_eq)
  note q1 = fl64_between [OF q ints(1,2)]
  then have q1: "fl binary64 ?q = Fin (?R ?q)" "0 \<le> ?R ?q" "?R ?q \<le> 1" by simp_all
  have q2: "fl binary64 (?R ?q + 1) = Fin (?R (?R ?q + 1))" "1 \<le> ?R (?R ?q + 1)" "?R (?R ?q + 1) \<le> 2"
    using fl64_between [of 1 "?R ?q + 1" 2] q1 ints by simp_all
  have q3: "fl binary64 (?R (?R ?q + 1) * 100) = Fin (?R (?R (?R ?q + 1) * 100))"
    "100 \<le> ?R (?R (?R ?q + 1) * 100)" "?R (?R (?R ?q + 1) * 100) \<le> 200"
    using fl64_between [of 100 "?R (?R ?q + 1) * 100" 200] q2 ints by simp_all
  show ?thesis using False d1 d2 pos q1 q2 q3 by (simp add: normalize1_def f_eq_def f_sub_def)
qed

lemma score_ok_Fin: "score_ok v \<Longrightarrow> \<exists>x. v = Fin x"
  unfolding score_ok_def by blast

lemma collect_loop:
  assumes "\<forall>node \<in> set nodes. score node = Some (Fin (g node))"
  shows "foldM (\<lambda>(m, mn, mx) node. map_option (\<lambda>v. (map_set node v m, f_min mn v, f_max mx v)) (score node))
      (m, Fin mn, Fin mx) nodes =
    Some (foldl (\<lambda>m node. map_set node (Fin (g node)) m) m nodes,
          Fin (foldl min mn (map g nodes)), Fin (foldl max mx (map g nodes)))"
  using assms by (induction nodes arbitrary: m mn mx) simp_all

lemma map_of_foldl_nodes:
  "map_of (foldl (\<lambda>m node. map_set node (f node) m) m nodes) n =
     (if n \<in> set nodes then Some (f n) else map_of m n)"
  by (induction nodes arbitrary: m) (auto simp: map_of_set)

lemma foldl_min_le: "foldl min a xs \<le> a \<and> (\<forall>x \<in> set xs. foldl min a xs \<le> x)" for a :: rat
proof (induction xs arbitrary: a)
  case (Cons x xs)
  show ?case using Cons.IH [of "min a x"] by auto
qed simp

lemma foldl_max_ge: "a \<le> foldl max a xs \<and> (\<forall>x \<in> set xs. x \<le> foldl max a xs)" for a :: rat
proof (induction xs arbitrary: a)
  case (Cons x xs)
  show ?case using Cons.IH [of "max a x"] by auto
qed simp

lemma foldl_min_in: "foldl min a xs = a \<or> foldl min a xs \<in> set xs" for a :: rat
proof (induction xs arbitrary: a)
  case (Cons x xs)
  show ?case using Cons.IH [of "min a x"] by (auto simp: min_def)
qed simp

lemma foldl_max_in: "foldl max a xs = a \<or> foldl max a xs \<in> set xs" for a :: rat
proof (induction xs arbitrary: a)
  case (Cons x xs)
  show ?case using Cons.IH [of "max a x"] by (auto simp: max_def)
qed simp

lemma normalize_nodes:
  assumes "distinct nodes" and "n \<in> set nodes"
  shows "map_of (foldl (\<lambda>m node. map_set node (h (map_getd d m node)) m) m nodes) n = Some (h (map_getd d m n))"
  using assms
proof (induction nodes arbitrary: m)
  case (Cons x nodes)
  have keep: "n \<notin> set ns \<Longrightarrow> map_of (foldl (\<lambda>m node. map_set node (h (map_getd d m node)) m) m' ns) n = map_of m' n" for m' ns
    by (induction ns arbitrary: m') (auto simp: map_of_set)
  show ?case
  proof (cases "n = x")
    case True
    then show ?thesis using Cons.prems keep [of nodes] by (simp add: map_of_set)
  next
    case False
    then show ?thesis using Cons by (simp add: map_getd_set)
  qed
qed simp

lemma MinInt64_float: "of_int64f (- (2 ^ 63)) = Fin (- (2 ^ 63))"
proof -
  have "round_to binary64 (- (2 ^ 63)) = - (2 ^ 63)"
    using round_to_exact [of "- 1" binary64 63] by (simp add: binary64_def)
  then show ?thesis using fl64_between [of "- (2 ^ 63)" "- (2 ^ 63)" "- (2 ^ 63)"] by (simp add: f_of_int_def)
qed

text \<open>The raw scores of one kind, normalized, lie between 100 and 200 for every node.\<close>

lemma collect_normalize_bounds:
  assumes "distinct nodes" and ok: "\<forall>node \<in> set nodes. \<exists>v. score node = Some v \<and> score_ok v"
    and "collect_scores score nodes = Some r" and "n \<in> set nodes"
  shows "\<exists>x. map_of (normalize_scores nodes r) n = Some (Fin x) \<and> 100 \<le> x \<and> x \<le> 200"
proof -
  have "\<forall>node \<in> set nodes. \<exists>x. score node = Some (Fin x) \<and> score_ok (Fin x)"
    using ok score_ok_Fin by metis
  from bchoice [OF this] obtain g
    where g: "\<forall>node \<in> set nodes. score node = Some (Fin (g node)) \<and> score_ok (Fin (g node))" by blast
  define top bot :: rat where "top = (2 ^ 53 - 1) * 2 ^ 971" and "bot = - (2 ^ 63)"
  have tb: "2 ^ 62 < top" "bot < - (2 ^ 62)" by (simp_all add: top_def bot_def)
  define mn mx where "mn = foldl min top (map g nodes)" and "mx = foldl max bot (map g nodes)"
  have r: "r = (foldl (\<lambda>m node. map_set node (Fin (g node)) m) [] nodes, Fin mn, Fin mx)"
    using assms(3) [unfolded collect_scores_def MaxFloat64_def MinInt64_float, folded top_def bot_def]
      collect_loop [of nodes score g "[]" top bot] g
    by (simp add: mn_def mx_def)
  have gn: "score_ok (Fin (g n))" "mn \<le> g n" "g n \<le> mx" using g assms(4) foldl_min_le foldl_max_ge
    by (auto simp: mn_def mx_def)
  have gb: "\<bar>g node\<bar> \<le> 2 ^ 62" if "node \<in> set nodes" for node using g that by (auto simp: score_ok_def)
  have "mn \<noteq> top" "mx \<noteq> bot" using gn(2,3) gb [OF assms(4)] tb by linarith+
  then have "mn \<in> g ` set nodes" "mx \<in> g ` set nodes"
    using foldl_min_in [of top "map g nodes"] foldl_max_in [of bot "map g nodes"] by (auto simp: mn_def mx_def)
  then have "score_ok (Fin mn)" "score_ok (Fin mx)" using g by auto
  then obtain x where "normalize1 (Fin mn) (Fin mx) (Fin (g n)) = Fin x \<and> 100 \<le> x \<and> x \<le> 200"
    using normalize1_bounds [OF _ _ gn(1) gn(2,3)] by blast
  then show ?thesis
    using normalize_nodes [OF assms(1,4), of "normalize1 (Fin mn) (Fin mx)" "Fin 0"
        "foldl (\<lambda>m node. map_set node (Fin (g node)) m) [] nodes"] assms(4)
    by (simp add: normalize_scores_def r) (simp add: map_getd_def map_of_foldl_nodes)
qed

text \<open>
  \<open>math.Cbrt\<close> is accurate to a few units in the last place; a relative error of \<open>2^-40\<close> is ample.
\<close>

definition cbrt_accurate :: "(gofloat \<Rightarrow> gofloat) \<Rightarrow> bool" where
  "cbrt_accurate cbrt \<longleftrightarrow>
     (\<forall>x. 1 \<le> x \<longrightarrow> (\<exists>y. cbrt (Fin x) = Fin y \<and> 0 \<le> y \<and>
        (y * (1 - 1 / 2 ^ 40)) ^ 3 \<le> x \<and> x \<le> (y * (1 + 1 / 2 ^ 40)) ^ 3))"

lemma cube_le_iff: "0 \<le> a \<Longrightarrow> 0 \<le> b \<Longrightarrow> a ^ 3 \<le> b ^ 3 \<longleftrightarrow> a \<le> b" for a b :: rat
  by (simp add: power_mono_iff)

lemma mul64_scores:
  assumes "lo \<le> x * y" "x * y \<le> hi" and "lo = of_int l" "hi = of_int h" "\<bar>l\<bar> \<le> 2 ^ 52" "\<bar>h\<bar> \<le> 2 ^ 52"
  obtains z where "mul64 (Fin x) (Fin y) = Fin z" "lo \<le> z" "z \<le> hi"
proof -
  have "\<bar>lo\<bar> \<le> 2 ^ 100" "\<bar>hi\<bar> \<le> 2 ^ 100"
    using assms(3-6) of_int_le_iff [of "\<bar>l\<bar>" "2 ^ 52", where 'a = rat] of_int_le_iff [of "\<bar>h\<bar>" "2 ^ 52", where 'a = rat]
    by simp_all
  with fl64_between [OF assms(1,2)] round_to_int64_exact [OF assms(5)] round_to_int64_exact [OF assms(6)] assms(3,4)
  show ?thesis using that by auto
qed

text \<open>The truncated cube root of the product of three scores of the band.\<close>

lemma combined_score_bounds:
  assumes "cbrt_accurate cbrt" "100 \<le> x" "x \<le> 200" "100 \<le> y" "y \<le> 200" "100 \<le> z" "z \<le> 200"
  obtains c where "cbrt (mul64 (mul64 (Fin x) (Fin y)) (Fin z)) = Fin c"
    "99 \<le> sint (f_to_int64 (Fin c))" "sint (f_to_int64 (Fin c)) \<le> 200"
proof -
  have "10000 \<le> x * y" "x * y \<le> 40000" using assms mult_mono [of 100 x 100 y] mult_mono [of x 200 y 200] by auto
  from mul64_scores [OF this, of 10000 40000] obtain w where
    w: "mul64 (Fin x) (Fin y) = Fin w" "10000 \<le> w" "w \<le> 40000" by auto
  have "1000000 \<le> w * z" "w * z \<le> 8000000" using w assms mult_mono [of 10000 w 100 z] mult_mono [of w 40000 z 200] by auto
  from mul64_scores [OF this, of 1000000 8000000] obtain v where
    v: "mul64 (Fin w) (Fin z) = Fin v" "1000000 \<le> v" "v \<le> 8000000" by auto
  from assms(1) v(2) obtain c where c: "cbrt (Fin v) = Fin c" "0 \<le> c"
    "(c * (1 - 1 / 2 ^ 40)) ^ 3 \<le> v" "v \<le> (c * (1 + 1 / 2 ^ 40)) ^ 3"
    unfolding cbrt_accurate_def by (metis one_le_numeral order_trans)
  have "(100 :: rat) ^ 3 \<le> (c * (1 + 1 / 2 ^ 40)) ^ 3" "(c * (1 - 1 / 2 ^ 40)) ^ 3 \<le> (200 :: rat) ^ 3"
    using c(3,4) v(2,3) by simp_all
  then have "100 \<le> c * (1 + 1 / 2 ^ 40)" "c * (1 - 1 / 2 ^ 40) \<le> 200"
    using c(2) cube_le_iff [of 100 "c * (1 + 1 / 2 ^ 40)"] cube_le_iff [of "c * (1 - 1 / 2 ^ 40)" 200]
    by simp_all
  then have "99 \<le> c" "c < 201" by simp_all
  then have "99 \<le> sint (f_to_int64 (Fin c))" "sint (f_to_int64 (Fin c)) \<le> 200"
    using f_to_int64_between [of 99 c 200] by simp_all
  then show ?thesis using that [of c] c(1) w(1) v(1) by simp
qed


lemma score_ok_zero: "score_ok (Fin 0)"
  unfolding score_ok_def by (intro exI [of _ 0]) simp

lemma demo_scores:
  "or_zero (LBScore demo_io cfg demo_pod node) = Some (Fin 0)"
  "or_zero (ADFScore demo_io cfg nei node) = Some (Fin 0)"
  "or_zero (FutureScore demo_io cfg nei node sla) = Some (Fin 0)"
proof -
  have lines: "io_remoteLines demo_io x y z p = Inr [''t, a (120 ms)'']" for x y z p by (simp add: demo_io_def)
  have parse: "parse_latencies demo_io (keep_last 30 [''t, a (120 ms)'']) = Some (Inr [Fin 120])"
    by (simp add: keep_last_eq demo_io_def CutPrefix_def Let_def)
  have post: "io_NewRequest demo_io url = None" "io_Do demo_io url req = Inl ''down''" for url req
    by (simp_all add: demo_io_def)
  show "or_zero (ADFScore demo_io cfg nei node) = Some (Fin 0)"
    "or_zero (FutureScore demo_io cfg nei node sla) = Some (Fin 0)"
    by (simp_all add: ADFScore_def FutureScore_def link_score_def getLastLinesLatencyFromSSH_def lines parse
        sendHTTPRequest_def post Let_def)
  have "io_queryPrometheus demo_io addr q = Inl ''down''" for addr q by (simp add: demo_io_def)
  then show "or_zero (LBScore demo_io cfg demo_pod node) = Some (Fin 0)"
    by (simp add: LBScore_def query_then_def GetNodeTotalCpu_def prom_query_def pod_cpu_request_def demo_pod_def Let_def)
qed

text \<open>A cube root that keeps sixty binary digits.\<close>

fun demo_cbrt :: "gofloat \<Rightarrow> gofloat" where
  "demo_cbrt (Fin x) = Fin (of_int \<lfloor>root 3 (of_rat x) * 2 ^ 60\<rfloor> / 2 ^ 60)"
| "demo_cbrt v = v"

lemma demo_cbrt_accurate: "cbrt_accurate demo_cbrt"
  unfolding cbrt_accurate_def
proof (intro allI impI)
  fix x :: rat assume x: "1 \<le> x"
  define t where "t = root 3 (of_rat x)"
  define y :: rat where "y = of_int \<lfloor>t * 2 ^ 60\<rfloor> / 2 ^ 60"
  have t: "1 \<le> t" "t ^ 3 = of_rat x" using x by (simp_all add: t_def)
  have yr: "(of_rat y :: real) = of_int \<lfloor>t * 2 ^ 60\<rfloor> / 2 ^ 60"
    by (simp add: y_def of_rat_divide)
  have y1: "of_rat y \<le> t" "t < of_rat y + 1 / 2 ^ 60"
    using floor_correct [of "t * 2 ^ 60"] by (simp_all add: yr divide_simps)
  then have y0: "(1 :: real) / 2 \<le> of_rat y" using t(1) by (simp add: divide_simps)
  then have "(0 :: real) \<le> of_rat y" by linarith
  then have y2: "0 \<le> y" by simp
  have "(of_rat y * (1 - 1 / 2 ^ 40)) ^ 3 \<le> t ^ 3" using y1 y0 y2 by (intro power_mono) auto
  then have "(of_rat ((y * (1 - 1 / 2 ^ 40)) ^ 3) :: real) \<le> of_rat x"
    by (simp add: t of_rat_power of_rat_mult of_rat_diff of_rat_divide)
  moreover have "t ^ 3 \<le> (of_rat y * (1 + 1 / 2 ^ 40)) ^ 3" using y1 y0 t by (intro power_mono) auto
  then have "(of_rat x :: real) \<le> of_rat ((y * (1 + 1 / 2 ^ 40)) ^ 3)"
    by (simp add: t of_rat_power of_rat_mult of_rat_add of_rat_divide)
  ultimately show "\<exists>y. demo_cbrt (Fin x) = Fin y \<and> 0 \<le> y \<and>
      (y * (1 - 1 / 2 ^ 40)) ^ 3 \<le> x \<and> x \<le> (y * (1 + 1 / 2 ^ 40)) ^ 3"
    using y2 by (intro exI [of _ y]) (simp add: y_def t_def of_rat_less_eq)
qed


section \<open>One undefined score spoils all\<close>

definition no_inf :: "gofloat \<Rightarrow> bool" where
  "no_inf v \<longleftrightarrow> v \<noteq> PInf \<and> v \<noteq> NInf"

lemma collect_loop_nan:
  assumes "foldM (\<lambda>(m, mn, mx) node. map_option (\<lambda>v. (map_set node v m, f_min mn v, f_max mx v)) (score node))
      (m, mn, mx) nodes = Some (m', mn', mx')"
    and "\<forall>node \<in> set nodes. \<forall>v. score node = Some v \<longrightarrow> no_inf v"
    and "no_inf mn" "no_inf mx" and "(mn = NaN \<and> mx = NaN) \<or> (\<exists>node \<in> set nodes. score node = Some NaN)"
  shows "mn' = NaN \<and> mx' = NaN"
  using assms
proof (induction nodes arbitrary: m mn mx)
  case (Cons node nodes)
  from Cons.prems(1) obtain v where v: "score node = Some v"
    and rest: "foldM (\<lambda>(m, mn, mx) node. map_option (\<lambda>v. (map_set node v m, f_min mn v, f_max mx v)) (score node))
      (map_set node v m, f_min mn v, f_max mx v) nodes = Some (m', mn', mx')"
    by (auto split: option.splits)
  have nv: "no_inf v" using Cons.prems(2) v by simp
  then have "no_inf (f_min mn v)" "no_inf (f_max mx v)"
    using Cons.prems(3,4) by (auto simp: no_inf_def f_min_def f_max_def)
  moreover have "v = NaN \<or> (mn = NaN \<and> mx = NaN) \<Longrightarrow> f_min mn v = NaN \<and> f_max mx v = NaN"
    using nv Cons.prems(3,4) by (auto simp: no_inf_def f_min_def f_max_def)
  ultimately show ?case using Cons.IH [OF rest] Cons.prems(2,5) v by auto
qed auto

lemma normalize1_nan: "normalize1 NaN NaN v = NaN"
  by (cases v) (simp_all add: normalize1_def f_eq_def f_sub_def f_inf_def)

text \<open>
  One undefined raw score spoils the whole round: if the load-balance score of a single candidate
  node is NaN (Prometheus reports a NaN for a node without samples) and none is infinite, then the
  stored score of every candidate is NaN and, for a pod without an SLA, \<open>Score\<close> is the most negative
  integer for every node, so that the load of the healthy nodes no longer matters.
\<close>

theorem PreScore_nan_spoils:
  assumes "PreScore io cfg pod nodes = Some maps" and "distinct nodes" and "n \<in> set nodes"
    and "bad \<in> set nodes" and "or_zero (LBScore io cfg pod bad) = Some NaN"
    and "\<forall>node \<in> set nodes. \<forall>v. or_zero (LBScore io cfg pod node) = Some v \<longrightarrow> no_inf v"
    and "\<not> EnableSLA cfg"
  shows "map_of (LBScoreMap maps) n = Some NaN \<and> sint (Neilats_Score cbrt cfg maps pod n) = - (2 ^ 63)"
proof -
  from assms(1) obtain m mn mx where
    r: "collect_scores (\<lambda>node. or_zero (LBScore io cfg pod node)) nodes = Some (m, mn, mx)"
    and lb: "LBScoreMap maps = normalize_scores nodes (m, mn, mx)"
    by (auto simp: PreScore_def Let_def split: Option.bind_splits option.splits if_splits)
  have nan: "mn = NaN \<and> mx = NaN"
    by (rule collect_loop_nan [OF r [unfolded collect_scores_def] assms(6)])
      (use assms(4,5) in \<open>auto simp: no_inf_def MaxFloat64_def MinInt64_float simp del: power_numeral\<close>)
  have "map_of (LBScoreMap maps) n = Some NaN"
    using normalize_nodes [OF assms(2,3), of "normalize1 NaN NaN" "Fin 0" m]
    by (simp add: lb normalize_scores_def nan normalize1_nan)
  then show ?thesis using assms(7) by (simp add: Neilats_Score_def map_getd_def)
qed

definition nan_io :: NeilatsIO where
  "nan_io = demo_io\<lparr>io_ParseFloat := (\<lambda>s. (NaN, None)), io_queryPrometheus := (\<lambda>_ _. Inr [[PVOther, PVString ''NaN'']])\<rparr>"

theorem PreScore_nan_spoils_witness:
  "\<exists>maps. PreScore nan_io (demo_cfg\<lparr>EnableSLA := False\<rparr>) demo_pod [''a''] = Some maps \<and>
     sint (Neilats_Score demo_cbrt (demo_cfg\<lparr>EnableSLA := False\<rparr>) maps demo_pod ''a'') = - (2 ^ 63)"
proof -
  let ?cfg = "demo_cfg\<lparr>EnableSLA := False\<rparr>"
  have q: "prom_query nan_io addr s msg = Some (Inr NaN)" for addr s msg
    by (simp add: prom_query_def prom_value_def nan_io_def)
  have net: "GetNodeNetworkAvailableRate nan_io addr s dev = Some (Inr NaN)" for addr s dev
    by (simp add: GetNodeNetworkAvailableRate_def prom_value_def nan_io_def f_sub_def f_inf_def)
  have "LBScore nan_io ?cfg demo_pod node = Some (Inr NaN)" for node
    by (simp add: LBScore_def query_then_def GetNodeTotalCpu_def GetNodeCpuIdleRate_def GetNodeTotalMemory_def
        GetNodeMemoryAvailableRate_def GetNodeTotalDisk_def GetNodeDiskAvailableRate_def q net
        pod_cpu_request_def pod_mem_request_def demo_pod_def use_rate_def lb_score_def f_sub_def f_inf_def Let_def)
  then have lb: "or_zero (LBScore nan_io ?cfg demo_pod node) = Some NaN" for node by simp
  then obtain maps where maps: "PreScore nan_io ?cfg demo_pod [''a''] = Some maps"
    by (auto simp: PreScore_def collect_scores_def Let_def demo_pod_def)
  from PreScore_nan_spoils [OF maps, of "''a''" "''a''" demo_cbrt] maps lb show ?thesis
    by (auto simp: no_inf_def)
qed

section \<open>The network rate\<close>

text \<open>
  An idle network interface is reported as 400 per cent available: the quotient by the total is
  multiplied by two where the divisor was meant to be.
\<close>

lemma idle_network_rate:
  assumes "\<forall>q. \<exists>r. io_queryPrometheus io addr q = Inr r \<and> r \<noteq> [] \<and> prom_value io r = Some (Fin 0)"
  shows "GetNodeNetworkAvailableRate io addr node dev = Some (Inr (Fin 4))"
proof -
  have "fl binary64 2000000 = Fin 2000000" "fl binary64 2 = Fin 2" "fl binary64 4 = Fin 4"
    using fl64_of_int [of 2000000] fl64_of_int [of 2] fl64_of_int [of 4] by simp_all
  then have rate: "mul64 (div64 (sub64 (sub64 (Fin (totalNetworkTraffic * 2)) (Fin 0)) (Fin 0)) (Fin totalNetworkTraffic)) (Fin 2) = Fin 4"
    by (simp add: totalNetworkTraffic_def f_sub_def)
  let ?q = "\<lambda>dir. ''rate(node_network_'' @ dir @ ''_bytes_total{instance='' @ sq node @
    '',device='' @ sq dev @ ''}[1m])''"
  obtain rx tx where "io_queryPrometheus io addr (?q ''receive'') = Inr rx" "rx \<noteq> []" "prom_value io rx = Some (Fin 0)"
    "io_queryPrometheus io addr (?q ''transmit'') = Inr tx" "tx \<noteq> []" "prom_value io tx = Some (Fin 0)"
    using assms by blast
  then show ?thesis unfolding GetNodeNetworkAvailableRate_def Let_def by (simp only: sum.case) (simp add: rate)
qed

end
