(* ===== verification/NeilatsLatency.thy ===== *)
theory NeilatsLatency
  imports Neilats
begin

text \<open>
  The latency measurements behind the Neilats filter: \<open>latency_run_get.go\<close>, which installs and starts a
  probe script on every node over SSH and downloads its results, and the functions of
  \<open>build-rtt-matrix.go\<close> that build the round-trip matrix from the downloaded files.

  The files of the nodes and of the scheduler's machine are the state (\<open>LatencyWorld\<close>); the record
  \<open>RemoteEnv\<close> says which calls of the SSH, SFTP and file packages fail, and what a remote command does.
  An operation returns its error, if any, and the new state. Log messages are left out.
\<close>

section \<open>Files and remote hosts\<close>

record RemoteFile =
  rf_content :: string
  rf_mode :: nat

record LatencyWorld =
  remote_files :: "string \<times> string \<Rightarrow> RemoteFile option"
  local_files :: "string \<Rightarrow> string option"

datatype FileOp = OpOpen | OpCreate | OpChmod

text \<open>
  A remote file is named by the address of its host and its path. \<open>sftp_WriteFail\<close> and \<open>io_CopyFail\<close> give the
  number of bytes that were written before the error. \<open>sftp_mode\<close> is the mode of a new file.
\<close>

record RemoteEnv =
  ssh_Dial :: "string \<Rightarrow> string \<Rightarrow> string \<Rightarrow> LatencyWorld \<Rightarrow> string option"
  ssh_NewSession :: "string \<Rightarrow> LatencyWorld \<Rightarrow> string option"
  ssh_Run :: "string \<Rightarrow> string \<Rightarrow> LatencyWorld \<Rightarrow> string option \<times> LatencyWorld"
  sftp_NewClient :: "string \<Rightarrow> LatencyWorld \<Rightarrow> string option"
  sftp_Fail :: "FileOp \<Rightarrow> string \<Rightarrow> string \<Rightarrow> LatencyWorld \<Rightarrow> string option"
  sftp_WriteFail :: "string \<Rightarrow> string \<Rightarrow> string \<Rightarrow> LatencyWorld \<Rightarrow> (nat \<times> string) option"
  sftp_mode :: nat
  os_Fail :: "FileOp \<Rightarrow> string \<Rightarrow> LatencyWorld \<Rightarrow> string option"
  io_CopyFail :: "string \<Rightarrow> LatencyWorld \<Rightarrow> (nat \<times> string) option"

definition set_remote :: "string \<Rightarrow> string \<Rightarrow> RemoteFile \<Rightarrow> LatencyWorld \<Rightarrow> LatencyWorld" where
  "set_remote addr path f w = w\<lparr>remote_files := (remote_files w)((addr, path) \<mapsto> f)\<rparr>"

definition set_local :: "string \<Rightarrow> string \<Rightarrow> LatencyWorld \<Rightarrow> LatencyWorld" where
  "set_local path content w = w\<lparr>local_files := (local_files w)(path \<mapsto> content)\<rparr>"

definition sftp_Open :: "RemoteEnv \<Rightarrow> string \<Rightarrow> string \<Rightarrow> LatencyWorld \<Rightarrow> string + string" where
  "sftp_Open env addr path w =
     (case sftp_Fail env OpOpen addr path w of
        Some err \<Rightarrow> Inl err
      | None \<Rightarrow> (case remote_files w (addr, path) of None \<Rightarrow> Inl ''file does not exist'' | Some f \<Rightarrow> Inr (rf_content f)))"

text \<open>Creating a file truncates one that exists, which keeps its mode.\<close>

definition sftp_Create :: "RemoteEnv \<Rightarrow> string \<Rightarrow> string \<Rightarrow> LatencyWorld \<Rightarrow> string option \<times> LatencyWorld" where
  "sftp_Create env addr path w =
     (case sftp_Fail env OpCreate addr path w of
        Some err \<Rightarrow> (Some err, w)
      | None \<Rightarrow> (None, set_remote addr path
                  \<lparr>rf_content = [], rf_mode = (case remote_files w (addr, path) of None \<Rightarrow> sftp_mode env | Some f \<Rightarrow> rf_mode f)\<rparr> w))"

definition file_Write :: "RemoteEnv \<Rightarrow> string \<Rightarrow> string \<Rightarrow> string \<Rightarrow> LatencyWorld \<Rightarrow> string option \<times> LatencyWorld" where
  "file_Write env addr path content w =
     (case remote_files w (addr, path) of
        None \<Rightarrow> (Some ''file does not exist'', w)
      | Some f \<Rightarrow>
          (case sftp_WriteFail env addr path content w of
             Some (n, err) \<Rightarrow> (Some err, set_remote addr path (f\<lparr>rf_content := rf_content f @ take n content\<rparr>) w)
           | None \<Rightarrow> (None, set_remote addr path (f\<lparr>rf_content := rf_content f @ content\<rparr>) w)))"

definition sftp_Chmod :: "RemoteEnv \<Rightarrow> string \<Rightarrow> string \<Rightarrow> nat \<Rightarrow> LatencyWorld \<Rightarrow> string option \<times> LatencyWorld" where
  "sftp_Chmod env addr path mode w =
     (case sftp_Fail env OpChmod addr path w of
        Some err \<Rightarrow> (Some err, w)
      | None \<Rightarrow>
          (case remote_files w (addr, path) of
             None \<Rightarrow> (Some ''file does not exist'', w)
           | Some f \<Rightarrow> (None, set_remote addr path (f\<lparr>rf_mode := mode\<rparr>) w)))"

text \<open>A relative path of the scheduler's machine, with or without the leading \<open>./\<close>, is one file.\<close>

definition clean_path :: "string \<Rightarrow> string" where
  "clean_path path = CutPrefix path ''./''"

definition os_Open :: "RemoteEnv \<Rightarrow> string \<Rightarrow> LatencyWorld \<Rightarrow> string + string" where
  "os_Open env path w =
     (case os_Fail env OpOpen path w of
        Some err \<Rightarrow> Inl err
      | None \<Rightarrow> (case local_files w (clean_path path) of None \<Rightarrow> Inl ''no such file or directory'' | Some c \<Rightarrow> Inr c))"

section \<open>Remote operations\<close>

definition getSshClient :: "RemoteEnv \<Rightarrow> string \<Rightarrow> string \<Rightarrow> string \<Rightarrow> LatencyWorld \<Rightarrow> string + string" where
  "getSshClient env nodeName nodeAddress nodeSecret w =
     (case ssh_Dial env (nodeAddress @ '':22'') ''root'' nodeSecret w of Some err \<Rightarrow> Inl err | None \<Rightarrow> Inr nodeAddress)"

text \<open>The SFTP client over a connection; every file function of the source opens one and closes it when it returns.\<close>

definition with_sftp ::
  "RemoteEnv \<Rightarrow> string \<Rightarrow> string \<Rightarrow> string \<Rightarrow> (string \<Rightarrow> LatencyWorld \<Rightarrow> string option \<times> LatencyWorld) \<Rightarrow>
   LatencyWorld \<Rightarrow> string option \<times> LatencyWorld" where
  "with_sftp env nodeName nodeAddress nodeSecret body w =
     (case getSshClient env nodeName nodeAddress nodeSecret w of
        Inl err \<Rightarrow> (Some err, w)
      | Inr client \<Rightarrow> (case sftp_NewClient env client w of Some err \<Rightarrow> (Some err, w) | None \<Rightarrow> body client w))"

text \<open>The file that is returned belongs to a client that the deferred calls have closed.\<close>

record SftpFile =
  sf_host :: string
  sf_path :: string
  sf_clientOpen :: bool

definition openFileOnRemote :: "RemoteEnv \<Rightarrow> string \<Rightarrow> string \<Rightarrow> string \<Rightarrow> string \<Rightarrow> LatencyWorld \<Rightarrow> string + SftpFile" where
  "openFileOnRemote env nodeName nodeAddress nodeSecret remotePath w =
     (case getSshClient env nodeName nodeAddress nodeSecret w of
        Inl err \<Rightarrow> Inl err
      | Inr client \<Rightarrow>
          (case sftp_NewClient env client w of
             Some err \<Rightarrow> Inl err
           | None \<Rightarrow>
               (case sftp_Open env client remotePath w of
                  Inl err \<Rightarrow> Inl err
                | Inr _ \<Rightarrow> Inr \<lparr>sf_host = client, sf_path = remotePath, sf_clientOpen = False\<rparr>)))"

definition getFileOnRemote ::
  "RemoteEnv \<Rightarrow> string \<Rightarrow> string \<Rightarrow> string \<Rightarrow> string \<Rightarrow> string \<Rightarrow> LatencyWorld \<Rightarrow> string option \<times> LatencyWorld" where
  "getFileOnRemote env nodeName nodeAddress nodeSecret remotePath localPath =
     with_sftp env nodeName nodeAddress nodeSecret (\<lambda>client w.
       case sftp_Open env client remotePath w of
         Inl err \<Rightarrow> (Some err, w)
       | Inr content \<Rightarrow>
           (case os_Fail env OpCreate localPath w of
              Some err \<Rightarrow> (Some err, w)
            | None \<Rightarrow>
                (case io_CopyFail env localPath w of
                   Some (n, err) \<Rightarrow> (Some err, set_local (clean_path localPath) (take n content) w)
                 | None \<Rightarrow> (None, set_local (clean_path localPath) content w))))"

definition writeFileOnRemote ::
  "RemoteEnv \<Rightarrow> string \<Rightarrow> string \<Rightarrow> string \<Rightarrow> string \<Rightarrow> string \<Rightarrow> LatencyWorld \<Rightarrow> string option \<times> LatencyWorld" where
  "writeFileOnRemote env nodeName nodeAddress nodeSecret remotePath content =
     with_sftp env nodeName nodeAddress nodeSecret (\<lambda>client w.
       case sftp_Create env client remotePath w of
         (Some err, w) \<Rightarrow> (Some err, w)
       | (None, w) \<Rightarrow>
           (case file_Write env client remotePath content w of
              (Some err, w) \<Rightarrow> (Some err, w)
            | (None, w) \<Rightarrow> sftp_Chmod env client remotePath 493 w))"

definition executeCommandOnRemote ::
  "RemoteEnv \<Rightarrow> string \<Rightarrow> string \<Rightarrow> string \<Rightarrow> string \<Rightarrow> LatencyWorld \<Rightarrow> string option \<times> LatencyWorld" where
  "executeCommandOnRemote env nodeName nodeAddress nodeSecret command w =
     (case getSshClient env nodeName nodeAddress nodeSecret w of
        Inl err \<Rightarrow> (Some err, w)
      | Inr conn \<Rightarrow>
          (case ssh_NewSession env conn w of
             Some err \<Rightarrow> (Some err, w)
           | None \<Rightarrow>
               (case ssh_Run env conn command w of
                  (Some _, w) \<Rightarrow> (Some ''After Create Session, Failed to Execute command'', w)
                | (None, w) \<Rightarrow> (None, w))))"

section \<open>The probe script\<close>

text \<open>A loop whose body returns on the first error.\<close>

primrec each :: "('a \<Rightarrow> LatencyWorld \<Rightarrow> string option \<times> LatencyWorld) \<Rightarrow> 'a list \<Rightarrow> LatencyWorld \<Rightarrow> string option \<times> LatencyWorld" where
  "each f [] w = (None, w)"
| "each f (x # xs) w = (case f x w of (Some err, w) \<Rightarrow> (Some err, w) | (None, w) \<Rightarrow> each f xs w)"

definition quoted :: "string \<Rightarrow> string" where
  "quoted s = [CHR 0x22] @ s @ [CHR 0x22]"

definition remoteDirectoryPath :: string where
  "remoteDirectoryPath = ''/root/ws/network-latency-test''"

definition script_path :: string where
  "script_path = remoteDirectoryPath @ ''/latency_test.sh''"

text \<open>The shell script of the source, with the bytes of its comments.\<close>

definition scriptContent :: string where
  "scriptContent =
    [CHR 0x0A] @ ''# '' @
    [CHR 0xE5, CHR 0xAE, CHR 0x9A, CHR 0xE4, CHR 0xB9, CHR 0x89, CHR 0xE5, CHR 0xAD, CHR 0x98, CHR 0xE5, CHR 0x82, CHR 0xA8] @
    [CHR 0xE6, CHR 0x95, CHR 0xB0, CHR 0xE6, CHR 0x8D, CHR 0xAE, CHR 0xE7, CHR 0x9A, CHR 0x84, CHR 0xE6, CHR 0x96, CHR 0x87] @
    [CHR 0xE4, CHR 0xBB, CHR 0xB6, CHR 0xE8, CHR 0xB7, CHR 0xAF, CHR 0xE5, CHR 0xBE, CHR 0x84, CHR 0x0A, CHR 0x0A] @
    ''while true; do'' @ [CHR 0x0A] @ ''    # '' @
    [CHR 0xE8, CHR 0x8E, CHR 0xB7, CHR 0xE5, CHR 0x8F, CHR 0x96, CHR 0xE5, CHR 0xBD, CHR 0x93, CHR 0xE5, CHR 0x89, CHR 0x8D] @
    [CHR 0xE6, CHR 0x97, CHR 0xB6, CHR 0xE9, CHR 0x97, CHR 0xB4, CHR 0xE6, CHR 0x88, CHR 0xB3, CHR 0xEF, CHR 0xBC, CHR 0x8C] @
    [CHR 0xE6, CHR 0xA0, CHR 0xBC, CHR 0xE5, CHR 0xBC, CHR 0x8F, CHR 0xE4, CHR 0xB8, CHR 0xBA] @
    ''YYYY-MM-DD HH:MM:SS'' @ [CHR 0x0A] @ ''    timestamp=$(date +'' @ [CHR 0x22] @ ''%Y-%m-%d %H:%M:%S'' @
    [CHR 0x22] @ '')'' @ [CHR 0x0A] @ ''    for ip in '' @ [CHR 0x22] @ ''${ips[@]}'' @ [CHR 0x22] @ ''; do'' @
    [CHR 0x0A] @ ''        output_file='' @ [CHR 0x22] @ ''latency_results_${ip}.txt'' @ [CHR 0x22, CHR 0x0A] @
    ''        # '' @ [CHR 0xE8, CHR 0xB0, CHR 0x83, CHR 0xE7, CHR 0x94, CHR 0xA8] @ ''fping'' @
    [CHR 0xE5, CHR 0x91, CHR 0xBD, CHR 0xE4, CHR 0xBB, CHR 0xA4, CHR 0xEF, CHR 0xBC, CHR 0x8C] @ ''-c 1'' @
    [CHR 0xE8, CHR 0xA1, CHR 0xA8, CHR 0xE7, CHR 0xA4, CHR 0xBA, CHR 0xE5, CHR 0x8F, CHR 0xAA, CHR 0xE5, CHR 0x8F, CHR 0x91] @
    [CHR 0xE9, CHR 0x80, CHR 0x81, CHR 0xE4, CHR 0xB8, CHR 0x80, CHR 0xE4, CHR 0xB8, CHR 0xAA, CHR 0xE6, CHR 0x95, CHR 0xB0] @
    [CHR 0xE6, CHR 0x8D, CHR 0xAE, CHR 0xE5, CHR 0x8C, CHR 0x85, CHR 0x0A] @
    ''        result=$(fping -e $ip 2>/dev/null)'' @ [CHR 0x0A] @ ''        # '' @
    [CHR 0xE5, CHR 0xB0, CHR 0x86, CHR 0xE6, CHR 0x97, CHR 0xB6, CHR 0xE9, CHR 0x97, CHR 0xB4, CHR 0xE6, CHR 0x88, CHR 0xB3] @
    [CHR 0xE5, CHR 0x92, CHR 0x8C] @ ''fping'' @
    [CHR 0xE7, CHR 0xBB, CHR 0x93, CHR 0xE6, CHR 0x9E, CHR 0x9C, CHR 0xE8, CHR 0xBF, CHR 0xBD, CHR 0xE5, CHR 0x8A, CHR 0xA0] @
    [CHR 0xE5, CHR 0x88, CHR 0xB0, CHR 0xE6, CHR 0x96, CHR 0x87, CHR 0xE4, CHR 0xBB, CHR 0xB6, CHR 0xE4, CHR 0xB8, CHR 0xAD] @
    [CHR 0x0A] @ ''        echo '' @ [CHR 0x22] @ ''$timestamp, $result'' @ [CHR 0x22] @ '' >> $output_file'' @
    [CHR 0x0A] @ ''    done'' @ [CHR 0x0A] @ ''    # '' @
    [CHR 0xE6, CHR 0xAF, CHR 0x8F, CHR 0xE9, CHR 0x9A, CHR 0x94, CHR 0xE4, CHR 0xB8, CHR 0x80, CHR 0xE6, CHR 0xAE, CHR 0xB5] @
    [CHR 0xE6, CHR 0x97, CHR 0xB6, CHR 0xE9, CHR 0x97, CHR 0xB4, CHR 0xEF, CHR 0xBC, CHR 0x88, CHR 0xE8, CHR 0xBF, CHR 0x99] @
    [CHR 0xE9, CHR 0x87, CHR 0x8C, CHR 0xE6, CHR 0x98, CHR 0xAF] @ ''1'' @
    [CHR 0xE7, CHR 0xA7, CHR 0x92, CHR 0xEF, CHR 0xBC, CHR 0x89, CHR 0xE6, CHR 0x89, CHR 0xA7, CHR 0xE8, CHR 0xA1, CHR 0x8C] @
    [CHR 0xE4, CHR 0xB8, CHR 0x80, CHR 0xE6, CHR 0xAC, CHR 0xA1, CHR 0xEF, CHR 0xBC, CHR 0x8C, CHR 0xE5, CHR 0x8F, CHR 0xAF] @
    [CHR 0xE6, CHR 0x8C, CHR 0x89, CHR 0xE9, CHR 0x9C, CHR 0x80, CHR 0xE8, CHR 0xB0, CHR 0x83, CHR 0xE6, CHR 0x95, CHR 0xB4] @
    [CHR 0x0A] @ ''    sleep 10'' @ [CHR 0x0A] @ ''done'' @ [CHR 0x0A]"

definition ips_line :: "string list \<Rightarrow> string" where
  "ips_line addrs = foldl (\<lambda>ips addr. ips @ quoted addr @ '' '') ''ips=('' addrs @ '')'' @ [CHR 0x0A]"

definition latency_script :: "string list \<Rightarrow> string" where
  "latency_script addrs = ''#!/bin/bash'' @ [CHR 0x0A] @ ips_line addrs @ scriptContent"

text \<open>
  \<open>order k\<close> is the order in which the inner loop of node \<open>k\<close> visits the map.
\<close>

type_synonym node_map = "(string, UserAddressSecretMap) gomap"

definition other_addresses :: "node_map \<Rightarrow> string \<Rightarrow> string list" where
  "other_addresses inner k = map (\<lambda>e. NodeAddress (snd e)) (filter (\<lambda>e. fst e \<noteq> k) inner)"

definition install_command :: string where "install_command = ''apt-get install fping -y''"
definition mkdir_command :: string where "mkdir_command = ''mkdir -p '' @ remoteDirectoryPath"
definition start_command :: string where
  "start_command = ''cd /root/ws/network-latency-test && screen -dmS latency_test ./latency_test.sh''"
definition stop_command :: string where "stop_command = ''pkill -f latency_test.sh''"

definition init_node :: "RemoteEnv \<Rightarrow> (string \<Rightarrow> node_map) \<Rightarrow> string \<times> UserAddressSecretMap \<Rightarrow> LatencyWorld \<Rightarrow> string option \<times> LatencyWorld" where
  "init_node env order e w =
     (case e of (k, v) \<Rightarrow>
        (case executeCommandOnRemote env k (NodeAddress v) (NodeSecret v) install_command w of
           (Some _, w) \<Rightarrow> (Some (''node '' @ quoted k @ '' install Latency Test Tool Failed''), w)
         | (None, w) \<Rightarrow>
             (case executeCommandOnRemote env k (NodeAddress v) (NodeSecret v) mkdir_command w of
                (Some _, w) \<Rightarrow> (Some (''node '' @ quoted k @ '' install Latency Test Tool Failed''), w)
              | (None, w) \<Rightarrow>
                  writeFileOnRemote env k (NodeAddress v) (NodeSecret v) script_path
                    (latency_script (other_addresses (order k) k)) w)))"

definition InitNodeLatencyTestTool :: "RemoteEnv \<Rightarrow> (string \<Rightarrow> node_map) \<Rightarrow> node_map \<Rightarrow> LatencyWorld \<Rightarrow> string option \<times> LatencyWorld" where
  "InitNodeLatencyTestTool env order nodes = each (init_node env order) nodes"

definition StartLatencyTest :: "RemoteEnv \<Rightarrow> node_map \<Rightarrow> LatencyWorld \<Rightarrow> string option \<times> LatencyWorld" where
  "StartLatencyTest env = each (\<lambda>(k, v). executeCommandOnRemote env k (NodeAddress v) (NodeSecret v) start_command)"

definition StopLatencyTest :: "RemoteEnv \<Rightarrow> node_map \<Rightarrow> LatencyWorld \<Rightarrow> string option \<times> LatencyWorld" where
  "StopLatencyTest env = each (\<lambda>(k, v). executeCommandOnRemote env k (NodeAddress v) (NodeSecret v) stop_command)"

section \<open>Downloads\<close>

definition localFileName :: "string \<Rightarrow> string \<Rightarrow> string" where
  "localFileName k nodeName = k @ ''2'' @ nodeName"

definition result_path :: "string \<Rightarrow> string" where
  "result_path addr = ''/root/ws/network-latency-test/'' @ ''latency_results_'' @ addr @ ''.txt''"

definition download_pair ::
  "RemoteEnv \<Rightarrow> string \<times> UserAddressSecretMap \<Rightarrow> string \<times> UserAddressSecretMap \<Rightarrow> LatencyWorld \<Rightarrow> string option \<times> LatencyWorld" where
  "download_pair env from to w =
     (case (from, to) of ((k, v), (nodeName, value)) \<Rightarrow>
        if nodeName \<noteq> k then
          (case getFileOnRemote env k (NodeAddress v) (NodeSecret v) (result_path (NodeAddress value))
                  (''latency/'' @ localFileName k nodeName) w of
             (Some _, w) \<Rightarrow> (Some (''failed get Latency Test On Node '' @ quoted k), w)
           | (None, w) \<Rightarrow> (None, w))
        else (None, w))"

definition DownloadLatencyTestResult :: "RemoteEnv \<Rightarrow> (string \<Rightarrow> node_map) \<Rightarrow> node_map \<Rightarrow> LatencyWorld \<Rightarrow> string option \<times> LatencyWorld" where
  "DownloadLatencyTestResult env order nodes = each (\<lambda>e. each (download_pair env e) (order (fst e))) nodes"

text \<open>
  The periodic download. \<open>locked\<close> is the state of \<open>LatencyFileLock\<close>, which only this function uses:
  \<open>Lock\<close> waits while it is locked, and nothing unlocks it. \<^const>\<open>None\<close>: the function does not return.
  The sequence \<open>orders\<close> gives the iteration orders of each download.
\<close>

partial_function (option) GetLatencyTestResultInterval ::
  "RemoteEnv \<Rightarrow> (nat \<Rightarrow> string \<Rightarrow> node_map) \<Rightarrow> node_map \<Rightarrow> nat \<Rightarrow> bool \<Rightarrow> LatencyWorld \<Rightarrow> (string \<times> LatencyWorld) option" where
  "GetLatencyTestResultInterval env orders nodes i locked w =
     (if locked then GetLatencyTestResultInterval env orders nodes i locked w
      else (case DownloadLatencyTestResult env (orders i) nodes w of
              (Some err, w') \<Rightarrow> Some (''failed Get Latency Test Result Interval:'' @ err, w')
            | (None, w') \<Rightarrow> GetLatencyTestResultInterval env orders nodes (Suc i) True w'))"

section \<open>The matrix from downloaded files\<close>

definition MaxScanTokenSize :: nat where "MaxScanTokenSize = 65536"

definition drop_cr :: "string \<Rightarrow> string" where
  "drop_cr l = (if l \<noteq> [] \<and> last l = CHR 0x0D then butlast l else l)"

text \<open>The lines that \<open>bufio.Scanner\<close> finds: an empty rest after the last line break is no line.\<close>

definition scan_lines :: "string \<Rightarrow> string + string list" where
  "scan_lines content =
     (let pieces = str_split (CHR 0x0A) content;
          ls = (if last pieces = [] then butlast pieces else pieces)
      in if list_all (\<lambda>l. length l < MaxScanTokenSize) ls then Inr (map drop_cr ls) else Inl ''bufio.Scanner: token too long'')"

definition LAST_N_LINES :: nat where "LAST_N_LINES = 10"

definition getMeanOfLatencyFromTxt :: "NeilatsIO \<Rightarrow> RemoteEnv \<Rightarrow> LatencyWorld \<Rightarrow> string \<Rightarrow> string \<Rightarrow> (string + gofloat) option" where
  "getMeanOfLatencyFromTxt io env w nodeFrom nodeTo =
     (case os_Open env (''./latency/'' @ nodeFrom @ ''2'' @ nodeTo) w of
        Inl _ \<Rightarrow> Some (Inl (''failed open file '' @ nodeFrom @ ''2'' @ nodeTo @ ''.txt''))
      | Inr content \<Rightarrow>
          (case scan_lines content of
             Inl err \<Rightarrow> Some (Inl err)
           | Inr ls \<Rightarrow>
               (let lines = keep_last LAST_N_LINES ls
                in case parse_latencies io lines of
                     None \<Rightarrow> None
                   | Some (Inl err) \<Rightarrow> Some (Inl err)
                   | Some (Inr ds) \<Rightarrow> Some (Inr (div64 (foldl add64 (Fin 0) ds) (of_int64f (int (length lines))))))))"

definition rtt_txt_step ::
  "NeilatsIO \<Rightarrow> RemoteEnv \<Rightarrow> LatencyWorld \<Rightarrow> rtt_matrix \<Rightarrow> string \<times> string \<Rightarrow> (string + rtt_matrix) option" where
  "rtt_txt_step io env w m e =
     (case e of (fromNode, toNode) \<Rightarrow>
        if fromNode = toNode then Some (Inr (map_set (fromNode, toNode) (Fin 0) m))
        else (case getMeanOfLatencyFromTxt io env w fromNode toNode of
                None \<Rightarrow> None
              | Some (Inl err) \<Rightarrow> Some (Inl err)
              | Some (Inr v) \<Rightarrow>
                  if f_le (Fin 99) v then Some (Inr (map_set (fromNode, toNode) (rtt_at m toNode fromNode) m))
                  else Some (Inr (map_set (fromNode, toNode) v m))))"

fun rtt_txt_loop ::
  "NeilatsIO \<Rightarrow> RemoteEnv \<Rightarrow> LatencyWorld \<Rightarrow> rtt_matrix \<Rightarrow> (string \<times> string) list \<Rightarrow> (string + rtt_matrix) option" where
  "rtt_txt_loop io env w m [] = Some (Inr m)"
| "rtt_txt_loop io env w m (e # es) =
     (case rtt_txt_step io env w m e of
        None \<Rightarrow> None
      | Some (Inl err) \<Rightarrow> Some (Inl err)
      | Some (Inr m') \<Rightarrow> rtt_txt_loop io env w m' es)"

definition BuildRttWithOutFile :: "NeilatsIO \<Rightarrow> RemoteEnv \<Rightarrow> LatencyWorld \<Rightarrow> rtt_sched \<Rightarrow> (string + rtt_matrix) option" where
  "BuildRttWithOutFile io env w sched = rtt_txt_loop io env w [] (sched_pairs sched)"

text \<open>What \<open>getLastLinesLatencyFromSSH\<close> reads, over the same connections.\<close>

definition remote_lines :: "RemoteEnv \<Rightarrow> LatencyWorld \<Rightarrow> string \<Rightarrow> string \<Rightarrow> string \<Rightarrow> string \<Rightarrow> string + string list" where
  "remote_lines env w nodeName nodeAddress nodeSecret path =
     (case getSshClient env nodeName nodeAddress nodeSecret w of
        Inl err \<Rightarrow> Inl err
      | Inr client \<Rightarrow>
          (case sftp_NewClient env client w of
             Some err \<Rightarrow> Inl err
           | None \<Rightarrow> (case sftp_Open env client path w of Inl err \<Rightarrow> Inl err | Inr content \<Rightarrow> scan_lines content)))"

definition over_ssh :: "RemoteEnv \<Rightarrow> LatencyWorld \<Rightarrow> NeilatsIO \<Rightarrow> NeilatsIO" where
  "over_ssh env w io = io\<lparr>io_remoteLines := remote_lines env w\<rparr>"


section \<open>Loops\<close>

lemma distinct_map_after: "distinct (map f (xs @ x # ys)) \<Longrightarrow> y \<in> set ys \<Longrightarrow> f y \<noteq> f x"
  by (induction xs) (auto simp: image_iff)

lemma each_done:
  assumes "each f xs w = (None, w')" and "x \<in> set xs"
  shows "\<exists>ys zs w1 w2. xs = ys @ x # zs \<and> each f ys w = (None, w1) \<and> f x w1 = (None, w2) \<and> each f zs w2 = (None, w')"
  using assms
proof (induction xs arbitrary: w)
  case (Cons y ys)
  then obtain w1 where y: "f y w = (None, w1)" "each f ys w1 = (None, w')" by (auto split: prod.splits option.splits)
  show ?case
  proof (cases "x = y")
    case True
    then show ?thesis using y by (intro exI [of _ "[]"] exI [of _ ys]) simp
  next
    case False
    then obtain us zs wa wb where "ys = us @ x # zs" "each f us w1 = (None, wa)" "f x wa = (None, wb)" "each f zs wb = (None, w')"
      using Cons.IH [OF y(2)] Cons.prems(2) by auto
    then show ?thesis using y(1) by (intro exI [of _ "y # us"] exI [of _ zs]) simp
  qed
qed simp

lemma each_keeps:
  assumes "each f xs w = (r, w')" and "\<And>x w r w'. x \<in> set xs \<Longrightarrow> f x w = (r, w') \<Longrightarrow> P w' = P w"
  shows "P w' = P w"
  using assms
proof (induction xs arbitrary: w)
  case (Cons x xs)
  obtain r1 w1 where x: "f x w = (r1, w1)" by (cases "f x w")
  then have k: "P w1 = P w" using Cons.prems(2) [of x w r1 w1] by simp
  show ?case
  proof (cases r1)
    case None
    then have "each f xs w1 = (r, w')" using Cons.prems(1) x by simp
    then have "P w' = P w1" by (rule Cons.IH) (rule Cons.prems(2), simp_all)
    then show ?thesis using k by simp
  next
    case (Some err)
    then show ?thesis using Cons.prems(1) x k by simp
  qed
qed simp

section \<open>What the remote operations change\<close>

lemma set_remote_sel [simp]:
  "remote_files (set_remote a p f w) = (remote_files w)((a, p) \<mapsto> f)" "local_files (set_remote a p f w) = local_files w"
  by (simp_all add: set_remote_def)

lemma set_local_sel [simp]:
  "local_files (set_local p c w) = (local_files w)(p \<mapsto> c)" "remote_files (set_local p c w) = remote_files w"
  by (simp_all add: set_local_def)

lemma writeFile_other:
  assumes "writeFileOnRemote env k a s path content w = (r, w')" and "b \<noteq> a"
  shows "remote_files w' (b, q) = remote_files w (b, q)"
  using assms
  by (auto simp: writeFileOnRemote_def with_sftp_def getSshClient_def sftp_Create_def file_Write_def sftp_Chmod_def
      split: sum.splits option.splits prod.splits)

lemma writeFile_done:
  assumes "writeFileOnRemote env k a s path content w = (None, w')"
  shows "remote_files w' (a, path) = Some \<lparr>rf_content = content, rf_mode = 493\<rparr>"
  using assms
  by (auto simp: writeFileOnRemote_def with_sftp_def getSshClient_def sftp_Create_def file_Write_def sftp_Chmod_def
      split: sum.splits option.splits prod.splits)

lemma getFile_done:
  assumes "getFileOnRemote env k a s rp lp w = (r, w')"
  shows "remote_files w' = remote_files w" and "q \<noteq> clean_path lp \<Longrightarrow> local_files w' q = local_files w q"
    and "r = None \<Longrightarrow> \<exists>f. remote_files w (a, rp) = Some f \<and> local_files w' (clean_path lp) = Some (rf_content f)"
  using assms
  by (auto simp: getFileOnRemote_def with_sftp_def getSshClient_def sftp_Open_def split: sum.splits option.splits prod.splits)

lemma download_pair_done:
  assumes "download_pair env (k, v) (n, u) w = (r, w')"
  shows "remote_files w' = remote_files w"
    and "q \<noteq> ''latency/'' @ localFileName k n \<or> n = k \<Longrightarrow> local_files w' q = local_files w q"
    and "r = None \<Longrightarrow> n \<noteq> k \<Longrightarrow> \<exists>f. remote_files w (NodeAddress v, result_path (NodeAddress u)) = Some f \<and>
           local_files w' (''latency/'' @ localFileName k n) = Some (rf_content f)"
proof -
  let ?lp = "''latency/'' @ localFileName k n"
  have c: "clean_path ?lp = ?lp" by (simp add: clean_path_def CutPrefix_def)
  obtain r1 w1 where g: "getFileOnRemote env k (NodeAddress v) (NodeSecret v) (result_path (NodeAddress u)) ?lp w = (r1, w1)"
    by (cases "getFileOnRemote env k (NodeAddress v) (NodeSecret v) (result_path (NodeAddress u)) ?lp w")
  note copied = getFile_done [OF g, unfolded c]
  have w': "w' = (if n = k then w else w1)" and r: "n \<noteq> k \<Longrightarrow> r = None \<Longrightarrow> r1 = None"
    using assms g by (auto simp: download_pair_def split: option.splits if_splits)
  show "remote_files w' = remote_files w" "q \<noteq> ?lp \<or> n = k \<Longrightarrow> local_files w' q = local_files w q"
    using copied(1,2) w' by auto
  show "r = None \<Longrightarrow> n \<noteq> k \<Longrightarrow> \<exists>f. remote_files w (NodeAddress v, result_path (NodeAddress u)) = Some f \<and>
      local_files w' ?lp = Some (rf_content f)"
    using copied(3) w' r by auto
qed

section \<open>Starting with service level agreements\<close>

definition keeps_scripts :: "RemoteEnv \<Rightarrow> bool" where
  "keeps_scripts env \<longleftrightarrow>
     (\<forall>c \<in> {install_command, mkdir_command, start_command}. \<forall>a b w.
        remote_files (snd (ssh_Run env a c w)) (b, script_path) = remote_files w (b, script_path))"

lemma command_keeps_scripts:
  assumes "keeps_scripts env" and "c \<in> {install_command, mkdir_command, start_command}"
    and "executeCommandOnRemote env k a s c w = (r, w')"
  shows "remote_files w' (b, script_path) = remote_files w (b, script_path)"
proof -
  have "remote_files (snd (ssh_Run env a' c w)) (b, script_path) = remote_files w (b, script_path)" for a'
    using assms(1,2) by (auto simp: keeps_scripts_def)
  moreover have "w' = w \<or> (\<exists>a'. w' = snd (ssh_Run env a' c w))"
    using assms(3) by (auto simp: executeCommandOnRemote_def split: sum.splits option.splits prod.splits) (metis snd_conv)+
  ultimately show ?thesis by auto
qed

lemma init_node_other:
  assumes "keeps_scripts env" and "init_node env order (k, v) w = (r, w')" and "b \<noteq> NodeAddress v"
  shows "remote_files w' (b, script_path) = remote_files w (b, script_path)"
  using assms(2,3) command_keeps_scripts [OF assms(1), of install_command] command_keeps_scripts [OF assms(1), of mkdir_command]
    writeFile_other
  by (fastforce simp: init_node_def split: prod.splits option.splits)

lemma init_node_done:
  assumes "init_node env order (k, v) w = (None, w')"
  shows "remote_files w' (NodeAddress v, script_path) =
    Some \<lparr>rf_content = latency_script (other_addresses (order k) k), rf_mode = 493\<rparr>"
  using assms writeFile_done by (fastforce simp: init_node_def split: prod.splits option.splits)

lemma Init_installs:
  assumes "keeps_scripts env" and "distinct (map (\<lambda>e. NodeAddress (snd e)) nodes)"
    and "InitNodeLatencyTestTool env order nodes w = (None, w')" and "(k, v) \<in> set nodes"
  shows "remote_files w' (NodeAddress v, script_path) =
    Some \<lparr>rf_content = latency_script (other_addresses (order k) k), rf_mode = 493\<rparr>"
proof -
  obtain ys zs w1 w2 where l: "nodes = ys @ (k, v) # zs" "init_node env order (k, v) w1 = (None, w2)"
    "each (init_node env order) zs w2 = (None, w')"
    using each_done [OF assms(3) [unfolded InitNodeLatencyTestTool_def] assms(4)] by blast
  have "remote_files w' (NodeAddress v, script_path) = remote_files w2 (NodeAddress v, script_path)"
  proof (rule each_keeps [OF l(3), of "\<lambda>w. remote_files w (NodeAddress v, script_path)"])
    fix x w r w'' assume x: "x \<in> set zs" "init_node env order x w = (r, w'')"
    obtain k' v' where kv: "x = (k', v')" by (cases x)
    then have "NodeAddress v \<noteq> NodeAddress v'" using distinct_map_after [OF assms(2) [unfolded l(1)] x(1)] by simp
    moreover note kv
    ultimately show "remote_files w'' (NodeAddress v, script_path) = remote_files w (NodeAddress v, script_path)"
      using init_node_other [OF assms(1)] x(2) by blast
  qed
  with init_node_done [OF l(2)] show ?thesis by simp
qed

lemma Start_keeps_scripts:
  assumes "keeps_scripts env" and "StartLatencyTest env nodes w = (r, w')"
  shows "remote_files w' (b, script_path) = remote_files w (b, script_path)"
  using each_keeps [OF assms(2) [unfolded StartLatencyTest_def], of "\<lambda>w. remote_files w (b, script_path)"]
    command_keeps_scripts [OF assms(1), of start_command] by (fastforce split: prod.splits)

text \<open>The constructor of the plugin over the remote hosts.\<close>

definition New_over_ssh ::
  "RemoteEnv \<Rightarrow> (string \<Rightarrow> node_map) \<Rightarrow> NeilatsArgs \<Rightarrow> NeilatsArgs option \<Rightarrow> LatencyWorld \<Rightarrow> string + NeilatsArgs" where
  "New_over_ssh env order defaultConfig args w =
     New_Neilats defaultConfig
       (\<lambda>c. fst (InitNodeLatencyTestTool env order (KubeNodeAddressAndSecret c) w))
       (\<lambda>c. fst (StartLatencyTest env (KubeNodeAddressAndSecret c)
                   (snd (InitNodeLatencyTestTool env order (KubeNodeAddressAndSecret c) w)))) args"

text \<open>
  C38. A scheduler that starts with service level agreements enabled has set up the measurements. If the
  constructor returns a plugin, some node is configured, and after the two set-up calls every configured
  node has an executable probe script whose targets are exactly the addresses of the other nodes. Nodes
  need different addresses, and the shell commands have to leave the script files alone, as
  \<open>apt-get install\<close>, \<open>mkdir -p\<close> and \<open>screen -dmS\<close> do.
\<close>

theorem SLA_start_installs_probes:
  assumes "New_over_ssh env order defaultConfig (Some args) w = Inr cfg" and "EnableSLA args"
    and "keeps_scripts env" and "distinct (map (\<lambda>e. NodeAddress (snd e)) (KubeNodeAddressAndSecret args))"
    and "\<forall>k. set (order k) = set (KubeNodeAddressAndSecret args)"
  shows "KubeNodeAddressAndSecret cfg \<noteq> [] \<and> KubeNodeAddressAndSecret cfg = KubeNodeAddressAndSecret args \<and>
    (\<exists>w1 w2. InitNodeLatencyTestTool env order (KubeNodeAddressAndSecret cfg) w = (None, w1) \<and>
       StartLatencyTest env (KubeNodeAddressAndSecret cfg) w1 = (None, w2) \<and>
       (\<forall>(k, v) \<in> set (KubeNodeAddressAndSecret cfg). \<exists>targets.
          remote_files w2 (NodeAddress v, script_path) = Some \<lparr>rf_content = latency_script targets, rf_mode = 493\<rparr> \<and>
          set targets = (\<lambda>e. NodeAddress (snd e)) ` {e \<in> set (KubeNodeAddressAndSecret cfg). fst e \<noteq> k}))"
proof -
  let ?nodes = "KubeNodeAddressAndSecret args"
  have cfg: "KubeNodeAddressAndSecret cfg = ?nodes" "?nodes \<noteq> []"
    and init: "fst (InitNodeLatencyTestTool env order ?nodes w) = None"
    and start: "fst (StartLatencyTest env ?nodes (snd (InitNodeLatencyTestTool env order ?nodes w))) = None"
    using assms(1,2) by (auto simp: New_over_ssh_def New_Neilats_def Let_def split: if_splits sum.splits option.splits)
  obtain w1 where w1: "InitNodeLatencyTestTool env order ?nodes w = (None, w1)" using init by (metis prod.collapse)
  obtain w2 where w2: "StartLatencyTest env ?nodes w1 = (None, w2)" using start w1 by (metis prod.collapse snd_conv)
  have "\<exists>targets. remote_files w2 (NodeAddress v, script_path) = Some \<lparr>rf_content = latency_script targets, rf_mode = 493\<rparr> \<and>
      set targets = (\<lambda>e. NodeAddress (snd e)) ` {e \<in> set ?nodes. fst e \<noteq> k}" if "(k, v) \<in> set ?nodes" for k v
  proof (intro exI conjI)
    show "remote_files w2 (NodeAddress v, script_path) =
        Some \<lparr>rf_content = latency_script (other_addresses (order k) k), rf_mode = 493\<rparr>"
      using Init_installs [OF assms(3,4) w1 that] Start_keeps_scripts [OF assms(3) w2] by simp
    show "set (other_addresses (order k) k) = (\<lambda>e. NodeAddress (snd e)) ` {e \<in> set ?nodes. fst e \<noteq> k}"
      using assms(5) by (simp add: other_addresses_def)
  qed
  with w1 w2 cfg show ?thesis by auto
qed

section \<open>The periodic download\<close>

text \<open>Waiting for a lock that nothing releases never ends.\<close>

lemma locked_never_returns: "GetLatencyTestResultInterval env orders nodes i True w = None"
proof -
  have "\<not> locked" if "GetLatencyTestResultInterval env orders nodes i locked w = Some y" for locked y
    using that
  proof (rule GetLatencyTestResultInterval.raw_induct [rotated, where P = "\<lambda>_ _ _ _ locked _ _. \<not> locked"])
  qed (force split: if_splits)
  then show ?thesis by (metis not_None_eq)
qed

text \<open>
  C40. The periodic download ends exactly if its first download fails. It never reports success; after one
  complete download it waits for \<open>LatencyFileLock\<close>, which it still holds, and never returns and never
  downloads again. If the lock is held when it is called, it does not return either.
\<close>

theorem interval_returns_iff_first_fails:
  "(\<exists>r. GetLatencyTestResultInterval env orders nodes i locked w = Some r) \<longleftrightarrow>
     \<not> locked \<and> (\<exists>err w'. DownloadLatencyTestResult env (orders i) nodes w = (Some err, w') \<and>
       GetLatencyTestResultInterval env orders nodes i locked w =
         Some (''failed Get Latency Test Result Interval:'' @ err, w'))"
proof (cases locked)
  case True
  then show ?thesis by (simp add: locked_never_returns)
next
  case False
  then show ?thesis
    by (subst (1 2) GetLatencyTestResultInterval.simps) (auto simp: locked_never_returns split: prod.splits option.splits)
qed

section \<open>Downloaded files\<close>

text \<open>
  The files of two pairs of nodes can have one name, as those of \<open>a\<close> to \<open>2b\<close> and of \<open>a2\<close> to \<open>b\<close>:
  the later download replaces the earlier one.
\<close>

lemma localFileName_collides: "localFileName ''a'' ''2b'' = localFileName ''a2'' ''b''"
  by (simp add: localFileName_def)

definition unambiguous :: "string set \<Rightarrow> bool" where
  "unambiguous names \<longleftrightarrow> inj_on (\<lambda>(k, n). localFileName k n) (names \<times> names)"

lemma unambiguousD:
  "unambiguous names \<Longrightarrow> {k, n, k', n'} \<subseteq> names \<Longrightarrow> (k', n') \<noteq> (k, n) \<Longrightarrow> localFileName k' n' \<noteq> localFileName k n"
  unfolding unambiguous_def by (metis (no_types, lifting) case_prod_conv inj_onD insert_subset mem_Sigma_iff)

definition orders_ok :: "(string \<Rightarrow> node_map) \<Rightarrow> node_map \<Rightarrow> bool" where
  "orders_ok order nodes \<longleftrightarrow> wf_map nodes \<and> (\<forall>k. mset (order k) = mset nodes)"

lemma orders_okD:
  assumes "orders_ok order nodes"
  shows "set (order k) = set nodes" "distinct (map fst (order k))" "distinct (map fst nodes)"
proof -
  have m: "mset (order k) = mset nodes" and d: "distinct (map fst nodes)" using assms by (auto simp: orders_ok_def wf_map_def)
  show "set (order k) = set nodes" using m by (rule mset_eq_setD)
  have "mset (map fst (order k)) = mset (map fst nodes)" using m by simp
  then show "distinct (map fst (order k))" using d mset_eq_imp_distinct_iff by blast
  show "distinct (map fst nodes)" using d .
qed

lemma download_row_other:
  assumes "each (download_pair env (k, v)) xs w = (r, w')" and "\<forall>(n, u) \<in> set xs. n = k \<or> q \<noteq> ''latency/'' @ localFileName k n"
  shows "remote_files w' = remote_files w \<and> local_files w' q = local_files w q"
proof -
  have "remote_files w' = remote_files w"
    by (rule each_keeps [OF assms(1)]) (use download_pair_done(1) in fastforce)
  moreover have "local_files w' q = local_files w q"
  proof (rule each_keeps [OF assms(1), of "\<lambda>w. local_files w q"])
    fix x w r w' assume x: "x \<in> set xs" "download_pair env (k, v) x w = (r, w')"
    obtain n u where nu: "x = (n, u)" by (cases x)
    with assms(2) x(1) have "q \<noteq> ''latency/'' @ localFileName k n \<or> n = k" by auto
    with download_pair_done(2) x(2) nu show "local_files w' q = local_files w q" by blast
  qed
  ultimately show ?thesis ..
qed

lemma download_remote: "DownloadLatencyTestResult env order nodes w = (r, w') \<Longrightarrow> remote_files w' = remote_files w"
  unfolding DownloadLatencyTestResult_def
  by (erule each_keeps) (use each_keeps [where P = remote_files] download_pair_done(1) in \<open>metis surj_pair\<close>)

lemma Download_files:
  assumes "DownloadLatencyTestResult env order nodes w = (None, w')" and ok: "orders_ok order nodes"
    and un: "unambiguous (fst ` set nodes)" and kv: "(k, v) \<in> set nodes" and nu: "(n, u) \<in> set nodes" "n \<noteq> k"
  shows "\<exists>f. remote_files w (NodeAddress v, result_path (NodeAddress u)) = Some f \<and>
    local_files w' (''latency/'' @ localFileName k n) = Some (rf_content f)"
proof -
  let ?q = "''latency/'' @ localFileName k n" and ?row = "\<lambda>e. each (download_pair env e) (order (fst e))"
  have names: "{k, n} \<subseteq> fst ` set nodes" using kv nu(1) by force
  have other: "localFileName k' n' \<noteq> localFileName k n" if "(k', v') \<in> set nodes" "(n', u') \<in> set nodes" "(k', n') \<noteq> (k, n)" for k' v' n' u'
    using unambiguousD [OF un, of k n k' n'] names that by force
  obtain ys zs w1 w2 where o: "nodes = ys @ (k, v) # zs" "each ?row ys w = (None, w1)"
    "each (download_pair env (k, v)) (order k) w1 = (None, w2)" "each ?row zs w2 = (None, w')"
    using each_done [OF assms(1) [unfolded DownloadLatencyTestResult_def] kv] by auto
  obtain ys' zs' wa wb where i: "order k = ys' @ (n, u) # zs'" "each (download_pair env (k, v)) ys' w1 = (None, wa)"
    "download_pair env (k, v) (n, u) wa = (None, wb)" "each (download_pair env (k, v)) zs' wb = (None, w2)"
    using each_done [OF o(3), of "(n, u)"] nu(1) orders_okD(1) [OF ok] by auto
  have "remote_files w1 = remote_files w"
    using download_remote [of env order ys w None w1] o(2) by (simp add: DownloadLatencyTestResult_def)
  moreover have "remote_files wa = remote_files w1"
    by (rule each_keeps [OF i(2)]) (use download_pair_done(1) in \<open>metis surj_pair\<close>)
  ultimately have remote: "remote_files wa = remote_files w" by simp
  have "n' = k \<or> ?q \<noteq> ''latency/'' @ localFileName k n'" if "(n', u') \<in> set zs'" for n' u'
  proof -
    have "n' \<noteq> n" using distinct_map_after [OF orders_okD(2) [OF ok, of k, unfolded i(1)] that] by simp
    moreover have "(n', u') \<in> set nodes" using orders_okD(1) [OF ok, of k] that by (auto simp: i(1))
    ultimately show ?thesis using other [OF kv, of n' u'] by simp
  qed
  then have "\<forall>(n', u') \<in> set zs'. n' = k \<or> ?q \<noteq> ''latency/'' @ localFileName k n'" by blast
  then have l2: "local_files w2 ?q = local_files wb ?q" using download_row_other [OF i(4)] by blast
  have "local_files w' ?q = local_files w2 ?q"
  proof (rule each_keeps [OF o(4), of "\<lambda>w. local_files w ?q"])
    fix x w r w' assume x: "x \<in> set zs" "?row x w = (r, w')"
    obtain k' v' where kv': "x = (k', v')" by (cases x)
    have "k' \<noteq> k" using distinct_map_after [OF orders_okD(3) [OF ok, unfolded o(1)] x(1)] by (simp add: kv')
    then have "n' = k' \<or> ?q \<noteq> ''latency/'' @ localFileName k' n'" if "(n', u') \<in> set (order k')" for n' u'
      using other [of k' v' n' u'] x(1) that orders_okD(1) [OF ok, of k'] by (simp add: o(1) kv')
    then have "\<forall>(n', u') \<in> set (order k'). n' = k' \<or> ?q \<noteq> ''latency/'' @ localFileName k' n'" by blast
    then show "local_files w' ?q = local_files w ?q" using download_row_other x(2) by (simp add: kv')
  qed
  with l2 download_pair_done(3) [OF i(3) refl nu(2)] remote show ?thesis by auto
qed

section \<open>The matrix from the downloads\<close>

definition readable :: "RemoteEnv \<Rightarrow> LatencyWorld \<Rightarrow> node_map \<Rightarrow> bool" where
  "readable env w nodes \<longleftrightarrow> (\<forall>p. os_Fail env OpOpen p w = None) \<and>
     (\<forall>(k, v) \<in> set nodes. ssh_Dial env (NodeAddress v @ '':22'') ''root'' (NodeSecret v) w = None \<and>
        sftp_NewClient env (NodeAddress v) w = None \<and> (\<forall>p. sftp_Fail env OpOpen (NodeAddress v) p w = None))"

definition measured_file :: "NeilatsIO \<Rightarrow> string \<Rightarrow> bool" where
  "measured_file io content \<longleftrightarrow>
     (\<exists>ls ds. scan_lines content = Inr ls \<and> length ls \<le> LAST_N_LINES \<and> parse_latencies io ls = Some (Inr ds))"

lemma parse_over_ssh [simp]: "parse_latencies (over_ssh env w io) ls = parse_latencies io ls"
  by (induction ls) (simp_all add: over_ssh_def Let_def cong: if_cong)

lemma parse_length: "parse_latencies io ls = Some (Inr ds) \<Longrightarrow> length ds = length ls"
  by (induction ls arbitrary: ds) (auto simp: Let_def split: if_splits prod.splits option.splits sum.splits)

lemma means_agree:
  assumes "readable env w nodes" and "(k, v) \<in> set nodes" and "measured_file io (rf_content f)"
    and "remote_files w (NodeAddress v, result_path (NodeAddress u)) = Some f"
    and "local_files w (''latency/'' @ localFileName k n) = Some (rf_content f)"
  shows "\<exists>x. getMeanOfLatencyFromTxt io env w k n = Some (Inr x) \<and>
    getMeanOfLatencyFromSSH (over_ssh env w io) k (NodeAddress v) (NodeSecret v) (NodeAddress u) = Some (Inr x)"
proof -
  obtain ls ds where m: "scan_lines (rf_content f) = Inr ls" "length ls \<le> LAST_N_LINES" "parse_latencies io ls = Some (Inr ds)"
    using assms(3) by (auto simp: measured_file_def)
  have keep: "keep_last LAST_N_LINES ls = ls" "keep_last 30 ls = ls" using m(2) by (simp_all add: keep_last_eq LAST_N_LINES_def)
  have "clean_path (''./latency/'' @ k @ ''2'' @ n) = ''latency/'' @ localFileName k n"
    by (simp add: clean_path_def CutPrefix_def localFileName_def)
  then have "os_Open env (''./latency/'' @ k @ ''2'' @ n) w = Inr (rf_content f)"
    using assms(1,5) by (simp add: os_Open_def readable_def)
  moreover have "io_remoteLines (over_ssh env w io) k (NodeAddress v) (NodeSecret v)
      (''/root/ws/network-latency-test/latency_results_'' @ NodeAddress u @ ''.txt'') = Inr ls"
    using assms(1,2,4) m(1)
    by (auto simp: over_ssh_def remote_lines_def getSshClient_def readable_def sftp_Open_def result_path_def)
  ultimately show ?thesis
    using m(3) by (simp add: getMeanOfLatencyFromTxt_def getMeanOfLatencyFromSSH_def getLastLinesLatencyFromSSH_def m(1) keep parse_length)
qed

lemma loops_agree:
  assumes "\<forall>(a, b) \<in> set ps. a = b \<or> (\<exists>ua ub x. map_get nodes a = Some ua \<and> map_get nodes b = Some ub \<and>
      getMeanOfLatencyFromTxt io env w a b = Some (Inr x) \<and>
      getMeanOfLatencyFromSSH io' a (NodeAddress ua) (NodeSecret ua) (NodeAddress ub) = Some (Inr x))"
  shows "\<exists>m'. rtt_txt_loop io env w m ps = Some (Inr m') \<and> rtt_loop io' nodes m ps = Some (Inr m')"
  using assms
proof (induction ps arbitrary: m)
  case (Cons p ps)
  obtain a b where p: "p = (a, b)" by (cases p)
  have "\<exists>m1. rtt_txt_step io env w m p = Some (Inr m1) \<and> rtt_step io' nodes m p = Some (Inr m1)"
    using Cons.prems by (auto simp: p rtt_txt_step_def rtt_step_def)
  then obtain m1 where "rtt_txt_step io env w m p = Some (Inr m1)" "rtt_step io' nodes m p = Some (Inr m1)" by blast
  moreover have "\<exists>m'. rtt_txt_loop io env w m1 ps = Some (Inr m') \<and> rtt_loop io' nodes m1 ps = Some (Inr m')"
    by (rule Cons.IH) (use Cons.prems in auto)
  ultimately show ?case by auto
qed simp


section \<open>Two nodes\<close>

definition demo_env :: RemoteEnv where
  "demo_env = \<lparr>ssh_Dial = (\<lambda>_ _ _ _. None), ssh_NewSession = (\<lambda>_ _. None), ssh_Run = (\<lambda>_ _ w. (None, w)),
     sftp_NewClient = (\<lambda>_ _. None), sftp_Fail = (\<lambda>_ _ _ _. None), sftp_WriteFail = (\<lambda>_ _ _ _. None), sftp_mode = 420,
     os_Fail = (\<lambda>_ _ _. None), io_CopyFail = (\<lambda>_ _. None)\<rparr>"

definition demo_world0 :: LatencyWorld where
  "demo_world0 = \<lparr>remote_files = (\<lambda>_. None), local_files = (\<lambda>_. None)\<rparr>"

definition demo_results :: LatencyWorld where
  "demo_results = \<lparr>remote_files = (\<lambda>_. Some \<lparr>rf_content = ''t, a (120 ms)'', rf_mode = 420\<rparr>), local_files = (\<lambda>_. None)\<rparr>"

abbreviation demo_hosts :: node_map where
  "demo_hosts \<equiv> KubeNodeAddressAndSecret demo_cfg"

lemmas demo_remote_ops = demo_env_def with_sftp_def getSshClient_def sftp_Open_def sftp_Create_def file_Write_def sftp_Chmod_def
  executeCommandOnRemote_def writeFileOnRemote_def getFileOnRemote_def

lemma demo_started: "New_over_ssh demo_env (\<lambda>_. demo_hosts) demo_cfg (Some demo_cfg) w = Inr demo_cfg"
  by (simp add: New_over_ssh_def New_Neilats_def InitNodeLatencyTestTool_def StartLatencyTest_def init_node_def demo_cfg_def demo_remote_ops)

theorem SLA_start_installs_probes_witness:
  "\<exists>w1 w2. InitNodeLatencyTestTool demo_env (\<lambda>_. demo_hosts) demo_hosts demo_world0 = (None, w1) \<and>
     StartLatencyTest demo_env demo_hosts w1 = (None, w2) \<and>
     (\<exists>targets. remote_files w2 (''1'', script_path) = Some \<lparr>rf_content = latency_script targets, rf_mode = 493\<rparr> \<and> set targets = {''2''})"
proof -
  have "keeps_scripts demo_env" by (simp add: keeps_scripts_def demo_env_def)
  moreover have "(''a'', \<lparr>NodeAddress = ''1'', NodeSecret = []\<rparr>) \<in> set demo_hosts" by (simp add: demo_cfg_def)
  moreover have "(\<lambda>e. NodeAddress (snd e)) ` {e \<in> set demo_hosts. fst e \<noteq> ''a''} = {''2''}" by (force simp: demo_cfg_def image_iff)
  moreover have "EnableSLA demo_cfg" "distinct (map (\<lambda>e. NodeAddress (snd e)) demo_hosts)" by (simp_all add: demo_cfg_def)
  ultimately show ?thesis using SLA_start_installs_probes [OF demo_started [of demo_world0]] by fastforce
qed

lemma demo_downloaded: "\<exists>w'. DownloadLatencyTestResult demo_env (\<lambda>_. demo_hosts) demo_hosts demo_results = (None, w')"
  by (simp add: DownloadLatencyTestResult_def download_pair_def demo_cfg_def demo_results_def demo_remote_ops set_local_def)


end
