(* ===== verification/ConfigHeap.thy ===== *)
theory ConfigHeap
  imports ConfigV1 "HOL-Library.State_Monad"
begin

text \<open>
  The versioned arguments as Go has them, with pointers: \<open>zz_generated.deepcopy.go\<close> and the pointer side of
  \<open>defaults.go\<close> in \<open>apis/config/v1\<close>. \<open>ConfigV1\<close> treats an object as a value; here a pointer, a map or a slice
  is an address of a heap, so that sharing is visible. \<open>read_args\<close> is the value of an object in a heap,
  \<open>footprint\<close> the addresses it can reach. A slice is its whole array: the capacity of a slice is its length.
\<close>

section \<open>The heap\<close>

type_synonym addr = nat
type_synonym ptr = "addr option"

text \<open>What an address holds: a scalar, a map, the array of a slice, or a struct with pointers of its own.\<close>

datatype Cell =
    CInt64 int64
  | CInt32 int32
  | CString string
  | CBool bool
  | CFloat gofloat
  | CWeights "(string, gofloat) gomap"
  | CStringMap "(string, string) gomap"
  | CSecrets "(string, UserAddressSecretMap) gomap"
  | CQuantities ResourceList
  | CStrings "string list"
  | CResources "ResourceSpec list"
  | CForeign ForeignPodsDetectMode
  | CResync CacheResyncMethod
  | CInformer CacheInformerMode
  | CStrategy ScoringStrategyType ptr
  | CCache ptr ptr ptr

fun cell_ptrs :: "Cell \<Rightarrow> ptr list" where
  "cell_ptrs (CStrategy t p) = [p]"
| "cell_ptrs (CCache p q r) = [p, q, r]"
| "cell_ptrs _ = []"

record Heap =
  cells :: "addr \<Rightarrow> Cell option"
  lim :: addr

definition alloc :: "Cell \<Rightarrow> (Heap, ptr) state" where
  "alloc c = State (\<lambda>h. (Some (lim h), h\<lparr>cells := (cells h)(lim h \<mapsto> c), lim := Suc (lim h)\<rparr>))"

definition write_cell :: "addr \<Rightarrow> Cell \<Rightarrow> Heap \<Rightarrow> Heap" where
  "write_cell a c h = h\<lparr>cells := (cells h)(a \<mapsto> c)\<rparr>"

definition deref_cell :: "Heap \<Rightarrow> ptr \<Rightarrow> Cell option" where
  "deref_cell h p = (case p of None \<Rightarrow> None | Some a \<Rightarrow> cells h a)"

text \<open>The content behind a pointer without its addresses: the cell, and the cells behind its own pointers.\<close>

fun erase :: "Cell \<Rightarrow> Cell" where
  "erase (CStrategy t p) = CStrategy t None"
| "erase (CCache p q r) = CCache None None None"
| "erase c = c"

definition view :: "Heap \<Rightarrow> ptr \<Rightarrow> (Cell \<times> Cell option list) option" where
  "view h p = map_option (\<lambda>c. (erase c, map (deref_cell h) (cell_ptrs c))) (deref_cell h p)"

definition reach :: "Heap \<Rightarrow> ptr \<Rightarrow> addr set" where
  "reach h p = set_option p \<union> (case deref_cell h p of None \<Rightarrow> {} | Some c \<Rightarrow> \<Union> (set_option ` set (cell_ptrs c)))"

section \<open>Objects with pointers\<close>

record CoschedulingArgs_h =
  hcs_PermitWaitingTimeSeconds :: ptr
  hcs_PodGroupBackoffSeconds :: ptr

record NeilatsArgs_h =
  hne_PrometheusAddress :: string
  hne_NetworkDevice :: ptr
  hne_StorageDevice :: ptr
  hne_EnableSLA :: bool
  hne_KubeNodeAddressAndSecret :: ptr
  hne_LstmAdfModuleAddress :: string

record NodeResourcesAllocatableArgs_h =
  hnr_Resources :: ptr
  hnr_Mode :: string

record MetricProviderSpec_h =
  hmp_Type :: string
  hmp_Address :: ptr
  hmp_Token :: ptr
  hmp_InsecureSkipVerify :: ptr

record TrimaranSpec_h =
  hts_MetricProvider :: MetricProviderSpec_h
  hts_WatcherAddress :: ptr

record TargetLoadPackingArgs_h =
  htl_TrimaranSpec :: TrimaranSpec_h
  htl_DefaultRequests :: ptr
  htl_DefaultRequestsMultiplier :: ptr
  htl_TargetUtilization :: ptr

record LoadVariationRiskBalancingArgs_h =
  hlv_TrimaranSpec :: TrimaranSpec_h
  hlv_SafeVarianceMargin :: ptr
  hlv_SafeVarianceSensitivity :: ptr

record LowRiskOverCommitmentArgs_h =
  hlr_TrimaranSpec :: TrimaranSpec_h
  hlr_SmoothingWindowSize :: ptr
  hlr_RiskLimitWeights :: ptr

record NodeResourceTopologyMatchArgs_h =
  htm_ScoringStrategy :: ptr
  htm_CacheResyncPeriodSeconds :: ptr
  htm_DiscardReservedNodes :: bool
  htm_Cache :: ptr

record PreemptionTolerationArgs_h =
  hpt_MinCandidateNodesPercentage :: ptr
  hpt_MinCandidateNodesAbsolute :: ptr

record TopologicalSortArgs_h =
  htp_Namespaces :: ptr

record NetworkOverheadArgs_h =
  hno_Namespaces :: ptr
  hno_WeightsName :: ptr
  hno_NetworkTopologyName :: ptr

record SySchedArgs_h =
  hsy_DefaultProfileNamespace :: ptr
  hsy_DefaultProfileName :: ptr

datatype PluginArgs_h =
    HCoscheduling CoschedulingArgs_h
  | HNeilats NeilatsArgs_h
  | HNodeResourcesAllocatable NodeResourcesAllocatableArgs_h
  | HTargetLoadPacking TargetLoadPackingArgs_h
  | HLoadVariationRiskBalancing LoadVariationRiskBalancingArgs_h
  | HLowRiskOverCommitment LowRiskOverCommitmentArgs_h
  | HNodeResourceTopologyMatch NodeResourceTopologyMatchArgs_h
  | HPreemptionToleration PreemptionTolerationArgs_h
  | HTopologicalSort TopologicalSortArgs_h
  | HNetworkOverhead NetworkOverheadArgs_h
  | HSySched SySchedArgs_h

section \<open>Deep copies\<close>

text \<open>A non-nil pointer gets a new cell: \<open>new\<close> or \<open>make\<close>, then the copy of what is behind it.\<close>

definition copy_ptr :: "ptr \<Rightarrow> (Heap, ptr) state" where
  "copy_ptr p = State (\<lambda>h. case deref_cell h p of None \<Rightarrow> (p, h) | Some c \<Rightarrow> run_state (alloc c) h)"

definition DeepCopy_ScoringStrategy :: "ptr \<Rightarrow> (Heap, ptr) state" where
  "DeepCopy_ScoringStrategy p = State (\<lambda>h.
     case deref_cell h p of
       Some (CStrategy t resources) \<Rightarrow> run_state (do { r \<leftarrow> copy_ptr resources; alloc (CStrategy t r) }) h
     | _ \<Rightarrow> (p, h))"

definition DeepCopy_NodeResourceTopologyCache :: "ptr \<Rightarrow> (Heap, ptr) state" where
  "DeepCopy_NodeResourceTopologyCache p = State (\<lambda>h.
     case deref_cell h p of
       Some (CCache foreign resync informer) \<Rightarrow>
         run_state (do { f \<leftarrow> copy_ptr foreign; r \<leftarrow> copy_ptr resync; i \<leftarrow> copy_ptr informer; alloc (CCache f r i) }) h
     | _ \<Rightarrow> (p, h))"

definition DeepCopyInto_CoschedulingArgs :: "CoschedulingArgs_h \<Rightarrow> (Heap, CoschedulingArgs_h) state" where
  "DeepCopyInto_CoschedulingArgs a = do {
     p \<leftarrow> copy_ptr (hcs_PermitWaitingTimeSeconds a);
     q \<leftarrow> copy_ptr (hcs_PodGroupBackoffSeconds a);
     State_Monad.return (a\<lparr>hcs_PermitWaitingTimeSeconds := p, hcs_PodGroupBackoffSeconds := q\<rparr>)
   }"

definition DeepCopyInto_NeilatsRefactorSchedulerArgs :: "NeilatsArgs_h \<Rightarrow> (Heap, NeilatsArgs_h) state" where
  "DeepCopyInto_NeilatsRefactorSchedulerArgs a = do {
     n \<leftarrow> copy_ptr (hne_NetworkDevice a);
     s \<leftarrow> copy_ptr (hne_StorageDevice a);
     k \<leftarrow> copy_ptr (hne_KubeNodeAddressAndSecret a);
     State_Monad.return (a\<lparr>hne_NetworkDevice := n, hne_StorageDevice := s, hne_KubeNodeAddressAndSecret := k\<rparr>)
   }"

definition DeepCopyInto_NodeResourcesAllocatableArgs :: "NodeResourcesAllocatableArgs_h \<Rightarrow> (Heap, NodeResourcesAllocatableArgs_h) state" where
  "DeepCopyInto_NodeResourcesAllocatableArgs a = do {
     r \<leftarrow> copy_ptr (hnr_Resources a);
     State_Monad.return (a\<lparr>hnr_Resources := r\<rparr>)
   }"

definition DeepCopyInto_MetricProviderSpec :: "MetricProviderSpec_h \<Rightarrow> (Heap, MetricProviderSpec_h) state" where
  "DeepCopyInto_MetricProviderSpec a = do {
     p \<leftarrow> copy_ptr (hmp_Address a);
     t \<leftarrow> copy_ptr (hmp_Token a);
     i \<leftarrow> copy_ptr (hmp_InsecureSkipVerify a);
     State_Monad.return (a\<lparr>hmp_Address := p, hmp_Token := t, hmp_InsecureSkipVerify := i\<rparr>)
   }"

definition DeepCopyInto_TrimaranSpec :: "TrimaranSpec_h \<Rightarrow> (Heap, TrimaranSpec_h) state" where
  "DeepCopyInto_TrimaranSpec a = do {
     m \<leftarrow> DeepCopyInto_MetricProviderSpec (hts_MetricProvider a);
     w \<leftarrow> copy_ptr (hts_WatcherAddress a);
     State_Monad.return (a\<lparr>hts_MetricProvider := m, hts_WatcherAddress := w\<rparr>)
   }"

definition DeepCopyInto_TargetLoadPackingArgs :: "TargetLoadPackingArgs_h \<Rightarrow> (Heap, TargetLoadPackingArgs_h) state" where
  "DeepCopyInto_TargetLoadPackingArgs a = do {
     s \<leftarrow> DeepCopyInto_TrimaranSpec (htl_TrimaranSpec a);
     r \<leftarrow> copy_ptr (htl_DefaultRequests a);
     m \<leftarrow> copy_ptr (htl_DefaultRequestsMultiplier a);
     t \<leftarrow> copy_ptr (htl_TargetUtilization a);
     State_Monad.return (a\<lparr>htl_TrimaranSpec := s, htl_DefaultRequests := r, htl_DefaultRequestsMultiplier := m, htl_TargetUtilization := t\<rparr>)
   }"

definition DeepCopyInto_LoadVariationRiskBalancingArgs :: "LoadVariationRiskBalancingArgs_h \<Rightarrow> (Heap, LoadVariationRiskBalancingArgs_h) state" where
  "DeepCopyInto_LoadVariationRiskBalancingArgs a = do {
     s \<leftarrow> DeepCopyInto_TrimaranSpec (hlv_TrimaranSpec a);
     m \<leftarrow> copy_ptr (hlv_SafeVarianceMargin a);
     v \<leftarrow> copy_ptr (hlv_SafeVarianceSensitivity a);
     State_Monad.return (a\<lparr>hlv_TrimaranSpec := s, hlv_SafeVarianceMargin := m, hlv_SafeVarianceSensitivity := v\<rparr>)
   }"

definition DeepCopyInto_LowRiskOverCommitmentArgs :: "LowRiskOverCommitmentArgs_h \<Rightarrow> (Heap, LowRiskOverCommitmentArgs_h) state" where
  "DeepCopyInto_LowRiskOverCommitmentArgs a = do {
     s \<leftarrow> DeepCopyInto_TrimaranSpec (hlr_TrimaranSpec a);
     z \<leftarrow> copy_ptr (hlr_SmoothingWindowSize a);
     w \<leftarrow> copy_ptr (hlr_RiskLimitWeights a);
     State_Monad.return (a\<lparr>hlr_TrimaranSpec := s, hlr_SmoothingWindowSize := z, hlr_RiskLimitWeights := w\<rparr>)
   }"

definition DeepCopyInto_NodeResourceTopologyMatchArgs :: "NodeResourceTopologyMatchArgs_h \<Rightarrow> (Heap, NodeResourceTopologyMatchArgs_h) state" where
  "DeepCopyInto_NodeResourceTopologyMatchArgs a = do {
     s \<leftarrow> DeepCopy_ScoringStrategy (htm_ScoringStrategy a);
     r \<leftarrow> copy_ptr (htm_CacheResyncPeriodSeconds a);
     c \<leftarrow> DeepCopy_NodeResourceTopologyCache (htm_Cache a);
     State_Monad.return (a\<lparr>htm_ScoringStrategy := s, htm_CacheResyncPeriodSeconds := r, htm_Cache := c\<rparr>)
   }"

definition DeepCopyInto_PreemptionTolerationArgs :: "PreemptionTolerationArgs_h \<Rightarrow> (Heap, PreemptionTolerationArgs_h) state" where
  "DeepCopyInto_PreemptionTolerationArgs a = do {
     p \<leftarrow> copy_ptr (hpt_MinCandidateNodesPercentage a);
     n \<leftarrow> copy_ptr (hpt_MinCandidateNodesAbsolute a);
     State_Monad.return (a\<lparr>hpt_MinCandidateNodesPercentage := p, hpt_MinCandidateNodesAbsolute := n\<rparr>)
   }"

definition DeepCopyInto_TopologicalSortArgs :: "TopologicalSortArgs_h \<Rightarrow> (Heap, TopologicalSortArgs_h) state" where
  "DeepCopyInto_TopologicalSortArgs a = do {
     n \<leftarrow> copy_ptr (htp_Namespaces a);
     State_Monad.return (a\<lparr>htp_Namespaces := n\<rparr>)
   }"

definition DeepCopyInto_NetworkOverheadArgs :: "NetworkOverheadArgs_h \<Rightarrow> (Heap, NetworkOverheadArgs_h) state" where
  "DeepCopyInto_NetworkOverheadArgs a = do {
     n \<leftarrow> copy_ptr (hno_Namespaces a);
     w \<leftarrow> copy_ptr (hno_WeightsName a);
     t \<leftarrow> copy_ptr (hno_NetworkTopologyName a);
     State_Monad.return (a\<lparr>hno_Namespaces := n, hno_WeightsName := w, hno_NetworkTopologyName := t\<rparr>)
   }"

definition DeepCopyInto_SySchedArgs :: "SySchedArgs_h \<Rightarrow> (Heap, SySchedArgs_h) state" where
  "DeepCopyInto_SySchedArgs a = do {
     n \<leftarrow> copy_ptr (hsy_DefaultProfileNamespace a);
     p \<leftarrow> copy_ptr (hsy_DefaultProfileName a);
     State_Monad.return (a\<lparr>hsy_DefaultProfileNamespace := n, hsy_DefaultProfileName := p\<rparr>)
   }"

definition map_state :: "('a \<Rightarrow> 'b) \<Rightarrow> (Heap, 'a) state \<Rightarrow> (Heap, 'b) state" where
  "map_state f m = do { x \<leftarrow> m; State_Monad.return (f x) }"

fun DeepCopyObject :: "PluginArgs_h \<Rightarrow> (Heap, PluginArgs_h) state" where
  "DeepCopyObject (HCoscheduling a) = map_state HCoscheduling (DeepCopyInto_CoschedulingArgs a)"
| "DeepCopyObject (HNeilats a) = map_state HNeilats (DeepCopyInto_NeilatsRefactorSchedulerArgs a)"
| "DeepCopyObject (HNodeResourcesAllocatable a) = map_state HNodeResourcesAllocatable (DeepCopyInto_NodeResourcesAllocatableArgs a)"
| "DeepCopyObject (HTargetLoadPacking a) = map_state HTargetLoadPacking (DeepCopyInto_TargetLoadPackingArgs a)"
| "DeepCopyObject (HLoadVariationRiskBalancing a) = map_state HLoadVariationRiskBalancing (DeepCopyInto_LoadVariationRiskBalancingArgs a)"
| "DeepCopyObject (HLowRiskOverCommitment a) = map_state HLowRiskOverCommitment (DeepCopyInto_LowRiskOverCommitmentArgs a)"
| "DeepCopyObject (HNodeResourceTopologyMatch a) = map_state HNodeResourceTopologyMatch (DeepCopyInto_NodeResourceTopologyMatchArgs a)"
| "DeepCopyObject (HPreemptionToleration a) = map_state HPreemptionToleration (DeepCopyInto_PreemptionTolerationArgs a)"
| "DeepCopyObject (HTopologicalSort a) = map_state HTopologicalSort (DeepCopyInto_TopologicalSortArgs a)"
| "DeepCopyObject (HNetworkOverhead a) = map_state HNetworkOverhead (DeepCopyInto_NetworkOverheadArgs a)"
| "DeepCopyObject (HSySched a) = map_state HSySched (DeepCopyInto_SySchedArgs a)"

section \<open>The value of an object\<close>

definition v_int64 :: "(Cell \<times> Cell option list) option \<Rightarrow> int64 option" where
  "v_int64 v = (case v of Some (CInt64 x, _) \<Rightarrow> Some x | _ \<Rightarrow> None)"
definition v_int32 :: "(Cell \<times> Cell option list) option \<Rightarrow> int32 option" where
  "v_int32 v = (case v of Some (CInt32 x, _) \<Rightarrow> Some x | _ \<Rightarrow> None)"
definition v_string :: "(Cell \<times> Cell option list) option \<Rightarrow> string option" where
  "v_string v = (case v of Some (CString x, _) \<Rightarrow> Some x | _ \<Rightarrow> None)"
definition v_bool :: "(Cell \<times> Cell option list) option \<Rightarrow> bool option" where
  "v_bool v = (case v of Some (CBool x, _) \<Rightarrow> Some x | _ \<Rightarrow> None)"
definition v_float :: "(Cell \<times> Cell option list) option \<Rightarrow> gofloat option" where
  "v_float v = (case v of Some (CFloat x, _) \<Rightarrow> Some x | _ \<Rightarrow> None)"
definition v_quantities :: "(Cell \<times> Cell option list) option \<Rightarrow> ResourceList option" where
  "v_quantities v = (case v of Some (CQuantities x, _) \<Rightarrow> Some x | _ \<Rightarrow> None)"

text \<open>A nil map or slice is the empty one.\<close>

definition v_weights :: "(Cell \<times> Cell option list) option \<Rightarrow> (string, gofloat) gomap" where
  "v_weights v = (case v of Some (CWeights x, _) \<Rightarrow> x | _ \<Rightarrow> [])"
definition v_stringMap :: "(Cell \<times> Cell option list) option \<Rightarrow> (string, string) gomap" where
  "v_stringMap v = (case v of Some (CStringMap x, _) \<Rightarrow> x | _ \<Rightarrow> [])"
definition v_secrets :: "(Cell \<times> Cell option list) option \<Rightarrow> (string, UserAddressSecretMap) gomap" where
  "v_secrets v = (case v of Some (CSecrets x, _) \<Rightarrow> x | _ \<Rightarrow> [])"
definition v_strings :: "(Cell \<times> Cell option list) option \<Rightarrow> string list" where
  "v_strings v = (case v of Some (CStrings x, _) \<Rightarrow> x | _ \<Rightarrow> [])"
definition v_resources :: "(Cell \<times> Cell option list) option \<Rightarrow> ResourceSpec list" where
  "v_resources v = (case v of Some (CResources x, _) \<Rightarrow> x | _ \<Rightarrow> [])"

definition v_strategy :: "(Cell \<times> Cell option list) option \<Rightarrow> ScoringStrategy option" where
  "v_strategy v =
     (case v of
        Some (CStrategy t _, [r]) \<Rightarrow> Some \<lparr>sst_Type = t, sst_Resources = (case r of Some (CResources rs) \<Rightarrow> rs | _ \<Rightarrow> [])\<rparr>
      | _ \<Rightarrow> None)"

definition v_cache :: "(Cell \<times> Cell option list) option \<Rightarrow> NodeResourceTopologyCache option" where
  "v_cache v =
     (case v of
        Some (CCache _ _ _, [f, r, i]) \<Rightarrow>
          Some \<lparr>nrc_ForeignPodsDetect = (case f of Some (CForeign x) \<Rightarrow> Some x | _ \<Rightarrow> None),
                nrc_ResyncMethod = (case r of Some (CResync x) \<Rightarrow> Some x | _ \<Rightarrow> None),
                nrc_InformerMode = (case i of Some (CInformer x) \<Rightarrow> Some x | _ \<Rightarrow> None)\<rparr>
      | _ \<Rightarrow> None)"

definition read_trimaran :: "Heap \<Rightarrow> TrimaranSpec_h \<Rightarrow> TrimaranSpec_v" where
  "read_trimaran h t =
     \<lparr>vts_MetricProvider =
        \<lparr>vmp_Type = hmp_Type (hts_MetricProvider t), vmp_Address = v_string (view h (hmp_Address (hts_MetricProvider t))),
         vmp_Token = v_string (view h (hmp_Token (hts_MetricProvider t))),
         vmp_InsecureSkipVerify = v_bool (view h (hmp_InsecureSkipVerify (hts_MetricProvider t)))\<rparr>,
      vts_WatcherAddress = v_string (view h (hts_WatcherAddress t))\<rparr>"

fun read_args :: "Heap \<Rightarrow> PluginArgs_h \<Rightarrow> PluginArgs_v" where
  "read_args h (HCoscheduling a) =
     VCoscheduling \<lparr>vcs_PermitWaitingTimeSeconds = v_int64 (view h (hcs_PermitWaitingTimeSeconds a)),
       vcs_PodGroupBackoffSeconds = v_int64 (view h (hcs_PodGroupBackoffSeconds a))\<rparr>"
| "read_args h (HNeilats a) =
     VNeilats \<lparr>PrometheusAddress = hne_PrometheusAddress a, NetworkDevice = v_stringMap (view h (hne_NetworkDevice a)),
       StorageDevice = v_stringMap (view h (hne_StorageDevice a)), EnableSLA = hne_EnableSLA a,
       KubeNodeAddressAndSecret = v_secrets (view h (hne_KubeNodeAddressAndSecret a)), LstmAdfModuleAddress = hne_LstmAdfModuleAddress a\<rparr>"
| "read_args h (HNodeResourcesAllocatable a) =
     VNodeResourcesAllocatable \<lparr>nra_Resources = v_resources (view h (hnr_Resources a)), nra_Mode = hnr_Mode a\<rparr>"
| "read_args h (HTargetLoadPacking a) =
     VTargetLoadPacking \<lparr>vtl_TrimaranSpec = read_trimaran h (htl_TrimaranSpec a),
       vtl_DefaultRequests = v_quantities (view h (htl_DefaultRequests a)),
       vtl_DefaultRequestsMultiplier = v_string (view h (htl_DefaultRequestsMultiplier a)),
       vtl_TargetUtilization = v_int64 (view h (htl_TargetUtilization a))\<rparr>"
| "read_args h (HLoadVariationRiskBalancing a) =
     VLoadVariationRiskBalancing \<lparr>vlv_TrimaranSpec = read_trimaran h (hlv_TrimaranSpec a),
       vlv_SafeVarianceMargin = v_float (view h (hlv_SafeVarianceMargin a)),
       vlv_SafeVarianceSensitivity = v_float (view h (hlv_SafeVarianceSensitivity a))\<rparr>"
| "read_args h (HLowRiskOverCommitment a) =
     VLowRiskOverCommitment \<lparr>vlr_TrimaranSpec = read_trimaran h (hlr_TrimaranSpec a),
       vlr_SmoothingWindowSize = v_int64 (view h (hlr_SmoothingWindowSize a)),
       vlr_RiskLimitWeights = v_weights (view h (hlr_RiskLimitWeights a))\<rparr>"
| "read_args h (HNodeResourceTopologyMatch a) =
     VNodeResourceTopologyMatch \<lparr>vtm_ScoringStrategy = v_strategy (view h (htm_ScoringStrategy a)),
       vtm_CacheResyncPeriodSeconds = v_int64 (view h (htm_CacheResyncPeriodSeconds a)),
       vtm_DiscardReservedNodes = htm_DiscardReservedNodes a, vtm_Cache = v_cache (view h (htm_Cache a))\<rparr>"
| "read_args h (HPreemptionToleration a) =
     VPreemptionToleration \<lparr>vpt_MinCandidateNodesPercentage = v_int32 (view h (hpt_MinCandidateNodesPercentage a)),
       vpt_MinCandidateNodesAbsolute = v_int32 (view h (hpt_MinCandidateNodesAbsolute a))\<rparr>"
| "read_args h (HTopologicalSort a) = VTopologicalSort \<lparr>tps_Namespaces = v_strings (view h (htp_Namespaces a))\<rparr>"
| "read_args h (HNetworkOverhead a) =
     VNetworkOverhead \<lparr>vno_Namespaces = v_strings (view h (hno_Namespaces a)), vno_WeightsName = v_string (view h (hno_WeightsName a)),
       vno_NetworkTopologyName = v_string (view h (hno_NetworkTopologyName a))\<rparr>"
| "read_args h (HSySched a) =
     VSySched \<lparr>vsy_DefaultProfileNamespace = v_string (view h (hsy_DefaultProfileNamespace a)),
       vsy_DefaultProfileName = v_string (view h (hsy_DefaultProfileName a))\<rparr>"

section \<open>Types\<close>

datatype Kind = KInt64 | KInt32 | KString | KBool | KFloat | KWeights | KStringMap | KSecrets | KQuantities | KStrings | KResources
  | KForeign | KResync | KInformer | KStrategy | KCache

fun kind_of :: "Cell \<Rightarrow> Kind" where
  "kind_of (CInt64 _) = KInt64" | "kind_of (CInt32 _) = KInt32" | "kind_of (CString _) = KString" | "kind_of (CBool _) = KBool"
| "kind_of (CFloat _) = KFloat" | "kind_of (CWeights _) = KWeights" | "kind_of (CStringMap _) = KStringMap"
| "kind_of (CSecrets _) = KSecrets" | "kind_of (CQuantities _) = KQuantities" | "kind_of (CStrings _) = KStrings"
| "kind_of (CResources _) = KResources" | "kind_of (CForeign _) = KForeign" | "kind_of (CResync _) = KResync"
| "kind_of (CInformer _) = KInformer" | "kind_of (CStrategy _ _) = KStrategy" | "kind_of (CCache _ _ _) = KCache"

text \<open>The types of the pointers in a struct, and in an object: every pointer is nil or refers to a cell of its type.\<close>

fun cell_kinds :: "Cell \<Rightarrow> Kind list" where
  "cell_kinds (CStrategy t p) = [KResources]"
| "cell_kinds (CCache p q r) = [KForeign, KResync, KInformer]"
| "cell_kinds _ = []"

definition flat_ok :: "Heap \<Rightarrow> Kind \<Rightarrow> ptr \<Rightarrow> bool" where
  "flat_ok h k p \<longleftrightarrow> p = None \<or> (\<exists>c. deref_cell h p = Some c \<and> kind_of c = k)"

definition typed_ptr :: "Heap \<Rightarrow> Kind \<Rightarrow> ptr \<Rightarrow> bool" where
  "typed_ptr h k p \<longleftrightarrow>
     p = None \<or> (\<exists>c. deref_cell h p = Some c \<and> kind_of c = k \<and> list_all2 (flat_ok h) (cell_kinds c) (cell_ptrs c))"

definition trimaran_ptrs :: "TrimaranSpec_h \<Rightarrow> (Kind \<times> ptr) list" where
  "trimaran_ptrs t =
     [(KString, hmp_Address (hts_MetricProvider t)), (KString, hmp_Token (hts_MetricProvider t)),
      (KBool, hmp_InsecureSkipVerify (hts_MetricProvider t)), (KString, hts_WatcherAddress t)]"

fun args_ptrs :: "PluginArgs_h \<Rightarrow> (Kind \<times> ptr) list" where
  "args_ptrs (HCoscheduling a) = [(KInt64, hcs_PermitWaitingTimeSeconds a), (KInt64, hcs_PodGroupBackoffSeconds a)]"
| "args_ptrs (HNeilats a) = [(KStringMap, hne_NetworkDevice a), (KStringMap, hne_StorageDevice a), (KSecrets, hne_KubeNodeAddressAndSecret a)]"
| "args_ptrs (HNodeResourcesAllocatable a) = [(KResources, hnr_Resources a)]"
| "args_ptrs (HTargetLoadPacking a) = trimaran_ptrs (htl_TrimaranSpec a) @
     [(KQuantities, htl_DefaultRequests a), (KString, htl_DefaultRequestsMultiplier a), (KInt64, htl_TargetUtilization a)]"
| "args_ptrs (HLoadVariationRiskBalancing a) = trimaran_ptrs (hlv_TrimaranSpec a) @
     [(KFloat, hlv_SafeVarianceMargin a), (KFloat, hlv_SafeVarianceSensitivity a)]"
| "args_ptrs (HLowRiskOverCommitment a) = trimaran_ptrs (hlr_TrimaranSpec a) @
     [(KInt64, hlr_SmoothingWindowSize a), (KWeights, hlr_RiskLimitWeights a)]"
| "args_ptrs (HNodeResourceTopologyMatch a) =
     [(KStrategy, htm_ScoringStrategy a), (KInt64, htm_CacheResyncPeriodSeconds a), (KCache, htm_Cache a)]"
| "args_ptrs (HPreemptionToleration a) = [(KInt32, hpt_MinCandidateNodesPercentage a), (KInt32, hpt_MinCandidateNodesAbsolute a)]"
| "args_ptrs (HTopologicalSort a) = [(KStrings, htp_Namespaces a)]"
| "args_ptrs (HNetworkOverhead a) = [(KStrings, hno_Namespaces a), (KString, hno_WeightsName a), (KString, hno_NetworkTopologyName a)]"
| "args_ptrs (HSySched a) = [(KString, hsy_DefaultProfileNamespace a), (KString, hsy_DefaultProfileName a)]"

definition typed :: "Heap \<Rightarrow> PluginArgs_h \<Rightarrow> bool" where
  "typed h a \<longleftrightarrow> list_all (\<lambda>(k, p). typed_ptr h k p) (args_ptrs a)"

definition footprint :: "Heap \<Rightarrow> PluginArgs_h \<Rightarrow> addr set" where
  "footprint h a = (\<Union>(k, p) \<in> set (args_ptrs a). reach h p)"

definition wf_heap :: "Heap \<Rightarrow> bool" where
  "wf_heap h \<longleftrightarrow> (\<forall>a. cells h a \<noteq> None \<longrightarrow> a < lim h)"

section \<open>Growing heaps\<close>

definition ext :: "Heap \<Rightarrow> Heap \<Rightarrow> bool" where
  "ext h h' \<longleftrightarrow> lim h \<le> lim h' \<and> (\<forall>a < lim h. cells h' a = cells h a)"

lemma ext_refl [simp]: "ext h h"
  by (simp add: ext_def)

lemma ext_trans: "ext h1 h2 \<Longrightarrow> ext h2 h3 \<Longrightarrow> ext h1 h3"
  by (auto simp: ext_def)

lemma run_alloc: "run_state (alloc c) h = (Some (lim h), h\<lparr>cells := (cells h)(lim h \<mapsto> c), lim := Suc (lim h)\<rparr>)"
  by (simp add: alloc_def)

lemma deref_ext: "wf_heap h \<Longrightarrow> ext h h' \<Longrightarrow> deref_cell h p = Some c \<Longrightarrow> deref_cell h' p = Some c"
  by (auto simp: deref_cell_def ext_def wf_heap_def split: option.splits)

lemma flat_ok_ext: "wf_heap h \<Longrightarrow> ext h h' \<Longrightarrow> flat_ok h k p \<Longrightarrow> flat_ok h' k p"
  unfolding flat_ok_def using deref_ext by blast

lemma typed_ptr_ext: "wf_heap h \<Longrightarrow> ext h h' \<Longrightarrow> typed_ptr h k p \<Longrightarrow> typed_ptr h' k p"
  unfolding typed_ptr_def using deref_ext flat_ok_ext by (blast intro: list_all2_mono)

lemma flat_ok_deref:
  assumes "wf_heap h" "ext h h'" "flat_ok h k p"
  shows "deref_cell h' p = deref_cell h p"
proof (cases "p = None")
  case False
  then obtain c where "deref_cell h p = Some c" using assms(3) by (auto simp: flat_ok_def)
  with deref_ext [OF assms(1,2)] show ?thesis by simp
qed (simp add: deref_cell_def)

lemma list_all2_member: "list_all2 P ks ps \<Longrightarrow> q \<in> set ps \<Longrightarrow> \<exists>k. P k q"
  by (auto simp: list_all2_conv_all_nth in_set_conv_nth)

lemma flat_oks_deref:
  "wf_heap h \<Longrightarrow> ext h h' \<Longrightarrow> list_all2 (flat_ok h) ks ps \<Longrightarrow> map (deref_cell h') ps = map (deref_cell h) ps"
  using flat_ok_deref list_all2_member [of "flat_ok h"] by fastforce

lemma view_ext:
  assumes "wf_heap h" "ext h h'" "typed_ptr h k p"
  shows "view h' p = view h p" "reach h' p = reach h p"
  using assms deref_ext [OF assms(1,2), of p] flat_oks_deref [OF assms(1,2)]
  by (auto simp: typed_ptr_def view_def reach_def deref_cell_def split: option.splits)

lemma reach_allocated:
  assumes "wf_heap h" "typed_ptr h k p" "b \<in> reach h p"
  shows "b < lim h"
proof -
  have f: "b < lim h" if "flat_ok h k q" "q = Some b" for k q
    using that assms(1) by (auto simp: flat_ok_def deref_cell_def wf_heap_def)
  show ?thesis
    using assms list_all2_member [of "flat_ok h"] f by (fastforce simp: typed_ptr_def reach_def deref_cell_def wf_heap_def split: option.splits)
qed

section \<open>Allocating computations\<close>

text \<open>
  \<open>allocs h m Q\<close>: run in any heap that has grown from \<open>h\<close>, \<open>m\<close> only allocates, and its result satisfies \<open>Q\<close> in
  every later heap.
\<close>

definition allocs :: "Heap \<Rightarrow> (Heap, 'a) state \<Rightarrow> (Heap \<Rightarrow> 'a \<Rightarrow> bool) \<Rightarrow> bool" where
  "allocs h m Q \<longleftrightarrow>
     (\<forall>h1. wf_heap h1 \<longrightarrow> ext h h1 \<longrightarrow>
        (case run_state m h1 of (x, h2) \<Rightarrow> wf_heap h2 \<and> ext h1 h2 \<and> (\<forall>h3. ext h2 h3 \<longrightarrow> Q h3 x)))"

lemma allocs_return: "(\<And>h3. ext h h3 \<Longrightarrow> Q h3 x) \<Longrightarrow> allocs h (State_Monad.return x) Q"
  using ext_trans by (auto simp: allocs_def)

lemma allocs_bind:
  assumes "allocs h m Q" and "\<And>x. allocs h (f x) (\<lambda>h3 y. Q h3 x \<longrightarrow> R h3 y)"
  shows "allocs h (do { x \<leftarrow> m; f x }) R"
  unfolding allocs_def
proof (intro allI impI)
  fix h1 assume h1: "wf_heap h1" "ext h h1"
  obtain x h2 where m: "run_state m h1 = (x, h2)" by (cases "run_state m h1")
  have x: "wf_heap h2" "ext h1 h2" "\<forall>h3. ext h2 h3 \<longrightarrow> Q h3 x" using assms(1) h1 m by (auto simp: allocs_def)
  obtain y h3 where f: "run_state (f x) h2 = (y, h3)" by (cases "run_state (f x) h2")
  have y: "wf_heap h3" "ext h2 h3" "\<forall>h4. ext h3 h4 \<longrightarrow> Q h4 x \<longrightarrow> R h4 y"
    using assms(2) [of x] x(1) ext_trans [OF h1(2) x(2)] f by (auto simp: allocs_def)
  show "case run_state (do { x \<leftarrow> m; f x }) h1 of (x, h2) \<Rightarrow> wf_heap h2 \<and> ext h1 h2 \<and> (\<forall>h3. ext h2 h3 \<longrightarrow> R h3 x)"
    using x y f m by (auto intro: ext_trans)
qed

lemma allocs_alloc:
  assumes "\<And>h1 h3. wf_heap h1 \<Longrightarrow> ext h h1 \<Longrightarrow> ext h1 h3 \<Longrightarrow> deref_cell h3 (Some (lim h1)) = Some c \<Longrightarrow> Q h3 (Some (lim h1))"
  shows "allocs h (alloc c) Q"
  unfolding allocs_def run_alloc
proof (intro allI impI, simp, intro conjI allI impI)
  fix h1 assume h1: "wf_heap h1" "ext h h1"
  let ?h2 = "h1\<lparr>cells := (cells h1)(lim h1 \<mapsto> c), lim := Suc (lim h1)\<rparr>"
  show "wf_heap ?h2" using h1(1) by (auto simp: wf_heap_def less_Suc_eq)
  show e: "ext h1 ?h2" by (simp add: ext_def)
  fix h3 assume h3: "ext ?h2 h3"
  then have "deref_cell h3 (Some (lim h1)) = Some c" by (auto simp: ext_def deref_cell_def)
  with assms [OF h1] ext_trans [OF e h3] show "Q h3 (Some (lim h1))" by blast
qed

lemma allocs_run:
  assumes "allocs h m Q" "wf_heap h" "run_state m h = (x, h')"
  shows "wf_heap h'" "ext h h'" "Q h' x"
  using assms by (auto simp: allocs_def)

text \<open>What the copy of a pointer is: the same content in new cells, of the same type.\<close>

definition copied :: "Heap \<Rightarrow> Kind \<Rightarrow> ptr \<Rightarrow> Heap \<Rightarrow> ptr \<Rightarrow> bool" where
  "copied h k p h' p' \<longleftrightarrow> view h' p' = view h p \<and> typed_ptr h' k p' \<and> (\<forall>b \<in> reach h' p'. lim h \<le> b)"

lemma flat_kind: "kind_of c \<notin> {KStrategy, KCache} \<Longrightarrow> cell_ptrs c = [] \<and> cell_kinds c = [] \<and> erase c = c"
  by (cases c) auto

lemma allocs_copy_ptr:
  assumes h: "wf_heap h" and p: "flat_ok h k p" "k \<notin> {KStrategy, KCache}"
  shows "allocs h (copy_ptr p) (copied h k p)"
proof (cases "p = None")
  case True
  then have "copy_ptr p = State_Monad.return None" by (simp add: copy_ptr_def deref_cell_def State_Monad.return_def fun_eq_iff)
  then show ?thesis by (auto intro!: allocs_return simp: True copied_def view_def deref_cell_def typed_ptr_def reach_def)
next
  case False
  then obtain c where c: "deref_cell h p = Some c" "kind_of c = k" using p(1) by (auto simp: flat_ok_def)
  have flat: "cell_ptrs c = []" "cell_kinds c = []" "erase c = c" using flat_kind [of c] p(2) c(2) by auto
  have "allocs h (alloc c) (copied h k p)"
  proof (rule allocs_alloc)
    fix h1 h3 assume "ext h h1" "deref_cell h3 (Some (lim h1)) = Some c"
    then show "copied h k p h3 (Some (lim h1))"
      using c flat by (simp add: copied_def view_def typed_ptr_def reach_def ext_def)
  qed
  moreover have "run_state (copy_ptr p) h1 = run_state (alloc c) h1" if "ext h h1" for h1
    using deref_ext [OF h that c(1)] by (simp add: copy_ptr_def)
  ultimately show ?thesis by (simp add: allocs_def)
qed

lemma allocs_cong:
  assumes "\<And>h1. ext h h1 \<Longrightarrow> run_state m h1 = run_state m' h1" and "allocs h m' Q"
  shows "allocs h m Q"
  using assms by (simp add: allocs_def)

lemma typed_ptr_cases:
  assumes "typed_ptr h k p"
  obtains "p = None" | c where "deref_cell h p = Some c" "kind_of c = k" "list_all2 (flat_ok h) (cell_kinds c) (cell_ptrs c)"
  using assms by (auto simp: typed_ptr_def)

lemma copied_flat:
  "copied h k q h' q' \<Longrightarrow> k \<notin> {KStrategy, KCache} \<Longrightarrow> flat_ok h k q \<Longrightarrow>
   deref_cell h' q' = deref_cell h q \<and> flat_ok h' k q' \<and> (\<forall>b \<in> set_option q'. lim h \<le> b)"
  using flat_kind
  by (fastforce simp: copied_def view_def typed_ptr_def flat_ok_def reach_def deref_cell_def split: option.splits)

lemma allocs_nil: "deref_cell h None = None" "copied h k None h' None"
  by (simp_all add: deref_cell_def copied_def view_def typed_ptr_def reach_def)

lemma allocs_DeepCopy_ScoringStrategy:
  assumes h: "wf_heap h" and p: "typed_ptr h KStrategy p"
  shows "allocs h (DeepCopy_ScoringStrategy p) (copied h KStrategy p)"
  using p
proof (cases rule: typed_ptr_cases)
  case 1
  have "allocs h (State_Monad.return None) (copied h KStrategy p)" by (rule allocs_return) (simp add: 1 allocs_nil)
  then show ?thesis by (rule allocs_cong [rotated]) (simp add: 1 DeepCopy_ScoringStrategy_def deref_cell_def)
next
  case (2 c)
  then obtain t r where c: "c = CStrategy t r" "flat_ok h KResources r" by (cases c) auto
  have "allocs h (do { r' \<leftarrow> copy_ptr r; alloc (CStrategy t r') }) (copied h KStrategy p)"
  proof (rule allocs_bind [OF allocs_copy_ptr [OF h c(2)]], simp, rule allocs_alloc, rule impI)
    fix r' h1 h3 assume a: "ext h h1" "deref_cell h3 (Some (lim h1)) = Some (CStrategy t r')" "copied h KResources r h3 r'"
    show "copied h KStrategy p h3 (Some (lim h1))"
      using a(1,2) 2(1) c copied_flat [OF a(3) _ c(2)]
      by (auto simp: copied_def view_def typed_ptr_def reach_def ext_def)
  qed
  then show ?thesis
    by (rule allocs_cong [rotated]) (simp add: DeepCopy_ScoringStrategy_def deref_ext [OF h _ 2(1)] c(1))
qed

lemma allocs_DeepCopy_NodeResourceTopologyCache:
  assumes h: "wf_heap h" and p: "typed_ptr h KCache p"
  shows "allocs h (DeepCopy_NodeResourceTopologyCache p) (copied h KCache p)"
  using p
proof (cases rule: typed_ptr_cases)
  case 1
  have "allocs h (State_Monad.return None) (copied h KCache p)" by (rule allocs_return) (simp add: 1 allocs_nil)
  then show ?thesis by (rule allocs_cong [rotated]) (simp add: 1 DeepCopy_NodeResourceTopologyCache_def deref_cell_def)
next
  case (2 c)
  then obtain f r i where c: "c = CCache f r i" "flat_ok h KForeign f" "flat_ok h KResync r" "flat_ok h KInformer i"
    by (cases c) auto
  have "allocs h (do { f' \<leftarrow> copy_ptr f; r' \<leftarrow> copy_ptr r; i' \<leftarrow> copy_ptr i; alloc (CCache f' r' i') }) (copied h KCache p)"
  proof (rule allocs_bind [OF allocs_copy_ptr [OF h c(2)]], simp, rule allocs_bind [OF allocs_copy_ptr [OF h c(3)]], simp,
      rule allocs_bind [OF allocs_copy_ptr [OF h c(4)]], simp, rule allocs_alloc, intro impI)
    fix f' r' i' h1 h3 assume a: "ext h h1" "deref_cell h3 (Some (lim h1)) = Some (CCache f' r' i')"
      "copied h KForeign f h3 f'" "copied h KResync r h3 r'" "copied h KInformer i h3 i'"
    show "copied h KCache p h3 (Some (lim h1))"
      using a(1,2) 2(1) c(1) copied_flat [OF a(3) _ c(2)] copied_flat [OF a(4) _ c(3)] copied_flat [OF a(5) _ c(4)]
      by (auto simp: copied_def view_def typed_ptr_def reach_def ext_def)
  qed
  then show ?thesis
    by (rule allocs_cong [rotated]) (simp add: DeepCopy_NodeResourceTopologyCache_def deref_ext [OF h _ 2(1)] c(1))
qed

section \<open>A deep copy is equal and separate\<close>

lemma typed_ptr_flat: "typed_ptr h k p \<Longrightarrow> flat_ok h k p"
  by (auto simp: typed_ptr_def flat_ok_def)

lemmas DeepCopyInto_defs = DeepCopyInto_CoschedulingArgs_def DeepCopyInto_NeilatsRefactorSchedulerArgs_def
  DeepCopyInto_NodeResourcesAllocatableArgs_def DeepCopyInto_MetricProviderSpec_def DeepCopyInto_TrimaranSpec_def
  DeepCopyInto_TargetLoadPackingArgs_def DeepCopyInto_LoadVariationRiskBalancingArgs_def DeepCopyInto_LowRiskOverCommitmentArgs_def
  DeepCopyInto_NodeResourceTopologyMatchArgs_def DeepCopyInto_PreemptionTolerationArgs_def DeepCopyInto_TopologicalSortArgs_def
  DeepCopyInto_NetworkOverheadArgs_def DeepCopyInto_SySchedArgs_def map_state_def

lemma allocs_bind_copy:
  assumes "typed_ptr h k p" and "k \<notin> {KStrategy, KCache}" and "wf_heap h"
    and "\<And>x. allocs h (f x) (\<lambda>h3 y. copied h k p h3 x \<longrightarrow> R h3 y)"
  shows "allocs h (do { x \<leftarrow> copy_ptr p; f x }) R"
  using allocs_bind [OF allocs_copy_ptr [OF assms(3) typed_ptr_flat [OF assms(1)] assms(2)] assms(4)] .

lemmas allocs_binds = allocs_bind_copy
  allocs_bind [OF allocs_DeepCopy_ScoringStrategy] allocs_bind [OF allocs_DeepCopy_NodeResourceTopologyCache]

lemma allocs_DeepCopyObject:
  assumes "wf_heap h" and "typed h a"
  shows "allocs h (DeepCopyObject a)
    (\<lambda>h3 a'. read_args h3 a' = read_args h a \<and> typed h3 a' \<and> (\<forall>b \<in> footprint h3 a'. lim h \<le> b))"
  by (insert assms; cases a; simp only: DeepCopyObject.simps DeepCopyInto_defs State_Monad.bind_assoc State_Monad.bind_left_identity
        typed_def [of h] args_ptrs.simps trimaran_ptrs_def append.simps list.pred_inject prod.case simp_thms;
      (elim conjE)?; (((rule allocs_binds, (assumption | (simp; fail))+)+), rule allocs_return,
      simp add: copied_def ball_Un typed_def footprint_def trimaran_ptrs_def read_trimaran_def))

lemma view_write: "b \<notin> reach h p \<Longrightarrow> view (write_cell b c h) p = view h p"
proof (cases "deref_cell h p")
  case None
  assume "b \<notin> reach h p"
  with None show ?thesis by (cases p) (auto simp: view_def deref_cell_def write_cell_def reach_def)
next
  case (Some d)
  assume b: "b \<notin> reach h p"
  then have "deref_cell (write_cell b c h) p = Some d"
    using Some by (cases p) (auto simp: deref_cell_def write_cell_def reach_def)
  moreover have "deref_cell (write_cell b c h) q = deref_cell h q" if "q \<in> set (cell_ptrs d)" for q
    using b Some that by (cases q) (force simp: deref_cell_def write_cell_def reach_def)+
  ultimately show ?thesis using Some by (simp add: view_def)
qed

lemma read_write: "b \<notin> footprint h a \<Longrightarrow> read_args (write_cell b c h) a = read_args h a"
  by (cases a) (auto simp: footprint_def trimaran_ptrs_def read_trimaran_def view_write)

lemma read_ext:
  assumes "wf_heap h" "ext h h'" "typed h a"
  shows "read_args h' a = read_args h a" "footprint h' a = footprint h a" "typed h' a"
proof -
  have v: "view h' p = view h p" "reach h' p = reach h p" "typed_ptr h' k p" if "(k, p) \<in> set (args_ptrs a)" for k p
    using that assms(3) view_ext [OF assms(1,2), of k p] typed_ptr_ext [OF assms(1,2), of k p] by (auto simp: typed_def list_all_iff)
  show "footprint h' a = footprint h a" "typed h' a" using v by (auto simp: footprint_def typed_def list_all_iff)
  have "list_all (\<lambda>(k, p). view h' p = view h p) (args_ptrs a)" using v(1) by (auto simp: list_all_iff)
  then show "read_args h' a = read_args h a" by (cases a) (simp_all add: trimaran_ptrs_def read_trimaran_def)
qed

lemma footprint_allocated: "wf_heap h \<Longrightarrow> typed h a \<Longrightarrow> b \<in> footprint h a \<Longrightarrow> b < lim h"
  using reach_allocated by (fastforce simp: footprint_def typed_def list_all_iff)

text \<open>
  C32. A deep copy is equal to the original and shares nothing with it. For arguments of every plugin: the copy
  has the value of the original and is well typed; the copy reaches only new cells; and writing any value
  through the one, to any cell it reaches, does not change the value of the other.
\<close>

theorem DeepCopy_separates:
  assumes "wf_heap h" and "typed h a" and "run_state (DeepCopyObject a) h = (a', h')"
  shows "read_args h' a' = read_args h a \<and> read_args h' a = read_args h a \<and> typed h' a' \<and> wf_heap h' \<and>
    footprint h' a' \<inter> footprint h' a = {} \<and>
    (\<forall>b \<in> footprint h' a'. \<forall>c. read_args (write_cell b c h') a = read_args h a) \<and>
    (\<forall>b \<in> footprint h' a. \<forall>c. read_args (write_cell b c h') a' = read_args h a)"
proof -
  have c: "wf_heap h'" "ext h h'" "read_args h' a' = read_args h a" "typed h' a'" "\<forall>b \<in> footprint h' a'. lim h \<le> b"
    using allocs_run [OF allocs_DeepCopyObject [OF assms(1,2)] assms(1,3)] by auto
  note old = read_ext [OF assms(1) c(2) assms(2)]
  have "footprint h' a' \<inter> footprint h' a = {}"
    using c(5) footprint_allocated [OF assms(1,2)] old(2) by force
  with c old read_write show ?thesis by (metis disjoint_iff)
qed

section \<open>Defaults through pointers\<close>

text \<open>
  The package variables of \<open>defaults.go\<close> whose address or whose map or array is stored into an object: they live
  at the first addresses, in this order. Variables that are only copied are the constants of \<open>ConfigV1\<close>.
\<close>

definition package_vars :: "Cell list" where
  "package_vars =
     [CInt64 defaultPermitWaitingTimeSeconds, CInt64 defaultPodGroupBackoffSeconds,
      CResources defaultNodeResourcesAllocatableResourcesToWeightMap, CString DefaultRequestsMultiplier,
      CInt64 DefaultTargetUtilizationPercent, CFloat DefaultSafeVarianceMargin, CFloat DefaultSafeVarianceSensitivity,
      CInt64 DefaultSmoothingWindowSize, CWeights DefaultRiskLimitWeights, CBool DefaultInsecureSkipVerify,
      CResources defaultResourceSpec, CForeign defaultForeignPodsDetect, CResync defaultResyncMethod, CInformer defaultInformerMode,
      CString DefaultWeightsName, CString DefaultNetworkTopologyName, CString DefaultSySchedProfileNamespace,
      CString DefaultSySchedProfileName]"

definition globals_ok :: "Heap \<Rightarrow> bool" where
  "globals_ok h \<longleftrightarrow> (\<forall>a < length package_vars. cells h a = Some (package_vars ! a))"

definition if_nil :: "ptr \<Rightarrow> addr \<Rightarrow> ptr" where
  "if_nil p a = (if p = None then Some a else p)"

definition SetDefaults_CoschedulingArgs_h :: "CoschedulingArgs_h \<Rightarrow> (Heap, CoschedulingArgs_h) state" where
  "SetDefaults_CoschedulingArgs_h obj =
     State_Monad.return (obj\<lparr>hcs_PermitWaitingTimeSeconds := if_nil (hcs_PermitWaitingTimeSeconds obj) 0,
                             hcs_PodGroupBackoffSeconds := if_nil (hcs_PodGroupBackoffSeconds obj) 1\<rparr>)"

definition SetDefaults_NodeResourcesAllocatableArgs_h :: "NodeResourcesAllocatableArgs_h \<Rightarrow> (Heap, NodeResourcesAllocatableArgs_h) state" where
  "SetDefaults_NodeResourcesAllocatableArgs_h obj = do {
     h \<leftarrow> State_Monad.get;
     let obj = (if length (v_resources (view h (hnr_Resources obj))) = 0 then obj\<lparr>hnr_Resources := Some 2\<rparr> else obj);
     State_Monad.return (if hnr_Mode obj = [] then obj\<lparr>hnr_Mode := defaultNodeResourcesAllocatableMode\<rparr> else obj)
   }"

definition SetDefaultTrimaranSpec_h :: "TrimaranSpec_h \<Rightarrow> TrimaranSpec_h" where
  "SetDefaultTrimaranSpec_h args =
     (let args = (if hts_WatcherAddress args = None \<and> hmp_Type (hts_MetricProvider args) = []
                  then args\<lparr>hts_MetricProvider := (hts_MetricProvider args)\<lparr>hmp_Type := DefaultMetricProviderType\<rparr>\<rparr> else args)
      in if hmp_Type (hts_MetricProvider args) = Prometheus \<and> hmp_InsecureSkipVerify (hts_MetricProvider args) = None
         then args\<lparr>hts_MetricProvider := (hts_MetricProvider args)\<lparr>hmp_InsecureSkipVerify := Some 9\<rparr>\<rparr> else args)"

definition SetDefaults_TargetLoadPackingArgs_h :: "TargetLoadPackingArgs_h \<Rightarrow> (Heap, TargetLoadPackingArgs_h) state" where
  "SetDefaults_TargetLoadPackingArgs_h args = do {
     let args = args\<lparr>htl_TrimaranSpec := SetDefaultTrimaranSpec_h (htl_TrimaranSpec args)\<rparr>;
     r \<leftarrow> (if htl_DefaultRequests args = None then alloc (CQuantities [(ResourceCPU, NewMilliQuantity DefaultRequestsMilliCores)])
          else State_Monad.return (htl_DefaultRequests args));
     let args = args\<lparr>htl_DefaultRequests := r, htl_DefaultRequestsMultiplier := if_nil (htl_DefaultRequestsMultiplier args) 3\<rparr>;
     h \<leftarrow> State_Monad.get;
     State_Monad.return (if (case v_int64 (view h (htl_TargetUtilization args)) of None \<Rightarrow> True | Some t \<Rightarrow> sle t 0)
                         then args\<lparr>htl_TargetUtilization := Some 4\<rparr> else args)
   }"

definition SetDefaults_LoadVariationRiskBalancingArgs_h :: "LoadVariationRiskBalancingArgs_h \<Rightarrow> (Heap, LoadVariationRiskBalancingArgs_h) state" where
  "SetDefaults_LoadVariationRiskBalancingArgs_h args = do {
     let args = args\<lparr>hlv_TrimaranSpec := SetDefaultTrimaranSpec_h (hlv_TrimaranSpec args)\<rparr>;
     h \<leftarrow> State_Monad.get;
     let args = (if (case v_float (view h (hlv_SafeVarianceMargin args)) of None \<Rightarrow> True | Some m \<Rightarrow> f_lt m (Fin 0))
                 then args\<lparr>hlv_SafeVarianceMargin := Some 5\<rparr> else args);
     State_Monad.return (if (case v_float (view h (hlv_SafeVarianceSensitivity args)) of None \<Rightarrow> True | Some s \<Rightarrow> f_lt s (Fin 0))
                         then args\<lparr>hlv_SafeVarianceSensitivity := Some 6\<rparr> else args)
   }"

definition write_ptr :: "ptr \<Rightarrow> Cell \<Rightarrow> (Heap, unit) state" where
  "write_ptr p c = State (\<lambda>h. ((), case p of None \<Rightarrow> h | Some a \<Rightarrow> write_cell a c h))"

text \<open>The loop over the weights writes into the map that the object refers to.\<close>

definition SetDefaults_LowRiskOverCommitmentArgs_h :: "LowRiskOverCommitmentArgs_h \<Rightarrow> (Heap, LowRiskOverCommitmentArgs_h) state" where
  "SetDefaults_LowRiskOverCommitmentArgs_h args = do {
     let args = args\<lparr>hlr_TrimaranSpec := SetDefaultTrimaranSpec_h (hlr_TrimaranSpec args)\<rparr>;
     h \<leftarrow> State_Monad.get;
     let args = (if (case v_int64 (view h (hlr_SmoothingWindowSize args)) of None \<Rightarrow> True | Some w \<Rightarrow> sle w 0)
                 then args\<lparr>hlr_SmoothingWindowSize := Some 7\<rparr> else args);
     let weights = v_weights (view h (hlr_RiskLimitWeights args));
     if length weights = 0 then State_Monad.return (args\<lparr>hlr_RiskLimitWeights := Some 8\<rparr>)
     else do {
       write_ptr (hlr_RiskLimitWeights args) (CWeights (map (map_prod id valid_weight) weights));
       State_Monad.return args
     }
   }"

definition strategy_type :: "Heap \<Rightarrow> ptr \<Rightarrow> ScoringStrategyType" where
  "strategy_type h s = (case deref_cell h s of Some (CStrategy t _) \<Rightarrow> t | _ \<Rightarrow> LeastAllocated)"

definition strategy_resources :: "Heap \<Rightarrow> ptr \<Rightarrow> ptr" where
  "strategy_resources h s = (case deref_cell h s of Some (CStrategy _ r) \<Rightarrow> r | _ \<Rightarrow> None)"

definition fix_weight :: "ResourceSpec \<Rightarrow> ResourceSpec" where
  "fix_weight r = (if rs_Weight r = 0 then r\<lparr>rs_Weight := 1\<rparr> else r)"

text \<open>
  The scoring strategy: a new one shares the array of \<open>defaultResourceSpec\<close>; appending to an empty slice gives a
  new array; the loop over the resources writes into the array that the strategy refers to.
\<close>

definition default_strategy_h :: "ptr \<Rightarrow> (Heap, ptr) state" where
  "default_strategy_h p = do {
     s \<leftarrow> (if p = None then alloc (CStrategy LeastAllocated (Some 10)) else State_Monad.return p);
     h \<leftarrow> State_Monad.get;
     (if length (v_resources (view h (strategy_resources h s))) = 0 then do {
        r \<leftarrow> alloc (CResources (v_resources (view h (strategy_resources h s)) @ v_resources (view h (Some 10))));
        write_ptr s (CStrategy (strategy_type h s) r)
      } else State_Monad.return ());
     h \<leftarrow> State_Monad.get;
     write_ptr (strategy_resources h s) (CResources (map fix_weight (v_resources (view h (strategy_resources h s)))));
     State_Monad.return s
   }"

definition default_cache_h :: "ptr \<Rightarrow> (Heap, ptr) state" where
  "default_cache_h p = do {
     c \<leftarrow> (if p = None then alloc (CCache None None None) else State_Monad.return p);
     h \<leftarrow> State_Monad.get;
     (case deref_cell h c of
        Some (CCache f r i) \<Rightarrow> write_ptr c (CCache (if_nil f 11) (if_nil r 12) (if_nil i 13))
      | _ \<Rightarrow> State_Monad.return ());
     State_Monad.return c
   }"

definition SetDefaults_NodeResourceTopologyMatchArgs_h :: "NodeResourceTopologyMatchArgs_h \<Rightarrow> (Heap, NodeResourceTopologyMatchArgs_h) state" where
  "SetDefaults_NodeResourceTopologyMatchArgs_h obj = do {
     s \<leftarrow> default_strategy_h (htm_ScoringStrategy obj);
     c \<leftarrow> default_cache_h (htm_Cache obj);
     State_Monad.return (obj\<lparr>htm_ScoringStrategy := s, htm_Cache := c\<rparr>)
   }"

definition alloc_if_nil :: "ptr \<Rightarrow> Cell \<Rightarrow> (Heap, ptr) state" where
  "alloc_if_nil p c = (if p = None then alloc c else State_Monad.return p)"

definition SetDefaults_PreemptionTolerationArgs_h :: "PreemptionTolerationArgs_h \<Rightarrow> (Heap, PreemptionTolerationArgs_h) state" where
  "SetDefaults_PreemptionTolerationArgs_h obj = do {
     p \<leftarrow> alloc_if_nil (hpt_MinCandidateNodesPercentage obj) (CInt32 10);
     n \<leftarrow> alloc_if_nil (hpt_MinCandidateNodesAbsolute obj) (CInt32 100);
     State_Monad.return (obj\<lparr>hpt_MinCandidateNodesPercentage := p, hpt_MinCandidateNodesAbsolute := n\<rparr>)
   }"

definition default_namespaces_h :: "ptr \<Rightarrow> (Heap, ptr) state" where
  "default_namespaces_h p = do {
     h \<leftarrow> State_Monad.get;
     if length (v_strings (view h p)) = 0 then alloc (CStrings [''default'']) else State_Monad.return p
   }"

definition SetDefaults_TopologicalSortArgs_h :: "TopologicalSortArgs_h \<Rightarrow> (Heap, TopologicalSortArgs_h) state" where
  "SetDefaults_TopologicalSortArgs_h obj = do {
     n \<leftarrow> default_namespaces_h (htp_Namespaces obj);
     State_Monad.return (obj\<lparr>htp_Namespaces := n\<rparr>)
   }"

definition SetDefaults_NetworkOverheadArgs_h :: "NetworkOverheadArgs_h \<Rightarrow> (Heap, NetworkOverheadArgs_h) state" where
  "SetDefaults_NetworkOverheadArgs_h obj = do {
     n \<leftarrow> default_namespaces_h (hno_Namespaces obj);
     State_Monad.return (obj\<lparr>hno_Namespaces := n, hno_WeightsName := if_nil (hno_WeightsName obj) 14,
                             hno_NetworkTopologyName := if_nil (hno_NetworkTopologyName obj) 15\<rparr>)
   }"

definition SetDefaults_SySchedArgs_h :: "SySchedArgs_h \<Rightarrow> (Heap, SySchedArgs_h) state" where
  "SetDefaults_SySchedArgs_h obj =
     State_Monad.return (obj\<lparr>hsy_DefaultProfileNamespace := if_nil (hsy_DefaultProfileNamespace obj) 16,
                             hsy_DefaultProfileName := if_nil (hsy_DefaultProfileName obj) 17\<rparr>)"

fun RegisterDefaults_h :: "PluginArgs_h \<Rightarrow> (Heap, PluginArgs_h) state" where
  "RegisterDefaults_h (HCoscheduling a) = map_state HCoscheduling (SetDefaults_CoschedulingArgs_h a)"
| "RegisterDefaults_h (HNeilats a) = State_Monad.return (HNeilats a)"
| "RegisterDefaults_h (HNodeResourcesAllocatable a) = map_state HNodeResourcesAllocatable (SetDefaults_NodeResourcesAllocatableArgs_h a)"
| "RegisterDefaults_h (HTargetLoadPacking a) = map_state HTargetLoadPacking (SetDefaults_TargetLoadPackingArgs_h a)"
| "RegisterDefaults_h (HLoadVariationRiskBalancing a) = map_state HLoadVariationRiskBalancing (SetDefaults_LoadVariationRiskBalancingArgs_h a)"
| "RegisterDefaults_h (HLowRiskOverCommitment a) = map_state HLowRiskOverCommitment (SetDefaults_LowRiskOverCommitmentArgs_h a)"
| "RegisterDefaults_h (HNodeResourceTopologyMatch a) = map_state HNodeResourceTopologyMatch (SetDefaults_NodeResourceTopologyMatchArgs_h a)"
| "RegisterDefaults_h (HPreemptionToleration a) = map_state HPreemptionToleration (SetDefaults_PreemptionTolerationArgs_h a)"
| "RegisterDefaults_h (HTopologicalSort a) = map_state HTopologicalSort (SetDefaults_TopologicalSortArgs_h a)"
| "RegisterDefaults_h (HNetworkOverhead a) = map_state HNetworkOverhead (SetDefaults_NetworkOverheadArgs_h a)"
| "RegisterDefaults_h (HSySched a) = map_state HSySched (SetDefaults_SySchedArgs_h a)"

section \<open>What defaulting keeps\<close>

text \<open>
  \<open>keeps K h h'\<close>: going from \<open>h\<close> to \<open>h'\<close> keeps the heap well formed, the package variables and the types, and
  the content behind every pointer whose type has nothing to do with the kinds \<open>K\<close>.
\<close>

fun child_kinds :: "Kind \<Rightarrow> Kind set" where
  "child_kinds KStrategy = {KResources}"
| "child_kinds KCache = {KForeign, KResync, KInformer}"
| "child_kinds _ = {}"

definition keeps :: "Kind set \<Rightarrow> Heap \<Rightarrow> Heap \<Rightarrow> bool" where
  "keeps K h h' \<longleftrightarrow> wf_heap h' \<and> globals_ok h' \<and>
     (\<forall>k p. typed_ptr h k p \<longrightarrow> typed_ptr h' k p \<and> (insert k (child_kinds k) \<inter> K = {} \<longrightarrow> view h' p = view h p))"

lemma keeps_refl: "wf_heap h \<Longrightarrow> globals_ok h \<Longrightarrow> keeps K h h"
  by (simp add: keeps_def)

lemma keeps_trans: "keeps K h1 h2 \<Longrightarrow> keeps K h2 h3 \<Longrightarrow> keeps K h1 h3"
  unfolding keeps_def by metis

lemma keeps_mono: "keeps K h1 h2 \<Longrightarrow> keeps UNIV h1 h2"
  by (auto simp: keeps_def)

lemma keeps_alloc:
  assumes "wf_heap h" "globals_ok h" "run_state (alloc c) h = (p, h')"
  shows "keeps K h h'" "deref_cell h' p = Some c" "ext h h'"
proof -
  have "allocs h (alloc c) (\<lambda>h3 p. deref_cell h3 p = Some c)" by (rule allocs_alloc)
  note r = allocs_run [OF this assms(1,3)]
  have "globals_ok h'" using assms(1,2) r(2) by (auto simp: globals_ok_def ext_def wf_heap_def)
  then show "keeps K h h'"
    unfolding keeps_def using r(1) view_ext(1) [OF assms(1) r(2)] typed_ptr_ext [OF assms(1) r(2)] by blast
  show "deref_cell h' p = Some c" "ext h h'" using r(3,2) .
qed

lemma deref_write: "deref_cell (write_cell a c h) p = (if p = Some a then Some c else deref_cell h p)"
  by (auto simp: deref_cell_def write_cell_def split: option.splits)

lemma reach_kind:
  assumes "typed_ptr h k p" "b \<in> reach h p" "cells h b = Some c"
  shows "kind_of c \<in> insert k (child_kinds k)"
proof -
  from assms(2) have "p \<noteq> None" by (cases p) (auto simp: reach_def deref_cell_def)
  with assms(1) obtain d where d: "deref_cell h p = Some d" "kind_of d = k" "list_all2 (flat_ok h) (cell_kinds d) (cell_ptrs d)"
    by (auto simp: typed_ptr_def)
  show ?thesis
    using assms(2,3) d by (cases d) (auto simp: reach_def deref_cell_def flat_ok_def split: option.splits)
qed

lemma keeps_write:
  assumes h: "wf_heap h" "globals_ok h" and c: "cells h a = Some c" "kind_of c' = kind_of c" "kind_of c \<in> K"
    and ok: "list_all2 (flat_ok h) (cell_kinds c') (cell_ptrs c')" and g: "a < length package_vars \<Longrightarrow> c' = c"
  shows "keeps K h (write_cell a c' h)"
proof -
  let ?h = "write_cell a c' h"
  have d: "deref_cell h (Some a) = Some c" using c(1) by (simp add: deref_cell_def)
  have flat: "flat_ok ?h k p" if "flat_ok h k p" for k p
    using that c(2) d by (cases "p = Some a") (auto simp: flat_ok_def deref_write)
  have "typed_ptr ?h k p" if "typed_ptr h k p" for k p
  proof (cases "p = Some a")
    case True
    then show ?thesis
      using that c(2) d list_all2_mono [OF ok flat] by (auto simp: typed_ptr_def deref_write)
  next
    case False
    then show ?thesis using that flat by (auto simp: typed_ptr_def deref_write elim!: list_all2_mono)
  qed
  moreover have "view ?h p = view h p" if "typed_ptr h k p" "insert k (child_kinds k) \<inter> K = {}" for k p
    using reach_kind [OF that(1) _ c(1)] that(2) c(3) by (intro view_write) blast
  moreover have "wf_heap ?h" "globals_ok ?h"
    using h c(1) g by (auto simp: wf_heap_def globals_ok_def write_cell_def)
  ultimately show ?thesis by (simp add: keeps_def)
qed

section \<open>Defaulting through pointers implements the defaults\<close>

lemma package_vars_flat: "\<forall>c \<in> set package_vars. cell_ptrs c = [] \<and> cell_kinds c = [] \<and> erase c = c"
  by (simp add: package_vars_def)

lemma view_global:
  assumes "globals_ok h" "a < length package_vars"
  shows "view h (Some a) = Some (package_vars ! a, [])" "typed_ptr h (kind_of (package_vars ! a)) (Some a)"
  using assms bspec [OF package_vars_flat nth_mem [OF assms(2)]]
  by (simp_all add: globals_ok_def view_def typed_ptr_def deref_cell_def)

lemma typed_view:
  assumes "typed_ptr h k p" "p \<noteq> None"
  obtains c where "view h p = Some (erase c, map (deref_cell h) (cell_ptrs c))" "kind_of c = k"
  using assms by (auto simp: typed_ptr_def view_def)

lemma view_None [simp]: "view h None = None" "typed_ptr h k None"
  by (simp_all add: view_def deref_cell_def typed_ptr_def)

lemma nil_iff:
  "typed_ptr h KInt64 p \<Longrightarrow> v_int64 (view h p) = None \<longleftrightarrow> p = None"
  "typed_ptr h KInt32 p \<Longrightarrow> v_int32 (view h p) = None \<longleftrightarrow> p = None"
  "typed_ptr h KString p \<Longrightarrow> v_string (view h p) = None \<longleftrightarrow> p = None"
  "typed_ptr h KBool p \<Longrightarrow> v_bool (view h p) = None \<longleftrightarrow> p = None"
  "typed_ptr h KQuantities p \<Longrightarrow> v_quantities (view h p) = None \<longleftrightarrow> p = None"
proof -
  have v: "p = None \<or> (\<exists>c. view h p = Some (erase c, map (deref_cell h) (cell_ptrs c)) \<and> kind_of c = k)" if "typed_ptr h k p" for k
    using typed_view [OF that] by blast
  show "typed_ptr h KInt64 p \<Longrightarrow> v_int64 (view h p) = None \<longleftrightarrow> p = None"
    using v [of KInt64] by (auto simp: v_int64_def elim: kind_of.elims)
  show "typed_ptr h KInt32 p \<Longrightarrow> v_int32 (view h p) = None \<longleftrightarrow> p = None"
    using v [of KInt32] by (auto simp: v_int32_def elim: kind_of.elims)
  show "typed_ptr h KString p \<Longrightarrow> v_string (view h p) = None \<longleftrightarrow> p = None"
    using v [of KString] by (auto simp: v_string_def elim: kind_of.elims)
  show "typed_ptr h KBool p \<Longrightarrow> v_bool (view h p) = None \<longleftrightarrow> p = None"
    using v [of KBool] by (auto simp: v_bool_def elim: kind_of.elims)
  show "typed_ptr h KQuantities p \<Longrightarrow> v_quantities (view h p) = None \<longleftrightarrow> p = None"
    using v [of KQuantities] by (auto simp: v_quantities_def elim: kind_of.elims)
qed

lemma length_package_vars: "length package_vars = 18"
  by (simp add: package_vars_def)

lemmas v_defs = v_int64_def v_int32_def v_string_def v_bool_def v_float_def v_quantities_def v_weights_def v_stringMap_def
  v_secrets_def v_strings_def v_resources_def

lemma global_values:
  assumes "globals_ok h"
  shows "v_int64 (view h (Some 0)) = Some defaultPermitWaitingTimeSeconds" "v_int64 (view h (Some (Suc 0))) = Some defaultPodGroupBackoffSeconds"
    "v_resources (view h (Some 2)) = defaultNodeResourcesAllocatableResourcesToWeightMap"
    "v_string (view h (Some 3)) = Some DefaultRequestsMultiplier" "v_int64 (view h (Some 4)) = Some DefaultTargetUtilizationPercent"
    "v_float (view h (Some 5)) = Some DefaultSafeVarianceMargin" "v_float (view h (Some 6)) = Some DefaultSafeVarianceSensitivity"
    "v_int64 (view h (Some 7)) = Some DefaultSmoothingWindowSize" "v_weights (view h (Some 8)) = DefaultRiskLimitWeights"
    "v_bool (view h (Some 9)) = Some DefaultInsecureSkipVerify" "v_resources (view h (Some 10)) = defaultResourceSpec"
    "v_string (view h (Some 14)) = Some DefaultWeightsName" "v_string (view h (Some 15)) = Some DefaultNetworkTopologyName"
    "v_string (view h (Some 16)) = Some DefaultSySchedProfileNamespace" "v_string (view h (Some 17)) = Some DefaultSySchedProfileName"
  using view_global(1) [OF assms, unfolded length_package_vars] by (simp_all add: package_vars_def v_defs)

lemma global_types:
  assumes "globals_ok h"
  shows "typed_ptr h KInt64 (Some 0)" "typed_ptr h KInt64 (Some (Suc 0))" "typed_ptr h KResources (Some 2)" "typed_ptr h KString (Some 3)"
    "typed_ptr h KInt64 (Some 4)" "typed_ptr h KFloat (Some 5)" "typed_ptr h KFloat (Some 6)" "typed_ptr h KInt64 (Some 7)"
    "typed_ptr h KWeights (Some 8)" "typed_ptr h KBool (Some 9)" "typed_ptr h KResources (Some 10)" "typed_ptr h KForeign (Some 11)"
    "typed_ptr h KResync (Some 12)" "typed_ptr h KInformer (Some 13)" "typed_ptr h KString (Some 14)" "typed_ptr h KString (Some 15)"
    "typed_ptr h KString (Some 16)" "typed_ptr h KString (Some 17)"
  using view_global(2) [OF assms, unfolded length_package_vars, of 0] view_global(2) [OF assms, unfolded length_package_vars, of 1]
    view_global(2) [OF assms, unfolded length_package_vars, of 2] view_global(2) [OF assms, unfolded length_package_vars, of 3]
    view_global(2) [OF assms, unfolded length_package_vars, of 4] view_global(2) [OF assms, unfolded length_package_vars, of 5]
    view_global(2) [OF assms, unfolded length_package_vars, of 6] view_global(2) [OF assms, unfolded length_package_vars, of 7]
    view_global(2) [OF assms, unfolded length_package_vars, of 8] view_global(2) [OF assms, unfolded length_package_vars, of 9]
    view_global(2) [OF assms, unfolded length_package_vars, of 10] view_global(2) [OF assms, unfolded length_package_vars, of 11]
    view_global(2) [OF assms, unfolded length_package_vars, of 12] view_global(2) [OF assms, unfolded length_package_vars, of 13]
    view_global(2) [OF assms, unfolded length_package_vars, of 14] view_global(2) [OF assms, unfolded length_package_vars, of 15]
    view_global(2) [OF assms, unfolded length_package_vars, of 16] view_global(2) [OF assms, unfolded length_package_vars, of 17]
  by (simp_all add: package_vars_def)

lemma trimaran_defaults:
  assumes "globals_ok h" "list_all (\<lambda>(k, p). typed_ptr h k p) (trimaran_ptrs t)"
  shows "read_trimaran h (SetDefaultTrimaranSpec_h t) = SetDefaultTrimaranSpec (read_trimaran h t)"
    "list_all (\<lambda>(k, p). typed_ptr h k p) (trimaran_ptrs (SetDefaultTrimaranSpec_h t))"
proof -
  have "v_bool (view h (hmp_InsecureSkipVerify (hts_MetricProvider t))) = None \<longleftrightarrow> hmp_InsecureSkipVerify (hts_MetricProvider t) = None"
    "v_string (view h (hts_WatcherAddress t)) = None \<longleftrightarrow> hts_WatcherAddress t = None"
    using assms(2) by (simp_all add: trimaran_ptrs_def nil_iff)
  then show "read_trimaran h (SetDefaultTrimaranSpec_h t) = SetDefaultTrimaranSpec (read_trimaran h t)"
    using assms(1) by (auto simp: read_trimaran_def SetDefaultTrimaranSpec_h_def SetDefaultTrimaranSpec_def Let_def global_values)
  show "list_all (\<lambda>(k, p). typed_ptr h k p) (trimaran_ptrs (SetDefaultTrimaranSpec_h t))"
    using assms by (simp add: trimaran_ptrs_def SetDefaultTrimaranSpec_h_def Let_def global_types)
qed

lemma keeps_trimaran:
  assumes "keeps K h h'" "K \<inter> {KString, KBool} = {}" "list_all (\<lambda>(k, p). typed_ptr h k p) (trimaran_ptrs t)"
  shows "read_trimaran h' t = read_trimaran h t" "list_all (\<lambda>(k, p). typed_ptr h' k p) (trimaran_ptrs t)"
  using assms by (auto simp: keeps_def trimaran_ptrs_def read_trimaran_def)

definition defaulted :: "Heap \<Rightarrow> PluginArgs_h \<Rightarrow> bool" where
  "defaulted h a \<longleftrightarrow>
     (case run_state (RegisterDefaults_h a) h of (a', h') \<Rightarrow>
        keeps UNIV h h' \<and> typed h' a' \<and> read_args h' a' = RegisterDefaults (read_args h a))"

lemmas defaulted_simps = defaulted_def keeps_refl map_state_def if_nil_def Let_def typed_def

lemma v_cells:
  "v_int32 (Some (CInt32 x, ds)) = Some x" "v_quantities (Some (CQuantities q, ds)) = Some q" "v_strings (Some (CStrings s, ds)) = s"
  "v_weights (Some (CWeights w, ds)) = w"
  by (simp_all add: v_defs)

lemma v_nil [simp]:
  "v_int64 None = None" "v_int32 None = None" "v_string None = None" "v_bool None = None" "v_float None = None" "v_quantities None = None"
  "v_weights None = []" "v_stringMap None = []" "v_secrets None = []" "v_strings None = []" "v_resources None = []"
  by (simp_all add: v_defs)

lemma run_get [simp]: "run_state State_Monad.get h = (h, h)"
  by (simp add: State_Monad.get_def)

lemma defaulted_scalars:
  assumes "wf_heap h" "globals_ok h"
  shows "typed h (HCoscheduling a) \<Longrightarrow> defaulted h (HCoscheduling a)"
    and "typed h (HSySched s) \<Longrightarrow> defaulted h (HSySched s)"
    and "typed h (HNeilats n) \<Longrightarrow> defaulted h (HNeilats n)"
    and "typed h (HNodeResourcesAllocatable r) \<Longrightarrow> defaulted h (HNodeResourcesAllocatable r)"
    and "typed h (HLoadVariationRiskBalancing l) \<Longrightarrow> defaulted h (HLoadVariationRiskBalancing l)"
proof -
  show "typed h (HCoscheduling a) \<Longrightarrow> defaulted h (HCoscheduling a)"
    using assms by (auto simp: defaulted_simps SetDefaults_CoschedulingArgs_h_def SetDefaults_CoschedulingArgs_def nil_iff global_values global_types)
  show "typed h (HSySched s) \<Longrightarrow> defaulted h (HSySched s)"
    using assms by (auto simp: defaulted_simps SetDefaults_SySchedArgs_h_def SetDefaults_SySchedArgs_def nil_iff global_values global_types)
  show "typed h (HNeilats n) \<Longrightarrow> defaulted h (HNeilats n)"
    using assms by (simp add: defaulted_simps)
  show "typed h (HNodeResourcesAllocatable r) \<Longrightarrow> defaulted h (HNodeResourcesAllocatable r)"
    using assms by (auto simp: defaulted_simps SetDefaults_NodeResourcesAllocatableArgs_h_def SetDefaults_NodeResourcesAllocatableArgs_def
        global_values global_types)
  show "typed h (HLoadVariationRiskBalancing l) \<Longrightarrow> defaulted h (HLoadVariationRiskBalancing l)"
    using assms trimaran_defaults [OF assms(2), of "hlv_TrimaranSpec l"]
    by (auto simp: defaulted_simps SetDefaults_LoadVariationRiskBalancingArgs_h_def SetDefaults_LoadVariationRiskBalancingArgs_def
        global_values global_types split: option.splits)
qed

text \<open>Allocating defaults.\<close>

lemma alloc_if_nil_run:
  assumes "wf_heap h" "globals_ok h" "typed_ptr h k p" "kind_of c = k" "cell_kinds c = []" "cell_ptrs c = []"
    and "run_state (alloc_if_nil p c) h = (p', h')"
  shows "keeps {} h h'" "typed_ptr h' k p'" "view h' p' = (if p = None then Some (erase c, []) else view h p)"
proof -
  show k: "keeps {} h h'"
    using assms(1,2,7) keeps_alloc(1) keeps_refl by (auto simp: alloc_if_nil_def split: if_splits)
  show "typed_ptr h' k p'"
    using assms(3-7) keeps_alloc(2) [OF assms(1,2)] by (auto simp: alloc_if_nil_def typed_ptr_def split: if_splits)
  show "view h' p' = (if p = None then Some (erase c, []) else view h p)"
    using assms(6,7) keeps_alloc(2) [OF assms(1,2)] by (auto simp: alloc_if_nil_def view_def split: if_splits)
qed

lemma keepsD: "keeps {} h h' \<Longrightarrow> typed_ptr h k p \<Longrightarrow> typed_ptr h' k p \<and> view h' p = view h p"
  by (simp add: keeps_def)

lemma keeps_ok: "keeps K h h' \<Longrightarrow> wf_heap h' \<and> globals_ok h'"
  by (simp add: keeps_def)

lemma defaulted_preemption:
  assumes "wf_heap h" "globals_ok h" "typed h (HPreemptionToleration a)"
  shows "defaulted h (HPreemptionToleration a)"
proof -
  have t: "typed_ptr h KInt32 (hpt_MinCandidateNodesPercentage a)" "typed_ptr h KInt32 (hpt_MinCandidateNodesAbsolute a)"
    using assms(3) by (simp_all add: typed_def)
  obtain p h1 where p: "run_state (alloc_if_nil (hpt_MinCandidateNodesPercentage a) (CInt32 10)) h = (p, h1)"
    by (cases "run_state (alloc_if_nil (hpt_MinCandidateNodesPercentage a) (CInt32 10)) h")
  note 1 = alloc_if_nil_run [OF assms(1,2) t(1) _ _ _ p, simplified]
  obtain n h2 where n: "run_state (alloc_if_nil (hpt_MinCandidateNodesAbsolute a) (CInt32 100)) h1 = (n, h2)"
    by (cases "run_state (alloc_if_nil (hpt_MinCandidateNodesAbsolute a) (CInt32 100)) h1")
  have t1: "typed_ptr h1 KInt32 (hpt_MinCandidateNodesAbsolute a)" "view h1 (hpt_MinCandidateNodesAbsolute a) = view h (hpt_MinCandidateNodesAbsolute a)"
    using keepsD [OF 1(1) t(2)] by auto
  note 2 = alloc_if_nil_run [OF _ _ t1(1) _ _ _ n, simplified keeps_ok [OF 1(1)] simp_thms, simplified]
  show ?thesis
    using p n 1 2 t t1(2) keepsD [OF 2(1) 1(2)] keeps_mono [OF keeps_trans [OF 1(1) 2(1)]]
    by (auto simp: defaulted_simps SetDefaults_PreemptionTolerationArgs_h_def SetDefaults_PreemptionTolerationArgs_def
        SetDefaults_DefaultPreemptionArgs_def nil_iff v_cells)
qed

lemma defaulted_tlp:
  assumes "wf_heap h" "globals_ok h" "typed h (HTargetLoadPacking a)"
  shows "defaulted h (HTargetLoadPacking a)"
proof -
  let ?c = "CQuantities [(ResourceCPU, NewMilliQuantity DefaultRequestsMilliCores)]"
  have t: "list_all (\<lambda>(k, p). typed_ptr h k p) (trimaran_ptrs (htl_TrimaranSpec a))" "typed_ptr h KQuantities (htl_DefaultRequests a)"
    "typed_ptr h KString (htl_DefaultRequestsMultiplier a)" "typed_ptr h KInt64 (htl_TargetUtilization a)"
    using assms(3) by (simp_all add: typed_def)
  obtain r h1 where r: "run_state (alloc_if_nil (htl_DefaultRequests a) ?c) h = (r, h1)"
    by (cases "run_state (alloc_if_nil (htl_DefaultRequests a) ?c) h")
  note 1 = alloc_if_nil_run [OF assms(1,2) t(2) _ _ _ r, simplified]
  note spec = trimaran_defaults [OF assms(2) t(1)]
  note k = keepsD [OF 1(1) t(3)] keepsD [OF 1(1) t(4)] keeps_ok [OF 1(1)] keeps_trimaran [OF 1(1) _ spec(2), simplified]
  show ?thesis
    using r 1 t k spec nil_iff(3) [OF t(3)] nil_iff(5) [OF t(2)] keeps_mono [OF 1(1)]
    by (auto simp: defaulted_simps SetDefaults_TargetLoadPackingArgs_h_def SetDefaults_TargetLoadPackingArgs_def alloc_if_nil_def [symmetric]
        v_cells global_values global_types split: option.splits)
qed

lemma default_namespaces_run:
  assumes "wf_heap h" "globals_ok h" "typed_ptr h KStrings p" "run_state (default_namespaces_h p) h = (p', h')"
  shows "keeps {} h h'" "typed_ptr h' KStrings p'"
    "v_strings (view h' p') = (if length (v_strings (view h p)) = 0 then [''default''] else v_strings (view h p))"
proof -
  let ?e = "length (v_strings (view h p)) = 0"
  have r: "run_state (if ?e then alloc (CStrings [''default'']) else State_Monad.return p) h = (p', h')"
    using assms(4) by (simp add: default_namespaces_h_def)
  show "keeps {} h h'" using r keeps_alloc(1) [OF assms(1,2)] keeps_refl [OF assms(1,2)] by (auto split: if_splits)
  have "deref_cell h' p' = Some (CStrings [''default''])" if ?e using r that keeps_alloc(2) [OF assms(1,2)] by auto
  moreover have "p' = p" "h' = h" if "\<not> ?e" using r that by auto
  ultimately show "typed_ptr h' KStrings p'" "v_strings (view h' p') = (if ?e then [''default''] else v_strings (view h p))"
    using assms(3) by (cases ?e; simp add: typed_ptr_def view_def v_cells)+
qed

lemma defaulted_network:
  assumes "wf_heap h" "globals_ok h"
  shows "typed h (HTopologicalSort a) \<Longrightarrow> defaulted h (HTopologicalSort a)"
    and "typed h (HNetworkOverhead b) \<Longrightarrow> defaulted h (HNetworkOverhead b)"
proof -
  assume "typed h (HTopologicalSort a)"
  then have t: "typed_ptr h KStrings (htp_Namespaces a)" by (simp add: typed_def)
  obtain n h1 where n: "run_state (default_namespaces_h (htp_Namespaces a)) h = (n, h1)"
    by (cases "run_state (default_namespaces_h (htp_Namespaces a)) h")
  note d = default_namespaces_run [OF assms t n]
  show "defaulted h (HTopologicalSort a)"
    using n d keeps_mono [OF d(1)]
    by (auto simp: defaulted_simps SetDefaults_TopologicalSortArgs_h_def SetDefaults_TopologicalSortArgs_def)
next
  assume "typed h (HNetworkOverhead b)"
  then have t: "typed_ptr h KStrings (hno_Namespaces b)" "typed_ptr h KString (hno_WeightsName b)" "typed_ptr h KString (hno_NetworkTopologyName b)"
    by (simp_all add: typed_def)
  obtain n h1 where n: "run_state (default_namespaces_h (hno_Namespaces b)) h = (n, h1)"
    by (cases "run_state (default_namespaces_h (hno_Namespaces b)) h")
  note d = default_namespaces_run [OF assms t(1) n]
  show "defaulted h (HNetworkOverhead b)"
    using n d keeps_mono [OF d(1)] keeps_ok [OF d(1)] t(2,3) keepsD [OF d(1) t(2)] keepsD [OF d(1) t(3)]
    by (auto simp: defaulted_simps SetDefaults_NetworkOverheadArgs_h_def SetDefaults_NetworkOverheadArgs_def nil_iff global_values global_types)
qed

text \<open>Defaults that write into the object: what a package variable holds is left as it is.\<close>

lemma package_weights: "\<forall>c \<in> set package_vars. \<forall>w. c = CWeights w \<longrightarrow> map (map_prod id valid_weight) w = w"
  by (simp add: package_vars_def DefaultRiskLimitWeights_def valid_weight_def DefaultRiskLimitWeight_def f_lt_def)

lemma package_resources: "\<forall>c \<in> set package_vars. \<forall>rs. c = CResources rs \<longrightarrow> map fix_weight rs = rs"
  by (simp add: package_vars_def defaultNodeResourcesAllocatableResourcesToWeightMap_def defaultResourceSpec_def fix_weight_def)

lemma keeps_write_map:
  assumes h: "wf_heap h" "globals_ok h" and p: "deref_cell h p = Some c" "kind_of c' = kind_of c" "kind_of c \<in> K"
    and flat: "cell_kinds c' = []" "cell_ptrs c' = []" and g: "c \<in> set package_vars \<Longrightarrow> c' = c"
    and r: "run_state (write_ptr p c') h = (u, h')"
  shows "keeps K h h'" "deref_cell h' p = Some c'"
proof -
  obtain a where a: "p = Some a" "cells h a = Some c" using p(1) by (auto simp: deref_cell_def split: option.splits)
  have h': "h' = write_cell a c' h" using r by (simp add: write_ptr_def a(1))
  have "c' = c" if "a < length package_vars" using g nth_mem [OF that] h(2) a(2) that by (auto simp: globals_ok_def)
  then show "keeps K h h'" unfolding h' by (intro keeps_write [OF h a(2) p(2,3)]) (simp_all add: flat)
  show "deref_cell h' p = Some c'" by (simp add: h' a(1) deref_write)
qed

lemma defaulted_lroc:
  assumes "wf_heap h" "globals_ok h" "typed h (HLowRiskOverCommitment a)"
  shows "defaulted h (HLowRiskOverCommitment a)"
proof -
  let ?w = "v_weights (view h (hlr_RiskLimitWeights a))"
  have t: "list_all (\<lambda>(k, p). typed_ptr h k p) (trimaran_ptrs (hlr_TrimaranSpec a))"
    "typed_ptr h KInt64 (hlr_SmoothingWindowSize a)" "typed_ptr h KWeights (hlr_RiskLimitWeights a)"
    using assms(3) by (simp_all add: typed_def)
  note spec = trimaran_defaults [OF assms(2) t(1)]
  show ?thesis
  proof (cases "length ?w = 0")
    case True
    then show ?thesis
      using assms(1,2) t spec
      by (auto simp: defaulted_simps SetDefaults_LowRiskOverCommitmentArgs_h_def SetDefaults_LowRiskOverCommitmentArgs_def
          global_values global_types split: option.splits)
  next
    case False
    then have nn: "hlr_RiskLimitWeights a \<noteq> None" by (intro notI) simp
    then obtain c where "deref_cell h (hlr_RiskLimitWeights a) = Some c" "kind_of c = KWeights" using t(3) by (auto simp: typed_ptr_def)
    then have c: "deref_cell h (hlr_RiskLimitWeights a) = Some (CWeights ?w)" by (cases c) (auto simp: view_def v_cells)
    let ?c' = "CWeights (map (map_prod id valid_weight) ?w)"
    obtain h' where r: "run_state (write_ptr (hlr_RiskLimitWeights a) ?c') h = ((), h')" by (cases "run_state (write_ptr (hlr_RiskLimitWeights a) ?c') h") simp
    have "CWeights ?w \<in> set package_vars \<Longrightarrow> ?c' = CWeights ?w" using package_weights by blast
    note k = keeps_write_map [OF assms(1,2) c _ _ _ _ this r, of "{KWeights}", simplified]
    have "keeps {KWeights} h h'" using k(1) .
    note tr = keeps_trimaran [OF this _ spec(2), simplified]
    have z: "typed_ptr h' KInt64 (hlr_SmoothingWindowSize a)" "view h' (hlr_SmoothingWindowSize a) = view h (hlr_SmoothingWindowSize a)"
      "typed_ptr h' KWeights (hlr_RiskLimitWeights a)" "wf_heap h'" "globals_ok h'"
      using k(1) t by (auto simp: keeps_def)
    have "view h' (hlr_RiskLimitWeights a) = Some (?c', [])" using k(2) by (simp add: view_def)
    then show ?thesis
      using r False tr z spec keeps_mono [OF k(1)]
      by (auto simp: defaulted_simps SetDefaults_LowRiskOverCommitmentArgs_h_def SetDefaults_LowRiskOverCommitmentArgs_def
          global_values global_types v_cells split: option.splits)
  qed
qed

lemma package_scalars: "c \<in> set package_vars \<Longrightarrow> kind_of c \<notin> {KStrategy, KCache}"
  by (auto simp: package_vars_def)

lemma struct_not_global:
  assumes "globals_ok h" "cells h a = Some c" "kind_of c \<in> {KStrategy, KCache}"
  shows "\<not> a < length package_vars"
proof
  assume a: "a < length package_vars"
  then have "c \<in> set package_vars" using assms(1,2) nth_mem [OF a] by (auto simp: globals_ok_def)
  with package_scalars assms(3) show False by blast
qed

lemma write_struct:
  assumes h: "wf_heap h" "globals_ok h" and p: "deref_cell h p = Some c" "kind_of c' = kind_of c" "kind_of c \<in> {KStrategy, KCache} \<inter> K"
    and ok: "list_all2 (flat_ok h) (cell_kinds c') (cell_ptrs c')" and r: "run_state (write_ptr p c') h = (u, h')"
  shows "keeps K h h'" "\<And>q. deref_cell h' q = (if q = p then Some c' else deref_cell h q)"
proof -
  obtain a where a: "p = Some a" "cells h a = Some c" using p(1) by (auto simp: deref_cell_def split: option.splits)
  have h': "h' = write_cell a c' h" using r by (simp add: write_ptr_def a(1))
  show "keeps K h h'"
    unfolding h' using struct_not_global [OF h(2) a(2)] p(2,3) ok by (intro keeps_write [OF h a(2)]) auto
  show "deref_cell h' q = (if q = p then Some c' else deref_cell h q)" for q by (simp add: h' a(1) deref_write)
qed

text \<open>\<open>strategy_at h s t rs\<close>: behind \<open>s\<close> is a strategy of type \<open>t\<close> with the resources \<open>rs\<close>.\<close>

definition strategy_at :: "Heap \<Rightarrow> ptr \<Rightarrow> ScoringStrategyType \<Rightarrow> ResourceSpec list \<Rightarrow> bool" where
  "strategy_at h s t rs \<longleftrightarrow>
     wf_heap h \<and> globals_ok h \<and>
     (\<exists>r. deref_cell h s = Some (CStrategy t r) \<and> flat_ok h KResources r \<and> v_resources (view h r) = rs)"

lemma resources_view: "v_resources (view h r) = (case deref_cell h r of Some (CResources rs) \<Rightarrow> rs | _ \<Rightarrow> [])"
proof (cases "deref_cell h r")
  case (Some c)
  then show ?thesis by (cases c) (simp_all add: view_def v_resources_def)
qed (simp add: view_def)

lemma strategy_at_view:
  assumes "strategy_at h s t rs"
  shows "v_strategy (view h s) = Some \<lparr>sst_Type = t, sst_Resources = rs\<rparr> \<and> typed_ptr h KStrategy s"
proof -
  obtain r where r: "deref_cell h s = Some (CStrategy t r)" "flat_ok h KResources r" "v_resources (view h r) = rs"
    using assms by (auto simp: strategy_at_def)
  then have "v_strategy (view h s) = Some \<lparr>sst_Type = t, sst_Resources = rs\<rparr>"
    by (simp add: view_def [of h s] v_strategy_def resources_view)
  with r(1,2) show ?thesis by (simp add: typed_ptr_def)
qed

lemma strategy_start:
  assumes "wf_heap h" "globals_ok h" "typed_ptr h KStrategy p"
    and "run_state (if p = None then alloc (CStrategy LeastAllocated (Some 10)) else State_Monad.return p) h = (s, h1)"
    and "st = (case v_strategy (view h p) of None \<Rightarrow> \<lparr>sst_Type = LeastAllocated, sst_Resources = defaultResourceSpec\<rparr> | Some x \<Rightarrow> x)"
  shows "keeps K h h1 \<and> strategy_at h1 s (sst_Type st) (sst_Resources st)"
proof (cases "p = None")
  case True
  then have r: "run_state (alloc (CStrategy LeastAllocated (Some 10))) h = (s, h1)" using assms(4) by simp
  note a = keeps_alloc [OF assms(1,2) r]
  have "strategy_at h1 s LeastAllocated defaultResourceSpec"
    using a(2) keeps_ok [OF a(1)] global_values(11) global_types(11) typed_ptr_flat by (auto simp: strategy_at_def)
  then show ?thesis using a(1) assms(5) True by (simp add: v_strategy_def)
next
  case False
  then have h1: "s = p" "h1 = h" using assms(4) by auto
  obtain c where c: "deref_cell h p = Some c" "kind_of c = KStrategy" "list_all2 (flat_ok h) (cell_kinds c) (cell_ptrs c)"
    using assms(3) False by (auto simp: typed_ptr_def)
  then obtain t r where "c = CStrategy t r" by (cases c) auto
  with c assms(1,2) have "strategy_at h p t (v_resources (view h r))" by (auto simp: strategy_at_def)
  then show ?thesis using strategy_at_view assms(5) keeps_refl [OF assms(1,2)] by (fastforce simp: h1)
qed

lemma strategy_append:
  assumes "strategy_at h s t rs"
    and "run_state (if length (v_resources (view h (strategy_resources h s))) = 0 then do {
        r \<leftarrow> alloc (CResources (v_resources (view h (strategy_resources h s)) @ v_resources (view h (Some 10))));
        write_ptr s (CStrategy (strategy_type h s) r) } else State_Monad.return ()) h = (u, h1)"
  shows "keeps {KStrategy, KResources} h h1 \<and> strategy_at h1 s t (if length rs = 0 then rs @ defaultResourceSpec else rs)"
proof -
  obtain r0 where s: "wf_heap h" "globals_ok h" "deref_cell h s = Some (CStrategy t r0)" "v_resources (view h r0) = rs"
    using assms(1) by (auto simp: strategy_at_def)
  have sel: "strategy_resources h s = r0" "strategy_type h s = t" using s(3) by (simp_all add: strategy_resources_def strategy_type_def)
  show ?thesis
  proof (cases "length rs = 0")
    case False
    then show ?thesis using assms s by (simp add: sel keeps_refl)
  next
    case True
    let ?rs = "rs @ defaultResourceSpec"
    obtain r h2 where a: "run_state (alloc (CResources ?rs)) h = (r, h2)" by (cases "run_state (alloc (CResources ?rs)) h")
    note k = keeps_alloc(1) [OF s(1,2) a, of "{KStrategy, KResources}"] keeps_alloc(2,3) [OF s(1,2) a]
    have w: "run_state (write_ptr s (CStrategy t r)) h2 = (u, h1)"
      using assms(2) True a by (simp add: sel s(4) global_values [OF s(2)])
    have s2: "deref_cell h2 s = Some (CStrategy t r0)" using deref_ext [OF s(1) k(3) s(3)] .
    have "list_all2 (flat_ok h2) [KResources] [r]" using k(2) by (simp add: flat_ok_def)
    note w = write_struct [OF _ _ s2 _ _ _ w, of "{KStrategy, KResources}"]
    have w1: "keeps {KStrategy, KResources} h2 h1" "deref_cell h1 q = (if q = s then Some (CStrategy t r) else deref_cell h2 q)" for q
      using w keeps_ok [OF k(1)] k(2) by (simp_all add: flat_ok_def)
    have "r \<noteq> s" using k(2) s2 by auto
    then have "strategy_at h1 s t ?rs"
      using w1 k(2) keeps_ok [OF w1(1)] by (auto simp: strategy_at_def flat_ok_def view_def v_resources_def)
    then show ?thesis using keeps_trans [OF k(1) w1(1)] True by simp
  qed
qed

lemma strategy_weights:
  assumes "strategy_at h s t rs" "rs \<noteq> []"
    and "run_state (write_ptr (strategy_resources h s) (CResources (map fix_weight (v_resources (view h (strategy_resources h s)))))) h = (u, h1)"
  shows "keeps {KStrategy, KResources} h h1 \<and> strategy_at h1 s t (map fix_weight rs)"
proof -
  obtain r where s: "wf_heap h" "globals_ok h" "deref_cell h s = Some (CStrategy t r)" "flat_ok h KResources r" "v_resources (view h r) = rs"
    using assms(1) by (auto simp: strategy_at_def)
  have sel: "strategy_resources h s = r" using s(3) by (simp add: strategy_resources_def)
  have "r \<noteq> None" using s(5) assms(2) by (intro notI) simp
  then obtain c where c: "deref_cell h r = Some c" "kind_of c = KResources" using s(4) by (auto simp: flat_ok_def)
  then have c: "deref_cell h r = Some (CResources rs)" using s(5) by (cases c) (auto simp: view_def v_resources_def)
  have g: "CResources rs \<in> set package_vars \<Longrightarrow> CResources (map fix_weight rs) = CResources rs" using package_resources by blast
  have w: "run_state (write_ptr r (CResources (map fix_weight rs))) h = (u, h1)" using assms(3) by (simp add: sel s(5))
  note k = keeps_write_map [OF s(1,2) c _ _ _ _ g w, of "{KStrategy, KResources}", simplified]
  have "deref_cell h1 s = deref_cell h s"
  proof -
    have "r \<noteq> s" using c s(3) by auto
    then show ?thesis using w by (auto simp: write_ptr_def deref_write split: option.splits)
  qed
  then have "strategy_at h1 s t (map fix_weight rs)"
    using k(2) s(3) keeps_ok [OF k(1)] by (auto simp: strategy_at_def flat_ok_def view_def v_resources_def)
  with k(1) show ?thesis by simp
qed

lemma default_strategy_run:
  assumes "wf_heap h" "globals_ok h" "typed_ptr h KStrategy p" "run_state (default_strategy_h p) h = (s, h')"
    and "st = (case v_strategy (view h p) of None \<Rightarrow> \<lparr>sst_Type = LeastAllocated, sst_Resources = defaultResourceSpec\<rparr> | Some x \<Rightarrow> x)"
  shows "keeps {KStrategy, KResources} h h' \<and>
    strategy_at h' s (sst_Type st) (map fix_weight (if length (sst_Resources st) = 0 then sst_Resources st @ defaultResourceSpec else sst_Resources st))"
proof -
  let ?rs = "if length (sst_Resources st) = 0 then sst_Resources st @ defaultResourceSpec else sst_Resources st"
  let ?app = "\<lambda>h s. if length (v_resources (view h (strategy_resources h s))) = 0 then do {
        r \<leftarrow> alloc (CResources (v_resources (view h (strategy_resources h s)) @ v_resources (view h (Some 10))));
        write_ptr s (CStrategy (strategy_type h s) r) } else State_Monad.return ()"
  let ?wt = "\<lambda>h s. write_ptr (strategy_resources h s) (CResources (map fix_weight (v_resources (view h (strategy_resources h s)))))"
  obtain s1 h1 where 1: "run_state (if p = None then alloc (CStrategy LeastAllocated (Some 10)) else State_Monad.return p) h = (s1, h1)"
    by (cases "run_state (if p = None then alloc (CStrategy LeastAllocated (Some 10)) else State_Monad.return p) h")
  obtain u h2 where 2: "run_state (?app h1 s1) h1 = (u, h2)" by (cases "run_state (?app h1 s1) h1")
  obtain u' h3 where 3: "run_state (?wt h2 s1) h2 = (u', h3)" by (cases "run_state (?wt h2 s1) h2")
  have r: "s = s1" "h' = h3" using assms(4) 1 2 3 by (simp_all add: default_strategy_h_def)
  note a = strategy_start [OF assms(1-3) 1 assms(5), of "{KStrategy, KResources}"]
  note b = strategy_append [OF conjunct2 [OF a] 2]
  have "?rs \<noteq> []" by (simp add: defaultResourceSpec_def)
  note c = strategy_weights [OF conjunct2 [OF b] this 3]
  show ?thesis using a b c keeps_trans unfolding r by blast
qed


lemma cache_view:
  "v_cache (Some (CCache x y z, [f, r, i])) =
     Some \<lparr>nrc_ForeignPodsDetect = (case f of Some (CForeign x) \<Rightarrow> Some x | _ \<Rightarrow> None),
           nrc_ResyncMethod = (case r of Some (CResync x) \<Rightarrow> Some x | _ \<Rightarrow> None),
           nrc_InformerMode = (case i of Some (CInformer x) \<Rightarrow> Some x | _ \<Rightarrow> None)\<rparr>"
  by (simp add: v_cache_def)

text \<open>\<open>cache_at h c f r i\<close>: behind \<open>c\<close> is a cache configuration with these three pointers.\<close>

definition cache_at :: "Heap \<Rightarrow> ptr \<Rightarrow> ptr \<Rightarrow> ptr \<Rightarrow> ptr \<Rightarrow> bool" where
  "cache_at h c f r i \<longleftrightarrow> wf_heap h \<and> globals_ok h \<and> deref_cell h c = Some (CCache f r i) \<and>
     flat_ok h KForeign f \<and> flat_ok h KResync r \<and> flat_ok h KInformer i"

definition cache_value :: "Heap \<Rightarrow> ptr \<Rightarrow> ptr \<Rightarrow> ptr \<Rightarrow> NodeResourceTopologyCache" where
  "cache_value h f r i =
     \<lparr>nrc_ForeignPodsDetect = (case deref_cell h f of Some (CForeign x) \<Rightarrow> Some x | _ \<Rightarrow> None),
      nrc_ResyncMethod = (case deref_cell h r of Some (CResync x) \<Rightarrow> Some x | _ \<Rightarrow> None),
      nrc_InformerMode = (case deref_cell h i of Some (CInformer x) \<Rightarrow> Some x | _ \<Rightarrow> None)\<rparr>"

lemma cache_at_view:
  "cache_at h c f r i \<Longrightarrow> v_cache (view h c) = Some (cache_value h f r i) \<and> typed_ptr h KCache c"
  by (simp add: cache_at_def view_def cache_view cache_value_def typed_ptr_def)

lemma cache_start:
  assumes "wf_heap h" "globals_ok h" "typed_ptr h KCache p"
    and "run_state (if p = None then alloc (CCache None None None) else State_Monad.return p) h = (c, h1)"
  obtains f r i where "keeps K h h1" "cache_at h1 c f r i"
    "cache_value h1 f r i = (case v_cache (view h p) of None \<Rightarrow> \<lparr>nrc_ForeignPodsDetect = None, nrc_ResyncMethod = None, nrc_InformerMode = None\<rparr> | Some x \<Rightarrow> x)"
proof (cases "p = None")
  case True
  then have a: "run_state (alloc (CCache None None None)) h = (c, h1)" using assms(4) by simp
  note k = keeps_alloc [OF assms(1,2) a]
  have "cache_at h1 c None None None" using k(2) keeps_ok [OF k(1)] by (simp add: cache_at_def flat_ok_def)
  then show thesis using that [OF k(1)] True by (simp add: cache_value_def v_cache_def deref_cell_def)
next
  case False
  then have h1: "c = p" "h1 = h" using assms(4) by auto
  obtain d where d: "deref_cell h p = Some d" "kind_of d = KCache" "list_all2 (flat_ok h) (cell_kinds d) (cell_ptrs d)"
    using assms(3) False by (auto simp: typed_ptr_def)
  then obtain f r i where "d = CCache f r i" by (cases d) auto
  with d assms(1,2) have "cache_at h1 c f r i" by (simp add: h1 cache_at_def)
  with cache_at_view [OF this] show thesis using that keeps_refl [OF assms(1,2)] by (simp add: h1)
qed

lemma deref_globals:
  assumes "globals_ok h"
  shows "deref_cell h (Some 11) = Some (CForeign defaultForeignPodsDetect)" "deref_cell h (Some 12) = Some (CResync defaultResyncMethod)"
    "deref_cell h (Some 13) = Some (CInformer defaultInformerMode)"
  using assms by (simp_all add: globals_ok_def deref_cell_def package_vars_def)

lemma flat_field:
  assumes "globals_ok h"
  shows "flat_ok h KForeign f \<Longrightarrow> flat_ok h KForeign (if_nil f 11) \<and>
      (case deref_cell h (if_nil f 11) of Some (CForeign x) \<Rightarrow> Some x | _ \<Rightarrow> None) =
      (case (case deref_cell h f of Some (CForeign x) \<Rightarrow> Some x | _ \<Rightarrow> None) of None \<Rightarrow> Some defaultForeignPodsDetect | Some x \<Rightarrow> Some x)"
    and "flat_ok h KResync r \<Longrightarrow> flat_ok h KResync (if_nil r 12) \<and>
      (case deref_cell h (if_nil r 12) of Some (CResync x) \<Rightarrow> Some x | _ \<Rightarrow> None) =
      (case (case deref_cell h r of Some (CResync x) \<Rightarrow> Some x | _ \<Rightarrow> None) of None \<Rightarrow> Some defaultResyncMethod | Some x \<Rightarrow> Some x)"
    and "flat_ok h KInformer i \<Longrightarrow> flat_ok h KInformer (if_nil i 13) \<and>
      (case deref_cell h (if_nil i 13) of Some (CInformer x) \<Rightarrow> Some x | _ \<Rightarrow> None) =
      (case (case deref_cell h i of Some (CInformer x) \<Rightarrow> Some x | _ \<Rightarrow> None) of None \<Rightarrow> Some defaultInformerMode | Some x \<Rightarrow> Some x)"
  using deref_globals [OF assms] by (auto simp: if_nil_def flat_ok_def deref_cell_def [of h None] elim: kind_of.elims)

definition cache_defaults :: "NodeResourceTopologyCache \<Rightarrow> NodeResourceTopologyCache" where
  "cache_defaults c =
     \<lparr>nrc_ForeignPodsDetect = (case nrc_ForeignPodsDetect c of None \<Rightarrow> Some defaultForeignPodsDetect | Some x \<Rightarrow> Some x),
      nrc_ResyncMethod = (case nrc_ResyncMethod c of None \<Rightarrow> Some defaultResyncMethod | Some x \<Rightarrow> Some x),
      nrc_InformerMode = (case nrc_InformerMode c of None \<Rightarrow> Some defaultInformerMode | Some x \<Rightarrow> Some x)\<rparr>"

lemma cache_write:
  assumes "cache_at h c f r i" "run_state (write_ptr c (CCache (if_nil f 11) (if_nil r 12) (if_nil i 13))) h = (u, h')"
  shows "keeps {KCache} h h' \<and> v_cache (view h' c) = Some (cache_defaults (cache_value h f r i)) \<and> typed_ptr h' KCache c"
proof -
  let ?c' = "CCache (if_nil f 11) (if_nil r 12) (if_nil i 13)"
  have a: "wf_heap h" "globals_ok h" "deref_cell h c = Some (CCache f r i)" "flat_ok h KForeign f" "flat_ok h KResync r" "flat_ok h KInformer i"
    using assms(1) by (auto simp: cache_at_def)
  note fl = flat_field(1) [OF a(2,4)] flat_field(2) [OF a(2,5)] flat_field(3) [OF a(2,6)]
  note w = write_struct [OF a(1-3) _ _ _ assms(2), of "{KCache}", simplified, simplified fl simp_thms]
  have old: "deref_cell h' q = deref_cell h q" if "flat_ok h k q" "k \<noteq> KCache" for k q
    using w(2) [of q] that a(3) by (auto simp: flat_ok_def deref_cell_def [of _ None])
  have n: "deref_cell h' (if_nil f 11) = deref_cell h (if_nil f 11)" "deref_cell h' (if_nil r 12) = deref_cell h (if_nil r 12)"
    "deref_cell h' (if_nil i 13) = deref_cell h (if_nil i 13)"
    using old fl by (blast intro: Kind.distinct)+
  have "flat_ok h' k q" if "flat_ok h k q" "k \<noteq> KCache" for k q
    using old [OF that] that(1) by (simp add: flat_ok_def)
  then have "cache_at h' c (if_nil f 11) (if_nil r 12) (if_nil i 13)"
    using w keeps_ok [OF w(1)] fl by (simp add: cache_at_def)
  from cache_at_view [OF this] show ?thesis
    using w(1) fl by (simp add: cache_defaults_def cache_value_def n)
qed

lemma default_cache_run:
  assumes "wf_heap h" "globals_ok h" "typed_ptr h KCache p" "run_state (default_cache_h p) h = (c, h')"
  shows "keeps {KCache} h h' \<and> typed_ptr h' KCache c \<and> v_cache (view h' c) = Some (cache_defaults
    (case v_cache (view h p) of None \<Rightarrow> \<lparr>nrc_ForeignPodsDetect = None, nrc_ResyncMethod = None, nrc_InformerMode = None\<rparr> | Some x \<Rightarrow> x))"
proof -
  obtain c1 h1 where 1: "run_state (if p = None then alloc (CCache None None None) else State_Monad.return p) h = (c1, h1)"
    by (cases "run_state (if p = None then alloc (CCache None None None) else State_Monad.return p) h")
  obtain f r i where k: "keeps {KCache} h h1" "cache_at h1 c1 f r i"
    "cache_value h1 f r i = (case v_cache (view h p) of None \<Rightarrow> \<lparr>nrc_ForeignPodsDetect = None, nrc_ResyncMethod = None, nrc_InformerMode = None\<rparr> | Some x \<Rightarrow> x)"
    using cache_start [OF assms(1-3) 1] by blast
  obtain u h2 where 2: "run_state (write_ptr c1 (CCache (if_nil f 11) (if_nil r 12) (if_nil i 13))) h1 = (u, h2)"
    by (cases "run_state (write_ptr c1 (CCache (if_nil f 11) (if_nil r 12) (if_nil i 13))) h1")
  have "c = c1" "h' = h2" using assms(4) 1 2 k(2) by (simp_all add: default_cache_h_def cache_at_def)
  with cache_write [OF k(2) 2] keeps_trans [OF k(1)] k(3) show ?thesis by auto
qed

lemma topology_value:
  "SetDefaults_NodeResourceTopologyMatchArgs obj =
     (let st = (case vtm_ScoringStrategy obj of None \<Rightarrow> \<lparr>sst_Type = LeastAllocated, sst_Resources = defaultResourceSpec\<rparr> | Some x \<Rightarrow> x)
      in obj\<lparr>vtm_ScoringStrategy := Some \<lparr>sst_Type = sst_Type st,
              sst_Resources = map fix_weight (if length (sst_Resources st) = 0 then sst_Resources st @ defaultResourceSpec else sst_Resources st)\<rparr>,
            vtm_Cache := Some (cache_defaults (case vtm_Cache obj of
              None \<Rightarrow> \<lparr>nrc_ForeignPodsDetect = None, nrc_ResyncMethod = None, nrc_InformerMode = None\<rparr> | Some x \<Rightarrow> x))\<rparr>)"
  by (simp add: SetDefaults_NodeResourceTopologyMatchArgs_def cache_defaults_def Let_def fix_weight_def fun_eq_iff split: option.splits)

lemma defaulted_topology:
  assumes "wf_heap h" "globals_ok h" "typed h (HNodeResourceTopologyMatch a)"
  shows "defaulted h (HNodeResourceTopologyMatch a)"
proof -
  have t: "typed_ptr h KStrategy (htm_ScoringStrategy a)" "typed_ptr h KInt64 (htm_CacheResyncPeriodSeconds a)" "typed_ptr h KCache (htm_Cache a)"
    using assms(3) by (simp_all add: typed_def)
  obtain s h1 where s: "run_state (default_strategy_h (htm_ScoringStrategy a)) h = (s, h1)"
    by (cases "run_state (default_strategy_h (htm_ScoringStrategy a)) h")
  note S = default_strategy_run [OF assms(1,2) t(1) s refl]
  note k1 = keeps_ok [OF conjunct1 [OF S]] conjunct1 [OF S, unfolded keeps_def]
  have t1: "typed_ptr h1 KInt64 (htm_CacheResyncPeriodSeconds a)" "view h1 (htm_CacheResyncPeriodSeconds a) = view h (htm_CacheResyncPeriodSeconds a)"
    "typed_ptr h1 KCache (htm_Cache a)" "view h1 (htm_Cache a) = view h (htm_Cache a)"
    using k1(2) t(2,3) by auto
  note v = strategy_at_view [OF conjunct2 [OF S]]
  obtain c h2 where c: "run_state (default_cache_h (htm_Cache a)) h1 = (c, h2)" by (cases "run_state (default_cache_h (htm_Cache a)) h1")
  note C = default_cache_run [OF conjunct1 [OF k1(1)] conjunct2 [OF k1(1)] t1(3) c]
  note k2 = keeps_ok [OF conjunct1 [OF C]] conjunct1 [OF C, unfolded keeps_def]
  have t2: "typed_ptr h2 KInt64 (htm_CacheResyncPeriodSeconds a)" "view h2 (htm_CacheResyncPeriodSeconds a) = view h (htm_CacheResyncPeriodSeconds a)"
    "typed_ptr h2 KStrategy s" "view h2 s = view h1 s"
    using k2(2) t1(1,2) v by auto
  show ?thesis
    using s c keeps_mono [OF conjunct1 [OF S]] keeps_mono [OF conjunct1 [OF C]] keeps_trans [of UNIV h h1 h2] t2 C v
    by (simp add: defaulted_simps SetDefaults_NodeResourceTopologyMatchArgs_h_def topology_value t1(4))
qed

lemma defaulted_all: "wf_heap h \<Longrightarrow> globals_ok h \<Longrightarrow> typed h a \<Longrightarrow> defaulted h a"
  by (cases a) (simp_all add: defaulted_scalars defaulted_preemption defaulted_tlp defaulted_network defaulted_lroc defaulted_topology)

text \<open>
  C33. Defaulting through pointers implements the defaults. On a heap whose package variables have their initial
  values, defaulting well-typed arguments of any plugin gives well-typed arguments whose value is what the
  defaults say of the value of the arguments, and leaves the heap well formed with every package variable as it
  was: the loops that write through a pointer which may be the address of a package variable change nothing there.
\<close>

theorem RegisterDefaults_refines:
  assumes "wf_heap h" and "globals_ok h" and "typed h a" and "run_state (RegisterDefaults_h a) h = (a', h')"
  shows "wf_heap h' \<and> globals_ok h' \<and> typed h' a' \<and> read_args h' a' = RegisterDefaults (read_args h a)"
  using defaulted_all [OF assms(1-3)] assms(4) keeps_ok [of UNIV h h'] by (simp add: defaulted_def)

section \<open>Concrete heaps\<close>

text \<open>The heap after the package is initialised.\<close>

definition init_heap :: Heap where
  "init_heap = \<lparr>cells = (\<lambda>a. if a < length package_vars then Some (package_vars ! a) else None), lim = length package_vars\<rparr>"

lemma init_heap_ok: "wf_heap init_heap" "globals_ok init_heap"
  by (simp_all add: init_heap_def wf_heap_def globals_ok_def)

text \<open>Empty arguments of the low-risk plugin.\<close>

definition empty_lroc :: PluginArgs_h where
  "empty_lroc = HLowRiskOverCommitment
     \<lparr>hlr_TrimaranSpec = \<lparr>hts_MetricProvider = \<lparr>hmp_Type = [], hmp_Address = None, hmp_Token = None, hmp_InsecureSkipVerify = None\<rparr>,
        hts_WatcherAddress = None\<rparr>,
      hlr_SmoothingWindowSize = None, hlr_RiskLimitWeights = None\<rparr>"

lemma empty_lroc_typed: "typed h empty_lroc"
  by (simp add: empty_lroc_def typed_def trimaran_ptrs_def)

text \<open>
  Histories of configuration objects: reading one (which only allocates), defaulting one in place, copying one.
\<close>

inductive config_reach :: "Heap \<Rightarrow> PluginArgs_h list \<Rightarrow> bool" where
  start: "config_reach init_heap []"
| decode: "config_reach h objs \<Longrightarrow> ext h h' \<Longrightarrow> wf_heap h' \<Longrightarrow> typed h' a \<Longrightarrow> config_reach h' (objs @ [a])"
| default: "config_reach h objs \<Longrightarrow> i < length objs \<Longrightarrow> run_state (RegisterDefaults_h (objs ! i)) h = (a', h') \<Longrightarrow>
    config_reach h' (objs[i := a'])"
| copy: "config_reach h objs \<Longrightarrow> a \<in> set objs \<Longrightarrow> run_state (DeepCopyObject a) h = (a', h') \<Longrightarrow> config_reach h' (objs @ [a'])"

lemma globals_ext: "globals_ok h \<Longrightarrow> wf_heap h \<Longrightarrow> ext h h' \<Longrightarrow> globals_ok h'"
  by (auto simp: globals_ok_def ext_def wf_heap_def)

lemma config_reach_typed: "config_reach h objs \<Longrightarrow> wf_heap h \<and> globals_ok h \<and> (\<forall>a \<in> set objs. typed h a)"
proof (induction rule: config_reach.induct)
  case start
  show ?case by (simp add: init_heap_ok)
next
  case (decode h objs h' a)
  then show ?case using globals_ext read_ext(3) by auto
next
  case (default h objs i a' h')
  then have "defaulted h (objs ! i)" using defaulted_all by simp
  then have k: "keeps UNIV h h'" "typed h' a'" using default.hyps by (simp_all add: defaulted_def)
  have "typed h' b" if "typed h b" for b
    using k(1) that by (auto simp: keeps_def typed_def list_all_iff)
  then show ?case using default.IH k keeps_ok [OF k(1)] set_update_subset_insert [of objs i a'] by auto
next
  case (copy h objs a a' h')
  note c = allocs_run [OF allocs_DeepCopyObject, of h a a' h']
  show ?case using copy c globals_ext [of h h'] read_ext(3) [of h h'] by auto
qed

text \<open>
  C34. Configuration objects stay well typed, and the defaults stay the defaults. After any history of reading,
  defaulting and deep-copying plugin arguments, however the objects share cells with each other and with the
  package variables: every pointer of every object is nil or refers to a cell of its type, the package variables
  hold their initial values, and so defaulting any of the objects next gives the value that the defaults say.
\<close>

theorem config_objects_well_typed:
  assumes "config_reach h objs"
  shows "list_all (typed h) objs \<and> globals_ok h \<and>
    (\<forall>a \<in> set objs. \<forall>a' h'. run_state (RegisterDefaults_h a) h = (a', h') \<longrightarrow>
       typed h' a' \<and> globals_ok h' \<and> read_args h' a' = RegisterDefaults (read_args h a))"
proof -
  note t = config_reach_typed [OF assms]
  have "typed h' a' \<and> globals_ok h' \<and> read_args h' a' = RegisterDefaults (read_args h a)"
    if "a \<in> set objs" "run_state (RegisterDefaults_h a) h = (a', h')" for a a' h'
    using defaulted_all [of h a] t that keeps_ok [of UNIV h h'] by (auto simp: defaulted_def)
  with t show ?thesis by (simp add: list_all_iff)
qed

text \<open>Arguments of the coscheduling plugin as defaulting leaves them: both pointers are addresses of package variables.\<close>

definition defaulted_coscheduling :: PluginArgs_h where
  "defaulted_coscheduling = HCoscheduling \<lparr>hcs_PermitWaitingTimeSeconds = Some 0, hcs_PodGroupBackoffSeconds = Some 1\<rparr>"

lemma defaulted_coscheduling_typed: "typed init_heap defaulted_coscheduling"
  using global_types(1,2) [OF init_heap_ok(2)] by (simp add: defaulted_coscheduling_def typed_def)

lemma copy_of_defaulted:
  "run_state (DeepCopyObject defaulted_coscheduling) init_heap = (a', h') \<Longrightarrow>
   a' = HCoscheduling \<lparr>hcs_PermitWaitingTimeSeconds = Some 18, hcs_PodGroupBackoffSeconds = Some 19\<rparr>"
  by (simp add: defaulted_coscheduling_def map_state_def DeepCopyInto_CoschedulingArgs_def copy_ptr_def alloc_def
      deref_cell_def init_heap_def length_package_vars split: if_splits)

theorem DeepCopy_separates_witness:
  "wf_heap init_heap \<and> typed init_heap defaulted_coscheduling \<and>
   (case run_state (DeepCopyObject defaulted_coscheduling) init_heap of (a', h') \<Rightarrow>
      a' = HCoscheduling \<lparr>hcs_PermitWaitingTimeSeconds = Some 18, hcs_PodGroupBackoffSeconds = Some 19\<rparr> \<and>
      footprint h' a' \<inter> footprint h' defaulted_coscheduling = {} \<and>
      read_args h' a' = VCoscheduling \<lparr>vcs_PermitWaitingTimeSeconds = Some 60, vcs_PodGroupBackoffSeconds = Some 0\<rparr>)"
proof -
  obtain a' h' where r: "run_state (DeepCopyObject defaulted_coscheduling) init_heap = (a', h')"
    by (cases "run_state (DeepCopyObject defaulted_coscheduling) init_heap")
  note a' = copy_of_defaulted [OF r]
  have "read_args init_heap defaulted_coscheduling = VCoscheduling \<lparr>vcs_PermitWaitingTimeSeconds = Some 60, vcs_PodGroupBackoffSeconds = Some 0\<rparr>"
    using global_values(1,2) [OF init_heap_ok(2)]
    by (simp add: defaulted_coscheduling_def defaultPermitWaitingTimeSeconds_def defaultPodGroupBackoffSeconds_def)
  with DeepCopy_separates [OF init_heap_ok(1) defaulted_coscheduling_typed r] show ?thesis
    using init_heap_ok(1) defaulted_coscheduling_typed r a' by simp
qed

theorem RegisterDefaults_refines_witness:
  "wf_heap init_heap \<and> globals_ok init_heap \<and> typed init_heap empty_lroc \<and>
   (case run_state (RegisterDefaults_h empty_lroc) init_heap of (a', h') \<Rightarrow>
      globals_ok h' \<and> typed h' a' \<and>
      (\<exists>v. read_args h' a' = VLowRiskOverCommitment v \<and> vlr_RiskLimitWeights v = DefaultRiskLimitWeights \<and> vlr_SmoothingWindowSize v = Some 5))"
proof -
  obtain a' h' where r: "run_state (RegisterDefaults_h empty_lroc) init_heap = (a', h')"
    by (cases "run_state (RegisterDefaults_h empty_lroc) init_heap")
  have "\<exists>v. RegisterDefaults (read_args init_heap empty_lroc) = VLowRiskOverCommitment v \<and>
      vlr_RiskLimitWeights v = DefaultRiskLimitWeights \<and> vlr_SmoothingWindowSize v = Some 5"
    by (simp add: empty_lroc_def SetDefaults_LowRiskOverCommitmentArgs_def Let_def DefaultSmoothingWindowSize_def)
  with RegisterDefaults_refines [OF init_heap_ok empty_lroc_typed r] show ?thesis
    using init_heap_ok empty_lroc_typed r by auto
qed

theorem config_objects_well_typed_witness:
  "\<exists>h a b. config_reach h [a, b] \<and> list_all (typed h) [a, b] \<and> globals_ok h \<and> b \<noteq> a \<and> read_args h b = read_args h a"
proof -
  have 1: "config_reach init_heap [defaulted_coscheduling]"
    using config_reach.decode [OF config_reach.start _ init_heap_ok(1) defaulted_coscheduling_typed] by simp
  obtain b h where b: "run_state (DeepCopyObject defaulted_coscheduling) init_heap = (b, h)"
    by (cases "run_state (DeepCopyObject defaulted_coscheduling) init_heap")
  have 2: "config_reach h [defaulted_coscheduling, b]" using config_reach.copy [OF 1 _ b] by simp
  have "b \<noteq> defaulted_coscheduling"
    by (simp add: copy_of_defaulted [OF b] defaulted_coscheduling_def)
  moreover have "read_args h b = read_args h defaulted_coscheduling"
    using allocs_run [OF allocs_DeepCopyObject [OF init_heap_ok(1) defaulted_coscheduling_typed] init_heap_ok(1) b]
      read_ext(1) [OF init_heap_ok(1) _ defaulted_coscheduling_typed, of h] by metis
  ultimately show ?thesis using 2 config_objects_well_typed [OF 2] by blast
qed

text \<open>
  The map of the default weights is shared: after one object is defaulted, a write through its weights is what
  every later object without weights is given.
\<close>

lemma default_weights_are_shared:
  assumes "v_weights (view h (hlr_RiskLimitWeights a)) = []" and "run_state (SetDefaults_LowRiskOverCommitmentArgs_h a) h = (a', h')"
    and "run_state (write_ptr (hlr_RiskLimitWeights a') (CWeights w)) h' = (u, h1)"
    and "v_weights (view h1 (hlr_RiskLimitWeights b)) = []" and "run_state (SetDefaults_LowRiskOverCommitmentArgs_h b) h1 = (b', h2)"
  shows "v_weights (view h2 (hlr_RiskLimitWeights b')) = w"
proof -
  have "hlr_RiskLimitWeights a' = Some 8" "hlr_RiskLimitWeights b' = Some 8" "h2 = h1"
    using assms(1,2,4,5) by (auto simp: SetDefaults_LowRiskOverCommitmentArgs_h_def Let_def)
  with assms(3) show ?thesis by (auto simp: write_ptr_def view_def deref_write v_cells)
qed
end
