(* ===== verification/Spec2Isabelle.thy ===== *)
theory Spec2Isabelle
  imports CapacityPreemption Coscheduling NetworkOverhead ConfigPlugins PodGroupController ElasticQuotaController NrtFilter NeilatsLatency ConfigHeap
begin

text \<open>
  Verification of the scheduler plugins of this repository: out-of-tree plugins for the Kubernetes
  scheduler, with the two controllers that maintain their custom resources. A plugin is called by the
  scheduler framework at extension points (queue sort, pre-filter, filter, post-filter, score, reserve,
  permit, bind) and keeps its own state between scheduling cycles; each plugin is one component here.

  \<^bold>\<open>Shared parts.\<close>
  \<^item> \<open>Prelude\<close>: Go's 64-bit integers as words with signed comparison, Go maps as association lists
    in iteration order, loops that may panic.
  \<^item> \<open>KubeApi\<close>: quantities, resource lists, the framework's \<open>Resource\<close> vector, pods, status
    values and the cycle state (from the vendored Kubernetes packages). \<open>FrameworkNode\<close>: the
    framework's node info.
  \<^item> \<open>UtilResource\<close>: \<open>pkg/util/resource.go\<close>.
  \<^item> \<open>PodLedger\<close>, \<open>QueueSort\<close> and \<open>ScoreNorm\<close>: the interfaces. \<open>pod_ledger\<close> (a set of pods with
    running totals) is implemented by the elastic quota and by the assumed resources of the topology
    cache; \<open>queue_sort\<close> and \<open>queue_preorder\<close> (what the scheduling queue needs of \<open>Less\<close>) by the
    three queue-sort plugins where they keep it; \<open>score_normalizer\<close> (what the framework needs of
    \<open>NormalizeScore\<close>) by every score plugin that normalizes; \<open>nrt_cache\<close> by the three caches
    of \<open>pkg/noderesourcetopology/cache\<close>.
  \<^item> \<open>GoFloat\<close>: \<open>float32\<close> and \<open>float64\<close> as rationals with IEEE rounding after every operation.

  \<^bold>\<open>Components.\<close>
  \<^item> \<open>ElasticQuota\<close>, \<open>CapacityScheduling\<close>, \<open>CapacityPreemption\<close>: \<open>pkg/capacityscheduling\<close>. Quotas
    account for exactly the pods charged to them in every history of events; admission is decided as
    documented; preemption picks only legitimate victims, each at most once.
  \<^item> \<open>PodGroups\<close>, \<open>Coscheduling\<close>: \<open>pkg/util/podgroup.go\<close> and \<open>pkg/coscheduling\<close>. A gang is let
    through only at its quorum, rejected as a whole, and stays together in the queue.
  \<^item> \<open>QueueSort\<close>: \<open>pkg/qos\<close>.
  \<^item> \<open>Neilats\<close>: \<open>pkg/neilats_refactor_go\<close>. The SLA filter, the three scores in binary64
    arithmetic with their bounds, and what an undefined measurement does to them.
  \<^item> \<open>NeilatsLatency\<close>: \<open>latency_run_get.go\<close> and the rest of \<open>build-rtt-matrix.go\<close> there, over a state of
    remote and local files: the probes that a start installs, the matrix from downloaded files against
    the one over SSH, and when the periodic download returns.
  \<^item> \<open>NetworkAware\<close>, \<open>NetworkOverhead\<close>: \<open>pkg/networkaware\<close>. Binary searches against lookups, the
    topological queue order, dependency counting, costs and their normalization.
  \<^item> \<open>PodGroupController\<close>, \<open>ElasticQuotaController\<close>: \<open>pkg/controllers\<close> as state machines over the
    stored object: an invariant of the phase, convergence, and what is published.
  \<^item> \<open>NrtCache\<close>, \<open>NrtFilter\<close>: \<open>pkg/noderesourcetopology\<close>. The over-reserve cache refines an
    abstract specification (a report, a mark and a set of pods per node); the NUMA alignment test.
  \<^item> \<open>NrtScore\<close>: \<open>pkg/noderesourcetopology/score.go\<close> and its strategies. The search for the smallest
    set of NUMA nodes, the scores derived from it, and the constructor of the plugin.
  \<^item> \<open>NodeResources\<close>: \<open>pkg/noderesources\<close> and \<open>pkg/podstate\<close>. Scores and their normalization as
    rankings of the nodes.
  \<^item> \<open>PreemptionToleration\<close>: \<open>pkg/preemptiontoleration\<close>. Who is exempted, and victims that are
    necessary and sufficient.
  \<^item> \<open>Sysched\<close>: \<open>pkg/sysched\<close>. An invariant of the cached system call sets and the score as the
    number of exposed system calls.
  \<^item> \<open>Trimaran\<close>: \<open>pkg/trimaran/handler.go\<close>, \<open>collector.go\<close> and \<open>targetloadpacking\<close>. The cache of
    recent placements in any history, and packing up to a target utilization in binary64.
  \<^item> \<open>TrimaranRisk\<close>: \<open>resourcestats.go\<close>, \<open>loadvariationriskbalancing\<close> and \<open>lowriskovercommitment\<close>
    with its beta distribution. Score ranges and monotonicity through rounded arithmetic.
  \<^item> \<open>ConfigTypes\<close>, \<open>ConfigV1\<close>, \<open>ConfigV1beta3\<close>: \<open>apis/config\<close>. Argument types, defaults and
    conversions of both versions. The locale \<open>config_version\<close> says what a version owes its users
    (loading is total and stable); both versions are interpretations of it.
  \<^item> \<open>ConfigHeap\<close>: the v1 objects with their pointers, over a heap that also holds the package variables.
    Deep copies are equal and disjoint; defaulting through pointers implements \<open>ConfigV1\<close> and keeps
    every object well typed and every package variable as it was, in any history of objects.
  \<^item> \<open>ConfigPlugins\<close>: the versioned configuration composed with the constructors of the plugins.

  Below are the properties that span components: the topology filter over a cache in any reachable
  state, and the request that the controller and the scheduler compute for one pod.

  \<^bold>\<open>Conventions.\<close> A panic is \<^const>\<open>None\<close> of an option type; an error is \<^const>\<open>Inl\<close> of a sum
  type or a status value. What a component obtains from outside the repository (API server, listers,
  clock, Prometheus, SSH, the filters of other plugins, hash functions) is an argument or a field of
  an environment record, and what a theorem needs of it is a named hypothesis with a concrete instance
  in its witness. Loops over finite lists are structural recursions or folds;
  the binary searches end by a measure on the interval. The periodic download, which may run forever, is
  a \<^theory_text>\<open>partial_function\<close> into an option. Every other definition is total and no fuel is used.
  Where a loop ranges over a Go map, the theorems hold for every order of the map. Each handler is one
  atomic step: where the code takes a lock around it this is what the lock gives.

  \<^bold>\<open>Not modelled.\<close>
  \<^item> The command line programs under \<open>cmd\<close>, the registration of types with schemes, informer and
    client set-up, logging and text formatting: wiring and input or output without decisions.
  \<^item> \<open>pkg/crossnodepreemption\<close>: its code is commented out in the repository.
  \<^item> The generated deep copies of v1beta3, which repeat those of v1, and of the internal types: outside
    \<open>ConfigHeap\<close> values of the model are immutable, so a copy is the value itself.
  \<^item> The Kubernetes framework that calls the plugins, beyond the parts in \<open>KubeApi\<close> and
    \<open>FrameworkNode\<close>; in particular its preemption evaluator, queue and binding cycle.
  \<^item> Data races: handlers that touch shared fields without a lock are modelled as atomic steps, and the
    places where the code does not take one are listed with the findings.
\<close>

section \<open>Topology filter and over-reserve cache\<close>


definition demo_aligned :: NodeResourceTopology where
  "demo_aligned = \<lparr>nrt_name = ''n1'', nrt_annotations = None, nrt_TopologyPolicies = [],
     nrt_Zones = [\<lparr>z_Name = ''node-0'', z_Type = ''Node'', z_Costs = [], z_Resources =
        [\<lparr>ri_Name = ResourceCPU, ri_Capacity = 8 * 10 ^ 9, ri_Allocatable = 8 * 10 ^ 9, ri_Available = 8 * 10 ^ 9\<rparr>,
         \<lparr>ri_Name = ResourceMemory, ri_Capacity = 10 ^ 12, ri_Allocatable = 10 ^ 12, ri_Available = 10 ^ 12\<rparr>]\<rparr>],
     nrt_Attributes = [(AttributePolicy, SingleNumaNodeTopologyManagerPolicy), (AttributeScope, ContainerTopologyManagerScope)]\<rparr>"

definition demo_aligned_client :: NrtClient where
  "demo_aligned_client = \<lparr>nc_Get = (\<lambda>_. None), nc_List = Inr [demo_aligned], nc_pods = Inr []\<rparr>"

definition demo_guaranteed :: Pod where
  "demo_guaranteed = (let l = [(ResourceCPU, 3 * 10 ^ 9), (ResourceMemory, 10 ^ 9)]
     in demo_pod\<lparr>pod_containers := [\<lparr>ctr_requests = l, ctr_limits = l\<rparr>]\<rparr>)"

definition demo_target :: FNodeInfo where
  "demo_target = \<lparr>ni_name = ''n1'', ni_pods = [], ni_hasNode = True, ni_allocatable = demo_alloc, ni_requested = empty_Resource\<rparr>"


section \<open>Scheduler plugin and quota controller\<close>

text \<open>
  The scheduler and the quota controller disagree about pod overhead. The controller's request of
  a pod is its effective request without overhead, whatever the overhead is, although its comment says
  that overhead is added; the capacity plugin charges the quota with the overhead on top.
\<close>

theorem overhead_charged_only_by_scheduler:
  assumes "wf_Pod pod"
  shows "map_of (EQC_computePodResourceRequest pod) n = map_of (GetPodEffectiveRequest pod) n \<and>
    EQC_computePodResourceRequest (pod\<lparr>pod_overhead := ov\<rparr>) = EQC_computePodResourceRequest pod \<and>
    amount (computePodResourceRequest pod) d =
      amount (computePodResourceRequest (pod\<lparr>pod_overhead := []\<rparr>)) d + rl_amount (pod_overhead pod) d"
proof -
  have "wf_map (pod_overhead pod)" using assms by (simp add: wf_Pod_def)
  moreover have "rl_amount [] d = 0" by (cases d) (simp_all add: rl_amount_def)
  ultimately show ?thesis
    using EQC_request_effective [OF assms]
    by (simp add: EQC_computePodResourceRequest_def computePodResourceRequest_def Let_def amount_Resource_Add)
qed

theorem overhead_charged_only_by_scheduler_witness:
  "EQC_computePodResourceRequest (demo_pod\<lparr>pod_overhead := [(ResourceCPU, 10 ^ 9)]\<rparr>) = EQC_computePodResourceRequest demo_pod"
  using overhead_charged_only_by_scheduler [OF demo_wf_Pod] by blast

end
